(* ===== verification/Prelude.thy ===== *)
theory Prelude
  imports Main "HOL-Library.AList" "HOL-Library.Sublist"
begin

text \<open>
  Shared vocabulary of the development: the names the model gives to Go's and
  PostgreSQL's base types, the Go string functions the program calls (on byte
  strings, ASCII case folding and ASCII white space), and generic lemmas on lists,
  sums and association lists.  The contract shared by every normalisation routine
  of the program is the locale \<open>normaliser\<close>.
\<close>

named_theorems go_str \<open>facts about the Go string functions\<close>
named_theorems alist_simps \<open>facts about association lists used as Go maps\<close>
named_theorems sum_simps \<open>facts about sums over filtered lists\<close>

type_synonym gid = nat

text \<open>Identifiers (uuid) are natural numbers; 0 is the nil identifier.\<close>

abbreviation (input) nil_id :: gid where "nil_id \<equiv> 0"

section \<open>Machine integers and durations\<close>

text \<open>\<open>wrap64\<close> is the value an int64 holds after a wrapped operation.\<close>

definition wrap64 :: "int \<Rightarrow> int" where
  "wrap64 n = (n + 2 ^ 63) mod 2 ^ 64 - 2 ^ 63"

definition int64_ok :: "int \<Rightarrow> bool" where
  "int64_ok n \<longleftrightarrow> - (2 ^ 63) \<le> n \<and> n < 2 ^ 63"

lemma wrap64_id [simp]: "int64_ok n \<Longrightarrow> wrap64 n = n"
  unfolding wrap64_def int64_ok_def by simp

lemma wrap64_ok [simp]: "int64_ok (wrap64 n)"
proof -
  have "0 \<le> (n + 2 ^ 63) mod 2 ^ 64" "(n + 2 ^ 63) mod 2 ^ 64 < (2::int) ^ 64"
    by simp_all
  then show ?thesis unfolding wrap64_def int64_ok_def by simp
qed

lemma int64_ok_small: "\<bar>n\<bar> \<le> 10 ^ 18 \<Longrightarrow> int64_ok n"
  unfolding int64_ok_def by auto

text \<open>Go's \<open>/\<close> and \<open>%\<close> on integers truncate toward zero.\<close>

definition go_div :: "int \<Rightarrow> int \<Rightarrow> int" where
  "go_div a b = sgn a * sgn b * (\<bar>a\<bar> div \<bar>b\<bar>)"

definition go_mod :: "int \<Rightarrow> int \<Rightarrow> int" where
  "go_mod a b = a - b * go_div a b"

lemma go_div_nonneg: "0 \<le> a \<Longrightarrow> 0 < b \<Longrightarrow> go_div a b = a div b"
  by (cases "a = 0") (simp_all add: go_div_def sgn_if)

lemma go_mod_nonneg: "0 \<le> a \<Longrightarrow> 0 < b \<Longrightarrow> go_mod a b = a mod b"
  by (simp add: go_mod_def go_div_nonneg minus_mult_div_eq_mod)

abbreviation (input) second :: int where "second \<equiv> 1000000000"
abbreviation (input) minute :: int where "minute \<equiv> 60000000000"

section \<open>Go strings\<close>

text \<open>
  A Go string is its list of bytes.  \<open>strings.TrimSpace\<close>, \<open>ToLower\<close>, \<open>ToUpper\<close> and
  \<open>EqualFold\<close> are modelled on ASCII: the six ASCII white-space bytes and the letters
  A-Z; other bytes are left as they are.
\<close>

definition is_space :: "char \<Rightarrow> bool" where
  "is_space c \<longleftrightarrow> (let n = (of_char c :: nat) in 9 \<le> n \<and> n \<le> 13 \<or> n = 32)"

definition is_digit :: "char \<Rightarrow> bool" where
  "is_digit c \<longleftrightarrow> 48 \<le> (of_char c :: nat) \<and> (of_char c :: nat) \<le> 57"

definition is_upper :: "char \<Rightarrow> bool" where
  "is_upper c \<longleftrightarrow> 65 \<le> (of_char c :: nat) \<and> (of_char c :: nat) \<le> 90"

definition is_lower :: "char \<Rightarrow> bool" where
  "is_lower c \<longleftrightarrow> 97 \<le> (of_char c :: nat) \<and> (of_char c :: nat) \<le> 122"

definition char_up :: "char \<Rightarrow> char" where
  "char_up c = (if is_lower c then char_of ((of_char c :: nat) - 32) else c)"

definition char_low :: "char \<Rightarrow> char" where
  "char_low c = (if is_upper c then char_of ((of_char c :: nat) + 32) else c)"

definition trim_left :: "(char \<Rightarrow> bool) \<Rightarrow> string \<Rightarrow> string" where
  "trim_left p s = dropWhile p s"

definition trim_right :: "(char \<Rightarrow> bool) \<Rightarrow> string \<Rightarrow> string" where
  "trim_right p s = rev (dropWhile p (rev s))"

definition trim_by :: "(char \<Rightarrow> bool) \<Rightarrow> string \<Rightarrow> string" where
  "trim_by p s = trim_right p (trim_left p s)"

definition trim_space :: "string \<Rightarrow> string" where
  "trim_space s = trim_by is_space s"

definition to_upper :: "string \<Rightarrow> string" where
  "to_upper s = map char_up s"

definition to_lower :: "string \<Rightarrow> string" where
  "to_lower s = map char_low s"

definition equal_fold :: "string \<Rightarrow> string \<Rightarrow> bool" where
  "equal_fold a b \<longleftrightarrow> to_lower a = to_lower b"

definition has_prefix :: "string \<Rightarrow> string \<Rightarrow> bool" where
  "has_prefix s p \<longleftrightarrow> take (length p) s = p"

definition has_suffix :: "string \<Rightarrow> string \<Rightarrow> bool" where
  "has_suffix s p \<longleftrightarrow> length p \<le> length s \<and> drop (length s - length p) s = p"

fun contains_sub :: "string \<Rightarrow> string \<Rightarrow> bool" where
  "contains_sub [] p = (p = [])"
| "contains_sub (c # s) p = (has_prefix (c # s) p \<or> contains_sub s p)"

text \<open>Position of the first occurrence (\<open>strings.Index\<close>; \<open>None\<close> for Go's -1).\<close>

fun index_of :: "string \<Rightarrow> string \<Rightarrow> nat option" where
  "index_of [] p = (if p = [] then Some 0 else None)"
| "index_of (c # s) p =
     (if has_prefix (c # s) p then Some 0 else map_option Suc (index_of s p))"

fun split_on :: "char \<Rightarrow> string \<Rightarrow> string list" where
  "split_on d [] = [[]]"
| "split_on d (c # s) =
     (if c = d then [] # split_on d s
      else case split_on d s of [] \<Rightarrow> [[c]] | w # ws \<Rightarrow> (c # w) # ws)"

fun join_with :: "string \<Rightarrow> string list \<Rightarrow> string" where
  "join_with d [] = []"
| "join_with d [w] = w"
| "join_with d (w # ws) = w @ d @ join_with d ws"

lemma char_up_idem [simp]: "char_up (char_up c) = char_up c"
  by (auto simp: char_up_def is_lower_def)

lemma char_low_idem [simp]: "char_low (char_low c) = char_low c"
  by (auto simp: char_low_def is_upper_def)

lemma to_upper_idem [simp, go_str]: "to_upper (to_upper s) = to_upper s"
  by (simp add: to_upper_def)

lemma to_lower_idem [simp, go_str]: "to_lower (to_lower s) = to_lower s"
  by (simp add: to_lower_def)

lemma to_upper_length [simp]: "length (to_upper s) = length s"
  by (simp add: to_upper_def)

lemma to_lower_length [simp]: "length (to_lower s) = length s"
  by (simp add: to_lower_def)

lemma to_lower_Nil_iff [simp]: "to_lower s = [] \<longleftrightarrow> s = []"
  by (simp add: to_lower_def)

lemma equal_fold_refl [simp]: "equal_fold s s"
  by (simp add: equal_fold_def)

lemma equal_fold_sym: "equal_fold a b = equal_fold b a"
  by (auto simp: equal_fold_def)

lemma has_prefix_iff: "has_prefix s p \<longleftrightarrow> (\<exists>t. s = p @ t)"
  unfolding has_prefix_def by (metis append_take_drop_id append_eq_conv_conj)

lemma has_prefix_append [simp]: "has_prefix (p @ t) p"
  by (simp add: has_prefix_def)

lemma has_suffix_iff: "has_suffix s p \<longleftrightarrow> (\<exists>t. s = t @ p)"
proof
  assume "has_suffix s p"
  then have "s = take (length s - length p) s @ p"
    unfolding has_suffix_def by (metis append_take_drop_id)
  then show "\<exists>t. s = t @ p" ..
qed (auto simp: has_suffix_def)

lemma contains_sub_iff: "contains_sub s p \<longleftrightarrow> (\<exists>a b. s = a @ p @ b)"
proof (induction s)
  case Nil
  show ?case by simp
next
  case (Cons c s)
  show ?case
  proof
    assume "contains_sub (c # s) p"
    then consider "has_prefix (c # s) p" | "contains_sub s p" by auto
    then show "\<exists>a b. c # s = a @ p @ b"
    proof cases
      case 1
      then obtain t where "c # s = p @ t" by (auto simp: has_prefix_iff)
      then have "c # s = [] @ p @ t" by simp
      then show ?thesis by blast
    next
      case 2
      then obtain a b where "s = a @ p @ b" using Cons.IH by blast
      then have "c # s = (c # a) @ p @ b" by simp
      then show ?thesis by blast
    qed
  next
    assume "\<exists>a b. c # s = a @ p @ b"
    then obtain a b where e: "c # s = a @ p @ b" by blast
    show "contains_sub (c # s) p"
    proof (cases a)
      case Nil
      then have "has_prefix (c # s) p" using e by (simp add: has_prefix_iff)
      then show ?thesis by simp
    next
      case (Cons x a')
      then have "s = a' @ p @ b" using e by simp
      then show ?thesis using Cons.IH by auto
    qed
  qed
qed

lemma contains_sub_Nil [simp]: "contains_sub s []"
  by (cases s) (simp_all add: has_prefix_def)

lemma dropWhile_hd_false: "s \<noteq> [] \<Longrightarrow> \<not> p (hd s) \<Longrightarrow> dropWhile p s = s"
  by (cases s) auto

lemma trim_left_hd: "trim_left p s \<noteq> [] \<Longrightarrow> \<not> p (hd (trim_left p s))"
  unfolding trim_left_def by (rule hd_dropWhile)

lemma trim_right_prefix: "\<exists>t. s = trim_right p s @ t"
proof -
  have "rev s = takeWhile p (rev s) @ dropWhile p (rev s)" by simp
  then have "s = rev (dropWhile p (rev s)) @ rev (takeWhile p (rev s))"
    by (metis rev_append rev_rev_ident)
  then show ?thesis unfolding trim_right_def by blast
qed

lemma trim_right_last: "trim_right p s \<noteq> [] \<Longrightarrow> \<not> p (last (trim_right p s))"
  unfolding trim_right_def using hd_dropWhile [of p "rev s"] by (simp add: last_rev)

lemma trim_right_id: "s = [] \<or> \<not> p (last s) \<Longrightarrow> trim_right p s = s"
  unfolding trim_right_def by (cases s rule: rev_cases) auto

lemma trim_left_id: "s = [] \<or> \<not> p (hd s) \<Longrightarrow> trim_left p s = s"
  unfolding trim_left_def by (cases s) auto

text \<open>A trimmed string neither starts nor ends with a trimmed byte, and conversely.\<close>

lemma trim_by_clean:
  "trim_by p s = [] \<or> (\<not> p (hd (trim_by p s)) \<and> \<not> p (last (trim_by p s)))"
proof (cases "trim_by p s = []")
  case False
  let ?u = "trim_left p s"
  obtain t where t: "?u = trim_right p ?u @ t" using trim_right_prefix by blast
  have ne: "trim_right p ?u \<noteq> []" using False by (simp add: trim_by_def)
  then have "?u \<noteq> []" using t by auto
  then have "\<not> p (hd ?u)" by (rule trim_left_hd)
  moreover have "hd ?u = hd (trim_right p ?u)" using t ne by (metis hd_append2)
  ultimately show ?thesis using trim_right_last [OF ne] by (simp add: trim_by_def)
qed simp

lemma trim_by_id: "s = [] \<or> (\<not> p (hd s) \<and> \<not> p (last s)) \<Longrightarrow> trim_by p s = s"
  unfolding trim_by_def by (metis trim_left_id trim_right_id)

lemma trim_by_idem [simp]: "trim_by p (trim_by p s) = trim_by p s"
  by (rule trim_by_id) (rule trim_by_clean)

lemma trim_space_idem [simp, go_str]: "trim_space (trim_space s) = trim_space s"
  by (simp add: trim_space_def)

lemma trim_space_id: "s = [] \<or> (\<not> is_space (hd s) \<and> \<not> is_space (last s)) \<Longrightarrow> trim_space s = s"
  unfolding trim_space_def by (rule trim_by_id)

lemma trim_by_set: "set (trim_by p s) \<subseteq> set s"
proof -
  have "set (dropWhile p xs) \<subseteq> set xs" for xs :: string
    using set_dropWhileD by fastforce
  then show ?thesis
    unfolding trim_by_def trim_right_def trim_left_def by (metis (full_types) set_rev subset_trans)
qed

lemma trim_space_Nil [simp]: "trim_space [] = []"
  by (simp add: trim_space_def trim_by_def trim_right_def trim_left_def)

lemma trim_by_length: "length (trim_by p s) \<le> length s"
  unfolding trim_by_def trim_right_def trim_left_def
  by (metis length_dropWhile_le length_rev order_trans)

section \<open>Evaluating\<close>

text \<open>The same functions on the eight bits of a character, by which concrete strings are evaluated.\<close>

lemma char_class_bits [code]:
  "is_digit (Char b0 b1 b2 b3 b4 b5 b6 b7) \<longleftrightarrow> \<not> b7 \<and> \<not> b6 \<and> b5 \<and> b4 \<and> (b3 \<longrightarrow> \<not> b2 \<and> \<not> b1)"
  "is_upper (Char b0 b1 b2 b3 b4 b5 b6 b7) \<longleftrightarrow>
     \<not> b7 \<and> b6 \<and> \<not> b5 \<and> (b0 \<or> b1 \<or> b2 \<or> b3 \<or> b4) \<and> \<not> (b4 \<and> b3 \<and> (b2 \<or> b1 \<and> b0))"
  "is_lower (Char b0 b1 b2 b3 b4 b5 b6 b7) \<longleftrightarrow>
     \<not> b7 \<and> b6 \<and> b5 \<and> (b0 \<or> b1 \<or> b2 \<or> b3 \<or> b4) \<and> \<not> (b4 \<and> b3 \<and> (b2 \<or> b1 \<and> b0))"
  "is_space (Char b0 b1 b2 b3 b4 b5 b6 b7) \<longleftrightarrow> \<not> b7 \<and> \<not> b6 \<and> \<not> b4 \<and>
     (b5 \<and> \<not> b3 \<and> \<not> b2 \<and> \<not> b1 \<and> \<not> b0 \<or> \<not> b5 \<and> b3 \<and> (b0 \<or> b1 \<or> b2) \<and> \<not> (b2 \<and> b1))"
  by (cases b0; cases b1; cases b2; cases b3; cases b4; cases b5; cases b6; cases b7;
      simp add: is_digit_def is_upper_def is_lower_def is_space_def)+

lemma char_case_bits [code]:
  "char_up (Char b0 b1 b2 b3 b4 b5 b6 b7) =
     (if is_lower (Char b0 b1 b2 b3 b4 b5 b6 b7) then Char b0 b1 b2 b3 b4 False b6 b7 else Char b0 b1 b2 b3 b4 b5 b6 b7)"
  "char_low (Char b0 b1 b2 b3 b4 b5 b6 b7) =
     (if is_upper (Char b0 b1 b2 b3 b4 b5 b6 b7) then Char b0 b1 b2 b3 b4 True b6 b7 else Char b0 b1 b2 b3 b4 b5 b6 b7)"
proof -
  let ?low = "Char b0 b1 b2 b3 b4 True b6 b7" and ?up = "Char b0 b1 b2 b3 b4 False b6 b7"
  have flip: "(of_char ?low :: nat) = of_char ?up + 32" by (simp add: of_char_def)
  have low: "char_of ((of_char ?low :: nat) - 32) = ?up"
    unfolding flip by (simp only: add_diff_cancel_right' char_of_char)
  have up: "char_of ((of_char ?up :: nat) + 32) = ?low"
    unfolding flip [symmetric] by (simp only: char_of_char)
  show "char_up (Char b0 b1 b2 b3 b4 b5 b6 b7) =
     (if is_lower (Char b0 b1 b2 b3 b4 b5 b6 b7) then ?up else Char b0 b1 b2 b3 b4 b5 b6 b7)"
    unfolding char_up_def using low by (cases b5) (simp_all only: char_class_bits simp_thms if_True if_False)
  show "char_low (Char b0 b1 b2 b3 b4 b5 b6 b7) =
     (if is_upper (Char b0 b1 b2 b3 b4 b5 b6 b7) then ?low else Char b0 b1 b2 b3 b4 b5 b6 b7)"
    unfolding char_low_def using up by (cases b5) (simp_all only: char_class_bits simp_thms if_True if_False)
qed

section \<open>Maps and lists\<close>

definition alist_get :: "'v \<Rightarrow> ('k \<times> 'v) list \<Rightarrow> 'k \<Rightarrow> 'v" where
  "alist_get d m k = (case map_of m k of None \<Rightarrow> d | Some v \<Rightarrow> v)"

lemma alist_get_update [alist_simps]:
  "alist_get d (AList.update k v m) k' = (if k' = k then v else alist_get d m k')"
  by (simp add: alist_get_def update_conv')

lemma alist_get_Nil [simp]: "alist_get d [] k = d"
  by (simp add: alist_get_def)

lemma map_of_filter_distinct:
  "distinct (map fst m) \<Longrightarrow>
   map_of (filter P m) k = (case map_of m k of None \<Rightarrow> None | Some v \<Rightarrow> if P (k, v) then Some v else None)"
  by (induction m) (auto split: option.splits dest: map_of_SomeD intro!: map_of_eq_None_iff [THEN iffD2])

lemma distinct_fst_filter: "distinct (map fst m) \<Longrightarrow> distinct (map fst (filter P m))"
  by (rule distinct_map_filter)

lemma sum_list_filter_split [sum_simps]:
  "(\<Sum>x\<leftarrow>xs. f x) = (\<Sum>x\<leftarrow>filter P xs. f x) + (\<Sum>x\<leftarrow>filter (\<lambda>x. \<not> P x) xs. (f x :: int))"
  by (induction xs) auto

lemma sum_list_nonneg_int: "(\<And>x. x \<in> set xs \<Longrightarrow> 0 \<le> f x) \<Longrightarrow> 0 \<le> (\<Sum>x\<leftarrow>xs. (f x :: int))"
  by (induction xs) auto

section \<open>The normalisation contract\<close>

text \<open>
  Many routines of the program clean a value before it is stored (settings, codes,
  statuses, names): they promise a clean result and leave a clean value alone.
\<close>

locale normaliser =
  fixes norm :: "'a \<Rightarrow> 'a" and clean :: "'a \<Rightarrow> bool"
  assumes norm_clean: "clean (norm x)"
    and clean_fixed: "clean x \<Longrightarrow> norm x = x"
begin

lemma idempotent: "norm (norm x) = norm x"
  by (rule clean_fixed [OF norm_clean])

lemma fixed_iff: "norm x = x \<longleftrightarrow> clean x"
  using norm_clean clean_fixed by metis

lemma image_clean: "range norm = {x. clean x}"
proof
  show "range norm \<subseteq> {x. clean x}" using norm_clean by auto
  show "{x. clean x} \<subseteq> range norm" using clean_fixed by (metis mem_Collect_eq rangeI subsetI)
qed

lemma iterate_stable: "0 < n \<Longrightarrow> (norm ^^ n) x = norm x"
proof (induction n)
  case (Suc n)
  then show ?case by (cases n) (simp_all add: idempotent)
qed simp

end

interpretation trim_norm: normaliser trim_space
    "\<lambda>s. s = [] \<or> (\<not> is_space (hd s) \<and> \<not> is_space (last s))"
  by unfold_locales (metis trim_by_clean trim_space_def, rule trim_space_id)

interpretation upper_norm: normaliser to_upper "\<lambda>s. \<forall>c\<in>set s. \<not> is_lower c"
proof unfold_locales
  have "\<not> is_lower (char_up c)" for c
    by (auto simp: char_up_def is_lower_def)
  then show "\<forall>c\<in>set (to_upper x). \<not> is_lower c" for x
    by (auto simp: to_upper_def)
  show "to_upper x = x" if "\<forall>c\<in>set x. \<not> is_lower c" for x
    using that by (induction x) (auto simp: to_upper_def char_up_def)
qed

end
