(* ===== verification/RateLimit.thy ===== *)
theory RateLimit
  imports Prelude
begin

text \<open>
  The limiter of the authentication endpoints, \<open>internal/httpx/ratelimit.go\<close>: the
  per-key list of admitted hits, the opportunistic sweep, and the middleware's choice
  of key and quota.  Instants are nanoseconds.  The client address is the string
  \<open>clientIPString\<close> returns; the mutex makes every call one step.  A value \<open>None\<close> is
  the panic of indexing an empty slice, which no configured quota reaches.
\<close>

section \<open>State and operations\<close>

type_synonym hits = "(string \<times> int list) list"

definition auth_rate_window :: int where "auth_rate_window = minute"
definition auth_login_per_minute :: nat where "auth_login_per_minute = 10"
definition auth_refresh_per_minute :: nat where "auth_refresh_per_minute = 30"
definition sweep_above :: nat where "sweep_above = 10000"

record request =
  req_method :: string
  req_path :: string
  req_ip :: string

definition rate_key :: "request \<Rightarrow> string \<Rightarrow> string" where
  "rate_key r scope = req_ip r @ ''|'' @ scope"

definition auth_rate_key :: "request \<Rightarrow> (string \<times> nat) option" where
  "auth_rate_key r =
     (if req_method r \<noteq> ''POST'' then None
      else if req_path r \<in> {''/api/auth/login'', ''/api/portal/login''}
        then Some (rate_key r ''login'', auth_login_per_minute)
      else if req_path r = ''/api/auth/refresh''
        then Some (rate_key r ''refresh'', auth_refresh_per_minute)
      else None)"

definition sweep :: "hits \<Rightarrow> hits" where
  "sweep h = (if sweep_above < length h then filter (\<lambda>(k, v). v \<noteq> []) h else h)"

definition allow :: "hits \<Rightarrow> string \<Rightarrow> nat \<Rightarrow> int \<Rightarrow> int \<Rightarrow> (int \<times> hits) option" where
  "allow h key limit window now =
     (let cutoff = now - window;
          kept = filter (\<lambda>t. cutoff < t) (alist_get [] h key)
      in if limit \<le> length kept
         then (case kept of
             [] \<Rightarrow> None
           | oldest # _ \<Rightarrow>
               let wait = oldest + window - now;
                   wait = (if wait < second then second else wait)
               in Some (wait div second + 1, AList.update key kept h))
         else Some (0, sweep (AList.update key (kept @ [now]) h)))"

datatype response = Passed | Too_many "int"

definition rate_limit_auth :: "hits \<Rightarrow> request \<Rightarrow> int \<Rightarrow> (response \<times> hits) option" where
  "rate_limit_auth h r now =
     (case auth_rate_key r of
        None \<Rightarrow> Some (Passed, h)
      | Some (key, limit) \<Rightarrow>
          (case allow h key limit auth_rate_window now of
             None \<Rightarrow> None
           | Some (retry, h') \<Rightarrow> Some (if 0 < retry then Too_many retry else Passed, h')))"

text \<open>Serving a sequence of requests, each with the instant it arrives at.\<close>

fun serve :: "hits \<Rightarrow> (request \<times> int) list \<Rightarrow> (response list \<times> hits) option" where
  "serve h [] = Some ([], h)"
| "serve h ((r, now) # rs) =
     (case rate_limit_auth h r now of
        None \<Rightarrow> None
      | Some (a, h') \<Rightarrow>
          (case serve h' rs of None \<Rightarrow> None | Some (as, h'') \<Rightarrow> Some (a # as, h'')))"

text \<open>The instants at which a served sequence let a request of a given key pass.\<close>

definition passed_times :: "string \<Rightarrow> (request \<times> int) list \<Rightarrow> response list \<Rightarrow> int list" where
  "passed_times key rs as =
     map (\<lambda>x. snd (fst x))
       (filter (\<lambda>x. snd x = Passed \<and> map_option fst (auth_rate_key (fst (fst x))) = Some key) (zip rs as))"

definition in_window :: "int \<Rightarrow> int \<Rightarrow> int list \<Rightarrow> int list" where
  "in_window window T ts = filter (\<lambda>t. T - window < t \<and> t \<le> T) ts"

section \<open>Lemmas\<close>

definition quota :: "string \<Rightarrow> nat" where
  "quota key = (if has_suffix key ''|login'' then 10 else 30)"

lemma suffix_login [simp]: "has_suffix (ip @ ''|'' @ ''login'') ''|login''"
  by (simp add: has_suffix_iff)

lemma suffix_refresh [simp]: "\<not> has_suffix (ip @ ''|'' @ ''refresh'') ''|login''"
proof
  assume "has_suffix (ip @ ''|'' @ ''refresh'') ''|login''"
  then obtain t where "ip @ ''|'' @ ''refresh'' = t @ ''|login''" by (auto simp: has_suffix_iff)
  then have "last (ip @ ''|'' @ ''refresh'') = last (t @ ''|login'')" by simp
  then show False by simp
qed

lemma auth_rate_key_quota: "auth_rate_key r = Some (key, limit) \<Longrightarrow> limit = quota key \<and> 0 < limit"
  using suffix_login [of "req_ip r"] suffix_refresh [of "req_ip r"]
  by (auto simp: auth_rate_key_def rate_key_def quota_def auth_login_per_minute_def
      auth_refresh_per_minute_def split: if_splits)

lemma quota_pos [simp]: "0 < quota key"
  by (simp add: quota_def)

lemma get_sweep [alist_simps]:
  assumes "distinct (map fst h)"
  shows "alist_get [] (sweep h) k = alist_get [] h k"
  using map_of_filter_distinct [OF assms, of "\<lambda>(k, v). v \<noteq> []" k]
  by (auto simp: sweep_def alist_get_def split: option.splits)

lemma distinct_sweep: "distinct (map fst h) \<Longrightarrow> distinct (map fst (sweep h))"
  by (simp add: sweep_def distinct_fst_filter)

text \<open>
  The store agrees with the history of admitted hits on every instant that can still
  matter, and the history never exceeds a quota inside one window.
\<close>

definition tracks :: "(string \<Rightarrow> nat) \<Rightarrow> int \<Rightarrow> hits \<Rightarrow> (string \<Rightarrow> int list) \<Rightarrow> int \<Rightarrow> bool" where
  "tracks lim w h adm prev \<longleftrightarrow>
     distinct (map fst h) \<and>
     (\<forall>k. (\<forall>t\<in>set (adm k). t \<le> prev) \<and>
          (\<forall>t\<in>set (alist_get [] h k). t \<le> prev) \<and>
          length (alist_get [] h k) \<le> lim k \<and>
          (\<forall>c\<ge>prev - w. filter (\<lambda>t. c < t) (alist_get [] h k) = filter (\<lambda>t. c < t) (adm k)) \<and>
          (\<forall>T. length (in_window w T (adm k)) \<le> lim k))"

lemma tracks_empty: "tracks lim w [] (\<lambda>_. []) prev"
  by (simp add: tracks_def in_window_def)

lemma tracks_later: "tracks lim w h adm prev \<Longrightarrow> prev \<le> now \<Longrightarrow> tracks lim w h adm now"
  unfolding tracks_def by (smt (verit))

lemma filter_gt_twice: "c \<le> d \<Longrightarrow> filter (\<lambda>t. d < t) (filter (\<lambda>t. c < t) xs) = filter (\<lambda>t. d < (t::int)) xs"
  by (induction xs) auto

lemma filter_gt_conj: "c \<le> d \<Longrightarrow> filter (\<lambda>t. c < t \<and> d < t) xs = filter ((<) d) (xs :: int list)"
  by (induction xs) auto

lemma in_window_append [simp]: "in_window w T (xs @ ys) = in_window w T xs @ in_window w T ys"
  by (simp add: in_window_def)

lemma in_window_le_recent: "now \<le> T \<Longrightarrow> length (in_window w T xs) \<le> length (filter (\<lambda>t. now - w < t) xs)"
  unfolding in_window_def by (induction xs) auto

lemma allow_admits:
  assumes tr: "tracks lim w h adm now" and w: "0 < w"
    and room: "length (filter (\<lambda>t. now - w < t) (alist_get [] h key)) < lim key"
  shows "tracks lim w (sweep (AList.update key (filter (\<lambda>t. now - w < t) (alist_get [] h key) @ [now]) h))
           (adm(key := adm key @ [now])) now"
proof -
  let ?kept = "filter (\<lambda>t. now - w < t) (alist_get [] h key)"
  let ?h = "AList.update key (?kept @ [now]) h"
  have d: "distinct (map fst ?h)" using tr by (simp add: tracks_def distinct_update)
  have same: "?kept = filter (\<lambda>t. now - w < t) (adm key)" using tr by (simp add: tracks_def)
  have win: "length (in_window w T (adm key @ [now])) \<le> lim key" for T
  proof (cases "T < now")
    case True
    then show ?thesis using tr by (simp add: tracks_def in_window_def)
  next
    case False
    then have "length (in_window w T (adm key)) \<le> length ?kept"
      using in_window_le_recent [of now T w "adm key"] same by simp
    moreover have "length (in_window w T [now]) \<le> 1" by (simp add: in_window_def)
    ultimately show ?thesis using room by simp
  qed
  have rest: "filter (\<lambda>t. c < t) (?kept @ [now]) = filter (\<lambda>t. c < t) (adm key @ [now])"
    if "now - w \<le> c" for c
    using same filter_gt_twice [OF that, of "adm key"] by simp
  show ?thesis
    unfolding tracks_def
    using d tr win rest room distinct_sweep [OF d] get_sweep [OF d]
    by (auto simp: tracks_def alist_simps)
qed

lemma allow_rejects:
  assumes tr: "tracks lim w h adm now"
  shows "tracks lim w (AList.update key (filter (\<lambda>t. now - w < t) (alist_get [] h key)) h) adm now"
proof -
  have d: "distinct (map fst (AList.update key v h))" for v
    using tr by (simp add: tracks_def distinct_update)
  have l: "length (filter (\<lambda>t. now - w < t) (alist_get [] h key)) \<le> lim key"
    using tr length_filter_le le_trans unfolding tracks_def by blast
  show ?thesis
    unfolding tracks_def using d tr l
    by (auto simp: tracks_def alist_simps filter_gt_conj)
qed

lemma allow_step:
  assumes tr: "tracks lim w h adm prev" and now: "prev \<le> now" and w: "0 < w"
    and pos: "0 < lim key"
  obtains ra h' where "allow h key (lim key) w now = Some (ra, h')"
    and "tracks lim w h' (if ra = 0 then adm(key := adm key @ [now]) else adm) now"
    and "ra = 0 \<or> (2 \<le> ra \<and> ra \<le> max w second div second + 1)"
proof -
  let ?kept = "filter (\<lambda>t. now - w < t) (alist_get [] h key)"
  have tr': "tracks lim w h adm now" using tracks_later [OF tr now] .
  show ?thesis
  proof (cases "lim key \<le> length ?kept")
    case False
    then have "allow h key (lim key) w now = Some (0, sweep (AList.update key (?kept @ [now]) h))"
      by (simp add: allow_def Let_def)
    with that allow_admits [OF tr' w] False show ?thesis by fastforce
  next
    case True
    then obtain t ts where k: "?kept = t # ts" using pos by (cases ?kept) auto
    let ?wait = "if t + w - now < second then second else t + w - now"
    have "t \<in> set (alist_get [] h key)" using k by (metis filter_is_subset list.set_intros(1) subsetD)
    then have tn: "t \<le> now" using tr' by (auto simp: tracks_def)
    have "allow h key (lim key) w now = Some (?wait div second + 1, AList.update key ?kept h)"
      using True k by (simp add: allow_def Let_def)
    moreover have "1 \<le> ?wait div second" using zdiv_mono1 [of second "?wait" second] by auto
    moreover have "?wait div second \<le> max w second div second" using tn by (intro zdiv_mono1) auto
    ultimately show ?thesis using that allow_rejects [OF tr', of key] by fastforce
  qed
qed

lemma rate_limit_auth_step:
  assumes tr: "tracks quota auth_rate_window h adm prev" and now: "prev \<le> now"
  obtains a h' where "rate_limit_auth h r now = Some (a, h')"
    and "tracks quota auth_rate_window h'
           (\<lambda>k. adm k @ passed_times k [(r, now)] [a]) now"
    and "a = Passed \<or> (\<exists>n. a = Too_many n \<and> 2 \<le> n \<and> n \<le> 61)"
proof (cases "auth_rate_key r")
  case None
  then show ?thesis
    using that [of Passed h] tracks_later [OF tr now]
    by (simp add: rate_limit_auth_def passed_times_def)
next
  case (Some kl)
  then obtain key limit where kl: "auth_rate_key r = Some (key, limit)" by (cases kl) auto
  then have lim: "limit = quota key" using auth_rate_key_quota by blast
  have w: "0 < auth_rate_window" by (simp add: auth_rate_window_def)
  obtain ra h' where al: "allow h key (quota key) auth_rate_window now = Some (ra, h')"
    and tr': "tracks quota auth_rate_window h' (if ra = 0 then adm(key := adm key @ [now]) else adm) now"
    and ra: "ra = 0 \<or> (2 \<le> ra \<and> ra \<le> max auth_rate_window second div second + 1)"
    using allow_step [OF tr now w quota_pos, of key] by blast
  have mx: "max auth_rate_window second div second + 1 = 61" by (simp add: auth_rate_window_def)
  let ?a = "if 0 < ra then Too_many ra else Passed"
  have eq: "(\<lambda>k. adm k @ passed_times k [(r, now)] [?a]) = (if ra = 0 then adm(key := adm key @ [now]) else adm)"
    using ra kl by (auto simp: passed_times_def fun_eq_iff)
  show ?thesis
    by (rule that [of ?a h']) (use al kl lim tr' eq ra mx in \<open>auto simp: rate_limit_auth_def\<close>)
qed

lemma passed_times_Cons: "passed_times k (x # rs) (a # as) = passed_times k [x] [a] @ passed_times k rs as"
  by (simp add: passed_times_def)

lemma serve_tracks:
  assumes "tracks quota auth_rate_window h adm prev" and "sorted (map snd rs)"
    and "\<forall>x\<in>set rs. prev \<le> snd x"
  shows "\<exists>as h' last. serve h rs = Some (as, h') \<and>
           tracks quota auth_rate_window h' (\<lambda>k. adm k @ passed_times k rs as) last \<and>
           length as = length rs \<and>
           (\<forall>a\<in>set as. a = Passed \<or> (\<exists>n. a = Too_many n \<and> 2 \<le> n \<and> n \<le> 61))"
  using assms
proof (induction rs arbitrary: h adm prev)
  case Nil
  then show ?case by (auto simp: passed_times_def)
next
  case (Cons x rs)
  obtain r now where x: "x = (r, now)" by (cases x)
  have "prev \<le> now" using Cons.prems x by simp
  with Cons.prems(1) obtain a h1 where s1: "rate_limit_auth h r now = Some (a, h1)"
    and t1: "tracks quota auth_rate_window h1 (\<lambda>k. adm k @ passed_times k [(r, now)] [a]) now"
    and a1: "a = Passed \<or> (\<exists>n. a = Too_many n \<and> 2 \<le> n \<and> n \<le> 61)"
    by (rule rate_limit_auth_step)
  have "\<forall>y\<in>set rs. now \<le> snd y" "sorted (map snd rs)" using Cons.prems x by auto
  from Cons.IH [OF t1 this(2,1)] obtain as h' l where
    "serve h1 rs = Some (as, h')" and
    "tracks quota auth_rate_window h' (\<lambda>k. (adm k @ passed_times k [(r, now)] [a]) @ passed_times k rs as) l" and
    "length as = length rs" and
    "\<forall>a\<in>set as. a = Passed \<or> (\<exists>n. a = Too_many n \<and> 2 \<le> n \<and> n \<le> 61)"
    by blast
  then show ?case using s1 a1 x passed_times_Cons [of _ x rs a as]
    by (intro exI [of _ "a # as"] exI [of _ h'] exI [of _ l]) auto
qed

text \<open>Keys are never dropped: a stored list is never empty, so the sweep has no effect.\<close>

lemma sweep_nonempty: "[] \<notin> snd ` set h \<Longrightarrow> sweep h = h"
  unfolding sweep_def by (force intro!: filter_True)

lemma alist_update_nonempty: "[] \<notin> snd ` set h \<Longrightarrow> v \<noteq> [] \<Longrightarrow> [] \<notin> snd ` set (AList.update k v h)"
  by (induction h) auto

lemma fst_alist_update: "fst ` set (AList.update k v h) = insert k (fst ` set h)"
  by (induction h) auto

lemma allow_nonempty:
  assumes h: "[] \<notin> snd ` set h" and al: "allow h key limit w now = Some (ra, h')"
  shows "[] \<notin> snd ` set h' \<and> fst ` set h \<subseteq> fst ` set h'"
proof -
  let ?kept = "filter (\<lambda>t. now - w < t) (alist_get [] h key)"
  obtain u where u: "u \<noteq> []" and h': "h' = AList.update key u h \<or> h' = sweep (AList.update key u h)"
  proof (cases "limit \<le> length ?kept")
    case True
    then obtain t ts where "?kept = t # ts" using al
      by (cases ?kept) (simp_all add: allow_def Let_def)
    then show ?thesis using that [of ?kept] True al by (simp add: allow_def Let_def)
  next
    case False
    then show ?thesis using that [of "?kept @ [now]"] al by (simp add: allow_def Let_def)
  qed
  have ne: "[] \<notin> snd ` set (AList.update key u h)" using h u by (rule alist_update_nonempty)
  then have "h' = AList.update key u h" using h' sweep_nonempty by metis
  then show ?thesis using ne by (simp add: fst_alist_update subset_insertI)
qed

lemma rate_limit_auth_nonempty:
  assumes "[] \<notin> snd ` set h" and "rate_limit_auth h r now = Some (a, h')"
  shows "[] \<notin> snd ` set h' \<and> fst ` set h \<subseteq> fst ` set h'"
proof (cases "auth_rate_key r")
  case None
  then show ?thesis using assms by (simp add: rate_limit_auth_def)
next
  case (Some kl)
  then obtain key l where k: "auth_rate_key r = Some (key, l)" by (cases kl) auto
  then obtain ra where "allow h key l auth_rate_window now = Some (ra, h')"
    using assms(2) by (cases "allow h key l auth_rate_window now") (auto simp: rate_limit_auth_def)
  then show ?thesis using allow_nonempty [OF assms(1)] by metis
qed

lemma serve_nonempty:
  assumes "[] \<notin> snd ` set h" and "serve h rs = Some (as, h')"
  shows "[] \<notin> snd ` set h' \<and> fst ` set h \<subseteq> fst ` set h'"
  using assms
proof (induction rs arbitrary: h as)
  case (Cons x rs)
  obtain r now where x: "x = (r, now)" by (cases x)
  obtain a h1 as1 where s: "rate_limit_auth h r now = Some (a, h1)" "serve h1 rs = Some (as1, h')"
    using Cons.prems(2) x by (auto split: option.splits prod.splits)
  from rate_limit_auth_nonempty [OF Cons.prems(1) s(1)] Cons.IH [OF _ s(2)] show ?case
    by (metis (no_types, lifting) order_trans)
qed simp

section \<open>Properties\<close>




text \<open>the middleware never indexes an empty slice and answers every request; a refusal
  asks the client to wait between 2 and 61 seconds.\<close>

theorem rate_limit_total:
  assumes "sorted (map snd rs)"
  shows "\<exists>as h. serve [] rs = Some (as, h) \<and> length as = length rs \<and>
    list_all (\<lambda>a. case a of Passed \<Rightarrow> True | Too_many n \<Rightarrow> 2 \<le> n \<and> n \<le> 61) as"
proof -
  define prev where "prev = (case rs of [] \<Rightarrow> 0 | x # _ \<Rightarrow> snd x)"
  have "\<forall>x\<in>set rs. prev \<le> snd x" using assms by (cases rs) (auto simp: prev_def)
  then obtain as h where "serve [] rs = Some (as, h)" "length as = length rs"
    "\<forall>a\<in>set as. a = Passed \<or> (\<exists>n. a = Too_many n \<and> 2 \<le> n \<and> n \<le> 61)"
    using serve_tracks [OF tracks_empty assms] by fastforce
  then show ?thesis by (force simp: list_all_iff split: response.splits)
qed

lemma rate_limit_total_witness:
  "let r = \<lparr>req_method = ''POST'', req_path = ''/api/auth/refresh'', req_ip = ''::1''\<rparr> in
   \<exists>as h. serve [] [(r, 0), (r, 5)] = Some (as, h) \<and> length as = 2"
  using rate_limit_total [of "[(\<lparr>req_method = ''POST'', req_path = ''/api/auth/refresh'', req_ip = ''::1''\<rparr>, 0),
    (\<lparr>req_method = ''POST'', req_path = ''/api/auth/refresh'', req_ip = ''::1''\<rparr>, 5)]"]
  by (auto simp: Let_def)

text \<open>keys are never forgotten: the sweep meant to keep the map from growing deletes only
  keys with an empty list, and no stored list is ever empty.\<close>

theorem rate_limit_keys_kept:
  assumes "serve [] rs = Some (as, h)" and "serve h rs' = Some (as', h')"
  shows "fst ` set h \<subseteq> fst ` set h' \<and> sweep h' = h'"
  using serve_nonempty [OF _ assms(1)] serve_nonempty [OF _ assms(2)] sweep_nonempty by auto

lemma rate_limit_keys_kept_witness:
  "let r = \<lparr>req_method = ''POST'', req_path = ''/api/auth/login'', req_ip = ''::1''\<rparr>;
       h = [(''::1|login'', [0])]
   in serve [] [(r, 0)] = Some ([Passed], h) \<and> fst ` set h \<subseteq> fst ` set h"
proof -
  let ?r = "\<lparr>req_method = ''POST'', req_path = ''/api/auth/login'', req_ip = ''::1''\<rparr>"
  have "serve [] [(?r, 0)] = Some ([Passed], [(''::1|login'', [0])])" by code_simp
  from this rate_limit_keys_kept [OF this, of "[]"] show ?thesis by (simp add: Let_def)
qed

end
