(* ===== verification/Breaker.thy ===== *)
theory Breaker
  imports Prelude
begin

text \<open>
  The circuit breaker of the router client, \<open>internal/provision/routeros/breaker.go\<close>:
  one breaker per router in the client's \<open>sync.Map\<close>.  Instants are nanoseconds;
  \<open>zero_time\<close> is Go's zero \<open>time.Time\<close>.
\<close>

definition zero_time :: int where "zero_time = - 62135596800 * second"
definition open_for :: int where "open_for = 30 * second"

record breaker =
  failures :: int
  open_until :: int

type_synonym breakers = "gid \<rightharpoonup> breaker"

definition new_breaker :: breaker where
  "new_breaker = \<lparr>failures = 0, open_until = zero_time\<rparr>"

definition load_or_store :: "breakers \<Rightarrow> gid \<Rightarrow> breaker \<times> breakers" where
  "load_or_store m router =
     (case m router of Some b \<Rightarrow> (b, m) | None \<Rightarrow> (new_breaker, m(router \<mapsto> new_breaker)))"

definition breaker_allow :: "breakers \<Rightarrow> gid \<Rightarrow> int \<Rightarrow> bool \<times> breakers" where
  "breaker_allow m router now =
     (let (b, m') = load_or_store m router in
      if now < open_until b then (False, m') else (True, m'))"

definition breaker_success :: "breakers \<Rightarrow> gid \<Rightarrow> breakers" where
  "breaker_success m router =
     (case m router of
        None \<Rightarrow> m
      | Some b \<Rightarrow> m(router \<mapsto> b\<lparr>failures := 0, open_until := zero_time\<rparr>))"

definition breaker_fail :: "breakers \<Rightarrow> gid \<Rightarrow> int \<Rightarrow> breakers" where
  "breaker_fail m router now =
     (let (b, m') = load_or_store m router;
          b = b\<lparr>failures := wrap64 (failures b + 1)\<rparr>;
          b = (if 3 \<le> failures b then b\<lparr>open_until := now + open_for\<rparr> else b)
      in m'(router \<mapsto> b))"

section \<open>Event histories\<close>

datatype event = Asked gid int | Succeeded gid | Failed gid int

fun breaker_event :: "event \<Rightarrow> breakers \<Rightarrow> breakers" where
  "breaker_event (Asked r now) m = snd (breaker_allow m r now)"
| "breaker_event (Succeeded r) m = breaker_success m r"
| "breaker_event (Failed r now) m = breaker_fail m r now"

definition breakers_after :: "event list \<Rightarrow> breakers" where
  "breakers_after evs = fold breaker_event evs Map.empty"

text \<open>The abstract view: the instants of the failures since the router's last success.\<close>

fun failing :: "gid \<Rightarrow> event \<Rightarrow> int list \<Rightarrow> int list" where
  "failing r (Asked r' now) fs = fs"
| "failing r (Succeeded r') fs = (if r' = r then [] else fs)"
| "failing r (Failed r' now) fs = (if r' = r then fs @ [now] else fs)"

definition failures_since_success :: "gid \<Rightarrow> event list \<Rightarrow> int list" where
  "failures_since_success r evs = fold (failing r) evs []"

definition breaker_open :: "int list \<Rightarrow> int \<Rightarrow> bool" where
  "breaker_open fs now \<longleftrightarrow> 3 \<le> length fs \<and> now < last fs + open_for"

definition abs_breaker :: "int list \<Rightarrow> breaker" where
  "abs_breaker fs = \<lparr>failures = int (length fs),
     open_until = (if 3 \<le> length fs then last fs + open_for else zero_time)\<rparr>"

definition represents :: "(gid \<Rightarrow> int list) \<Rightarrow> breakers \<Rightarrow> bool" where
  "represents F m \<longleftrightarrow> (\<forall>r. m r = Some (abs_breaker (F r)) \<or> (m r = None \<and> F r = []))"

lemma abs_breaker_Nil [simp]: "abs_breaker [] = new_breaker"
  by (simp add: abs_breaker_def new_breaker_def)

lemma load_represents:
  assumes "represents F m"
  shows "fst (load_or_store m r) = abs_breaker (F r) \<and> represents F (snd (load_or_store m r))"
proof (cases "m r")
  case None
  moreover have "F r = []" using assms None unfolding represents_def by force
  ultimately show ?thesis using assms by (auto simp: load_or_store_def represents_def)
next
  case (Some b)
  moreover have "b = abs_breaker (F r)" using assms Some unfolding represents_def
    by (metis option.distinct(1) option.inject)
  ultimately show ?thesis using assms by (simp add: load_or_store_def)
qed

lemma abs_breaker_fail:
  assumes "int (length fs) < 2 ^ 62"
  shows "(let b = (abs_breaker fs)\<lparr>failures := wrap64 (failures (abs_breaker fs) + 1)\<rparr>
          in if 3 \<le> failures b then b\<lparr>open_until := now + open_for\<rparr> else b)
    = abs_breaker (fs @ [now])"
proof -
  have "int64_ok (int (length fs) + 1)" using assms by (simp add: int64_ok_def)
  then show ?thesis by (simp add: abs_breaker_def)
qed

lemma represents_upd:
  "represents F m \<Longrightarrow> represents (F(r := fs)) (m(r \<mapsto> abs_breaker fs))"
  by (simp add: represents_def)

lemma event_represents:
  assumes "represents F m" and "\<forall>r. int (length (F r)) < 2 ^ 62"
  shows "represents (\<lambda>r. failing r e (F r)) (breaker_event e m)"
proof (cases e)
  case (Asked r now)
  then show ?thesis using load_represents [OF assms(1), of r]
    by (auto simp: breaker_allow_def split: prod.splits)
next
  case (Succeeded r)
  then show ?thesis using assms(1) by (auto simp: breaker_success_def represents_def new_breaker_def
        split: option.splits)
next
  case (Failed r now)
  have "(\<lambda>r. failing r e (F r)) = F(r := F r @ [now])" using Failed by auto
  moreover obtain b m' where lo: "load_or_store m r = (b, m')" by fastforce
  moreover have "b = abs_breaker (F r)" using lo load_represents [OF assms(1), of r] by simp
  moreover have "breaker_event e m = (snd (load_or_store m r))(r \<mapsto> abs_breaker (F r @ [now]))"
    using Failed lo calculation(3) abs_breaker_fail [OF assms(2) [rule_format], of r now]
    by (simp add: breaker_fail_def Let_def)
  ultimately show ?thesis using load_represents [OF assms(1), of r] represents_upd by metis
qed

lemma failing_length: "length (failing r e fs) \<le> Suc (length fs)"
  by (cases e) auto

lemma history_represents:
  "int (length evs) < 2 ^ 62 \<Longrightarrow>
   represents (\<lambda>r. failures_since_success r evs) (breakers_after evs) \<and>
   (\<forall>r. length (failures_since_success r evs) \<le> length evs)"
proof (induction evs rule: rev_induct)
  case Nil
  then show ?case by (simp add: represents_def failures_since_success_def breakers_after_def)
next
  case (snoc e evs)
  then have IH: "represents (\<lambda>r. failures_since_success r evs) (breakers_after evs)"
    "\<forall>r. length (failures_since_success r evs) \<le> length evs" by auto
  have "\<forall>r. int (length (failures_since_success r evs)) < 2 ^ 62"
    using IH(2) snoc.prems by (smt (verit) length_append_singleton of_nat_mono of_nat_Suc)
  from event_represents [OF IH(1) this, of e] show ?case
    using IH(2) failing_length [of _ e]
    by (simp add: failures_since_success_def breakers_after_def) (meson Suc_le_mono order_trans)
qed

text \<open>C9: after any history of calls, a router is refused exactly when at least three failures
  were recorded since its last success and the last of them is less than 30 seconds old;
  the other routers' histories do not matter.\<close>

theorem breaker_allow_iff:
  assumes "int (length evs) < 2 ^ 62" and "zero_time \<le> now"
  shows "fst (breaker_allow (breakers_after evs) r now)
    = (\<not> breaker_open (failures_since_success r evs) now)"
proof -
  have "fst (load_or_store (breakers_after evs) r) = abs_breaker (failures_since_success r evs)"
    using history_represents [OF assms(1)] load_represents by blast
  then show ?thesis using assms(2)
    by (cases "3 \<le> length (failures_since_success r evs)")
      (auto simp: breaker_allow_def breaker_open_def abs_breaker_def Let_def split: prod.splits)
qed

lemma breaker_allow_iff_witness:
  "let evs = [Failed 7 0, Failed 7 1, Asked 7 2, Failed 7 second, Failed 8 0] in
   \<not> fst (breaker_allow (breakers_after evs) 7 (30 * second)) \<and>
   fst (breaker_allow (breakers_after evs) 7 (31 * second)) \<and>
   fst (breaker_allow (breakers_after evs) 8 5)"
  by (simp add: Let_def breaker_allow_iff zero_time_def failures_since_success_def breaker_open_def open_for_def)

end
