(* ===== verification/PoolRanges.thy ===== *)
theory PoolRanges
  imports Prelude "HOL-Library.Word"
begin

text \<open>
  The IPv4 pool arithmetic of \<open>internal/provision/routeros/pool_ranges.go\<close>.  An address
  is its list of bytes, as in \<open>net.IP\<close>; the byte loops \<open>incIP\<close>, \<open>decIP\<close> and
  \<open>compareIP\<close> are proved equal to arithmetic on the number the bytes write in base 256.
  The parsers of package \<open>net\<close> are modelled for IPv4 text; IPv6 text is taken as
  unparsable, which for the code below leads to the same result.
\<close>

unbundle bit_operations_syntax

section \<open>Parsing and printing addresses\<close>

type_synonym ip = "8 word list"

definition digit_val :: "char \<Rightarrow> nat" where
  "digit_val c = of_char c - 48"

fun dec_val :: "nat \<Rightarrow> string \<Rightarrow> nat" where
  "dec_val acc [] = acc"
| "dec_val acc (c # s) = dec_val (acc * 10 + digit_val c) s"

definition parse_octet :: "string \<Rightarrow> nat option" where
  "parse_octet s =
     (if s \<noteq> [] \<and> length s \<le> 3 \<and> list_all is_digit s \<and> (hd s \<noteq> CHR ''0'' \<or> length s = 1) \<and> dec_val 0 s \<le> 255
      then Some (dec_val 0 s) else None)"

definition parse_ip :: "string \<Rightarrow> ip option" where
  "parse_ip s =
     (case map parse_octet (split_on (CHR ''.'') s) of
        [Some a, Some b, Some c, Some d] \<Rightarrow> Some (map word_of_nat [a, b, c, d])
      | _ \<Rightarrow> None)"

fun split_slash :: "string \<Rightarrow> (string \<times> string) option" where
  "split_slash [] = None"
| "split_slash (c # s) =
     (if c = CHR ''/'' then Some ([], s) else map_option (\<lambda>(a, b). (c # a, b)) (split_slash s))"

definition parse_cidr :: "string \<Rightarrow> (ip \<times> nat) option" where
  "parse_cidr s =
     (case split_slash s of
        None \<Rightarrow> None
      | Some (a, m) \<Rightarrow>
          (case parse_ip a of
             None \<Rightarrow> None
           | Some addr \<Rightarrow>
               if m \<noteq> [] \<and> list_all is_digit m \<and> dec_val 0 m \<le> 32 then Some (addr, dec_val 0 m) else None))"

fun nat_dec :: "nat \<Rightarrow> string" where
  "nat_dec n = (if n < 10 then [char_of (48 + n)] else nat_dec (n div 10) @ [char_of (48 + n mod 10)])"

declare nat_dec.simps [simp del]

definition show_ip :: "ip \<Rightarrow> string" where
  "show_ip addr = join_with ''.'' (map (\<lambda>b. nat_dec (unat b)) addr)"

definition host_ip :: "string \<Rightarrow> string" where
  "host_ip s0 =
     (let s = trim_space s0 in
      if s = [] then []
      else case parse_cidr s of
        Some (host, _) \<Rightarrow> show_ip host
      | None \<Rightarrow>
          (case parse_ip s of
             Some a \<Rightarrow> show_ip a
           | None \<Rightarrow>
               (case split_slash s of
                  Some (a, _) \<Rightarrow> if a \<noteq> [] then trim_space a else s
                | None \<Rightarrow> s)))"

section \<open>Byte arithmetic\<close>

text \<open>The loops run from the last byte to the first.\<close>

fun inc_rev :: "ip \<Rightarrow> ip" where
  "inc_rev [] = []"
| "inc_rev (b # bs) = (let b' = b + 1 in if b' \<noteq> 0 then b' # bs else b' # inc_rev bs)"

fun dec_rev :: "ip \<Rightarrow> ip" where
  "dec_rev [] = []"
| "dec_rev (b # bs) = (if 0 < b then (b - 1) # bs else 0xff # dec_rev bs)"

definition inc_ip :: "ip \<Rightarrow> ip" where "inc_ip addr = rev (inc_rev (rev addr))"
definition dec_ip :: "ip \<Rightarrow> ip" where "dec_ip addr = rev (dec_rev (rev addr))"

fun compare_ip :: "ip \<Rightarrow> ip \<Rightarrow> int" where
  "compare_ip (a # as) (b # bs) =
     (if a < b then -1 else if b < a then 1 else compare_ip as bs)"
| "compare_ip _ _ = 0"

definition byte_mask :: "nat \<Rightarrow> 8 word" where
  "byte_mask n = NOT (drop_bit n 0xff)"

fun cidr_mask :: "nat \<Rightarrow> nat \<Rightarrow> ip" where
  "cidr_mask 0 n = []"
| "cidr_mask (Suc l) n = byte_mask (min n 8) # cidr_mask l (n - 8)"

definition mask_ip :: "ip \<Rightarrow> ip \<Rightarrow> ip" where
  "mask_ip addr m = map2 (AND) addr m"

definition broadcast_ip :: "ip \<Rightarrow> ip \<Rightarrow> ip" where
  "broadcast_ip addr m = map2 (\<lambda>a b. a OR NOT b) addr m"

definition net_contains :: "ip \<Rightarrow> nat \<Rightarrow> ip \<Rightarrow> bool" where
  "net_contains base ones x = (mask_ip x (cidr_mask 4 ones) = mask_ip base (cidr_mask 4 ones))"

section \<open>Pool ranges\<close>

text \<open>The first and last address of the pool of a network shorter than /31.\<close>

definition pool_bounds :: "ip \<Rightarrow> nat \<Rightarrow> ip option \<Rightarrow> (ip \<times> ip) option" where
  "pool_bounds addr ones gateway =
     (let m = cidr_mask 4 ones;
          start = inc_ip (mask_ip addr m);
          last = dec_ip (broadcast_ip addr m);
          gw = (case gateway of Some g \<Rightarrow> g | None \<Rightarrow> start);
          inside = net_contains addr ones gw;
          start' = (if inside \<and> gw = start then inc_ip start else start);
          last' = (if inside \<and> gw = last then dec_ip last else last)
      in if 0 < compare_ip start' last' then None else Some (start', last'))"

datatype pool_error = Bad_cidr | Empty_pool

definition gateway_ip :: "string option \<Rightarrow> ip option" where
  "gateway_ip gateway =
     (case gateway of
        None \<Rightarrow> None
      | Some g \<Rightarrow> let h = host_ip g in if h \<noteq> [] then parse_ip h else None)"

definition cidr_to_pool_ranges :: "string \<Rightarrow> string option \<Rightarrow> pool_error + string" where
  "cidr_to_pool_ranges network0 gateway =
     (let network = trim_space network0 in
      case parse_cidr network of
        None \<Rightarrow> if contains_sub network ''-'' then Inr network else Inl Bad_cidr
      | Some (addr, ones) \<Rightarrow>
          if 31 \<le> ones then Inr (show_ip (mask_ip addr (cidr_mask 4 ones)))
          else case pool_bounds addr ones (gateway_ip gateway) of
            None \<Rightarrow> Inl Empty_pool
          | Some (s, e) \<Rightarrow> if s = e then Inr (show_ip s) else Inr (show_ip s @ ''-'' @ show_ip e))"

definition network_local_address :: "string \<Rightarrow> string" where
  "network_local_address network =
     (case parse_cidr (trim_space network) of
        None \<Rightarrow> []
      | Some (addr, ones) \<Rightarrow>
          let base = mask_ip addr (cidr_mask 4 ones) in
          if 31 \<le> ones then show_ip base else show_ip (inc_ip base))"

definition cidr_local_address :: "string \<Rightarrow> string option \<Rightarrow> string" where
  "cidr_local_address network gateway =
     (case gateway of
        Some g \<Rightarrow> if host_ip g \<noteq> [] then host_ip g else network_local_address network
      | None \<Rightarrow> network_local_address network)"

section \<open>The number an address writes\<close>

fun val_rev :: "ip \<Rightarrow> int" where
  "val_rev [] = 0"
| "val_rev (b # bs) = uint b + 256 * val_rev bs"

definition ip_val :: "ip \<Rightarrow> int" where
  "ip_val addr = val_rev (rev addr)"

lemma byte_bounds: "0 \<le> uint (b :: 8 word)" "uint (b :: 8 word) < 256"
  using uint_lt2p [of b] by simp_all

lemma val_rev_bounds: "0 \<le> val_rev bs \<and> val_rev bs < 256 ^ length bs"
proof (induction bs)
  case (Cons b bs)
  then show ?case using byte_bounds [of b] by simp
qed simp

lemma ip_val_bounds: "0 \<le> ip_val a \<and> ip_val a < 256 ^ length a"
  using val_rev_bounds [of "rev a"] by (simp add: ip_val_def)

lemma val_rev_append: "val_rev (xs @ ys) = val_rev xs + 256 ^ length xs * val_rev ys"
  by (induction xs) (simp_all add: algebra_simps)

lemma ip_val_Nil [simp]: "ip_val [] = 0"
  by (simp add: ip_val_def)

lemma ip_val_Cons: "ip_val (b # bs) = uint b * 256 ^ length bs + ip_val bs"
  by (simp add: ip_val_def val_rev_append)

lemma val_rev_inject: "length xs = length ys \<Longrightarrow> val_rev xs = val_rev ys \<Longrightarrow> xs = ys"
proof (induction xs ys rule: list_induct2)
  case (Cons x xs y ys)
  have "uint x + 256 * val_rev xs = uint y + 256 * val_rev ys" using Cons.prems by simp
  then have "uint x = uint y" using byte_bounds [of x] byte_bounds [of y]
    by (cases "val_rev xs" "val_rev ys" rule: linorder_cases) linarith+
  then show ?case using Cons by (simp add: word_uint_eq_iff)
qed simp

lemma ip_val_inject: "length a = length b \<Longrightarrow> ip_val a = ip_val b \<longleftrightarrow> a = b"
  using val_rev_inject [of "rev a" "rev b"] by (auto simp: ip_val_def)

lemma byte_inc_zero: "(b::8 word) + 1 = 0 \<longleftrightarrow> uint b = 255"
proof -
  have "0 \<le> uint b" "uint b < 256" using uint_lt2p [of b] by simp_all
  then have "(uint b + 1) mod 256 = 0 \<longleftrightarrow> uint b = 255" by presburger
  then show ?thesis by (simp add: word_uint_eq_iff uint_word_ariths)
qed

lemma byte_drop_full: "drop_bit n (0xff :: 8 word) = mask (8 - n)"
proof -
  have "(0xff :: 8 word) = mask 8" by (simp add: mask_eq_exp_minus_1)
  moreover have "drop_bit n (mask 8 :: 8 word) = mask (8 - n)"
    by (rule bit_word_eqI) (auto simp: bit_simps)
  ultimately show ?thesis by simp
qed

lemma int_clear_low: fixes x :: int shows "x AND NOT (mask k) = x div 2 ^ k * 2 ^ k"
proof -
  have "x AND NOT (mask k) = push_bit k (drop_bit k x)"
    by (rule bit_eqI) (auto simp: bit_simps)
  then show ?thesis by (simp add: push_bit_eq_mult drop_bit_eq_div)
qed

lemma int_fill_low: fixes x :: int shows "x OR mask k = x div 2 ^ k * 2 ^ k + 2 ^ k - 1"
proof -
  have "x OR mask k = (x AND NOT (mask k)) OR mask k" by (rule bit_eqI) (auto simp: bit_simps)
  also have "\<dots> = (x AND NOT (mask k)) + mask k" by (rule disjunctive_add [symmetric]) (auto simp: bit_simps)
  finally have "x OR mask k = x div 2 ^ k * 2 ^ k + mask k" by (simp only: int_clear_low)
  then show ?thesis by (simp add: mask_eq_exp_minus_1)
qed

lemma byte_clear: assumes "n \<le> 8" shows "uint ((b::8 word) AND byte_mask n) = uint b div 2 ^ (8 - n) * 2 ^ (8 - n)"
proof -
  have "b AND NOT (mask (8 - n)) = push_bit (8 - n) (drop_bit (8 - n) b)"
    by (rule bit_word_eqI) (auto simp: bit_simps)
  then have "uint (b AND NOT (mask (8 - n))) = take_bit 8 (push_bit (8 - n) (drop_bit (8 - n) (uint b)))"
    using uint_lt2p [of b] by (simp add: unsigned_push_bit_eq unsigned_drop_bit_eq take_bit_int_eq_self)
  also have "\<dots> = uint b div 2 ^ (8 - n) * 2 ^ (8 - n)"
  proof -
    have "0 \<le> uint b" "uint b < 256" using uint_lt2p [of b] by simp_all
    moreover have "uint b div 2 ^ (8 - n) * 2 ^ (8 - n) \<le> uint b"
      by (simp add: minus_mod_eq_div_mult [symmetric])
    moreover have "0 \<le> uint b div 2 ^ (8 - n) * 2 ^ (8 - n)"
      using calculation(1) by (simp add: pos_imp_zdiv_nonneg_iff)
    ultimately show ?thesis
      by (simp add: push_bit_eq_mult drop_bit_eq_div take_bit_int_eq_self)
  qed
  finally show ?thesis by (simp add: byte_mask_def byte_drop_full)
qed

lemma byte_fill: assumes "n \<le> 8" shows "uint ((b::8 word) OR NOT (byte_mask n)) = uint b div 2 ^ (8 - n) * 2 ^ (8 - n) + 2 ^ (8 - n) - 1"
proof -
  have "uint (mask (8 - n) :: 8 word) = mask (8 - n)"
    by (rule bit_eqI) (auto simp: bit_simps)
  then show ?thesis by (simp add: byte_mask_def byte_drop_full unsigned_or_eq int_fill_low)
qed

lemma byte_inc: "(b :: 8 word) + 1 \<noteq> 0 \<Longrightarrow> uint (b + 1) = uint b + 1"
  using byte_inc_zero [of b] byte_bounds [of b] by (simp add: uint_word_ariths)

lemma byte_dec: "0 < (b :: 8 word) \<Longrightarrow> uint (b - 1) = uint b - 1"
  using byte_bounds [of b] by (simp add: uint_word_ariths word_less_def)

lemma inc_rev_val: "val_rev (inc_rev bs) = (val_rev bs + 1) mod 256 ^ length bs \<and> length (inc_rev bs) = length bs"
proof (induction bs)
  case (Cons b bs)
  have v: "0 \<le> val_rev bs" "val_rev bs < 256 ^ length bs" using val_rev_bounds by auto
  show ?case
  proof (cases "b + 1 = 0")
    case False
    moreover have "uint (b + 1) + 256 * val_rev bs < 256 * 256 ^ length bs"
      using byte_bounds [of "b + 1"] v(2) by linarith
    ultimately show ?thesis using byte_inc [OF False] v(1) byte_bounds(1) [of b] by simp
  next
    case True
    then have "uint b = 255" using byte_inc_zero by simp
    then have "uint b + 256 * val_rev bs + 1 = 256 * (val_rev bs + 1)" by simp
    then show ?thesis using True Cons.IH by (simp add: mult_mod_right add.commute)
  qed
qed simp

lemma dec_rev_val: "val_rev (dec_rev bs) = (val_rev bs - 1) mod 256 ^ length bs \<and> length (dec_rev bs) = length bs"
proof (induction bs)
  case (Cons b bs)
  have v: "0 \<le> val_rev bs" "val_rev bs < 256 ^ length bs" using val_rev_bounds by auto
  show ?case
  proof (cases "0 < b")
    case True
    then have "0 < uint b" by (simp add: word_less_def)
    moreover have "uint b + 256 * val_rev bs < 256 * 256 ^ length bs"
      using byte_bounds [of b] v(2) by linarith
    ultimately show ?thesis using True byte_dec [OF True] v(1) by simp
  next
    case False
    then have "b = 0" by (simp add: word_gt_0)
    have m: "(256 * x - 1) mod (256 * y) = 255 + 256 * ((x - 1) mod y)" if "0 < y" for x y :: int
    proof -
      have "256 * x - 1 = 255 + (x - 1) * 256" by simp
      moreover have "(255 + (x - 1) * 256) div 256 = x - 1" "(255 + (x - 1) * 256) mod 256 = 255"
        unfolding div_mult_self1 [of "256::int", simplified] mod_mult_self1 by simp_all
      ultimately have "(256 * x - 1) div 256 = x - 1" "(256 * x - 1) mod 256 = 255"
        by (simp_all only:)
      then show ?thesis using that by (simp add: zmod_zmult2_eq)
    qed
    show ?thesis using \<open>b = 0\<close> Cons.IH m [of "256 ^ length bs" "val_rev bs"] by simp
  qed
qed simp

lemma inc_ip_val: "ip_val (inc_ip a) = (ip_val a + 1) mod 256 ^ length a"
  and inc_ip_length [simp]: "length (inc_ip a) = length a"
  using inc_rev_val [of "rev a"] by (simp_all add: inc_ip_def ip_val_def)

lemma dec_ip_val: "ip_val (dec_ip a) = (ip_val a - 1) mod 256 ^ length a"
  and dec_ip_length [simp]: "length (dec_ip a) = length a"
  using dec_rev_val [of "rev a"] by (simp_all add: dec_ip_def ip_val_def)

lemma compare_ip_val:
  "length a = length b \<Longrightarrow> compare_ip a b = sgn (ip_val a - ip_val b)"
proof (induction a b rule: list_induct2)
  case (Cons x xs y ys)
  have bx: "0 \<le> ip_val xs" "ip_val xs < 256 ^ length xs" using ip_val_bounds by auto
  have b2: "0 \<le> ip_val ys" "ip_val ys < 256 ^ length xs" using ip_val_bounds [of ys] Cons.hyps by auto
  have step: "uint p * w + u < uint q * w + v"
    if "p < q" "0 \<le> v" "0 \<le> u" "u < w" for p q :: "8 word" and u v w :: int
  proof -
    have "(uint p + 1) * w \<le> uint q * w"
      using that by (intro mult_right_mono) (auto simp: word_less_def)
    then show ?thesis using that by (simp add: algebra_simps)
  qed
  show ?case
  proof (cases x y rule: linorder_cases)
    case equal
    then show ?thesis using Cons by (simp add: ip_val_Cons)
  next
    case less
    then show ?thesis using step [OF less b2(1) bx] Cons.hyps by (simp add: ip_val_Cons)
  next
    case greater
    then show ?thesis using step [OF greater bx(1) b2] Cons.hyps by (simp add: ip_val_Cons)
  qed
qed simp


text \<open>Masking keeps the network part of the number; the broadcast address fills the host part.\<close>

lemma cidr_mask_length [simp]: "length (cidr_mask l n) = l"
  by (induction l arbitrary: n) simp_all

lemma div_high_part:
  assumes "0 \<le> r" "r < (256::int) ^ l" "n \<le> 8"
  shows "(b * 256 ^ l + r) div 2 ^ (8 - n + 8 * l) = b div 2 ^ (8 - n)"
proof -
  have e: "(2::int) ^ (8 - n + 8 * l) = 256 ^ l * 2 ^ (8 - n)" by (simp add: power_add power_mult)
  have "(b * 256 ^ l + r) div 256 ^ l = b" using assms by (simp add: div_pos_pos_trivial)
  then show ?thesis unfolding e by (simp add: zdiv_zmult2_eq)
qed

lemma mask_both_val:
  assumes "n \<le> 8 * length a"
  shows "ip_val (mask_ip a (cidr_mask (length a) n))
      = ip_val a div 2 ^ (8 * length a - n) * 2 ^ (8 * length a - n)
    \<and> ip_val (broadcast_ip a (cidr_mask (length a) n))
      = ip_val a div 2 ^ (8 * length a - n) * 2 ^ (8 * length a - n) + 2 ^ (8 * length a - n) - 1"
  using assms
proof (induction a arbitrary: n)
  case (Cons b bs)
  let ?l = "length bs" and ?r = "ip_val bs"
  have r: "0 \<le> ?r" "?r < 256 ^ ?l" using ip_val_bounds by auto
  have p8: "(2::int) ^ (8 * ?l) = 256 ^ ?l" by (simp add: power_mult)
  show ?case
  proof (cases "n \<le> 8")
    case True
    have K: "8 * length (b # bs) - n = 8 - n + 8 * ?l" using True by simp
    have P: "(2::int) ^ (8 - n + 8 * ?l) = 2 ^ (8 - n) * 256 ^ ?l" by (simp add: power_add p8)
    from Cons.IH [of 0] r have "ip_val (mask_ip bs (cidr_mask ?l 0)) = 0"
      "ip_val (broadcast_ip bs (cidr_mask ?l 0)) = 256 ^ ?l - 1" by (simp_all add: p8)
    then show ?thesis unfolding K ip_val_Cons unfolding div_high_part [OF r True] unfolding P using True
      by (simp add: mask_ip_def broadcast_ip_def ip_val_Cons byte_clear byte_fill algebra_simps)
  next
    case False
    let ?K = "8 * ?l - (n - 8)"
    have K: "8 * length (b # bs) - n = ?K" using False by simp
    have le: "n - 8 \<le> 8 * ?l" using Cons.prems by simp
    have "8 * ?l = ?K + (n - 8)" using le by simp
    then have P: "(256::int) ^ ?l = 2 ^ ?K * 2 ^ (n - 8)" by (metis p8 power_add)
    have D: "(uint b * 256 ^ ?l + ?r) div 2 ^ ?K = uint b * 2 ^ (n - 8) + ?r div 2 ^ ?K"
    proof -
      have "uint b * 256 ^ ?l + ?r = ?r + uint b * 2 ^ (n - 8) * 2 ^ ?K" unfolding P by (simp only: ac_simps)
      then show ?thesis by (simp only: div_mult_self1) (simp add: add.commute)
    qed
    have m: "min n 8 = 8" using False by simp
    have f: "uint (b AND byte_mask 8) = uint b" "uint (b OR NOT (byte_mask 8)) = uint b"
      using byte_clear [of 8 b] byte_fill [of 8 b] by simp_all
    show ?thesis unfolding K ip_val_Cons D using Cons.IH [OF le] m f
      by (simp add: mask_ip_def broadcast_ip_def ip_val_Cons P algebra_simps)
  qed
qed (simp add: mask_ip_def broadcast_ip_def)

lemma mask_ip_length [simp]: "length (mask_ip a m) = min (length a) (length m)"
  by (simp add: mask_ip_def)

lemma broadcast_ip_length [simp]: "length (broadcast_ip a m) = min (length a) (length m)"
  by (simp add: broadcast_ip_def)

section \<open>Properties\<close>

text \<open>The pool of a network, on numbers.\<close>

definition pool_spec :: "int \<Rightarrow> nat \<Rightarrow> int option \<Rightarrow> int \<times> int" where
  "pool_spec a ones gw =
     (let size = 2 ^ (32 - ones);
          base = a div size * size;
          lo = base + 1;
          hi = base + size - 2;
          g = (case gw of Some x \<Rightarrow> x | None \<Rightarrow> lo)
      in (if g = lo then lo + 1 else lo, if g = hi then hi - 1 else hi))"

lemma mask_val4:
  assumes "length a = 4" "ones \<le> 32"
  shows "ip_val (mask_ip a (cidr_mask 4 ones)) = ip_val a div 2 ^ (32 - ones) * 2 ^ (32 - ones)"
    and "ip_val (broadcast_ip a (cidr_mask 4 ones))
      = ip_val a div 2 ^ (32 - ones) * 2 ^ (32 - ones) + 2 ^ (32 - ones) - 1"
  using mask_both_val [of ones a] assms by simp_all

lemma base_bounds:
  assumes "length a = 4" "ones \<le> 32"
  shows "0 \<le> ip_val a div 2 ^ (32 - ones) * 2 ^ (32 - ones)"
    and "ip_val a div 2 ^ (32 - ones) * 2 ^ (32 - ones) + 2 ^ (32 - ones) \<le> 256 ^ 4"
proof -
  let ?v = "ip_val a" and ?S = "2 ^ (32 - ones) :: int"
  have v: "0 \<le> ?v" "?v < 256 ^ 4" using ip_val_bounds [of a] assms by auto
  show "0 \<le> ?v div ?S * ?S" using v by (simp add: pos_imp_zdiv_nonneg_iff)
  have e: "(256 :: int) ^ 4 = 2 ^ ones * ?S"
    using assms(2) by (simp add: power_add [symmetric])
  then have "?v < 2 ^ ones * ?S" using v(2) by linarith
  have "?v div ?S < 2 ^ ones"
  proof (rule ccontr)
    assume "\<not> ?v div ?S < 2 ^ ones"
    then have "2 ^ ones * ?S \<le> ?v div ?S * ?S" by (intro mult_right_mono) auto
    also have "\<dots> \<le> ?v" by (simp add: minus_mod_eq_div_mult [symmetric])
    finally show False using \<open>?v < 2 ^ ones * ?S\<close> by simp
  qed
  then have "(?v div ?S + 1) * ?S \<le> 2 ^ ones * ?S" by (intro mult_right_mono) auto
  then show "?v div ?S * ?S + ?S \<le> 256 ^ 4" unfolding e by (simp add: algebra_simps)
qed




text \<open>the byte loops are addition and subtraction of one modulo \<open>256 ^ length\<close> and the
  byte-wise comparison is the comparison of the numbers.\<close>

theorem ip_byte_loops:
  "ip_val (inc_ip a) = (ip_val a + 1) mod 256 ^ length a \<and>
   ip_val (dec_ip a) = (ip_val a - 1) mod 256 ^ length a \<and>
   dec_ip (inc_ip a) = a \<and> inc_ip (dec_ip a) = a"
proof -
  have v: "ip_val a mod 256 ^ length a = ip_val a" using ip_val_bounds [of a] by simp
  have "ip_val (dec_ip (inc_ip a)) = ip_val a" "ip_val (inc_ip (dec_ip a)) = ip_val a"
    using v by (simp_all add: inc_ip_val dec_ip_val mod_simps)
  then show ?thesis
    using ip_val_inject [of "dec_ip (inc_ip a)" a] ip_val_inject [of "inc_ip (dec_ip a)" a]
    by (simp add: inc_ip_val dec_ip_val)
qed

text \<open>a gateway strictly inside the network is not taken out of the pool, although the
  function's comment promises to exclude it.\<close>

theorem pool_keeps_inner_gateway:
  "cidr_to_pool_ranges ''10.10.0.0/24'' (Some ''10.10.0.100/32'') = Inr ''10.10.0.1-10.10.0.254'' \<and>
   cidr_to_pool_ranges ''10.10.0.0/24'' None = Inr ''10.10.0.2-10.10.0.254'' \<and>
   cidr_to_pool_ranges '' 10.10.0.0/30'' None = Inr ''10.10.0.2'' \<and>
   cidr_to_pool_ranges ''10.10.0.5/32'' None = Inr ''10.10.0.5'' \<and>
   cidr_to_pool_ranges ''10.10.0.0/33'' None = Inl Bad_cidr \<and>
   cidr_local_address ''10.10.0.0/24'' None = ''10.10.0.1''"
  by code_simp

end
