(* ===== verification/GoTime.thy ===== *)
theory GoTime
  imports Prelude
begin

text \<open>
  Package \<open>time\<close> as the billing code uses it: the proleptic Gregorian calendar on day
  numbers (day 0 is 1970-01-01), \<open>time.Date\<close> with its normalisation of out-of-range
  months and days, \<open>AddDate\<close>, comparison and difference of instants.  A time is a civil
  reading in a zone with a fixed offset; the zones the program offers (WIB, WITA, WIT,
  Singapore, UTC) have no daylight saving.  \<open>time.Duration\<close> saturates at 292 years, which
  is beyond every pair of instants compared here.
\<close>

section \<open>The calendar\<close>

definition leap_year :: "int \<Rightarrow> bool" where
  "leap_year y \<longleftrightarrow> 4 dvd y \<and> (\<not> 100 dvd y \<or> 400 dvd y)"

text \<open>Days from 1 January of year 1 to 1 January of year \<open>y\<close>.\<close>

definition days_before_year :: "int \<Rightarrow> int" where
  "days_before_year y = 365 * (y - 1) + (y - 1) div 4 - (y - 1) div 100 + (y - 1) div 400"

definition days_before_month :: "bool \<Rightarrow> int \<Rightarrow> int" where
  "days_before_month l m =
     (if m \<le> 1 then 0 else if m = 2 then 31
      else (if l then 1 else 0) +
        (if m = 3 then 59 else if m = 4 then 90 else if m = 5 then 120 else if m = 6 then 151
         else if m = 7 then 181 else if m = 8 then 212 else if m = 9 then 243 else if m = 10 then 273
         else if m = 11 then 304 else if m = 12 then 334 else 365))"

definition month_days :: "bool \<Rightarrow> int \<Rightarrow> int" where
  "month_days l m = days_before_month l (m + 1) - days_before_month l m"

definition epoch_offset :: int where "epoch_offset = 719162"

definition day_number :: "int \<Rightarrow> int \<Rightarrow> int \<Rightarrow> int" where
  "day_number y m d = days_before_year y + days_before_month (leap_year y) m + d - 1 - epoch_offset"

definition valid_date :: "int \<Rightarrow> int \<Rightarrow> int \<Rightarrow> bool" where
  "valid_date y m d \<longleftrightarrow> 1 \<le> m \<and> m \<le> 12 \<and> 1 \<le> d \<and> d \<le> month_days (leap_year y) m"

text \<open>From a day number back to the date.\<close>

definition year_of_day :: "int \<Rightarrow> int" where
  "year_of_day n =
     (let k = n + epoch_offset; y = (400 * k) div 146097 + 1
      in if days_before_year (y + 1) \<le> k then y + 1 else y)"

definition month_of_yday :: "bool \<Rightarrow> int \<Rightarrow> int" where
  "month_of_yday l r =
     (if days_before_month l 12 \<le> r then 12 else if days_before_month l 11 \<le> r then 11
      else if days_before_month l 10 \<le> r then 10 else if days_before_month l 9 \<le> r then 9
      else if days_before_month l 8 \<le> r then 8 else if days_before_month l 7 \<le> r then 7
      else if days_before_month l 6 \<le> r then 6 else if days_before_month l 5 \<le> r then 5
      else if days_before_month l 4 \<le> r then 4 else if days_before_month l 3 \<le> r then 3
      else if 31 \<le> r then 2 else 1)"

definition date_of_day :: "int \<Rightarrow> int \<times> int \<times> int" where
  "date_of_day n =
     (let y = year_of_day n; l = leap_year y; r = n + epoch_offset - days_before_year y;
          m = month_of_yday l r
      in (y, m, r - days_before_month l m + 1))"

text \<open>For evaluation: the condition holds back the unfolding until \<open>n\<close> is a number.\<close>

lemma date_of_day_literal [code]:
  "date_of_day n = (if n \<le> n then (let y = year_of_day n; l = leap_year y; r = n + epoch_offset - days_before_year y;
     m = month_of_yday l r in (y, m, r - days_before_month l m + 1)) else (0, 0, 0))"
  by (simp add: date_of_day_def)

lemma div_bounds: "0 < (n :: int) \<Longrightarrow> n * (x div n) \<le> x" "0 < n \<Longrightarrow> x < n * (x div n) + n"
proof -
  assume n: "0 < n"
  have "x = n * (x div n) + x mod n" "0 \<le> x mod n" "x mod n < n" using n by simp_all
  then show "n * (x div n) \<le> x" "x < n * (x div n) + n" by linarith+
qed

lemma div_step:
  assumes "0 < (n :: int)"
  shows "y div n = (y - 1) div n + (if n dvd y then 1 else 0)"
proof -
  have y: "y = n * (y div n) + y mod n" by simp
  have r: "0 \<le> y mod n" "y mod n < n" using assms by simp_all
  show ?thesis
  proof (cases "n dvd y")
    case True
    then have "y = n * (y div n)" by simp
    then have "y - 1 = n * (y div n - 1) + (n - 1)" unfolding right_diff_distrib by linarith
    then have "(y - 1) div n = y div n - 1" using assms by (intro int_div_pos_eq [of _ _ _ "n - 1"]) auto
    then show ?thesis using True by simp
  next
    case False
    then have "y mod n \<noteq> 0" by (simp add: dvd_eq_mod_eq_0)
    then have "(y - 1) div n = y div n" using r y by (intro int_div_pos_eq [of _ _ _ "y mod n - 1"]) linarith+
    then show ?thesis using False by simp
  qed
qed

lemma days_before_year_step: "days_before_year (y + 1) = days_before_year y + (if leap_year y then 366 else 365)"
proof -
  define A B C where "A = (4 dvd y)" and "B = (100 dvd y)" and "C = (400 dvd y)"
  have h: "C \<Longrightarrow> B" "B \<Longrightarrow> A"
    unfolding A_def B_def C_def by (rule dvd_trans [of 100 400]; simp) (rule dvd_trans [of 4 100]; simp)
  have e: "days_before_year (y + 1) = 365 * y + y div 4 - y div 100 + y div 400"
    unfolding days_before_year_def by simp
  have "y div 4 = (y - 1) div 4 + (if A then 1 else 0)" "y div 100 = (y - 1) div 100 + (if B then 1 else 0)"
    "y div 400 = (y - 1) div 400 + (if C then 1 else 0)"
    unfolding A_def B_def C_def by (rule div_step; simp)+
  then show ?thesis
    unfolding e days_before_year_def [of y] leap_year_def A_def [symmetric] B_def [symmetric] C_def [symmetric]
    using h by (smt (verit))
qed

text \<open>The estimate of the year is the year or one before it.\<close>

lemma days_before_year_bounds:
  "400 * days_before_year y \<le> 146097 * (y - 1) + 396 \<and>
   146097 * (y - 1) - 699 \<le> 400 * days_before_year y"
proof -
  define a b c where "a = (y - 1) div 4" and "b = (y - 1) div 100" and "c = (y - 1) div 400"
  note d = div_bounds [of 4 "y - 1", folded a_def, simplified] div_bounds [of 100 "y - 1", folded b_def, simplified]
    div_bounds [of 400 "y - 1", folded c_def, simplified]
  show ?thesis
    unfolding days_before_year_def a_def [symmetric] b_def [symmetric] c_def [symmetric]
    using d by (smt (verit))
qed

lemma year_of_day_bounds:
  "days_before_year (year_of_day n) \<le> n + epoch_offset \<and> n + epoch_offset < days_before_year (year_of_day n + 1)"
proof -
  define k where "k = n + epoch_offset"
  define y where "y = (400 * k) div 146097 + 1"
  define q where "q = (400 * k) div 146097"
  have y: "146097 * (y - 1) \<le> 400 * k \<and> 400 * k < 146097 * y"
    using div_bounds [of 146097 "400 * k", folded q_def, simplified] by (simp add: y_def q_def [symmetric])
  have low: "days_before_year y \<le> k" using y days_before_year_bounds [of y] by (smt (verit))
  have high: "k < days_before_year (y + 2)"
    using y days_before_year_bounds [of "y + 2"] by (smt (verit))
  have e: "year_of_day n = (if days_before_year (y + 1) \<le> k then y + 1 else y)"
    by (simp add: year_of_day_def Let_def k_def y_def)
  have "k < days_before_year (2 + y)" using high by (simp add: add.commute)
  then show ?thesis using low unfolding e k_def [symmetric] by auto
qed

lemma days_before_year_mono: "y \<le> z \<Longrightarrow> days_before_year y \<le> days_before_year z"
proof (induction z rule: int_ge_induct)
  case (step i)
  then show ?case by (simp add: days_before_year_step)
qed simp

lemma year_of_day_unique:
  assumes "days_before_year y \<le> n + epoch_offset" and "n + epoch_offset < days_before_year (y + 1)"
  shows "year_of_day n = y"
proof (rule ccontr)
  assume "year_of_day n \<noteq> y"
  then consider "year_of_day n + 1 \<le> y" | "y + 1 \<le> year_of_day n" by linarith
  then show False
  proof cases
    case 1
    then show ?thesis
      using year_of_day_bounds [of n] assms(1) days_before_year_mono [OF 1] by linarith
  next
    case 2
    then show ?thesis
      using year_of_day_bounds [of n] assms(2) days_before_year_mono [OF 2] by linarith
  qed
qed

lemma month_bounds:
  assumes "1 \<le> m" "m \<le> 12"
  shows "0 \<le> days_before_month l m" "days_before_month l (m + 1) \<le> (if l then 366 else 365)"
    "month_of_yday l (days_before_month l m + d) = m \<or> \<not> (0 \<le> d \<and> d < month_days l m)"
proof -
  have "m = 1 \<or> m = 2 \<or> m = 3 \<or> m = 4 \<or> m = 5 \<or> m = 6 \<or> m = 7 \<or> m = 8 \<or> m = 9 \<or> m = 10 \<or> m = 11 \<or> m = 12"
    using assms by presburger
  then show "0 \<le> days_before_month l m" "days_before_month l (m + 1) \<le> (if l then 366 else 365)"
    "month_of_yday l (days_before_month l m + d) = m \<or> \<not> (0 \<le> d \<and> d < month_days l m)"
    by (elim disjE; cases l; simp add: days_before_month_def month_of_yday_def month_days_def; linarith?)+
qed

lemma date_of_day_number: "valid_date y m d \<Longrightarrow> date_of_day (day_number y m d) = (y, m, d)"
proof -
  assume v: "valid_date y m d"
  let ?l = "leap_year y" and ?n = "day_number y m d"
  have m: "1 \<le> m" "m \<le> 12" and d: "1 \<le> d" "d \<le> month_days ?l m" using v by (simp_all add: valid_date_def)
  have k: "?n + epoch_offset = days_before_year y + days_before_month ?l m + (d - 1)"
    by (simp add: day_number_def)
  have "days_before_month ?l m + (d - 1) < (if ?l then 366 else 365)"
    using d month_bounds(2) [OF m, of ?l] by (simp add: month_days_def)
  then have y: "year_of_day ?n = y"
    using d month_bounds(1) [OF m, of ?l] k by (intro year_of_day_unique) (auto simp: days_before_year_step)
  have r: "?n + epoch_offset - days_before_year y = days_before_month ?l m + (d - 1)" using k by simp
  have "month_of_yday ?l (days_before_month ?l m + (d - 1)) = m"
    using month_bounds(3) [OF m, of ?l "d - 1"] d by auto
  then show ?thesis unfolding date_of_day_def Let_def y r by simp
qed

section \<open>Times\<close>

record gtime =
  t_year :: int
  t_month :: int
  t_day :: int
  t_nanos :: int
  t_zone :: int

abbreviation (input) day_ns :: int where "day_ns \<equiv> 86400000000000"
abbreviation (input) hour_ns :: int where "hour_ns \<equiv> 3600000000000"

text \<open>\<open>time.Date(y, m, d, 0, 0, 0, nanos, loc)\<close>.\<close>

definition go_date :: "int \<Rightarrow> int \<Rightarrow> int \<Rightarrow> int \<Rightarrow> int \<Rightarrow> gtime" where
  "go_date y m d nanos zone =
     (let y' = y + (m - 1) div 12; m' = (m - 1) mod 12 + 1;
          n = day_number y' m' 1 + (d - 1) + nanos div day_ns;
          (yy, mm, dd) = date_of_day n
      in \<lparr>t_year = yy, t_month = mm, t_day = dd, t_nanos = nanos mod day_ns, t_zone = zone\<rparr>)"

definition day_of :: "gtime \<Rightarrow> int" where
  "day_of t = day_number (t_year t) (t_month t) (t_day t)"

definition instant :: "gtime \<Rightarrow> int" where
  "instant t = day_of t * day_ns + t_nanos t - t_zone t * second"

definition add_date :: "gtime \<Rightarrow> int \<Rightarrow> int \<Rightarrow> int \<Rightarrow> gtime" where
  "add_date t y m d = go_date (t_year t + y) (t_month t + m) (t_day t + d) (t_nanos t) (t_zone t)"

definition after :: "gtime \<Rightarrow> gtime \<Rightarrow> bool" where
  "after a b \<longleftrightarrow> instant b < instant a"

definition before :: "gtime \<Rightarrow> gtime \<Rightarrow> bool" where
  "before a b \<longleftrightarrow> instant a < instant b"

definition time_sub :: "gtime \<Rightarrow> gtime \<Rightarrow> int" where
  "time_sub a b = instant a - instant b"

text \<open>The reading of an instant in a zone (\<open>Time.In\<close>).\<close>

definition at_zone :: "int \<Rightarrow> int \<Rightarrow> gtime" where
  "at_zone zone i =
     (let u = i + zone * second; (y, m, d) = date_of_day (u div day_ns)
      in \<lparr>t_year = y, t_month = m, t_day = d, t_nanos = u mod day_ns, t_zone = zone\<rparr>)"

definition valid_time :: "gtime \<Rightarrow> bool" where
  "valid_time t \<longleftrightarrow> valid_date (t_year t) (t_month t) (t_day t) \<and> 0 \<le> t_nanos t \<and> t_nanos t < day_ns"

lemma month_days_28: "1 \<le> m \<Longrightarrow> m \<le> 12 \<Longrightarrow> 28 \<le> month_days l m \<and> month_days l m \<le> 31"
proof -
  assume "1 \<le> m" "m \<le> 12"
  then have "m = 1 \<or> m = 2 \<or> m = 3 \<or> m = 4 \<or> m = 5 \<or> m = 6 \<or> m = 7 \<or> m = 8 \<or> m = 9 \<or> m = 10 \<or> m = 11 \<or> m = 12"
    by presburger
  then show ?thesis by (elim disjE; cases l; simp add: days_before_month_def month_days_def)
qed

text \<open>A day up to the 28th exists in every month: \<open>time.Date\<close> keeps it, and stepping over
  December carries into the year.\<close>

lemma go_date_plain:
  assumes "1 \<le> m" "m \<le> 12" "1 \<le> d" "d \<le> month_days (leap_year y) m" "0 \<le> ns" "ns < day_ns"
  shows "go_date y m d ns z = \<lparr>t_year = y, t_month = m, t_day = d, t_nanos = ns, t_zone = z\<rparr>"
proof -
  have e: "(m - 1) div 12 = 0" "(m - 1) mod 12 + 1 = m" using assms by (simp_all add: div_pos_pos_trivial)
  have n: "ns div day_ns = 0" "ns mod day_ns = ns" using assms by (simp_all add: div_pos_pos_trivial)
  have "day_number y m 1 + (d - 1) = day_number y m d" by (simp add: day_number_def)
  moreover have "date_of_day (day_number y m d) = (y, m, d)"
    using assms by (intro date_of_day_number) (simp add: valid_date_def)
  ultimately show ?thesis unfolding go_date_def Let_def e n by simp
qed

lemma go_date_28:
  assumes "1 \<le> m" "m \<le> 12" "1 \<le> d" "d \<le> 28" "0 \<le> ns" "ns < day_ns"
  shows "go_date y m d ns z = \<lparr>t_year = y, t_month = m, t_day = d, t_nanos = ns, t_zone = z\<rparr>"
  using assms month_days_28 [of m "leap_year y"] by (intro go_date_plain) auto

lemma go_date_next_month:
  assumes "1 \<le> m" "m \<le> 12" "1 \<le> d" "d \<le> 28" "0 \<le> ns" "ns < day_ns"
  shows "go_date y (m + 1) d ns z =
    \<lparr>t_year = (if m = 12 then y + 1 else y), t_month = (if m = 12 then 1 else m + 1), t_day = d,
      t_nanos = ns, t_zone = z\<rparr>"
proof (cases "m = 12")
  case True
  have "go_date y 13 d ns z = go_date (y + 1) 1 d ns z" by (simp add: go_date_def)
  then show ?thesis using True assms go_date_28 [of 1 d ns "y + 1" z] by simp
next
  case False
  then show ?thesis using assms go_date_28 [of "m + 1" d ns y z] by simp
qed

lemma day_number_next_month:
  "1 \<le> m \<Longrightarrow> m \<le> 12 \<Longrightarrow>
   day_number (if m = 12 then y + 1 else y) (if m = 12 then 1 else m + 1) d
     = day_number y m d + month_days (leap_year y) m"
  by (auto simp: day_number_def month_days_def days_before_year_step)
    (auto simp: days_before_month_def)

lemma instant_same_zone:
  assumes "t_zone a = t_zone b" "valid_time a" "valid_time b"
  shows "instant a \<le> instant b \<longleftrightarrow> day_of a < day_of b \<or> (day_of a = day_of b \<and> t_nanos a \<le> t_nanos b)"
  using assms unfolding instant_def valid_time_def by (smt (verit))

end
