(* ===== verification/Settings.thy ===== *)
theory Settings
  imports GoTime Complex_Main
begin

text \<open>
  Tenant settings: \<open>store/jobs_settings.go\<close> (which worker tasks run and when, the
  \<open>HH:MM\<close> notify times) and \<open>store/general_settings.go\<close> (billing days, grace, late fee,
  wallet).  Both settings are normalised when stored and when read; the two
  normalisation routines and their parts are interpretations of the contract
  \<open>normaliser\<close>.  Whether a time zone name is known (\<open>time.LoadLocation\<close>) is a parameter.
\<close>

section \<open>Notify times\<close>

text \<open>The loop of \<open>ParseNotifyTime\<close> keeps digits and reads both \<open>:\<close> and \<open>.\<close> as \<open>:\<close>.\<close>

fun notify_chars :: "string \<Rightarrow> string" where
  "notify_chars [] = []"
| "notify_chars (c # cs) =
     (if is_digit c then c # notify_chars cs
      else if c = CHR '':'' \<or> c = CHR ''.'' then CHR '':'' # notify_chars cs
      else notify_chars cs)"

fun split_notify_loop :: "string \<Rightarrow> string \<Rightarrow> string list" where
  "split_notify_loop cur [] = [cur]"
| "split_notify_loop cur (c # cs) =
     (if c = CHR '':'' then cur # split_notify_loop [] cs else split_notify_loop (cur @ [c]) cs)"

definition split_notify_time :: "string \<Rightarrow> string list" where
  "split_notify_time s = split_notify_loop [] s"

text \<open>\<open>atoiNotify\<close>: an \<open>int\<close> that wraps, an error on the empty string or a non-digit.\<close>

fun atoi_notify_loop :: "int \<Rightarrow> string \<Rightarrow> int option" where
  "atoi_notify_loop n [] = Some n"
| "atoi_notify_loop n (c # cs) =
     (if is_digit c then atoi_notify_loop (wrap64 (n * 10 + (of_char c - 48))) cs else None)"

definition atoi_notify :: "string \<Rightarrow> int option" where
  "atoi_notify s = (if s = [] then None else atoi_notify_loop 0 s)"

definition parse_notify_time :: "string \<Rightarrow> (int \<times> int) option" where
  "parse_notify_time raw =
     (case split_notify_time (notify_chars raw) of
        [a, b] \<Rightarrow>
          (case (atoi_notify a, atoi_notify b) of
             (Some h, Some m) \<Rightarrow> if h < 0 \<or> 23 < h \<or> m < 0 \<or> 59 < m then None else Some (h, m)
           | _ \<Rightarrow> None)
      | _ \<Rightarrow> None)"

definition digit_char :: "int \<Rightarrow> char" where
  "digit_char n = char_of (48 + n)"

definition two_digits :: "int \<Rightarrow> string" where
  "two_digits n = (if n < 10 then [CHR ''0'', digit_char n] else [digit_char (go_div n 10), digit_char (go_mod n 10)])"

definition format_notify_time :: "int \<Rightarrow> int \<Rightarrow> string" where
  "format_notify_time h m = two_digits h @ '':'' @ two_digits m"

definition normalize_notify_time :: "string \<Rightarrow> string \<Rightarrow> string" where
  "normalize_notify_time raw fallback =
     (case parse_notify_time raw of
        Some (h, m) \<Rightarrow> format_notify_time h m
      | None \<Rightarrow>
          (case parse_notify_time fallback of
             Some (h, m) \<Rightarrow> format_notify_time h m
           | None \<Rightarrow> ''08:00''))"

definition scheduled_at_for_notify_time :: "gtime \<Rightarrow> string \<Rightarrow> gtime option" where
  "scheduled_at_for_notify_time now hhmm =
     (case parse_notify_time hhmm of
        None \<Rightarrow> None
      | Some (h, m) \<Rightarrow>
          let slot = go_date (t_year now) (t_month now) (t_day now) ((h * 60 + m) * minute) (t_zone now)
          in if before now slot then Some slot else None)"

definition past_notify_time :: "gtime \<Rightarrow> string \<Rightarrow> bool" where
  "past_notify_time now hhmm \<longleftrightarrow> scheduled_at_for_notify_time now hhmm = None"

section \<open>Job settings\<close>

record job_settings =
  js_billing :: bool
  js_isolir :: bool
  js_dunning :: bool
  js_offsets :: "int list"
  js_dunning_time :: string
  js_isolir_time :: string
  js_issued_time :: string
  js_odp :: bool
  js_weekly :: bool
  js_weekday :: int
  js_weekly_hour :: int
  js_monthly :: bool
  js_month_day :: int
  js_month_hour :: int
  js_batch :: int
  js_retention :: int
  js_cycle :: int
  js_poller :: int

definition default_job_settings :: job_settings where
  "default_job_settings = \<lparr>js_billing = True, js_isolir = True, js_dunning = True,
     js_offsets = [-7, -3, 0, 1, 3], js_dunning_time = ''08:00'', js_isolir_time = ''08:00'',
     js_issued_time = ''08:00'', js_odp = False, js_weekly = True, js_weekday = 0, js_weekly_hour = 3,
     js_monthly = True, js_month_day = 1, js_month_hour = 8, js_batch = 100, js_retention = 0,
     js_cycle = 60, js_poller = 300\<rparr>"

text \<open>An out-of-range value falls back to the default.\<close>

definition or_default :: "int \<Rightarrow> int \<Rightarrow> int \<Rightarrow> int \<Rightarrow> int" where
  "or_default lo hi d x = (if x < lo \<or> hi < x then d else x)"

text \<open>Below \<open>lo\<close> the default, above \<open>hi\<close> the limit.\<close>

definition default_or_cap :: "int \<Rightarrow> int \<Rightarrow> int \<Rightarrow> int \<Rightarrow> int" where
  "default_or_cap lo hi d x =
     (let y = (if x < lo then d else x) in if hi < y then hi else y)"

text \<open>Seconds snapped down to whole minutes.\<close>

definition snap_minutes :: "int \<Rightarrow> int \<Rightarrow> int" where
  "snap_minutes low x =
     (if go_mod x 60 \<noteq> 0
      then let y = x - go_mod x 60 in if y < 60 then low else y
      else x)"

fun dedup_offsets :: "int list \<Rightarrow> int list \<Rightarrow> int list" where
  "dedup_offsets seen [] = []"
| "dedup_offsets seen (d # ds) =
     (if d < -30 \<or> 30 < d \<or> d \<in> set seen then dedup_offsets seen ds
      else d # dedup_offsets (d # seen) ds)"

definition normalize_offsets :: "int list \<Rightarrow> int list" where
  "normalize_offsets os =
     (let os1 = (if os = [] then js_offsets default_job_settings else os);
          kept = dedup_offsets [] os1
      in if kept = [] then js_offsets default_job_settings else kept)"

definition normalize_job_settings :: "job_settings \<Rightarrow> job_settings" where
  "normalize_job_settings cfg =
     (let def = default_job_settings in cfg\<lparr>
        js_offsets := normalize_offsets (js_offsets cfg),
        js_dunning_time := normalize_notify_time (js_dunning_time cfg) (js_dunning_time def),
        js_isolir_time := normalize_notify_time (js_isolir_time cfg) (js_isolir_time def),
        js_issued_time := normalize_notify_time (js_issued_time cfg) (js_issued_time def),
        js_odp := False,
        js_weekday := or_default 0 6 (js_weekday def) (js_weekday cfg),
        js_weekly_hour := or_default 0 23 (js_weekly_hour def) (js_weekly_hour cfg),
        js_month_day := or_default 1 28 (js_month_day def) (js_month_day cfg),
        js_month_hour := or_default 0 23 (js_month_hour def) (js_month_hour cfg),
        js_batch := default_or_cap 1 500 (js_batch def) (js_batch cfg),
        js_retention := default_or_cap 0 365 (js_retention def) (js_retention cfg),
        js_cycle := snap_minutes 60 (default_or_cap 60 3600 (js_cycle def) (js_cycle cfg)),
        js_poller := snap_minutes (js_poller def) (default_or_cap 60 3600 (js_poller def) (js_poller cfg))\<rparr>)"

section \<open>General settings\<close>

record general_settings =
  gs_timezone :: string
  gs_tax :: rat
  gs_color :: string
  gs_grace :: int
  gs_cycle_day :: int
  gs_due_day :: int
  gs_late_fee :: rat
  gs_wallet :: bool
  gs_min_topup :: int
  gs_admin_tag :: string
  gs_portal_tag :: string
  gs_about :: string
  gs_product :: string
  gs_email :: string
  gs_phone :: string
  gs_address :: string

definition default_general_settings :: general_settings where
  "default_general_settings = \<lparr>gs_timezone = ''Asia/Jakarta'', gs_tax = 0, gs_color = [], gs_grace = 0,
     gs_cycle_day = 1, gs_due_day = 10, gs_late_fee = 5, gs_wallet = False, gs_min_topup = 10000,
     gs_admin_tag = [], gs_portal_tag = [], gs_about = [], gs_product = [], gs_email = [],
     gs_phone = [], gs_address = []\<rparr>"

definition clamp_due_day :: "int \<Rightarrow> int \<Rightarrow> int" where
  "clamp_due_day day d =
     (if day < 1 then (if d < 1 \<or> 28 < d then 1 else d) else if 28 < day then 28 else day)"

definition is_hex :: "char \<Rightarrow> bool" where
  "is_hex c \<longleftrightarrow> is_digit c \<or> char_up c \<in> {CHR ''A'', CHR ''B'', CHR ''C'', CHR ''D'', CHR ''E'', CHR ''F''}"

text \<open>The regular expression \<open>(?i)^#?[0-9A-F]{6}$\<close>.\<close>

definition hex_color :: "string \<Rightarrow> bool" where
  "hex_color s \<longleftrightarrow>
     (let t = (case s of c # cs \<Rightarrow> if c = CHR ''#'' then cs else s | [] \<Rightarrow> s)
      in length t = 6 \<and> list_all is_hex t)"

definition normalize_hex_color :: "string \<Rightarrow> string" where
  "normalize_hex_color s0 =
     (let s = trim_space s0 in
      if s = [] then [] else if \<not> hex_color s then []
      else let t = (if hd s \<noteq> CHR ''#'' then CHR ''#'' # s else s) in CHR ''#'' # to_upper (tl t))"

definition default_admin_tagline :: string where "default_admin_tagline = ''ISP Billing''"
definition default_portal_tagline :: string where "default_portal_tagline = ''Portal pelanggan''"
definition max_tagline :: nat where "max_tagline = 60"

definition normalize_tagline :: "string \<Rightarrow> string \<Rightarrow> string" where
  "normalize_tagline s0 d =
     (let s = trim_space s0 in
      if s = [] then d
      else if max_tagline < length s then trim_space (take max_tagline s) else s)"

text \<open>A percentage held between 0 and 100.\<close>

definition clamp_percent :: "rat \<Rightarrow> rat" where
  "clamp_percent p = (let q = (if p < 0 then 0 else p) in if 100 < q then 100 else q)"

definition clamp_grace :: "int \<Rightarrow> int" where
  "clamp_grace x = (let y = (if x < 0 then 0 else x) in if 30 < y then 30 else y)"

definition normalize_timezone :: "(string \<Rightarrow> bool) \<Rightarrow> string \<Rightarrow> string" where
  "normalize_timezone known z0 =
     (let d = gs_timezone default_general_settings; z = trim_space z0; z = (if z = [] then d else z)
      in if known z then z else d)"

definition normalize_general_settings :: "(string \<Rightarrow> bool) \<Rightarrow> general_settings \<Rightarrow> general_settings" where
  "normalize_general_settings known g =
     (let def = default_general_settings in g\<lparr>
        gs_timezone := normalize_timezone known (gs_timezone g),
        gs_tax := clamp_percent (gs_tax g),
        gs_color := normalize_hex_color (gs_color g),
        gs_grace := clamp_grace (gs_grace g),
        gs_cycle_day := default_or_cap 1 28 (gs_cycle_day def) (gs_cycle_day g),
        gs_due_day := clamp_due_day (gs_due_day g) (gs_due_day def),
        gs_late_fee := clamp_percent (gs_late_fee g),
        gs_min_topup := default_or_cap 1000 100000000 (gs_min_topup def) (gs_min_topup g),
        gs_about := trim_space (gs_about g),
        gs_product := trim_space (gs_product g),
        gs_email := trim_space (gs_email g),
        gs_phone := trim_space (gs_phone g),
        gs_address := trim_space (gs_address g),
        gs_admin_tag := normalize_tagline (gs_admin_tag g) default_admin_tagline,
        gs_portal_tag := normalize_tagline (gs_portal_tag g) default_portal_tagline\<rparr>)"

section \<open>Notify times: parsing and printing\<close>

lemma digit_char_props:
  assumes "0 \<le> d" "d \<le> 9"
  shows "(of_char (digit_char d) :: int) = 48 + d" and "is_digit (digit_char d)" and "digit_char d \<noteq> CHR '':''"
proof -
  have e: "(of_char (digit_char d) :: int) = 48 + d" using assms by (simp add: digit_char_def)
  have "(of_char (digit_char d) :: nat) = 48 + nat d"
    using e assms by (metis add_diff_cancel_left' nat_add_distrib nat_eq_iff2 of_nat_of_char zero_le_numeral nat_numeral nat_int)
  then show "is_digit (digit_char d)" using assms by (simp add: is_digit_def)
  show "digit_char d \<noteq> CHR '':''" using e assms by auto
  show "(of_char (digit_char d) :: int) = 48 + d" by (rule e)
qed

lemma two_digits_split:
  assumes "0 \<le> n" "n \<le> 99"
  shows "two_digits n = [digit_char (n div 10), digit_char (n mod 10)]"
proof (cases "n < 10")
  case True
  then have "n div 10 = 0" "n mod 10 = n" using assms by simp_all
  moreover have "CHR ''0'' = digit_char 0" by code_simp
  ultimately show ?thesis using True by (simp add: two_digits_def)
next
  case False
  then show ?thesis using assms by (simp add: two_digits_def go_div_nonneg go_mod_nonneg)
qed

lemma atoi_two_digits:
  assumes "0 \<le> n" "n \<le> 99"
  shows "atoi_notify (two_digits n) = Some n"
proof -
  have r: "0 \<le> n div 10" "n div 10 \<le> 9" "0 \<le> n mod 10" "n mod 10 \<le> 9" using assms by auto
  have "int64_ok (n div 10)" "int64_ok (n div 10 * 10 + n mod 10)"
    using r by (auto intro!: int64_ok_small)
  then show ?thesis using r digit_char_props [OF r(1,2)] digit_char_props [OF r(3,4)]
    by (simp add: two_digits_split [OF assms] atoi_notify_def)
qed

lemma parse_format_notify_time:
  assumes "0 \<le> h" "h \<le> 23" "0 \<le> m" "m \<le> 59"
  shows "parse_notify_time (format_notify_time h m) = Some (h, m)"
proof -
  have r: "0 \<le> h div 10" "h div 10 \<le> 9" "0 \<le> h mod 10" "h mod 10 \<le> 9"
    "0 \<le> m div 10" "m div 10 \<le> 9" "0 \<le> m mod 10" "m mod 10 \<le> 9" using assms by auto
  have hh: "two_digits h = [digit_char (h div 10), digit_char (h mod 10)]"
    and mm: "two_digits m = [digit_char (m div 10), digit_char (m mod 10)]"
    using assms by (simp_all add: two_digits_split)
  have colon: "\<not> is_digit CHR '':''" by (simp add: is_digit_def)
  have "notify_chars (format_notify_time h m) = format_notify_time h m"
    using digit_char_props [OF r(1,2)] digit_char_props [OF r(3,4)] digit_char_props [OF r(5,6)] digit_char_props [OF r(7,8)]
    by (simp add: format_notify_time_def hh mm colon)
  moreover have "split_notify_time (format_notify_time h m) = [two_digits h, two_digits m]"
    using digit_char_props [OF r(1,2)] digit_char_props [OF r(3,4)] digit_char_props [OF r(5,6)] digit_char_props [OF r(7,8)]
    by (simp add: format_notify_time_def split_notify_time_def hh mm)
  ultimately show ?thesis using assms by (simp add: parse_notify_time_def atoi_two_digits)
qed

lemma parse_notify_time_range:
  "parse_notify_time s = Some (h, m) \<Longrightarrow> 0 \<le> h \<and> h \<le> 23 \<and> 0 \<le> m \<and> m \<le> 59"
  by (auto simp: parse_notify_time_def split: list.splits option.splits if_splits)

definition notify_clean :: "string \<Rightarrow> bool" where
  "notify_clean s = (case parse_notify_time s of None \<Rightarrow> False | Some (h, m) \<Rightarrow> s = format_notify_time h m)"

lemma notify_clean_format: "0 \<le> h \<Longrightarrow> h \<le> 23 \<Longrightarrow> 0 \<le> m \<Longrightarrow> m \<le> 59 \<Longrightarrow> notify_clean (format_notify_time h m)"
  by (simp add: notify_clean_def parse_format_notify_time)

lemma notify_clean_0800 [simp]: "notify_clean ''08:00''"
  by code_simp

interpretation notify_norm: normaliser "\<lambda>s. normalize_notify_time s fb" notify_clean
proof unfold_locales
  fix x
  show "notify_clean (normalize_notify_time x fb)"
    by (auto simp: normalize_notify_time_def split: option.split dest!: parse_notify_time_range intro: notify_clean_format)
  show "normalize_notify_time x fb = x" if "notify_clean x"
    using that by (auto simp: notify_clean_def normalize_notify_time_def split: option.splits)
qed

section \<open>Job settings: what normalisation promises\<close>

lemma dedup_offsets_mem: "x \<in> set (dedup_offsets seen os) \<longleftrightarrow> x \<in> set os \<and> -30 \<le> x \<and> x \<le> 30 \<and> x \<notin> set seen"
proof (induction seen os rule: dedup_offsets.induct)
  case (2 seen d ds)
  show ?case
  proof (cases "d < -30 \<or> 30 < d \<or> d \<in> set seen")
    case True
    then show ?thesis using "2.IH"(1) by fastforce
  next
    case False
    then show ?thesis using "2.IH"(2) by fastforce
  qed
qed simp

lemma dedup_offsets_distinct: "distinct (dedup_offsets seen os)"
  by (induction seen os rule: dedup_offsets.induct) (simp_all add: dedup_offsets_mem)

lemma dedup_offsets_id:
  "distinct os \<Longrightarrow> (\<forall>d\<in>set os. -30 \<le> d \<and> d \<le> 30) \<Longrightarrow> set os \<inter> set seen = {} \<Longrightarrow> dedup_offsets seen os = os"
  by (induction seen os rule: dedup_offsets.induct) auto

definition offsets_clean :: "int list \<Rightarrow> bool" where
  "offsets_clean os \<longleftrightarrow> os \<noteq> [] \<and> distinct os \<and> (\<forall>d\<in>set os. -30 \<le> d \<and> d \<le> 30)"

interpretation offsets_norm: normaliser normalize_offsets offsets_clean
proof unfold_locales
  fix x
  show "offsets_clean (normalize_offsets x)"
    by (auto simp: normalize_offsets_def Let_def offsets_clean_def dedup_offsets_distinct dedup_offsets_mem
        default_job_settings_def)
  show "normalize_offsets x = x" if "offsets_clean x"
    using that dedup_offsets_id [of x "[]"] by (simp add: normalize_offsets_def offsets_clean_def)
qed

definition job_clean :: "job_settings \<Rightarrow> bool" where
  "job_clean c \<longleftrightarrow> offsets_clean (js_offsets c) \<and> notify_clean (js_dunning_time c)
     \<and> notify_clean (js_isolir_time c) \<and> notify_clean (js_issued_time c) \<and> \<not> js_odp c
     \<and> 0 \<le> js_weekday c \<and> js_weekday c \<le> 6 \<and> 0 \<le> js_weekly_hour c \<and> js_weekly_hour c \<le> 23
     \<and> 1 \<le> js_month_day c \<and> js_month_day c \<le> 28 \<and> 0 \<le> js_month_hour c \<and> js_month_hour c \<le> 23
     \<and> 1 \<le> js_batch c \<and> js_batch c \<le> 500 \<and> 0 \<le> js_retention c \<and> js_retention c \<le> 365
     \<and> 60 \<le> js_cycle c \<and> js_cycle c \<le> 3600 \<and> 60 dvd js_cycle c
     \<and> 60 \<le> js_poller c \<and> js_poller c \<le> 3600 \<and> 60 dvd js_poller c"

lemma snap_minutes_range:
  assumes "60 \<le> x" "x \<le> 3600"
  shows "60 \<le> snap_minutes low x" and "snap_minutes low x \<le> x" and "60 dvd snap_minutes low x"
proof -
  have m: "0 \<le> x mod 60" "x mod 60 < 60" by simp_all
  have e: "x = 60 * (x div 60) + x mod 60" by simp
  have q: "1 \<le> x div 60" using assms by auto
  have ge: "60 \<le> x - x mod 60" using e q by linarith
  have d: "60 dvd x - x mod 60" by (metis dvd_minus_mod)
  show "60 \<le> snap_minutes low x" "snap_minutes low x \<le> x" "60 dvd snap_minutes low x"
    using assms ge d m by (auto simp: snap_minutes_def go_mod_nonneg Let_def)
qed

lemma snap_minutes_id: "60 \<le> x \<Longrightarrow> 60 dvd x \<Longrightarrow> snap_minutes low x = x"
  by (simp add: snap_minutes_def go_mod_nonneg)

lemma default_or_cap_range: "lo \<le> d \<Longrightarrow> d \<le> hi \<Longrightarrow> lo \<le> default_or_cap lo hi d x \<and> default_or_cap lo hi d x \<le> hi"
  by (auto simp: default_or_cap_def Let_def)

lemma default_or_cap_id: "lo \<le> x \<Longrightarrow> x \<le> hi \<Longrightarrow> default_or_cap lo hi d x = x"
  by (simp add: default_or_cap_def)

interpretation job_norm: normaliser normalize_job_settings job_clean
proof unfold_locales
  fix x
  show "job_clean (normalize_job_settings x)"
    using default_or_cap_range [of 1 100 500 "js_batch x"] default_or_cap_range [of 0 0 365 "js_retention x"]
      default_or_cap_range [of 60 60 3600 "js_cycle x"] default_or_cap_range [of 60 300 3600 "js_poller x"]
      snap_minutes_range [of "default_or_cap 60 3600 60 (js_cycle x)" 60]
      snap_minutes_range [of "default_or_cap 60 3600 300 (js_poller x)" 300]
      offsets_norm.norm_clean notify_norm.norm_clean
    by (auto simp: job_clean_def normalize_job_settings_def default_job_settings_def or_default_def Let_def)
  show "normalize_job_settings x = x" if "job_clean x"
    using that notify_norm.clean_fixed offsets_norm.clean_fixed
    by (auto simp: job_clean_def normalize_job_settings_def default_job_settings_def or_default_def
        default_or_cap_id snap_minutes_id Let_def)
qed

section \<open>General settings: what normalisation promises\<close>

lemma clamp_due_day_range: "1 \<le> clamp_due_day day d \<and> clamp_due_day day d \<le> 28"
  by (auto simp: clamp_due_day_def)

lemma clamp_due_day_id: "1 \<le> day \<Longrightarrow> day \<le> 28 \<Longrightarrow> clamp_due_day day d = day"
  by (simp add: clamp_due_day_def)

definition color_clean :: "string \<Rightarrow> bool" where
  "color_clean s \<longleftrightarrow> s = [] \<or> (hd s = CHR ''#'' \<and> length s = 7 \<and> list_all (\<lambda>c. is_hex c \<and> \<not> is_lower c) (tl s))"

lemma is_hex_up: "is_hex (char_up c) = is_hex c"
  by (auto simp: is_hex_def char_up_def is_digit_def is_lower_def)

lemma hex_not_space: "is_hex c \<Longrightarrow> \<not> is_space c"
  by (auto simp: is_hex_def is_space_def is_digit_def char_up_def is_lower_def Let_def split: if_splits)

interpretation color_norm: normaliser normalize_hex_color color_clean
proof unfold_locales
  fix x
  show "color_clean (normalize_hex_color x)"
  proof (cases "trim_space x = [] \<or> \<not> hex_color (trim_space x)")
    case True
    then show ?thesis by (auto simp: normalize_hex_color_def color_clean_def Let_def)
  next
    case False
    define t where "t = (if hd (trim_space x) \<noteq> CHR ''#'' then trim_space x else tl (trim_space x))"
    have "length t = 6" "list_all is_hex t"
      using False by (auto simp: hex_color_def t_def Let_def split: list.splits if_splits)
    moreover have "normalize_hex_color x = CHR ''#'' # to_upper t"
      using False by (simp add: normalize_hex_color_def t_def)
    moreover have "\<not> is_lower c" if "c \<in> set (to_upper t)" for c
      using upper_norm.norm_clean that by blast
    ultimately show ?thesis
      by (auto simp: color_clean_def list_all_iff to_upper_def is_hex_up)
  qed
  show "normalize_hex_color x = x" if c: "color_clean x"
  proof (cases "x = []")
    case False
    with c obtain t where x: "x = CHR ''#'' # t" "length t = 6" "list_all (\<lambda>c. is_hex c \<and> \<not> is_lower c) t"
      by (cases x) (auto simp: color_clean_def)
    then have ne: "t \<noteq> []" by auto
    then have "is_hex (last t)" using x(3) by (simp add: list_all_iff)
    then have "trim_space x = x"
      using x ne hex_not_space by (intro trim_space_id) (simp add: is_space_def)
    moreover have "hex_color x" using x by (auto simp: hex_color_def list_all_iff)
    moreover have "to_upper t = t" using x(3) by (intro upper_norm.clean_fixed) (simp add: list_all_iff)
    ultimately show ?thesis using x by (simp add: normalize_hex_color_def)
  qed (simp add: normalize_hex_color_def)
qed

definition trimmed :: "string \<Rightarrow> bool" where
  "trimmed s \<longleftrightarrow> s = [] \<or> (\<not> is_space (hd s) \<and> \<not> is_space (last s))"

definition tagline_clean :: "string \<Rightarrow> bool" where
  "tagline_clean s \<longleftrightarrow> s \<noteq> [] \<and> length s \<le> max_tagline \<and> trimmed s"

lemma trim_space_nonempty: "s \<noteq> [] \<Longrightarrow> \<not> is_space (hd s) \<Longrightarrow> trim_space s \<noteq> []"
proof
  assume a: "s \<noteq> []" "\<not> is_space (hd s)" "trim_space s = []"
  then have "dropWhile is_space (rev s) = []"
    by (simp add: trim_space_def trim_by_def trim_right_def trim_left_def dropWhile_hd_false)
  then have "\<forall>c\<in>set s. is_space c" by (simp add: dropWhile_eq_Nil_conv)
  then show False using a by (cases s) auto
qed

lemma normalize_tagline_clean:
  assumes d: "tagline_clean d"
  shows "tagline_clean (normalize_tagline x d)"
proof (cases "trim_space x = []")
  case False
  let ?s = "trim_space x" and ?t = "take max_tagline (trim_space x)"
  have tr: "trimmed ?s" "trimmed (trim_space ?t)"
    unfolding trimmed_def using trim_norm.norm_clean by blast+
  have "?t \<noteq> []" "hd ?t = hd ?s" using False by (simp_all add: max_tagline_def hd_take)
  then have "trim_space ?t \<noteq> []" using tr(1) False by (intro trim_space_nonempty) (auto simp: trimmed_def)
  moreover have "length (trim_space ?t) \<le> max_tagline"
    using trim_by_length [of is_space ?t] by (simp add: trim_space_def)
  ultimately show ?thesis using False tr by (auto simp: normalize_tagline_def tagline_clean_def Let_def)
qed (use d in \<open>simp add: normalize_tagline_def\<close>)

lemma default_taglines_clean: "tagline_clean default_admin_tagline" "tagline_clean default_portal_tagline"
  by code_simp+

interpretation admin_tag_norm: normaliser "\<lambda>s. normalize_tagline s default_admin_tagline" tagline_clean
  by unfold_locales
    (auto simp: normalize_tagline_clean default_taglines_clean,
     auto simp: normalize_tagline_def tagline_clean_def trimmed_def trim_norm.clean_fixed)

interpretation portal_tag_norm: normaliser "\<lambda>s. normalize_tagline s default_portal_tagline" tagline_clean
  by unfold_locales
    (auto simp: normalize_tagline_clean default_taglines_clean,
     auto simp: normalize_tagline_def tagline_clean_def trimmed_def trim_norm.clean_fixed)

definition timezone_clean :: "(string \<Rightarrow> bool) \<Rightarrow> string \<Rightarrow> bool" where
  "timezone_clean known z \<longleftrightarrow> z = gs_timezone default_general_settings \<or> (z \<noteq> [] \<and> known z \<and> trimmed z)"

interpretation timezone_norm: normaliser "normalize_timezone known" "timezone_clean known"
proof unfold_locales
  fix x
  have tr: "trimmed (trim_space x)" unfolding trimmed_def using trim_norm.norm_clean by blast
  then show "timezone_clean known (normalize_timezone known x)"
    by (auto simp: normalize_timezone_def timezone_clean_def Let_def)
  have d: "trim_space (gs_timezone default_general_settings) = gs_timezone default_general_settings" by code_simp
  show "normalize_timezone known x = x" if "timezone_clean known x"
    using that trim_norm.clean_fixed [of x] d
    by (auto simp: normalize_timezone_def timezone_clean_def trimmed_def Let_def)
qed

definition general_clean :: "(string \<Rightarrow> bool) \<Rightarrow> general_settings \<Rightarrow> bool" where
  "general_clean known g \<longleftrightarrow> timezone_clean known (gs_timezone g) \<and> color_clean (gs_color g)
     \<and> 0 \<le> gs_tax g \<and> gs_tax g \<le> 100 \<and> 0 \<le> gs_late_fee g \<and> gs_late_fee g \<le> 100
     \<and> 0 \<le> gs_grace g \<and> gs_grace g \<le> 30 \<and> 1 \<le> gs_cycle_day g \<and> gs_cycle_day g \<le> 28
     \<and> 1 \<le> gs_due_day g \<and> gs_due_day g \<le> 28 \<and> 1000 \<le> gs_min_topup g \<and> gs_min_topup g \<le> 100000000
     \<and> tagline_clean (gs_admin_tag g) \<and> tagline_clean (gs_portal_tag g)
     \<and> trimmed (gs_about g) \<and> trimmed (gs_product g) \<and> trimmed (gs_email g) \<and> trimmed (gs_phone g)
     \<and> trimmed (gs_address g)"

interpretation general_norm: normaliser "normalize_general_settings known" "general_clean known"
proof unfold_locales
  fix x
  have tr: "trimmed (trim_space s)" for s unfolding trimmed_def using trim_norm.norm_clean by blast
  show "general_clean known (normalize_general_settings known x)"
    using default_or_cap_range [of 1 1 28 "gs_cycle_day x"] clamp_due_day_range [of "gs_due_day x" 10]
      default_or_cap_range [of 1000 10000 100000000 "gs_min_topup x"]
      timezone_norm.norm_clean [of known "gs_timezone x"] color_norm.norm_clean [of "gs_color x"]
      admin_tag_norm.norm_clean [of "gs_admin_tag x"] portal_tag_norm.norm_clean [of "gs_portal_tag x"]
    by (simp add: general_clean_def normalize_general_settings_def Let_def tr clamp_percent_def clamp_grace_def
        default_general_settings_def)
  have tri: "trim_space s = s" if "trimmed s" for s using that trim_norm.clean_fixed unfolding trimmed_def by blast
  show "normalize_general_settings known x = x" if "general_clean known x"
    using that
    by (simp add: general_clean_def normalize_general_settings_def Let_def tri clamp_percent_def clamp_grace_def
        default_or_cap_id clamp_due_day_id timezone_norm.clean_fixed color_norm.clean_fixed
        admin_tag_norm.clean_fixed portal_tag_norm.clean_fixed)
qed

section \<open>Properties\<close>

text \<open>printing a time of day and parsing it gives it back, for exactly the times of a day; what
  normalisation stores is such a printed time, and normalising again changes nothing.\<close>

theorem notify_time_roundtrip:
  "(parse_notify_time (format_notify_time h m) = Some (h, m) \<longleftrightarrow> 0 \<le> h \<and> h \<le> 23 \<and> 0 \<le> m \<and> m \<le> 59)
   \<and> (\<exists>h' m'. parse_notify_time (normalize_notify_time raw fb) = Some (h', m')
        \<and> normalize_notify_time raw fb = format_notify_time h' m')
   \<and> normalize_notify_time (normalize_notify_time raw fb) fb' = normalize_notify_time raw fb"
proof (intro conjI)
  show "parse_notify_time (format_notify_time h m) = Some (h, m) \<longleftrightarrow> 0 \<le> h \<and> h \<le> 23 \<and> 0 \<le> m \<and> m \<le> 59"
    using parse_format_notify_time parse_notify_time_range by blast
  have c: "notify_clean (normalize_notify_time raw fb)" by (rule notify_norm.norm_clean)
  then show "\<exists>h' m'. parse_notify_time (normalize_notify_time raw fb) = Some (h', m')
        \<and> normalize_notify_time raw fb = format_notify_time h' m'"
    by (auto simp: notify_clean_def split: option.splits)
  show "normalize_notify_time (normalize_notify_time raw fb) fb' = normalize_notify_time raw fb"
    using c by (rule notify_norm.clean_fixed)
qed

text \<open>a notification is held back exactly while the tenant's wall clock has not reached the
  configured time of the day; an unreadable time never holds it back.\<close>

theorem past_notify_time_wall_clock:
  assumes "valid_time now"
  shows "past_notify_time now hhmm \<longleftrightarrow>
    (case parse_notify_time hhmm of None \<Rightarrow> True | Some (h, m) \<Rightarrow> (h * 60 + m) * minute \<le> t_nanos now)"
proof (cases "parse_notify_time hhmm")
  case (Some hm)
  then obtain h m where p: "parse_notify_time hhmm = Some (h, m)" by (cases hm) auto
  note r = parse_notify_time_range [OF p]
  have ns: "0 \<le> (h * 60 + m) * minute" "(h * 60 + m) * minute < day_ns" using r by auto
  have v: "1 \<le> t_month now" "t_month now \<le> 12" "1 \<le> t_day now" "t_day now \<le> month_days (leap_year (t_year now)) (t_month now)"
    using assms by (auto simp: valid_time_def valid_date_def)
  have "go_date (t_year now) (t_month now) (t_day now) ((h * 60 + m) * minute) (t_zone now)
      = now\<lparr>t_nanos := (h * 60 + m) * minute\<rparr>"
    using go_date_plain [OF v ns, of "t_zone now"] by (cases now) simp
  then show ?thesis
    by (auto simp: past_notify_time_def scheduled_at_for_notify_time_def p before_def instant_def day_of_def Let_def)
qed (simp add: past_notify_time_def scheduled_at_for_notify_time_def)

lemma past_notify_time_wall_clock_witness:
  "let now = \<lparr>t_year = 2026, t_month = 2, t_day = 28, t_nanos = 28800000000000, t_zone = 25200\<rparr>
   in past_notify_time now ''08:00'' \<and> \<not> past_notify_time now ''8.01'' \<and> past_notify_time now ''0830''"
proof -
  let ?now = "\<lparr>t_year = 2026, t_month = 2, t_day = 28, t_nanos = 28800000000000, t_zone = 25200\<rparr>"
  have v: "valid_time ?now" by code_simp
  have "parse_notify_time ''08:00'' = Some (8, 0)" "parse_notify_time ''8.01'' = Some (8, 1)"
    "parse_notify_time ''0830'' = None" by code_simp+
  then show ?thesis using past_notify_time_wall_clock [OF v] by simp
qed

text \<open>stored job settings are always in range (offsets distinct and within thirty days, hours,
  days, batch sizes and intervals within their limits, intervals in whole minutes), and
  normalising settings that are already in range changes nothing.\<close>

theorem job_settings_normalised:
  "job_clean (normalize_job_settings cfg) \<and> (normalize_job_settings cfg = cfg \<longleftrightarrow> job_clean cfg)
   \<and> js_billing (normalize_job_settings cfg) = js_billing cfg \<and> js_dunning (normalize_job_settings cfg) = js_dunning cfg
   \<and> js_isolir (normalize_job_settings cfg) = js_isolir cfg"
  using job_norm.norm_clean job_norm.fixed_iff by (simp add: normalize_job_settings_def Let_def)

text \<open>stored general settings are always in range: the calendar days between 1 and 28, the
  percentages between 0 and 100, the grace days at most 30, the smallest topup between 1000 and
  100000000, a well-formed color, taglines of at most 60 characters; and normalising such settings
  changes nothing.\<close>

theorem general_settings_normalised:
  "general_clean known (normalize_general_settings known g)
   \<and> (normalize_general_settings known g = g \<longleftrightarrow> general_clean known g)
   \<and> gs_wallet (normalize_general_settings known g) = gs_wallet g"
  using general_norm.norm_clean general_norm.fixed_iff by (simp add: normalize_general_settings_def Let_def)

text \<open>The comment of \<open>ParseNotifyTime\<close> lists \<open>HHMM\<close> among the accepted forms; a time without a
  separator is refused.\<close>

lemma notify_time_hhmm_refused: "parse_notify_time ''0830'' = None" "parse_notify_time ''08.30'' = Some (8, 30)"
  by code_simp+

end
