(* ===== verification/Store.thy ===== *)
theory Store
  imports Prelude
begin

text \<open>
  How the store talks to PostgreSQL.  A Go function over the pool is a program
  \<open>('s, 'a) prog\<close>: from the state of the connection and the tables to a result or an
  error, and the state after.  Each statement is one round trip, and any round trip may
  fail: \<open>faults\<close> lists which of the next ones do (\<open>True\<close>: the statement fails, the
  connection drops or the context is cancelled; the empty list: no further failure).  A
  transaction that fails, at a statement or by returning an error, leaves the tables as
  it found them; a failed statement aborts its transaction, so that the statements after
  it and the commit fail too, also where the Go code ignores the first error.
  Tables are lists of records in insertion order, in records that extend \<open>conn\<close>.
\<close>

record conn =
  faults :: "bool list"
  aborted :: bool

datatype err =
    Db_error
  | Not_found
  | Rejected string

type_synonym ('s, 'a) prog = "'s \<Rightarrow> (err + 'a) \<times> 's"

definition ret :: "'a \<Rightarrow> ('s, 'a) prog" where
  "ret x s = (Inr x, s)"

definition raise :: "err \<Rightarrow> ('s, 'a) prog" where
  "raise e s = (Inl e, s)"

text \<open>\<open>bind m f\<close>: Go's \<open>x, err := m; if err != nil { return err }; f(x)\<close>.\<close>

definition bind :: "('s, 'a) prog \<Rightarrow> ('a \<Rightarrow> ('s, 'b) prog) \<Rightarrow> ('s, 'b) prog" where
  "bind m f s = (case m s of (Inl e, s') \<Rightarrow> (Inl e, s') | (Inr x, s') \<Rightarrow> f x s')"

text \<open>A call whose error the caller inspects or ignores.\<close>

definition attempt :: "('s, 'a) prog \<Rightarrow> ('s, err + 'a) prog" where
  "attempt m s = (case m s of (r, s') \<Rightarrow> (Inr r, s'))"

definition when_do :: "bool \<Rightarrow> ('s, unit) prog \<Rightarrow> ('s, unit) prog" where
  "when_do b m = (if b then m else ret ())"

fun for_each :: "'a list \<Rightarrow> ('a \<Rightarrow> ('s, unit) prog) \<Rightarrow> ('s, unit) prog" where
  "for_each [] f = ret ()"
| "for_each (x # xs) f = bind (f x) (\<lambda>_. for_each xs f)"

definition round_trip :: "('z conn_scheme, unit) prog" where
  "round_trip s =
     (let bad = (case faults s of [] \<Rightarrow> False | f # _ \<Rightarrow> f);
          s' = s\<lparr>faults := drop 1 (faults s)\<rparr>
      in if bad \<or> aborted s then (Inl Db_error, s'\<lparr>aborted := True\<rparr>) else (Inr (), s'))"

text \<open>A read, and a statement that changes the tables.  A statement the database refuses
  (a violated constraint, a number out of range) is \<open>None\<close>.\<close>

definition query :: "('z conn_scheme \<Rightarrow> 'a) \<Rightarrow> ('z conn_scheme, 'a) prog" where
  "query g = bind round_trip (\<lambda>_ s. (Inr (g s), s))"

definition exec :: "('z conn_scheme \<Rightarrow> ('a \<times> 'z conn_scheme) option) \<Rightarrow> ('z conn_scheme, 'a) prog" where
  "exec u = bind round_trip (\<lambda>_ s. case u s of
     None \<Rightarrow> (Inl Db_error, s\<lparr>aborted := True\<rparr>)
   | Some (x, s') \<Rightarrow> (Inr x, s'))"

text \<open>A statement on the pool is its own transaction.\<close>

definition auto :: "('z conn_scheme, 'a) prog \<Rightarrow> ('z conn_scheme, 'a) prog" where
  "auto m s = (case m (s\<lparr>aborted := False\<rparr>) of (r, s') \<Rightarrow> (r, s'\<lparr>aborted := False\<rparr>))"

definition set_tenant :: "('z conn_scheme, unit) prog" where
  "set_tenant = auto round_trip"

text \<open>\<open>Begin\<close>, the body, \<open>Commit\<close>, with the deferred \<open>Rollback\<close>.\<close>

definition tx :: "('z conn_scheme, 'a) prog \<Rightarrow> ('z conn_scheme, 'a) prog" where
  "tx m s =
     (let s0 = s\<lparr>aborted := False\<rparr> in
      case bind round_trip (\<lambda>_. bind m (\<lambda>x. bind round_trip (\<lambda>_. ret x))) s0 of
        (Inr x, s') \<Rightarrow> (Inr x, s'\<lparr>aborted := False\<rparr>)
      | (Inl e, s') \<Rightarrow> (Inl e, s\<lparr>faults := faults s', aborted := False\<rparr>))"

text \<open>\<open>withTenant\<close> (users.go) sets the tenant inside the transaction first.\<close>

definition with_tenant :: "('z conn_scheme, 'a) prog \<Rightarrow> ('z conn_scheme, 'a) prog" where
  "with_tenant m = tx (bind round_trip (\<lambda>_. m))"

section \<open>Reasoning\<close>

text \<open>An invariant of the tables does not look at the connection.\<close>

definition stable :: "('z conn_scheme \<Rightarrow> bool) \<Rightarrow> bool" where
  "stable P \<longleftrightarrow> (\<forall>s fs a. P (s\<lparr>faults := fs, aborted := a\<rparr>) = P s)"

definition keeps :: "('s \<Rightarrow> bool) \<Rightarrow> ('s, 'a) prog \<Rightarrow> bool" where
  "keeps P m \<longleftrightarrow> (\<forall>s. P s \<longrightarrow> P (snd (m s)))"

text \<open>What holds when a program returns without error.\<close>

definition gives :: "('s \<Rightarrow> bool) \<Rightarrow> ('s, 'a) prog \<Rightarrow> ('a \<Rightarrow> 's \<Rightarrow> bool) \<Rightarrow> bool" where
  "gives P m Q \<longleftrightarrow> (\<forall>s x s'. P s \<longrightarrow> m s = (Inr x, s') \<longrightarrow> Q x s')"

named_theorems keeps_intros \<open>preservation of an invariant, per construct\<close>

lemma stableD: "stable P \<Longrightarrow> P (s\<lparr>faults := fs, aborted := a\<rparr>) = P s"
  by (simp add: stable_def)

lemma stable_faults: "stable P \<Longrightarrow> P (s\<lparr>faults := fs\<rparr>) = P s"
  using stableD [of P "aborted s" fs s] by simp

lemma stable_aborted: "stable P \<Longrightarrow> P (s\<lparr>aborted := a\<rparr>) = P s"
  using stableD [of P a "faults s" s] by simp

lemmas stable_simps = stableD stable_faults stable_aborted

lemma stable_conj [intro]: "stable P \<Longrightarrow> stable Q \<Longrightarrow> stable (\<lambda>s. P s \<and> Q s)"
  by (simp add: stable_def)

lemma bind_Inr: "bind m f s = (Inr y, s'') \<Longrightarrow>
  (\<And>x s'. m s = (Inr x, s') \<Longrightarrow> f x s' = (Inr y, s'') \<Longrightarrow> thesis) \<Longrightarrow> thesis"
  by (auto simp: bind_def split: prod.splits sum.splits)

lemma ret_Inr: "ret x s = (Inr y, s') \<longleftrightarrow> y = x \<and> s' = s"
  by (auto simp: ret_def)

lemma raise_Inr [simp]: "raise e s \<noteq> (Inr y, s')"
  by (simp add: raise_def)

lemma round_trip_Inr: "round_trip s = (Inr x, s') \<Longrightarrow> \<exists>fs. s' = s\<lparr>faults := fs\<rparr>"
  by (auto simp: round_trip_def Let_def split: if_splits)

lemma query_Inr: "query g s = (Inr x, s') \<Longrightarrow> \<exists>fs. s' = s\<lparr>faults := fs\<rparr> \<and> x = g s'"
  unfolding query_def by (erule bind_Inr) (auto dest: round_trip_Inr)

lemma exec_Inr: "exec u s = (Inr x, s') \<Longrightarrow> \<exists>fs. u (s\<lparr>faults := fs\<rparr>) = Some (x, s')"
  unfolding exec_def
  by (erule bind_Inr) (auto dest!: round_trip_Inr split: option.splits)

lemma round_trip_snd: "\<exists>fs a. snd (round_trip s) = s\<lparr>faults := fs, aborted := a\<rparr>"
proof (cases "fst (round_trip s)")
  case (Inl e)
  then have "snd (round_trip s) = s\<lparr>faults := drop 1 (faults s), aborted := True\<rparr>"
    by (auto simp: round_trip_def Let_def split: if_splits)
  then show ?thesis by blast
next
  case (Inr x)
  then have "snd (round_trip s) = s\<lparr>faults := drop 1 (faults s), aborted := aborted s\<rparr>"
    by (auto simp: round_trip_def Let_def split: if_splits)
  then show ?thesis by blast
qed

lemma keeps_ret [keeps_intros]: "keeps P (ret x)"
  by (simp add: keeps_def ret_def)

lemma keeps_raise [keeps_intros]: "keeps P (raise e)"
  by (simp add: keeps_def raise_def)

lemma keeps_bind [keeps_intros]: "keeps P m \<Longrightarrow> (\<And>x. keeps P (f x)) \<Longrightarrow> keeps P (bind m f)"
  unfolding keeps_def bind_def by (fastforce split: prod.splits sum.splits)

lemma keeps_attempt [keeps_intros]: "keeps P m \<Longrightarrow> keeps P (attempt m)"
  unfolding keeps_def attempt_def by (auto split: prod.splits)

lemma keeps_if [keeps_intros]: "(b \<Longrightarrow> keeps P m) \<Longrightarrow> (\<not> b \<Longrightarrow> keeps P n) \<Longrightarrow> keeps P (if b then m else n)"
  by simp

lemma keeps_when [keeps_intros]: "(b \<Longrightarrow> keeps P m) \<Longrightarrow> keeps P (when_do b m)"
  by (simp add: when_do_def keeps_ret)

lemma keeps_for_each [keeps_intros]: "(\<And>x. x \<in> set xs \<Longrightarrow> keeps P (f x)) \<Longrightarrow> keeps P (for_each xs f)"
  by (induction xs) (auto intro: keeps_intros)

lemma keeps_option [keeps_intros]:
  "(x = None \<Longrightarrow> keeps P m) \<Longrightarrow> (\<And>y. x = Some y \<Longrightarrow> keeps P (f y)) \<Longrightarrow>
   keeps P (case x of None \<Rightarrow> m | Some y \<Rightarrow> f y)"
  by (cases x) auto

lemma keeps_prod [keeps_intros]: "(\<And>a b. x = (a, b) \<Longrightarrow> keeps P (f a b)) \<Longrightarrow> keeps P (case x of (a, b) \<Rightarrow> f a b)"
  by (cases x) auto

lemma keeps_sum [keeps_intros]:
  "(\<And>e. x = Inl e \<Longrightarrow> keeps P (f e)) \<Longrightarrow> (\<And>y. x = Inr y \<Longrightarrow> keeps P (g y)) \<Longrightarrow>
   keeps P (case x of Inl e \<Rightarrow> f e | Inr y \<Rightarrow> g y)"
  by (cases x) auto

lemma keeps_round_trip [keeps_intros]: "stable P \<Longrightarrow> keeps P round_trip"
  using round_trip_snd unfolding keeps_def by (metis stableD)

lemma keeps_query [keeps_intros]: "stable P \<Longrightarrow> keeps P (query g)"
  unfolding query_def by (rule keeps_bind) (auto simp: keeps_def intro: keeps_round_trip [unfolded keeps_def, rule_format])

lemma keeps_auto [keeps_intros]: "stable P \<Longrightarrow> keeps P m \<Longrightarrow> keeps P (auto m)"
  unfolding keeps_def auto_def
  by (auto simp: stable_simps split: prod.splits) (metis snd_conv stable_aborted)

lemma keeps_set_tenant [keeps_intros]: "stable P \<Longrightarrow> keeps P set_tenant"
  unfolding set_tenant_def by (intro keeps_intros)

lemma keeps_exec:
  "stable P \<Longrightarrow> (\<And>s x s'. P s \<Longrightarrow> u s = Some (x, s') \<Longrightarrow> P s') \<Longrightarrow> keeps P (exec u)"
  unfolding exec_def
  by (rule keeps_bind) (auto simp: keeps_def stable_simps split: option.splits intro: keeps_round_trip [unfolded keeps_def, rule_format])

text \<open>A transaction keeps what its body re-establishes when it succeeds.\<close>

lemma keeps_tx:
  assumes st: "stable P" and body: "gives P m (\<lambda>_. P)"
  shows "keeps P (tx m)"
  unfolding keeps_def
proof (intro allI impI)
  fix s assume s: "P s"
  let ?s0 = "s\<lparr>aborted := False\<rparr>"
  let ?body = "bind round_trip (\<lambda>_. bind m (\<lambda>x. bind round_trip (\<lambda>_. ret x)))"
  show "P (snd (tx m s))"
  proof (cases "fst (?body ?s0)")
    case (Inl e)
    then show ?thesis using s st
      by (auto simp: tx_def Let_def stable_simps split: prod.splits sum.splits)
  next
    case (Inr x)
    obtain s' where e: "?body ?s0 = (Inr x, s')" using Inr by (metis prod.collapse)
    then obtain s1 s2 where "round_trip ?s0 = (Inr (), s1)" "m s1 = (Inr x, s2)" "round_trip s2 = (Inr (), s')"
      by (elim bind_Inr) (auto simp: ret_Inr)
    then have "P s'" using s st body unfolding gives_def
      by (metis round_trip_Inr stable_aborted stable_faults)
    then show ?thesis using e st by (simp add: tx_def stable_simps)
  qed
qed

lemma gives_bind:
  "gives P m R \<Longrightarrow> (\<And>x. gives (R x) (f x) Q) \<Longrightarrow> gives P (bind m f) Q"
  unfolding gives_def by (metis bind_Inr)

lemma gives_ret: "(\<And>s. P s \<Longrightarrow> Q x s) \<Longrightarrow> gives P (ret x) Q"
  by (simp add: gives_def ret_def)

lemma gives_raise [simp]: "gives P (raise e) Q"
  by (simp add: gives_def)

lemma gives_round_trip: "stable P \<Longrightarrow> gives P round_trip (\<lambda>_. P)"
  unfolding gives_def by (metis round_trip_Inr stable_faults)

lemma gives_query: "stable P \<Longrightarrow> (\<And>s. P s \<Longrightarrow> Q (g s) s) \<Longrightarrow> gives P (query g) Q"
  unfolding gives_def by (metis query_Inr stable_faults)

lemma gives_exec:
  "stable P \<Longrightarrow> (\<And>s x s'. P s \<Longrightarrow> u s = Some (x, s') \<Longrightarrow> Q x s') \<Longrightarrow> gives P (exec u) Q"
  unfolding gives_def by (metis exec_Inr stable_faults)

lemma gives_keeps: "keeps P m \<Longrightarrow> gives P m (\<lambda>_. P)"
  unfolding keeps_def gives_def by (metis snd_conv)

lemma gives_mono: "gives P m Q \<Longrightarrow> (\<And>s. P' s \<Longrightarrow> P s) \<Longrightarrow> (\<And>x s. Q x s \<Longrightarrow> Q' x s) \<Longrightarrow> gives P' m Q'"
  unfolding gives_def by blast

lemma gives_when: "(b \<Longrightarrow> gives P m Q) \<Longrightarrow> (\<not> b \<Longrightarrow> gives P (ret ()) Q) \<Longrightarrow> gives P (when_do b m) Q"
  by (simp add: when_do_def)

lemma keeps_with_tenant:
  assumes "stable P" and "gives P m (\<lambda>_. P)"
  shows "keeps P (with_tenant m)"
  unfolding with_tenant_def using assms
  by (intro keeps_tx gives_bind [OF gives_round_trip])

text \<open>An error leaves the tables of a transaction untouched.\<close>

lemma tx_error_unchanged:
  "tx m s = (Inl e, s') \<Longrightarrow> s' = s\<lparr>faults := faults s', aborted := False\<rparr>"
  by (auto simp: tx_def Let_def split: prod.splits sum.splits)

lemma tx_success:
  assumes "tx m s = (Inr x, s')"
  obtains s1 s2 fs fs' where "s1 = s\<lparr>faults := fs, aborted := False\<rparr>" and "m s1 = (Inr x, s2)"
    and "s' = s2\<lparr>faults := fs', aborted := False\<rparr>"
  using assms unfolding tx_def Let_def
  by (auto simp: bind_def ret_def round_trip_def Let_def split: prod.splits sum.splits if_splits)
    (metis conn.surjective conn.update_convs)

lemma gives_tx:
  assumes P: "stable P" and Q: "\<And>x. stable (Q x)" and m: "gives P m Q"
  shows "gives P (tx m) Q"
  unfolding gives_def
proof (intro allI impI)
  fix s x s' assume "P s" and "tx m s = (Inr x, s')"
  then obtain s1 s2 fs fs' where s1: "s1 = s\<lparr>faults := fs, aborted := False\<rparr>" "m s1 = (Inr x, s2)"
    "s' = s2\<lparr>faults := fs', aborted := False\<rparr>" using tx_success by metis
  then have "P s1" using \<open>P s\<close> P by (simp add: stableD)
  then have "Q x s2" using m s1(2) unfolding gives_def by blast
  then show "Q x s'" using Q s1(3) by (simp add: stableD)
qed

lemma gives_with_tenant:
  assumes "stable P" "\<And>x. stable (Q x)" "gives P m Q"
  shows "gives P (with_tenant m) Q"
  unfolding with_tenant_def by (rule gives_tx [OF assms(1,2) gives_bind [OF gives_round_trip [OF assms(1)] assms(3)]])

text \<open>\<open>safe R P m\<close>: from a state with \<open>R\<close>, the program ends in a state with \<open>P\<close>, also when
  it fails.\<close>

definition safe :: "('s \<Rightarrow> bool) \<Rightarrow> ('s \<Rightarrow> bool) \<Rightarrow> ('s, 'a) prog \<Rightarrow> bool" where
  "safe R P m \<longleftrightarrow> (\<forall>s. R s \<longrightarrow> P (snd (m s)))"

lemma keeps_safe: "keeps P m = safe P P m"
  by (simp add: keeps_def safe_def)

lemma safe_tx:
  assumes "stable R" and "stable P" and "\<And>s. R s \<Longrightarrow> P s" and "gives R m (\<lambda>_. P)"
  shows "safe R P (tx m)"
  unfolding safe_def
proof (intro allI impI)
  fix s assume r: "R s"
  obtain y s' where e: "tx m s = (y, s')" by fastforce
  show "P (snd (tx m s))"
  proof (cases y)
    case (Inl err)
    then have "s' = s\<lparr>faults := faults s', aborted := False\<rparr>" using tx_error_unchanged e by blast
    then show ?thesis using e assms r by (metis snd_conv stableD)
  next
    case (Inr x)
    with e obtain s1 s2 fs fs' where "s1 = s\<lparr>faults := fs, aborted := False\<rparr>" "m s1 = (Inr x, s2)"
      "s' = s2\<lparr>faults := fs', aborted := False\<rparr>" using tx_success by metis
    then show ?thesis using e assms r unfolding gives_def by (metis snd_conv stableD)
  qed
qed

lemma safe_bind:
  assumes "safe R P m" and "gives R m S" and "\<And>x. safe (S x) P (f x)"
  shows "safe R P (bind m f)"
  unfolding safe_def
proof (intro allI impI)
  fix s assume r: "R s"
  obtain y s' where e: "m s = (y, s')" by fastforce
  show "P (snd (bind m f s))"
  proof (cases y)
    case (Inl err)
    moreover have "P s'" using e r assms(1) unfolding safe_def by (metis snd_conv)
    ultimately show ?thesis using e by (simp add: bind_def)
  next
    case (Inr x)
    then have "S x s'" using e r assms(2) unfolding gives_def by blast
    then show ?thesis using e Inr assms(3) unfolding safe_def bind_def by simp
  qed
qed

lemma keeps_bind_safe:
  assumes "keeps P m" and "gives P m R" and "\<And>x. safe (R x) P (f x)"
  shows "keeps P (bind m f)"
  using safe_bind [of P P m R f] assms by (simp add: keeps_safe)

lemma safe_ret: "(\<And>s. R s \<Longrightarrow> P s) \<Longrightarrow> safe R P (ret x)"
  by (simp add: safe_def ret_def)

lemma safe_raise: "(\<And>s. R s \<Longrightarrow> P s) \<Longrightarrow> safe R P (raise e)"
  by (simp add: safe_def raise_def)

lemma gives_set_tenant: "stable P \<Longrightarrow> gives P set_tenant (\<lambda>_. P)"
  by (rule gives_keeps) (rule keeps_set_tenant)

lemma gives_auto: "stable P \<Longrightarrow> (\<And>x. stable (Q x)) \<Longrightarrow> gives P m Q \<Longrightarrow> gives P (auto m) Q"
proof -
  assume P: "stable P" and Q: "\<And>x. stable (Q x)" and g: "gives P m Q"
  show "gives P (auto m) Q"
    unfolding gives_def
  proof (intro allI impI)
    fix s x s' assume s: "P s" and e: "auto m s = (Inr x, s')"
    obtain r s1 where m: "m (s\<lparr>aborted := False\<rparr>) = (r, s1)" by fastforce
    then have "r = Inr x" "s' = s1\<lparr>aborted := False\<rparr>" using e by (simp_all add: auto_def)
    then show "Q x s'" using m s g unfolding gives_def by (metis P Q stable_aborted)
  qed
qed

lemma gives_auto_query: "stable P \<Longrightarrow> (\<And>x. stable (Q x)) \<Longrightarrow> (\<And>s. P s \<Longrightarrow> Q (g s) s) \<Longrightarrow> gives P (auto (query g)) Q"
  by (intro gives_auto gives_query)

lemma keeps_auto_query [keeps_intros]: "stable P \<Longrightarrow> keeps P (auto (query g))"
  by (intro keeps_intros)

text \<open>Running without further failures.\<close>

definition calm :: "'z conn_scheme \<Rightarrow> bool" where
  "calm s \<longleftrightarrow> faults s = [] \<and> \<not> aborted s"

lemma calm_reset [simp]: "calm s \<Longrightarrow> s\<lparr>aborted := False\<rparr> = s"
  by (cases s) (simp add: calm_def)

lemma calm_round_trip: "calm s \<Longrightarrow> round_trip s = (Inr (), s)"
  by (cases s) (simp add: round_trip_def calm_def)

lemma calm_query: "calm s \<Longrightarrow> query g s = (Inr (g s), s)"
  by (simp add: query_def bind_def calm_round_trip)

lemma calm_exec: "calm s \<Longrightarrow> u s = Some (x, s') \<Longrightarrow> exec u s = (Inr x, s')"
  by (simp add: exec_def bind_def calm_round_trip)

lemma calm_auto: "calm s \<Longrightarrow> m s = (r, s') \<Longrightarrow> calm s' \<Longrightarrow> auto m s = (r, s')"
  by (simp add: auto_def)

lemma calm_set_tenant: "calm s \<Longrightarrow> set_tenant s = (Inr (), s)"
  unfolding set_tenant_def by (intro calm_auto calm_round_trip)

lemma calm_auto_query: "calm s \<Longrightarrow> auto (query g) s = (Inr (g s), s)"
  by (intro calm_auto calm_query)

lemma calm_bind: "m s = (Inr x, s') \<Longrightarrow> bind m f s = f x s'"
  by (simp add: bind_def)

lemma calm_tx:
  assumes "calm s" and "m s = (Inr x, s')" and "calm s'"
  shows "tx m s = (Inr x, s')"
  using assms by (simp add: tx_def bind_def ret_def calm_round_trip)

lemmas calm_simps = calm_round_trip calm_query calm_set_tenant calm_auto_query

end
