(* ===== verification/GoFloat.thy ===== *)
theory GoFloat
  imports Prelude Complex_Main
begin

text \<open>
  Go's \<open>float64\<close> where the billing code uses it: every operation is the exact rational
  result rounded to 53 significant bits, ties to even (\<open>fl64\<close>).  \<open>math.Round\<close> rounds half
  away from zero, \<open>int64(x)\<close> truncates.  Overflow, subnormal numbers, NaN and the infinities
  do not occur at the magnitudes of the program (amounts below \<open>2^63\<close>, percentages from 0
  to 100) and are left out.
\<close>

section \<open>Rounding\<close>

function bit_len :: "int \<Rightarrow> nat" where
  "bit_len n = (if n \<le> 0 then 0 else Suc (bit_len (n div 2)))"
  by auto

termination bit_len
  by (relation "measure nat") auto

declare bit_len.simps [simp del]

definition pow2 :: "int \<Rightarrow> rat" where
  "pow2 e = (if 0 \<le> e then 2 ^ nat e else 1 / 2 ^ nat (- e))"

definition ilog2 :: "rat \<Rightarrow> int" where
  "ilog2 x =
     (let (n, d) = quotient_of x;
          e = int (bit_len n) - int (bit_len d)
      in if pow2 e \<le> x then e else e - 1)"

definition round_even :: "rat \<Rightarrow> int" where
  "round_even y =
     (let f = \<lfloor>y\<rfloor>; r = y - of_int f in
      if r < 1 / 2 then f else if 1 / 2 < r then f + 1 else if even f then f else f + 1)"

definition fl64 :: "rat \<Rightarrow> rat" where
  "fl64 x =
     (if x = 0 then 0
      else let e = ilog2 \<bar>x\<bar> - 52 in of_int (round_even (x / pow2 e)) * pow2 e)"

definition f_of_int :: "int \<Rightarrow> rat" where "f_of_int n = fl64 (of_int n)"
definition f_add :: "rat \<Rightarrow> rat \<Rightarrow> rat" where "f_add a b = fl64 (a + b)"
definition f_sub :: "rat \<Rightarrow> rat \<Rightarrow> rat" where "f_sub a b = fl64 (a - b)"
definition f_mul :: "rat \<Rightarrow> rat \<Rightarrow> rat" where "f_mul a b = fl64 (a * b)"
definition f_div :: "rat \<Rightarrow> rat \<Rightarrow> rat" where "f_div a b = fl64 (a / b)"

definition go_round :: "rat \<Rightarrow> int" where
  "go_round x = (if 0 \<le> x then \<lfloor>x + 1 / 2\<rfloor> else - \<lfloor>- x + 1 / 2\<rfloor>)"

definition go_trunc :: "rat \<Rightarrow> int" where
  "go_trunc x = (if 0 \<le> x then \<lfloor>x\<rfloor> else - \<lfloor>- x\<rfloor>)"

section \<open>Facts\<close>

lemma pow2_pos [simp]: "0 < pow2 e"
  by (simp add: pow2_def)

lemma pow2_nonneg [simp]: "0 \<le> pow2 e"
  by (simp add: pow2_def)

lemma pow2_nonzero [simp]: "pow2 e \<noteq> 0"
  using pow2_pos [of e] by linarith

lemma pow2_powi: "pow2 e = 2 powi e"
  by (simp add: pow2_def power_int_def inverse_eq_divide power_divide)

lemma pow2_add: "pow2 (a + b) = pow2 a * pow2 b"
  by (simp add: pow2_powi power_int_add)

lemma pow2_less: "a < b \<Longrightarrow> pow2 a < pow2 b"
proof -
  assume "a < b"
  then have "1 < pow2 (b - a)" by (simp add: pow2_def one_less_power)
  moreover have "pow2 b = pow2 a * pow2 (b - a)" using pow2_add [of a "b - a"] by simp
  ultimately show ?thesis using pow2_pos [of a] by (metis mult_less_cancel_left_pos mult.right_neutral)
qed

lemma pow2_le_iff: "pow2 a \<le> pow2 b \<longleftrightarrow> a \<le> b"
  using pow2_less [of a b] pow2_less [of b a] by (cases a b rule: linorder_cases) auto

lemma bit_len_bounds: "0 < n \<Longrightarrow> 2 ^ (bit_len n - 1) \<le> n \<and> n < 2 ^ bit_len n"
proof (induction n rule: bit_len.induct)
  case (1 n)
  show ?case
  proof (cases "n = 1")
    case True
    then show ?thesis by (simp add: bit_len.simps)
  next
    case False
    then have half: "0 < n div 2" using "1.prems" by auto
    then have IH: "2 ^ (bit_len (n div 2) - 1) \<le> n div 2" "n div 2 < 2 ^ bit_len (n div 2)"
      using 1 by auto
    have b: "bit_len n = Suc (bit_len (n div 2))" using "1.prems" by (simp add: bit_len.simps [of n])
    have "0 < bit_len (n div 2)" using half by (simp add: bit_len.simps [of "n div 2"])
    then have "2 ^ bit_len (n div 2) = 2 * (2::int) ^ (bit_len (n div 2) - 1)"
      by (metis Suc_diff_1 power_Suc)
    moreover obtain h where h: "h = n div 2" "2 * h \<le> n" "n < 2 * h + 2" by simp
    ultimately show ?thesis using IH b unfolding h(1) [symmetric] by simp
  qed
qed

lemma ilog2_bounds:
  assumes "0 < x"
  shows "pow2 (ilog2 x) \<le> x \<and> x < 2 * pow2 (ilog2 x)"
proof -
  obtain n d where q: "quotient_of x = (n, d)" by fastforce
  then have d: "0 < d" and x: "x = of_int n / of_int d"
    using quotient_of_denom_pos quotient_of_div by blast+
  then have n: "0 < n" using assms by (simp add: zero_less_divide_iff)
  let ?a = "bit_len n" and ?b = "bit_len d"
  have pos: "0 < ?a" "0 < ?b" using n d by (simp_all add: bit_len.simps [of n] bit_len.simps [of d])
  have up: "(of_int k :: rat) < 2 ^ m" if "k < 2 ^ m" for k m
    using that by (metis of_int_less_iff of_int_numeral of_int_power)
  have lo: "(2 :: rat) ^ m \<le> of_int k" if "2 ^ m \<le> k" for k m
    using that by (metis of_int_le_iff of_int_numeral of_int_power)
  have p: "pow2 (int m) = 2 ^ m" for m by (simp add: pow2_def)
  have pa: "pow2 (int ?a - 1) = 2 ^ (?a - 1)" "pow2 (int ?b - 1) = 2 ^ (?b - 1)"
    using p [of "?a - 1"] p [of "?b - 1"] pos by (simp_all add: of_nat_diff)
  have nb: "pow2 (int ?a - 1) \<le> of_int n" "of_int n < pow2 (int ?a)"
    unfolding pa p using lo up bit_len_bounds [OF n] by blast+
  have db: "pow2 (int ?b - 1) \<le> of_int d" "of_int d < pow2 (int ?b)"
    unfolding pa p using lo up bit_len_bounds [OF d] by blast+
  define e where "e = int ?a - int ?b"
  have "pow2 (e - 1) * of_int d \<le> pow2 (e - 1) * pow2 (int ?b)" using db by (intro mult_left_mono) auto
  also have "\<dots> = pow2 (int ?a - 1)" by (simp add: pow2_add [symmetric] e_def)
  also have "\<dots> \<le> of_int n" by (rule nb)
  finally have low: "pow2 (e - 1) \<le> x" using d by (simp add: x pos_le_divide_eq)
  have "of_int n < pow2 (int ?a)" by (rule nb)
  also have "\<dots> = pow2 (e + 1) * pow2 (int ?b - 1)" by (simp add: pow2_add [symmetric] e_def)
  also have "\<dots> \<le> pow2 (e + 1) * of_int d" using db by (intro mult_left_mono) (auto intro: less_imp_le)
  finally have high: "x < pow2 (e + 1)" using d by (simp add: x pos_divide_less_eq)
  have two: "pow2 (k + 1) = 2 * pow2 k" for k by (simp add: pow2_add) (simp add: pow2_def)
  have "ilog2 x = (if pow2 e \<le> x then e else e - 1)" by (simp add: ilog2_def q e_def)
  then show ?thesis using low high two [of e] two [of "e - 1"] by auto
qed

lemma round_even_near: "\<bar>of_int (round_even y) - y\<bar> \<le> (1 / 2 :: rat)"
  unfolding round_even_def Let_def by (auto simp: abs_if) linarith+

lemma round_even_int [simp]: "round_even (of_int n) = n"
  by (simp add: round_even_def)

text \<open>The relative error of one rounding.\<close>

lemma fl64_error: "\<bar>fl64 x - x\<bar> \<le> \<bar>x\<bar> / 2 ^ 53"
proof (cases "x = 0")
  case False
  let ?e = "ilog2 \<bar>x\<bar> - 52"
  have "fl64 x - x = (of_int (round_even (x / pow2 ?e)) - x / pow2 ?e) * pow2 ?e"
    using False by (simp add: fl64_def Let_def left_diff_distrib)
  then have "\<bar>fl64 x - x\<bar> = \<bar>of_int (round_even (x / pow2 ?e)) - x / pow2 ?e\<bar> * pow2 ?e"
    by (simp add: abs_mult less_imp_le)
  also have "\<dots> \<le> 1 / 2 * pow2 ?e" by (intro mult_right_mono round_even_near) (simp add: less_imp_le)
  also have "\<dots> = pow2 (ilog2 \<bar>x\<bar>) / 2 ^ 53"
    using pow2_add [of "ilog2 \<bar>x\<bar>" "-52"] by (simp add: pow2_def [of "-52"])
  also have "\<dots> \<le> \<bar>x\<bar> / 2 ^ 53" using ilog2_bounds [of "\<bar>x\<bar>"] False by (intro divide_right_mono) auto
  finally show ?thesis .
qed (simp add: fl64_def)

text \<open>Numbers with at most 53 significant bits are not changed.\<close>

lemma fl64_exact:
  assumes x: "x = of_int m * pow2 k" and "\<bar>m\<bar> < 2 ^ 53"
  shows "fl64 x = x"
proof (cases "x = 0")
  case False
  let ?l = "ilog2 \<bar>x\<bar>"
  have b: "pow2 ?l \<le> \<bar>x\<bar>" using ilog2_bounds [of "\<bar>x\<bar>"] False by simp
  have "\<bar>x\<bar> = of_int \<bar>m\<bar> * pow2 k" using x by (simp add: abs_mult less_imp_le)
  also have "\<dots> < pow2 53 * pow2 k"
  proof (intro mult_strict_right_mono pow2_pos)
    have "(of_int \<bar>m\<bar> :: rat) < of_int (2 ^ 53)" using assms(2) by (simp only: of_int_less_iff)
    then show "of_int \<bar>m\<bar> < pow2 53" by (simp add: pow2_def)
  qed
  also have "\<dots> = pow2 (53 + k)" by (simp add: pow2_add)
  finally have "pow2 ?l < pow2 (53 + k)" using b by linarith
  then have "?l < 53 + k" using pow2_le_iff [of "53 + k" ?l] by linarith
  then have k: "0 \<le> k - (?l - 52)" by simp
  have "x / pow2 (?l - 52) = of_int m * pow2 (k - (?l - 52))"
    using pow2_add [of "k - (?l - 52)" "?l - 52"] x by (simp add: field_simps)
  also have "\<dots> = of_int (m * 2 ^ nat (k - (?l - 52)))" using k by (simp add: pow2_def)
  finally have e: "x / pow2 (?l - 52) = of_int (m * 2 ^ nat (k - (?l - 52)))" .
  have "of_int (round_even (x / pow2 (?l - 52))) * pow2 (?l - 52) = x / pow2 (?l - 52) * pow2 (?l - 52)"
    unfolding e by (simp only: round_even_int)
  then show ?thesis using False by (simp add: fl64_def Let_def)
qed (simp add: fl64_def)

lemma f_of_int_exact: "\<bar>n\<bar> < 2 ^ 53 \<Longrightarrow> f_of_int n = of_int n"
  unfolding f_of_int_def by (rule fl64_exact [of _ n 0]) (simp_all add: pow2_def)

lemma fl64_of_int: "\<bar>n\<bar> < 2 ^ 53 \<Longrightarrow> fl64 (of_int n) = of_int n"
  using f_of_int_exact by (simp add: f_of_int_def)

lemma fl64_0 [simp]: "fl64 0 = 0"
  by (simp add: fl64_def)

lemma fl64_nonneg: "0 \<le> x \<Longrightarrow> 0 \<le> fl64 x"
  using fl64_error [of x] by (simp add: abs_if split: if_splits)

lemma go_round_of_int [simp]: "go_round (of_int n) = n"
  by (auto simp: go_round_def) linarith+

lemma go_round_nonneg: "0 \<le> x \<Longrightarrow> 0 \<le> go_round x"
  by (simp add: go_round_def)

text \<open>
  Below \<open>2^41\<close> and for divisors up to 1000, rounding the quotient to a float first does
  not change what \<open>math.Round\<close> gives.
\<close>

lemma int_gap:
  assumes "of_int a < (of_int b :: rat)" shows "of_int a + 1 \<le> (of_int b :: rat)"
proof -
  have "a + 1 \<le> b" using assms by simp
  then have "of_int (a + 1) \<le> (of_int b :: rat)" by (simp only: of_int_le_iff)
  then show ?thesis by simp
qed

lemma go_round_fl64:
  assumes n: "0 \<le> n" and t: "0 < t" "t \<le> 1000" and small: "n < t * 2 ^ 41"
  shows "go_round (fl64 (of_int n / of_int t)) = (2 * n + t) div (2 * t)"
proof -
  define x where "x = (of_int n / of_int t :: rat)"
  have t0: "0 < (of_int t :: rat)" "(of_int t :: rat) \<le> 1000" using t by simp_all
  have x0: "0 \<le> x" using n t by (simp add: x_def)
  have "(of_int n :: rat) < of_int (t * 2 ^ 41)" using small by (simp only: of_int_less_iff)
  then have x1: "x < 2 ^ 41" using t0 by (simp add: x_def pos_divide_less_eq mult.commute)
  have tx: "2 * of_int t * x = 2 * of_int n" using t by (simp add: x_def)
  define k where "k = \<lfloor>x + 1 / 2\<rfloor>"
  have k: "of_int k \<le> x + 1 / 2" "x + 1 / 2 < of_int k + 1"
    using floor_correct [of "x + 1 / 2"] unfolding k_def by linarith+
  have err: "\<bar>fl64 x - x\<bar> \<le> 1 / 4096" using fl64_error [of x] x0 x1 by (simp add: abs_if field_simps split: if_splits)
  have gap: "(1 :: rat) / 2000 \<le> 1 / (2 * of_int t)" using t0 by (simp add: frac_le)
  have low: "of_int k \<le> fl64 x + 1 / 2"
  proof (cases "x + 1 / 2 = of_int k")
    case True
    have "x = of_int (2 * k - 1) * pow2 (- 1)" using True by (simp add: pow2_def)
    moreover have "\<bar>2 * k - 1\<bar> < 2 ^ 53"
    proof -
      have "(of_int (2 * k) :: rat) < of_int (2 ^ 43)" using True x1 by simp
      then have "2 * k < 2 ^ 43" by (simp only: of_int_less_iff)
      moreover have "(0 :: rat) < of_int k" using True x0 by linarith
      ultimately show ?thesis by simp
    qed
    ultimately have "fl64 x = x" by (rule fl64_exact)
    then show ?thesis using k(1) by simp
  next
    case False
    then have "(2 * of_int t) * (of_int k - 1 / 2) < (2 * of_int t) * x" using k(1) t0 by (intro mult_strict_left_mono) auto
    then have "(of_int (2 * t * k - t) :: rat) < of_int (2 * n)" unfolding tx by (simp add: algebra_simps)
    from int_gap [OF this] have "(2 * of_int t) * (of_int k - 1 / 2) + 1 \<le> (2 * of_int t) * x"
      unfolding tx by (simp add: algebra_simps)
    then have "of_int k - 1 / 2 + 1 / (2 * of_int t) \<le> x" using t0 by (simp add: field_simps)
    then show ?thesis using err gap by linarith
  qed
  have "(2 * of_int t) * x < (2 * of_int t) * (of_int k + 1 / 2)" using k(2) t0 by (intro mult_strict_left_mono) auto
  then have "(of_int (2 * n) :: rat) < of_int (2 * t * k + t)" unfolding tx by (simp add: algebra_simps)
  from int_gap [OF this] have "(2 * of_int t) * x + 1 \<le> (2 * of_int t) * (of_int k + 1 / 2)"
    unfolding tx by (simp add: algebra_simps)
  then have "x + 1 / (2 * of_int t) \<le> of_int k + 1 / 2" using t0 by (simp add: field_simps)
  then have high: "fl64 x + 1 / 2 < of_int k + 1" using err gap by linarith
  have "go_round (fl64 x) = k"
    using low high fl64_nonneg [OF x0] by (simp add: go_round_def floor_unique)
  also have "k = \<lfloor>of_int (2 * n + t) / (of_int (2 * t) :: rat)\<rfloor>"
    using t0 by (simp add: k_def x_def add_divide_distrib)
  also have "\<dots> = (2 * n + t) div (2 * t)" by (rule floor_divide_of_int_eq)
  finally show ?thesis by (simp add: x_def)
qed

end
