(* ===== verification/GoFmt.thy ===== *)
theory GoFmt
  imports Prelude
begin

text \<open>
  Decimal numbers as Go prints them: \<open>strconv.FormatInt(n, 10)\<close>, \<open>fmt.Sprintf("%d")\<close> and
  \<open>"%0*d"\<close> on the byte strings of the prelude.
\<close>

definition decimal_digit :: "nat \<Rightarrow> char" where
  "decimal_digit d = char_of (48 + d)"

fun nat_digits :: "nat \<Rightarrow> string" where
  "nat_digits n = (if n < 10 then [decimal_digit n] else nat_digits (n div 10) @ [decimal_digit (n mod 10)])"

declare nat_digits.simps [simp del]

definition format_int :: "int \<Rightarrow> string" where
  "format_int n = (if n < 0 then CHR ''-'' # nat_digits (nat (- n)) else nat_digits (nat n))"

text \<open>\<open>%0wd\<close>: the sign counts toward the width.\<close>

definition zero_pad :: "nat \<Rightarrow> int \<Rightarrow> string" where
  "zero_pad w n =
     (let ds = nat_digits (nat \<bar>n\<bar>); sign = (if n < 0 then ''-'' else [])
      in sign @ replicate (w - length sign - length ds) CHR ''0'' @ ds)"

text \<open>The number a string of digits writes.\<close>

definition digit_value :: "char \<Rightarrow> nat" where
  "digit_value c = of_char c - 48"

definition digits_value :: "string \<Rightarrow> nat" where
  "digits_value s = foldl (\<lambda>v c. 10 * v + digit_value c) 0 s"

lemma digit_value_decimal [simp]: "d < 10 \<Longrightarrow> digit_value (decimal_digit d) = d"
  by (simp add: digit_value_def decimal_digit_def)

lemma is_digit_decimal [simp]: "d < 10 \<Longrightarrow> is_digit (decimal_digit d)"
  by (simp add: is_digit_def decimal_digit_def)

lemma digits_value_snoc [simp]: "digits_value (s @ [c]) = 10 * digits_value s + digit_value c"
  by (simp add: digits_value_def)

lemma digits_value_digits [simp]: "digits_value (nat_digits n) = n"
proof (induction n rule: nat_digits.induct)
  case (1 n)
  show ?case
  proof (cases "n < 10")
    case True
    then show ?thesis by (simp add: nat_digits.simps [of n]) (simp add: digits_value_def)
  next
    case False
    then show ?thesis using 1 by (simp add: nat_digits.simps [of n])
  qed
qed

lemma nat_digits_inject [simp]: "nat_digits a = nat_digits b \<longleftrightarrow> a = b"
  by (metis digits_value_digits)

lemma nat_digits_is_digit: "c \<in> set (nat_digits n) \<Longrightarrow> is_digit c"
proof (induction n rule: nat_digits.induct)
  case (1 n)
  then show ?case by (cases "n < 10") (auto simp: nat_digits.simps [of n])
qed

lemma nat_digits_nonempty [simp]: "nat_digits n \<noteq> []"
  by (simp add: nat_digits.simps [of n])

lemma nat_digits_length_le: "n < 10 ^ k \<Longrightarrow> 0 < k \<Longrightarrow> length (nat_digits n) \<le> k"
proof (induction k arbitrary: n)
  case (Suc k)
  show ?case
  proof (cases "n < 10")
    case True
    then show ?thesis by (simp add: nat_digits.simps [of n])
  next
    case False
    then have "0 < k" using Suc.prems by (cases k) auto
    moreover have "n div 10 < 10 ^ k" using Suc.prems(1) by (simp add: less_mult_imp_div_less mult.commute)
    ultimately show ?thesis using Suc.IH [of "n div 10"] False by (simp add: nat_digits.simps [of n])
  qed
qed simp

lemma digits_value_zeros [simp]: "digits_value (replicate k CHR ''0'' @ s) = digits_value s"
proof -
  have "foldl (\<lambda>v c. 10 * v + digit_value c) 0 (replicate k CHR ''0'') = 0"
    by (induction k) (simp_all add: digit_value_def)
  then show ?thesis by (simp add: digits_value_def)
qed

lemma digits_value_pad [simp]: "0 \<le> n \<Longrightarrow> digits_value (zero_pad w n) = nat n"
  by (simp add: zero_pad_def Let_def)

lemma zero_pad_inject: "0 \<le> a \<Longrightarrow> 0 \<le> b \<Longrightarrow> zero_pad w a = zero_pad w b \<longleftrightarrow> a = b"
  by (metis digits_value_pad int_nat_eq)

lemma zero_pad_is_digit: "0 \<le> n \<Longrightarrow> c \<in> set (zero_pad w n) \<Longrightarrow> is_digit c"
  using nat_digits_is_digit [of c "nat n"] by (auto simp: zero_pad_def Let_def is_digit_def split: if_splits)

lemma zero_pad_length: "0 \<le> n \<Longrightarrow> n < 10 ^ w \<Longrightarrow> 0 < w \<Longrightarrow> length (zero_pad w n) = w"
proof -
  assume n: "0 \<le> n" "n < 10 ^ w" "0 < w"
  then have "nat n < 10 ^ w" by (simp add: nat_less_iff)
  then have "length (nat_digits (nat n)) \<le> w" using n by (intro nat_digits_length_le)
  then show ?thesis using n by (simp add: zero_pad_def Let_def)
qed

text \<open>Digits taken from the integer itself, by which concrete numbers are evaluated.\<close>

function int_digits :: "int \<Rightarrow> string" where
  "int_digits n = (if n < 10 then [''0123456789'' ! nat n] else int_digits (n div 10) @ [''0123456789'' ! nat (n mod 10)])"
  by auto

termination int_digits
  by (relation "measure nat") auto

declare int_digits.simps [simp del]

lemma decimal_digit_nth: "d < 10 \<Longrightarrow> decimal_digit d = ''0123456789'' ! d"
proof -
  assume "d < 10"
  then have d: "d = 0 \<or> d = 1 \<or> d = 2 \<or> d = 3 \<or> d = 4 \<or> d = 5 \<or> d = 6 \<or> d = 7 \<or> d = 8 \<or> d = 9" by presburger
  show ?thesis using d unfolding decimal_digit_def by (elim disjE; simp; code_simp)
qed

lemma int_digits_nat: "int_digits (int n) = nat_digits n"
proof (induction n rule: nat_digits.induct)
  case (1 n)
  show ?case
  proof (cases "n < 10")
    case True
    then show ?thesis by (simp add: int_digits.simps [of "int n"] nat_digits.simps [of n] decimal_digit_nth)
  next
    case False
    moreover have "int n div 10 = int (n div 10)" "nat (int n mod 10) = n mod 10"
      by (simp_all add: zdiv_int nat_mod_distrib)
    ultimately show ?thesis using 1
      by (simp add: int_digits.simps [of "int n"] nat_digits.simps [of n] decimal_digit_nth)
  qed
qed

lemma int_digits_nonneg: "0 \<le> n \<Longrightarrow> nat_digits (nat n) = int_digits n"
  using int_digits_nat [of "nat n"] by simp

lemma format_int_digits [code]: "format_int n = (if n < 0 then CHR ''-'' # int_digits (- n) else int_digits n)"
  by (simp add: format_int_def int_digits_nonneg)

lemma zero_pad_digits [code]:
  "zero_pad w n = (let ds = int_digits \<bar>n\<bar>; sign = (if n < 0 then ''-'' else [])
     in sign @ replicate (w - length sign - length ds) CHR ''0'' @ ds)"
  by (simp add: zero_pad_def int_digits_nonneg)

end
