(* ===== verification/Gateways.thy ===== *)
theory Gateways
  imports GoFloat GoFmt
begin

text \<open>
  Payment gateways, the part of \<open>internal/payment\<close> that is the same for all of them: the event
  read off a webhook's JSON body (\<open>webhook.go\<close>), the method stored on a payment
  (\<open>method.go\<close>) and the order id of a retried checkout (\<open>order_id.go\<close>).  The clients
  of the gateways (\<open>duitku.go\<close>, \<open>doku*.go\<close>) are not modelled.
\<close>

section \<open>JSON values\<close>

text \<open>What \<open>json.Unmarshal\<close> makes of a value held as \<open>any\<close>.  Numbers are those of the text; read into
  a \<open>float64\<close> they are rounded.  An object is an association list.\<close>

datatype json = JNull | JBool bool | JNum rat | JStr string | JArr "json list" | JObj "(string \<times> json) list"

type_synonym json_map = "(string \<times> json) list"

text \<open>\<open>int64(f)\<close>; out of range it is the least int64, as on amd64.\<close>

definition int64_of_float :: "rat \<Rightarrow> int" where
  "int64_of_float x = (if int64_ok (go_trunc x) then go_trunc x else - (2 ^ 63))"

definition int64_of_number :: "rat \<Rightarrow> int" where
  "int64_of_number x = int64_of_float (fl64 x)"

section \<open>Numbers in strings\<close>

definition split_sign :: "string \<Rightarrow> bool \<times> string" where
  "split_sign s = (case s of [] \<Rightarrow> (False, []) | c # r \<Rightarrow>
     if c = CHR ''-'' then (True, r) else if c = CHR ''+'' then (False, r) else (False, s))"

definition all_digits :: "string \<Rightarrow> bool" where
  "all_digits s \<longleftrightarrow> s \<noteq> [] \<and> list_all is_digit s"

text \<open>\<open>strconv.ParseInt(s, 10, 64)\<close>: the value, and whether the error is nil; out of range the nearest
  bound comes with the error.\<close>

definition parse_int :: "string \<Rightarrow> int \<times> bool" where
  "parse_int s = (let (neg, ds) = split_sign s in
     if \<not> all_digits ds then (0, False)
     else let n = (if neg then - int (digits_value ds) else int (digits_value ds)) in
       if int64_ok n then (n, True) else (if neg then - (2 ^ 63) else 2 ^ 63 - 1, False))"

text \<open>\<open>strconv.ParseFloat(s, 64)\<close> of decimal numbers; hexadecimal numbers, underscores, infinities and NaN
  are taken as errors here.\<close>

definition ten_power :: "int \<Rightarrow> rat" where
  "ten_power e = (if 0 \<le> e then 10 ^ nat e else 1 / 10 ^ nat (- e))"

definition parse_exponent :: "string \<Rightarrow> int option" where
  "parse_exponent s =
     (case s of [] \<Rightarrow> Some 0
      | c # r \<Rightarrow> if c = CHR ''e'' \<or> c = CHR ''E''
          then let (neg, ds) = split_sign r in
            if all_digits ds then Some (if neg then - int (digits_value ds) else int (digits_value ds)) else None
          else None)"

definition parse_float :: "string \<Rightarrow> rat option" where
  "parse_float s =
     (let (neg, r) = split_sign s;
          ip = takeWhile is_digit r; r1 = dropWhile is_digit r;
          (fp, r2) = (case r1 of c # r' \<Rightarrow> if c = CHR ''.'' then (takeWhile is_digit r', dropWhile is_digit r') else ([], r1) | [] \<Rightarrow> ([], []))
      in if ip @ fp = [] then None
         else case parse_exponent r2 of None \<Rightarrow> None
           | Some e \<Rightarrow> let x = fl64 (of_nat (digits_value (ip @ fp)) * ten_power (e - int (length fp))) in
               if 2 ^ 1024 \<le> x then None else Some (if neg then - x else x))"

definition to_int64 :: "json \<Rightarrow> int" where
  "to_int64 v =
     (case v of
        JNum x \<Rightarrow> int64_of_number x
      | JStr t \<Rightarrow>
          let s = trim_space (filter (\<lambda>c. c \<noteq> CHR '','') t) in
          if s = [] then 0
          else if snd (parse_int s) then fst (parse_int s)
          else (case parse_float s of Some f \<Rightarrow> int64_of_float f | None \<Rightarrow> 0)
      | _ \<Rightarrow> 0)"

section \<open>The event of a webhook\<close>

fun first_string :: "json_map \<Rightarrow> string list \<Rightarrow> string" where
  "first_string m [] = []"
| "first_string m (k # ks) = (case map_of m k of Some (JStr v) \<Rightarrow> if v \<noteq> [] then v else first_string m ks | _ \<Rightarrow> first_string m ks)"

fun first_amount :: "json_map \<Rightarrow> string list \<Rightarrow> int" where
  "first_amount m [] = 0"
| "first_amount m (k # ks) =
     (case map_of m k of None \<Rightarrow> first_amount m ks
      | Some v \<Rightarrow> if to_int64 v \<noteq> 0 then to_int64 v else first_amount m ks)"

record webhook_event =
  ev_external :: string
  ev_status :: string
  ev_amount :: int
  ev_reference :: string

definition status_of_transaction_status :: "string \<Rightarrow> string" where
  "status_of_transaction_status v =
     (if to_lower v \<in> {''settlement'', ''capture'', ''paid'', ''success''} then ''paid'' else v)"

definition status_of_status :: "string \<Rightarrow> string" where
  "status_of_status v =
     (if to_upper v \<in> {''PAID'', ''SUCCESS'', ''SETTLEMENT'', ''CAPTURE''} then ''paid'' else v)"

definition status_of_result_code :: "string \<Rightarrow> string \<Rightarrow> string" where
  "status_of_result_code st rc =
     (if rc = ''00'' then ''paid'' else if rc = ''01'' then ''pending'' else if rc = ''02'' then ''failed'' else st)"

definition status_of_transaction :: "string \<Rightarrow> string" where
  "status_of_transaction st =
     (if to_upper st = ''SUCCESS'' then ''paid'' else if to_upper st = ''PENDING'' then ''pending''
      else if to_upper st = ''EXPIRED'' then ''expired''
      else if to_upper st \<in> {''FAILED'', ''VOID'', ''REFUND'', ''REFUNDED''} then ''failed'' else st)"

definition flat_event :: "json_map \<Rightarrow> webhook_event" where
  "flat_event body =
     (let st1 = (case map_of body ''transaction_status'' of Some (JStr v) \<Rightarrow> status_of_transaction_status v | _ \<Rightarrow> ''paid'');
          st2 = (case map_of body ''status'' of Some (JStr v) \<Rightarrow> if v \<noteq> [] then status_of_status v else st1 | _ \<Rightarrow> st1);
          rc = first_string body [''resultCode'', ''result_code'', ''statusCode'', ''status_code'']
      in \<lparr>ev_external = first_string body [''merchantOrderId'', ''merchant_order_id'', ''referenceId'', ''reference_id'', ''external_id'',
              ''order_id'', ''merchant_ref'', ''reference'', ''id''],
          ev_status = (if rc \<noteq> [] then status_of_result_code st2 rc else st2),
          ev_amount = first_amount body [''amount'', ''paidAmount'', ''paid_amount'', ''gross_amount'', ''totalAmount'', ''total_amount''],
          ev_reference = first_string body [''transactionId'', ''transaction_id'', ''reference'', ''payment_id'', ''merchant_ref'']\<rparr>)"

definition with_data :: "json_map \<Rightarrow> webhook_event \<Rightarrow> webhook_event" where
  "with_data body e =
     (case map_of body ''data'' of
        Some (JObj d) \<Rightarrow>
          \<lparr>ev_external = (if ev_external e = []
               then first_string d [''referenceId'', ''reference_id'', ''merchant_ref'', ''reference'', ''external_id'', ''order_id''] else ev_external e),
           ev_status = (case map_of d ''status'' of
               Some (JStr st) \<Rightarrow> if st = [] then ev_status e else if to_upper st \<in> {''PAID'', ''SUCCESS''} then ''paid'' else st
             | _ \<Rightarrow> ev_status e),
           ev_amount = (if ev_amount e = 0
               then first_amount d [''amount'', ''paidAmount'', ''totalAmount'', ''total_amount'', ''gross_amount''] else ev_amount e),
           ev_reference = (if ev_reference e = [] then first_string d [''transactionId'', ''transaction_id''] else ev_reference e)\<rparr>
      | _ \<Rightarrow> e)"

definition with_order :: "json_map \<Rightarrow> webhook_event \<Rightarrow> webhook_event" where
  "with_order body e =
     (case map_of body ''order'' of
        Some (JObj d) \<Rightarrow> e\<lparr>
           ev_external := (if ev_external e = []
             then first_string d [''invoice_number'', ''merchantOrderId'', ''merchant_order_id'', ''reference'', ''external_id'', ''order_id'']
             else ev_external e),
           ev_amount := (if ev_amount e = 0 then first_amount d [''amount'', ''total_amount'', ''gross_amount''] else ev_amount e)\<rparr>
      | _ \<Rightarrow> e)"

definition with_transaction :: "json_map \<Rightarrow> webhook_event \<Rightarrow> webhook_event" where
  "with_transaction body e =
     (case map_of body ''transaction'' of
        Some (JObj d) \<Rightarrow> e\<lparr>
           ev_reference := (if ev_reference e = [] then first_string d [''original_request_id'', ''reference'', ''transaction_id''] else ev_reference e),
           ev_status := (let st = first_string d [''status''] in if st = [] then ev_status e else status_of_transaction st)\<rparr>
      | _ \<Rightarrow> e)"

text \<open>\<open>ParseWebhookEvent\<close>; \<open>None\<close> is a nil body, an error.  The provider is not looked at, and the raw
  body the event carries along is left out.\<close>

definition parse_webhook_event :: "json_map option \<Rightarrow> webhook_event option" where
  "parse_webhook_event body =
     (case body of None \<Rightarrow> None
      | Some b \<Rightarrow> Some (with_transaction b (with_order b (with_data b (flat_event b)))))"

definition webhook_is_paid :: "string \<Rightarrow> bool" where
  "webhook_is_paid st \<longleftrightarrow> to_lower st \<in> {''paid'', ''settlement'', ''capture'', ''success''}
     \<or> equal_fold st ''PAID'' \<or> equal_fold st ''SUCCESS''"

section \<open>Methods and order ids\<close>

definition method_from_provider :: "string \<Rightarrow> string" where
  "method_from_provider provider =
     (let p = to_lower (trim_space provider) in
      if p = [] then []
      else if p \<in> {''manual'', ''tunai'', ''cash'', ''kasir''} then ''tunai''
      else if p \<in> {''qris'', ''qr''} then ''qris''
      else if p \<in> {''duitku'', ''duitku_pop'', ''duitkupop''} then ''duitku''
      else if p = ''doku'' then ''doku''
      else if p \<in> {''transfer'', ''bank'', ''va''} then ''transfer''
      else p)"

definition normalize_payment_provider_name :: "string \<Rightarrow> string" where
  "normalize_payment_provider_name name0 =
     (let n = to_lower (trim_space name0) in
      if n \<in> {[], ''duitku'', ''duitku_pop'', ''duitkupop'', ''pop''} then ''duitku''
      else if n = ''doku'' then ''doku'' else n)"

definition order_id_alphabet :: string where
  "order_id_alphabet = ''ABCDEFGHJKLMNPQRSTUVWXYZ23456789''"

text \<open>\<open>RandomOrderSuffix\<close>; \<open>draw\<close> gives the random bytes, or nothing when the source fails: then the
  bits of the clock are used.\<close>

definition random_order_suffix :: "(nat \<Rightarrow> nat) option \<Rightarrow> nat \<Rightarrow> nat \<Rightarrow> string" where
  "random_order_suffix draw now n =
     (case draw of
        Some b \<Rightarrow> map (\<lambda>i. order_id_alphabet ! (b i mod 32)) [0..<n]
      | None \<Rightarrow> map (\<lambda>i. order_id_alphabet ! ((now div 2 ^ (5 * i)) mod 32)) [0..<n])"

definition merchant_order_id_max :: nat where "merchant_order_id_max = 50"

definition trim_hyphens :: "string \<Rightarrow> string" where
  "trim_hyphens s = trim_by (\<lambda>c. c = CHR ''-'') s"

definition refresh_merchant_order_id :: "string \<Rightarrow> string \<Rightarrow> string" where
  "refresh_merchant_order_id fresh id0 =
     (let oid = trim_space id0; tail = takeWhile (\<lambda>c. c \<noteq> CHR ''-'') (rev oid) in
      if length tail < length oid \<and> length tail = 5
      then take merchant_order_id_max (take (length oid - 5) oid @ fresh)
      else let out = trim_hyphens oid in
        if out = [] then ''INV-retry-'' @ fresh
        else (if merchant_order_id_max < length out + 1 + 5 then take (merchant_order_id_max - 6) out else out) @ ''-'' @ fresh)"

end
