(* ===== verification/Billing_Db.thy ===== *)
theory Billing_Db
  imports Store Settings Gateways
begin

text \<open>
  The billing tables (migrations/001_initial_schema.sql and the migrations that alter
  them): one record per row, with the columns the store reads or writes, and the
  tables as lists in one record that extends \<open>conn\<close>.  Dates (\<open>DATE\<close>) are day numbers,
  instants are nanoseconds, amounts are \<open>BIGINT\<close>: a statement that would store an
  amount outside 64 bits is refused by the database, as are rows that break a unique or
  foreign key.
\<close>

section \<open>Rows\<close>

record customer =
  cust_id :: gid
  cust_tenant :: gid
  cust_cluster :: "gid option"
  cust_code :: string
  cust_name :: string
  cust_email :: "string option"
  cust_phone :: string
  cust_address :: "string option"
  cust_lat :: "rat option"
  cust_lng :: "rat option"
  cust_identity_type :: "string option"
  cust_identity_number :: "string option"
  cust_active :: bool
  cust_portal :: bool
  cust_photo :: "string option"
  cust_dismantled :: "int option"
  cust_password :: "string option"
  cust_created :: int
  cust_reseller :: "gid option"
  cust_sales :: "gid option"

text \<open>Clusters are the rows of the table \<open>sites\<close>.\<close>

record cluster =
  cl_id :: gid
  cl_tenant :: gid
  cl_name :: string
  cl_code :: string
  cl_prefix :: string
  cl_pattern :: string
  cl_seq_width :: int
  cl_address :: "string option"
  cl_lat :: "rat option"
  cl_lng :: "rat option"
  cl_radius :: "rat option"
  cl_notes :: "string option"
  cl_active :: bool
  cl_created :: int

record invoice =
  inv_id :: gid
  inv_tenant :: gid
  inv_customer :: gid
  inv_subscription :: "gid option"
  inv_isolir_sub :: "gid option"
  inv_isolir :: bool
  inv_number :: string
  inv_subtotal :: int
  inv_tax :: int
  inv_discount :: int
  inv_total :: int
  inv_paid :: int
  inv_status :: string
  inv_due :: int
  inv_issued :: "int option"
  inv_paid_at :: "int option"
  inv_deleted :: "int option"
  inv_late_fee :: "int option"

record invoice_item =
  item_id :: gid
  item_tenant :: gid
  item_invoice :: gid
  item_desc :: string
  item_qty :: int
  item_price :: int
  item_amount :: int

record payment =
  pay_id :: gid
  pay_tenant :: gid
  pay_customer :: gid
  pay_invoice :: "gid option"
  pay_amount :: int
  pay_method :: string
  pay_reference :: "string option"
  pay_status :: string
  pay_sandbox :: bool
  pay_paid_at :: "int option"
  pay_created :: int
  pay_deleted :: "int option"

record wallet =
  w_id :: gid
  w_tenant :: gid
  w_customer :: gid
  w_balance :: int

record wallet_txn =
  wt_id :: gid
  wt_tenant :: gid
  wt_wallet :: gid
  wt_amount :: int
  wt_type :: string
  wt_reference :: "string option"
  wt_desc :: "string option"
  wt_created :: int

record account =
  acc_id :: gid
  acc_tenant :: gid
  acc_code :: string
  acc_name :: string
  acc_type :: string
  acc_active :: bool

record journal_entry =
  je_id :: gid
  je_tenant :: gid
  je_date :: int
  je_reference :: "string option"
  je_desc :: string
  je_source_type :: "string option"
  je_source_id :: "gid option"
  je_created :: int

record journal_line =
  jl_tenant :: gid
  jl_entry :: gid
  jl_account :: gid
  jl_debit :: int
  jl_credit :: int

record intent =
  pi_id :: gid
  pi_tenant :: gid
  pi_customer :: gid
  pi_invoice :: "gid option"
  pi_provider :: string
  pi_external :: string
  pi_amount :: int
  pi_status :: string
  pi_checkout :: string
  pi_expires :: "int option"
  pi_meta :: json_map
  pi_created :: int

record expense =
  exp_id :: gid
  exp_tenant :: gid
  exp_account :: "gid option"
  exp_amount :: int
  exp_category :: string
  exp_desc :: string
  exp_date :: int
  exp_created :: int

record plan =
  plan_id :: gid
  plan_tenant :: gid
  plan_name :: string
  plan_code :: string
  plan_service :: string
  plan_price :: int
  plan_cycle :: string
  plan_down :: int
  plan_up :: int
  plan_quota :: "int option"
  plan_limit_uptime :: "string option"
  plan_shared_users :: "int option"
  plan_profile :: "string option"
  plan_isolir_profile :: "string option"
  plan_due_day :: "int option"
  plan_tax :: rat
  plan_active :: bool
  plan_portal :: bool

record offer =
  off_id :: gid
  off_tenant :: gid
  off_plan :: gid
  off_cluster :: gid
  off_pool :: "gid option"
  off_price :: int
  off_active :: bool
  off_due_day :: "int option"

record discount =
  disc_id :: gid
  disc_tenant :: gid
  disc_name :: string
  disc_plan :: "gid option"
  disc_kind :: string
  disc_value :: int
  disc_starts :: int
  disc_ends :: int
  disc_audience :: string
  disc_active :: bool
  disc_created :: int

record pending_plan =
  pend_old :: gid
  pend_new :: gid
  pend_invoice :: gid
  pend_direction :: string
  pend_service :: string
  pend_created :: int

record subscription =
  sub_id :: gid
  sub_tenant :: gid
  sub_customer :: gid
  sub_plan :: gid
  sub_router :: "gid option"
  sub_username :: string
  sub_password :: "string option"
  sub_service :: string
  sub_status :: string
  sub_started :: "int option"
  sub_expires :: "int option"
  sub_next_bill :: "int option"
  sub_suspended :: "int option"
  sub_pending :: "pending_plan option"

record odp =
  odp_id :: gid
  odp_tenant :: gid
  odp_cluster :: "gid option"
  odp_name :: string
  odp_code :: string
  odp_port_count :: int

record odp_port =
  port_id :: gid
  port_tenant :: gid
  port_odp :: gid
  port_number :: int
  port_status :: string
  port_customer :: "gid option"
  port_subscription :: "gid option"

text \<open>Of the users of a tenant the model keeps the name.\<close>

record staff =
  u_id :: gid
  u_tenant :: gid
  u_name :: string

record reseller =
  rs_id :: gid
  rs_tenant :: gid
  rs_user :: "gid option"
  rs_name :: string
  rs_phone :: "string option"
  rs_percent :: rat
  rs_balance :: int
  rs_active :: bool
  rs_created :: int

record commission =
  cm_id :: gid
  cm_tenant :: gid
  cm_customer :: gid
  cm_lead :: "gid option"
  cm_reseller :: "gid option"
  cm_sales :: "gid option"
  cm_amount :: int
  cm_basis :: string
  cm_status :: string
  cm_note :: "string option"
  cm_created :: int
  cm_paid_at :: "int option"

record commission_settings =
  cs_new_customer :: int
  cs_acquisition :: int

record lead =
  ld_id :: gid
  ld_tenant :: gid
  ld_name :: string
  ld_phone :: string
  ld_email :: "string option"
  ld_address :: "string option"
  ld_lat :: "rat option"
  ld_lng :: "rat option"
  ld_odp :: "gid option"
  ld_status :: string
  ld_notes :: "string option"
  ld_identity_type :: "string option"
  ld_identity_number :: "string option"
  ld_reseller :: "gid option"
  ld_sales :: "gid option"
  ld_assigned :: "gid option"
  ld_customer :: "gid option"
  ld_converted_at :: "int option"
  ld_created :: int

record lead_comment =
  lc_id :: gid
  lc_tenant :: gid
  lc_lead :: gid
  lc_user :: "gid option"
  lc_kind :: string
  lc_message :: string
  lc_images :: "string list"
  lc_created :: int

text \<open>\<open>sub_pending\<close> is the key \<open>pending_plan_change\<close> of the subscription's JSON metadata.  The
  settings of a tenant are JSON values under the keys \<open>tenant.general\<close>, \<open>jobs.schedule\<close>
  and \<open>commission.new_customer_amount\<close>.
  \<open>code_seqs\<close> is \<open>customer_code_sequences\<close>, keyed by cluster and period.
  \<open>discount_customers\<close> holds the pairs of \<open>plan_discount_customers\<close>, \<open>job_runs\<close> the unique
  keys (tenant, job, key).\<close>

record db = conn +
  next_id :: gid
  customers :: "customer list"
  invoices :: "invoice list"
  invoice_items :: "invoice_item list"
  payments :: "payment list"
  wallets :: "wallet list"
  wallet_txns :: "wallet_txn list"
  accounts :: "account list"
  journal_entries :: "journal_entry list"
  journal_lines :: "journal_line list"
  intents :: "intent list"
  expenses :: "expense list"
  plans :: "plan list"
  offers :: "offer list"
  discounts :: "discount list"
  discount_customers :: "(gid \<times> gid) list"
  subscriptions :: "subscription list"
  clusters :: "cluster list"
  code_seqs :: "((gid \<times> string) \<times> int) list"
  odps :: "odp list"
  odp_ports :: "odp_port list"
  users :: "staff list"
  resellers :: "reseller list"
  commissions :: "commission list"
  commission_rows :: "(gid \<times> commission_settings) list"
  leads :: "lead list"
  lead_comments :: "lead_comment list"
  general_rows :: "(gid \<times> general_settings) list"
  jobs_rows :: "(gid \<times> job_settings) list"
  job_runs :: "(gid \<times> string \<times> string) list"

definition empty_db :: db where
  "empty_db = \<lparr>faults = [], aborted = False, next_id = 1, customers = [], invoices = [],
     invoice_items = [], payments = [], wallets = [], wallet_txns = [], accounts = [],
     journal_entries = [], journal_lines = [], intents = [], expenses = [], plans = [], offers = [],
     discounts = [], discount_customers = [], subscriptions = [], clusters = [], code_seqs = [], odps = [], odp_ports = [], users = [], resellers = [], commissions = [],
     commission_rows = [], leads = [], lead_comments = [], general_rows = [], jobs_rows = [], job_runs = []\<rparr>"

section \<open>SQL on lists\<close>

definition update_rows :: "('r \<Rightarrow> bool) \<Rightarrow> ('r \<Rightarrow> 'r) \<Rightarrow> 'r list \<Rightarrow> 'r list" where
  "update_rows p f rows = map (\<lambda>r. if p r then f r else r) rows"

definition affected :: "('r \<Rightarrow> bool) \<Rightarrow> 'r list \<Rightarrow> nat" where
  "affected p rows = length (filter p rows)"

text \<open>\<open>QueryRow\<close>: the first matching row in the order asked for.\<close>

definition first_row :: "('r \<Rightarrow> bool) \<Rightarrow> 'r list \<Rightarrow> 'r option" where
  "first_row p rows = find p rows"

named_theorems row_simps \<open>facts about updated tables\<close>

lemma update_rows_Nil [simp]: "update_rows p f [] = []"
  by (simp add: update_rows_def)

lemma update_rows_Cons [simp]:
  "update_rows p f (r # rs) = (if p r then f r else r) # update_rows p f rs"
  by (simp add: update_rows_def)

lemma update_rows_append [simp]:
  "update_rows p f (xs @ ys) = update_rows p f xs @ update_rows p f ys"
  by (simp add: update_rows_def)

lemma set_update_rows: "r \<in> set (update_rows p f rows) \<longleftrightarrow> (\<exists>r0\<in>set rows. r = (if p r0 then f r0 else r0))"
  by (auto simp: update_rows_def)

lemma update_rows_none [row_simps]: "(\<And>r. r \<in> set rows \<Longrightarrow> \<not> p r) \<Longrightarrow> update_rows p f rows = rows"
  unfolding update_rows_def by (rule map_idI) auto

lemma map_update_rows: "(\<And>r. k (f r) = k r) \<Longrightarrow> map k (update_rows p f rows) = map k rows"
  by (simp add: update_rows_def)

lemma affected_0 [row_simps]: "affected p rows = 0 \<longleftrightarrow> (\<forall>r\<in>set rows. \<not> p r)"
  by (auto simp: affected_def filter_empty_conv)

lemma first_row_None: "first_row p rows = None \<longleftrightarrow> (\<forall>r\<in>set rows. \<not> p r)"
  by (auto simp: first_row_def find_None_iff)

lemma first_row_Some: "first_row p rows = Some r \<Longrightarrow> r \<in> set rows \<and> p r"
  by (auto simp: first_row_def find_Some_iff)

text \<open>Sums over a table, restricted to the rows a condition selects.\<close>

definition sum_where :: "('r \<Rightarrow> bool) \<Rightarrow> ('r \<Rightarrow> int) \<Rightarrow> 'r list \<Rightarrow> int" where
  "sum_where p g rows = (\<Sum>r\<leftarrow>rows. if p r then g r else 0)"

lemma sum_where_Nil [simp]: "sum_where p g [] = 0"
  by (simp add: sum_where_def)

lemma sum_where_append [simp]: "sum_where p g (xs @ ys) = sum_where p g xs + sum_where p g ys"
  by (simp add: sum_where_def)

lemma sum_where_Cons [simp]: "sum_where p g (x # xs) = (if p x then g x else 0) + sum_where p g xs"
  by (simp add: sum_where_def)

lemma sum_where_none: "(\<And>r. r \<in> set rows \<Longrightarrow> \<not> p r) \<Longrightarrow> sum_where p g rows = 0"
  by (induction rows) auto

lemma sum_where_nonneg: "(\<And>r. r \<in> set rows \<Longrightarrow> p r \<Longrightarrow> 0 \<le> g r) \<Longrightarrow> 0 \<le> sum_where p g rows"
  by (induction rows) auto

lemma sum_where_cong:
  "(\<And>r. r \<in> set rows \<Longrightarrow> p r = q r) \<Longrightarrow> (\<And>r. r \<in> set rows \<Longrightarrow> q r \<Longrightarrow> g r = h r) \<Longrightarrow>
   sum_where p g rows = sum_where q h rows"
  by (induction rows) auto

lemma sum_where_update:
  "sum_where p g (update_rows q f rows) = sum_where (\<lambda>r. p (if q r then f r else r)) (\<lambda>r. g (if q r then f r else r)) rows"
  by (induction rows) auto

lemma sum_where_split:
  "sum_where p g rows = sum_where (\<lambda>r. p r \<and> q r) g rows + sum_where (\<lambda>r. p r \<and> \<not> q r) g rows"
  by (induction rows) auto

text \<open>A key that identifies rows: updating by key touches exactly one row.\<close>

lemma unique_row:
  "distinct (map k rows) \<Longrightarrow> r \<in> set rows \<Longrightarrow> r' \<in> set rows \<Longrightarrow> k r = k r' \<Longrightarrow> r = r'"
  by (auto simp: distinct_map dest: inj_onD)

lemma sum_where_single:
  "distinct (map k rows) \<Longrightarrow> r \<in> set rows \<Longrightarrow> p r \<Longrightarrow> sum_where (\<lambda>x. p x \<and> k x = k r) g rows = g r"
proof (induction rows)
  case (Cons x rows)
  show ?case
  proof (cases "x = r")
    case True
    then have "sum_where (\<lambda>x. p x \<and> k x = k r) g rows = 0"
      using Cons.prems
      by (intro sum_where_none) (metis distinct.simps(2) imageI list.set_map list.simps(9))
    then show ?thesis using True Cons.prems by simp
  next
    case False
    then have "r \<in> set rows" using Cons.prems by simp
    moreover from this have "k x \<noteq> k r" using Cons.prems by force
    ultimately show ?thesis using Cons by simp
  qed
qed simp

text \<open>Sorting a result as \<open>ORDER BY\<close> does: by insertion, stable.\<close>

fun insert_by :: "('r \<Rightarrow> 'r \<Rightarrow> bool) \<Rightarrow> 'r \<Rightarrow> 'r list \<Rightarrow> 'r list" where
  "insert_by le x [] = [x]"
| "insert_by le x (y # ys) = (if le x y then x # y # ys else y # insert_by le x ys)"

definition order_by :: "('r \<Rightarrow> 'r \<Rightarrow> bool) \<Rightarrow> 'r list \<Rightarrow> 'r list" where
  "order_by le rows = foldr (insert_by le) rows []"

lemma set_insert_by [simp]: "set (insert_by le x ys) = insert x (set ys)"
  by (induction ys) auto

lemma length_insert_by [simp]: "length (insert_by le x ys) = Suc (length ys)"
  by (induction ys) auto

lemma order_by_Nil [simp]: "order_by le [] = []"
  by (simp add: order_by_def)

lemma order_by_Cons [simp]: "order_by le (x # xs) = insert_by le x (order_by le xs)"
  by (simp add: order_by_def)

lemma set_order_by [simp]: "set (order_by le rows) = set rows"
  by (induction rows) simp_all

lemma length_order_by [simp]: "length (order_by le rows) = length rows"
  by (induction rows) simp_all

lemma sorted_insert_by:
  "(\<And>a b. le a b \<or> le b a) \<Longrightarrow> (\<And>a b c. le a b \<Longrightarrow> le b c \<Longrightarrow> le a c) \<Longrightarrow>
   sorted_wrt le ys \<Longrightarrow> sorted_wrt le (insert_by le x ys)"
proof (induction ys)
  case (Cons y ys)
  show ?case
  proof (cases "le x y")
    case True
    then show ?thesis using Cons.prems by auto
  next
    case False
    then have "le y x" using Cons.prems(1) by blast
    then show ?thesis using False Cons by simp
  qed
qed simp

lemma sorted_order_by:
  "(\<And>a b. le a b \<or> le b a) \<Longrightarrow> (\<And>a b c. le a b \<Longrightarrow> le b c \<Longrightarrow> le a c) \<Longrightarrow>
   sorted_wrt le (order_by le rows)"
  by (induction rows) (simp_all add: sorted_insert_by)

text \<open>\<open>ILIKE\<close>: \<open>%\<close> and \<open>_\<close> in the pattern are wildcards, also those the user typed.\<close>

fun sql_like :: "string \<Rightarrow> string \<Rightarrow> bool" where
  "sql_like [] s = (s = [])"
| "sql_like (p # ps) s =
     (if p = CHR ''%'' then sql_like ps s \<or> (case s of [] \<Rightarrow> False | c # cs \<Rightarrow> sql_like (p # ps) cs)
      else if p = CHR ''_'' then (case s of [] \<Rightarrow> False | c # cs \<Rightarrow> sql_like ps cs)
      else if p = CHR 0x5C then
        (case ps of [] \<Rightarrow> False
         | q # qs \<Rightarrow> (case s of [] \<Rightarrow> False | c # cs \<Rightarrow> c = q \<and> sql_like qs cs))
      else (case s of [] \<Rightarrow> False | c # cs \<Rightarrow> c = p \<and> sql_like ps cs))"

definition ilike :: "string \<Rightarrow> string \<Rightarrow> bool" where
  "ilike s pat = sql_like (to_lower pat) (to_lower s)"

text \<open>\<open>LIMIT l OFFSET o\<close>; the database refuses negative numbers.\<close>

definition page :: "int \<Rightarrow> int \<Rightarrow> 'r list \<Rightarrow> 'r list option" where
  "page l off rows = (if l < 0 \<or> off < 0 then None else Some (take (nat l) (drop (nat off) rows)))"

lemma page_subset: "page l off rows = Some xs \<Longrightarrow> set xs \<subseteq> set rows \<and> length xs \<le> nat l"
  by (auto simp: page_def split: if_splits dest: in_set_takeD in_set_dropD)

text \<open>A key is fresh when every row's key is below the next one.\<close>

definition fresh_keys :: "('r \<Rightarrow> gid) \<Rightarrow> 'r list \<Rightarrow> gid \<Rightarrow> bool" where
  "fresh_keys k rows n \<longleftrightarrow> distinct (map k rows) \<and> (\<forall>r\<in>set rows. k r < n)"

lemma fresh_keys_append:
  "fresh_keys k rows n \<Longrightarrow> k r = n \<Longrightarrow> fresh_keys k (rows @ [r]) (Suc n)"
  by (auto simp: fresh_keys_def)

lemma fresh_keys_update:
  "(\<And>r. k (f r) = k r) \<Longrightarrow> fresh_keys k (update_rows p f rows) n = fresh_keys k rows n"
proof -
  assume k: "\<And>r. k (f r) = k r"
  have "fresh_keys k rs n \<longleftrightarrow> distinct (map k rs) \<and> (\<forall>x\<in>set (map k rs). x < n)" for rs
    by (auto simp: fresh_keys_def)
  then show ?thesis by (simp only: map_update_rows [of k f, OF k])
qed

lemma fresh_keys_mono: "fresh_keys k rows n \<Longrightarrow> n \<le> m \<Longrightarrow> fresh_keys k rows m"
  by (auto simp: fresh_keys_def)

lemma fresh_keys_filter: "fresh_keys k rows n \<Longrightarrow> fresh_keys k (filter p rows) n"
  by (auto simp: fresh_keys_def distinct_map_filter)

text \<open>The same tables, whatever the connection went through.\<close>

definition same_tables :: "db \<Rightarrow> db \<Rightarrow> bool" where
  "same_tables s0 s \<longleftrightarrow> s\<lparr>faults := [], aborted := False\<rparr> = s0\<lparr>faults := [], aborted := False\<rparr>"

lemma stable_same_tables: "stable (same_tables s0)"
  by (simp add: stable_def same_tables_def)

lemma same_tables_refl [simp]: "same_tables s s"
  by (simp add: same_tables_def)

lemma same_tables_conn [simp]: "same_tables s (s\<lparr>faults := fs, aborted := a\<rparr>)" "same_tables s (s\<lparr>faults := fs\<rparr>)"
  by (simp_all add: same_tables_def)

lemma same_tables_eq: "same_tables s0 s \<Longrightarrow> s = s0\<lparr>faults := faults s, aborted := aborted s\<rparr>"
  by (cases s0, cases s) (simp add: same_tables_def)

lemma same_tables_D:
  assumes "same_tables s0 s"
  shows "wallets s = wallets s0" "wallet_txns s = wallet_txns s0" "invoices s = invoices s0" "payments s = payments s0"
    "next_id s = next_id s0" "plans s = plans s0" "offers s = offers s0" "discounts s = discounts s0"
    "discount_customers s = discount_customers s0" "subscriptions s = subscriptions s0" "customers s = customers s0"
    "general_rows s = general_rows s0" "intents s = intents s0" "invoice_items s = invoice_items s0"
    "clusters s = clusters s0" "code_seqs s = code_seqs s0" "odps s = odps s0" "odp_ports s = odp_ports s0"
    "users s = users s0" "resellers s = resellers s0" "commissions s = commissions s0"
    "commission_rows s = commission_rows s0" "leads s = leads s0" "lead_comments s = lead_comments s0"
  using arg_cong [OF assms [unfolded same_tables_def], of wallets] arg_cong [OF assms [unfolded same_tables_def], of wallet_txns]
    arg_cong [OF assms [unfolded same_tables_def], of invoices] arg_cong [OF assms [unfolded same_tables_def], of payments]
    arg_cong [OF assms [unfolded same_tables_def], of next_id] arg_cong [OF assms [unfolded same_tables_def], of plans]
    arg_cong [OF assms [unfolded same_tables_def], of offers] arg_cong [OF assms [unfolded same_tables_def], of discounts]
    arg_cong [OF assms [unfolded same_tables_def], of discount_customers] arg_cong [OF assms [unfolded same_tables_def], of subscriptions]
    arg_cong [OF assms [unfolded same_tables_def], of customers] arg_cong [OF assms [unfolded same_tables_def], of general_rows]
    arg_cong [OF assms [unfolded same_tables_def], of intents] arg_cong [OF assms [unfolded same_tables_def], of invoice_items]
    arg_cong [OF assms [unfolded same_tables_def], of clusters] arg_cong [OF assms [unfolded same_tables_def], of code_seqs]
    arg_cong [OF assms [unfolded same_tables_def], of odps] arg_cong [OF assms [unfolded same_tables_def], of odp_ports]
    arg_cong [OF assms [unfolded same_tables_def], of users] arg_cong [OF assms [unfolded same_tables_def], of resellers]
    arg_cong [OF assms [unfolded same_tables_def], of commissions] arg_cong [OF assms [unfolded same_tables_def], of commission_rows]
    arg_cong [OF assms [unfolded same_tables_def], of leads] arg_cong [OF assms [unfolded same_tables_def], of lead_comments]
  by simp_all

text \<open>A program that changes nothing when it fails.\<close>

definition atomic :: "(db, 'a) prog \<Rightarrow> bool" where
  "atomic m \<longleftrightarrow> (\<forall>s e s'. m s = (Inl e, s') \<longrightarrow> same_tables s s')"

lemma atomic_tx: "atomic (tx m)" "atomic (with_tenant m)"
  unfolding atomic_def with_tenant_def by (metis same_tables_conn(1) tx_error_unchanged)+

lemma atomic_after_read:
  assumes "\<And>P. stable P \<Longrightarrow> keeps P m" and "\<And>x. atomic (f x)"
  shows "atomic (bind m f)"
  unfolding atomic_def
proof (intro allI impI)
  fix s e s' assume r: "bind m f s = (Inl e, s')"
  obtain y s1 where m: "m s = (y, s1)" by fastforce
  have same: "same_tables s s1"
    using assms(1) [OF stable_same_tables, of s] m unfolding keeps_def by (metis same_tables_refl snd_conv)
  show "same_tables s s'"
  proof (cases y)
    case (Inl e')
    then show ?thesis using r m same by (simp add: bind_def)
  next
    case (Inr x)
    then have "f x s1 = (Inl e, s')" using r m by (simp add: bind_def)
    then have "same_tables s1 s'" using assms(2) unfolding atomic_def by blast
    then show ?thesis using same by (simp add: same_tables_def)
  qed
qed

lemma stable_same_and: "stable (\<lambda>s1. same_tables s s1 \<and> Q)"
  by (simp add: stable_def same_tables_def)

lemma gives_same_query:
  assumes "\<And>s1. same_tables s s1 \<Longrightarrow> g s1 = g s"
  shows "gives (same_tables s) (auto (query g)) (\<lambda>x s1. same_tables s s1 \<and> x = g s)"
  by (rule gives_auto_query [OF stable_same_tables stable_same_and]) (simp only: assms simp_thms)

end
