(* ===== verification/Invoices.thy ===== *)
theory Invoices
  imports Billing_Db
begin

text \<open>
  Invoices and payments: \<open>internal/store/invoices.go\<close>.  \<open>now\<close> is the instant both
  \<open>time.Now()\<close> and \<open>NOW()\<close> return during a call, \<open>today\<close> is \<open>CURRENT_DATE\<close>.  Every
  function of the file is a program over \<open>db\<close>, statement for statement.
\<close>

section \<open>Item names\<close>

definition is_late_fee_description :: "string \<Rightarrow> bool" where
  "is_late_fee_description desc =
     (let d = to_lower (trim_space desc) in
      contains_sub d ''denda'' \<or> contains_sub d ''late'' \<or> contains_sub d ''keterlambatan'')"

fun item_names :: "string list \<Rightarrow> invoice_item list \<Rightarrow> string list" where
  "item_names seen [] = []"
| "item_names seen (it # items) =
     (let d = trim_space (item_desc it) in
      if d = [] \<or> is_late_fee_description d then item_names seen items
      else if to_lower d \<in> set seen then item_names seen items
      else d # item_names (to_lower d # seen) items)"

definition invoice_item_name :: "invoice_item list \<Rightarrow> string" where
  "invoice_item_name items = join_with '', '' (item_names [] items)"

definition notification_item_name :: "string \<Rightarrow> invoice_item list \<Rightarrow> string" where
  "notification_item_name pname items =
     (let n = invoice_item_name items; p = trim_space pname in
      if n \<noteq> [] then n else if p \<noteq> [] then p else ''layanan'')"

definition summarize_invoice_items :: "invoice_item list \<Rightarrow> string" where
  "summarize_invoice_items items =
     join_with '', '' (filter (\<lambda>n. n \<noteq> []) (map (\<lambda>it. trim_space (item_desc it)) items))"

section \<open>Creating\<close>

definition invoice_amounts_ok :: "invoice \<Rightarrow> bool" where
  "invoice_amounts_ok i \<longleftrightarrow>
     list_all int64_ok [inv_subtotal i, inv_tax i, inv_discount i, inv_total i, inv_paid i]"

definition insert_invoice :: "int \<Rightarrow> invoice \<Rightarrow> db \<Rightarrow> (gid \<times> db) option" where
  "insert_invoice now i s =
     (if invoice_amounts_ok i
        \<and> list_ex (\<lambda>c. cust_id c = inv_customer i) (customers s)
        \<and> \<not> list_ex (\<lambda>j. inv_tenant j = inv_tenant i \<and> inv_number j = inv_number i) (invoices s)
      then let new = i\<lparr>inv_id := next_id s, inv_paid := 0, inv_issued := Some now, inv_paid_at := None,
                 inv_deleted := None, inv_late_fee := None\<rparr>
           in Some (next_id s, s\<lparr>next_id := Suc (next_id s), invoices := invoices s @ [new]\<rparr>)
      else None)"

definition insert_item :: "gid \<Rightarrow> gid \<Rightarrow> invoice_item \<Rightarrow> db \<Rightarrow> (unit \<times> db) option" where
  "insert_item tenant invoice it s =
     (if int64_ok (item_price it) \<and> int64_ok (item_amount it)
        \<and> list_ex (\<lambda>i. inv_id i = invoice) (invoices s)
      then Some ((), s\<lparr>next_id := Suc (next_id s), invoice_items := invoice_items s @
             [it\<lparr>item_id := next_id s, item_tenant := tenant, item_invoice := invoice\<rparr>]\<rparr>)
      else None)"

definition create_invoice :: "int \<Rightarrow> invoice \<Rightarrow> invoice_item list \<Rightarrow> (db, invoice) prog" where
  "create_invoice now i items =
     bind set_tenant (\<lambda>_.
     tx (bind (exec (insert_invoice now i)) (\<lambda>id.
         bind (for_each items (\<lambda>it. exec (insert_item (inv_tenant i) id it))) (\<lambda>_.
         ret (i\<lparr>inv_id := id, inv_issued := Some now\<rparr>)))))"

section \<open>Reading\<close>

definition has_customer :: "db \<Rightarrow> invoice \<Rightarrow> bool" where
  "has_customer s i = list_ex (\<lambda>c. cust_id c = inv_customer i) (customers s)"

definition live :: "invoice \<Rightarrow> bool" where
  "live i \<longleftrightarrow> inv_deleted i = None"

definition unpaid_status :: "string \<Rightarrow> bool" where
  "unpaid_status st \<longleftrightarrow> st \<in> {''issued'', ''partial'', ''overdue''}"

definition get_invoice_rows :: "bool \<Rightarrow> gid \<Rightarrow> gid \<Rightarrow> db \<Rightarrow> invoice option" where
  "get_invoice_rows include_deleted tenant iid s =
     first_row (\<lambda>i. inv_tenant i = tenant \<and> inv_id i = iid \<and> (include_deleted \<or> live i) \<and> has_customer s i)
       (invoices s)"

definition items_of :: "gid \<Rightarrow> db \<Rightarrow> invoice_item list" where
  "items_of iid s = filter (\<lambda>it. item_invoice it = iid) (invoice_items s)"

definition get_invoice_any :: "bool \<Rightarrow> gid \<Rightarrow> gid \<Rightarrow> (db, invoice \<times> invoice_item list) prog" where
  "get_invoice_any include_deleted tenant iid =
     bind set_tenant (\<lambda>_.
     bind (auto (query (get_invoice_rows include_deleted tenant iid))) (\<lambda>row.
     case row of
       None \<Rightarrow> raise Not_found
     | Some i \<Rightarrow> bind (auto (query (items_of iid))) (\<lambda>items. ret (i, items))))"

definition get_invoice :: "gid \<Rightarrow> gid \<Rightarrow> (db, invoice \<times> invoice_item list) prog" where
  "get_invoice = get_invoice_any False"

definition get_invoice_including_deleted :: "gid \<Rightarrow> gid \<Rightarrow> (db, invoice \<times> invoice_item list) prog" where
  "get_invoice_including_deleted = get_invoice_any True"

definition customer_name :: "db \<Rightarrow> gid \<Rightarrow> string" where
  "customer_name s c = (case first_row (\<lambda>r. cust_id r = c) (customers s) of None \<Rightarrow> [] | Some r \<Rightarrow> cust_name r)"

text \<open>\<open>ORDER BY x DESC, id DESC\<close>; a \<open>NULL\<close> key sorts first in descending order.\<close>

fun opt_desc :: "int option \<Rightarrow> int option \<Rightarrow> bool" where
  "opt_desc None _ = True"
| "opt_desc (Some a) None = False"
| "opt_desc (Some a) (Some b) = (b \<le> a)"

definition desc_then_id :: "('r \<Rightarrow> int option) \<Rightarrow> ('r \<Rightarrow> gid) \<Rightarrow> 'r \<Rightarrow> 'r \<Rightarrow> bool" where
  "desc_then_id key k a b \<longleftrightarrow> (if key a = key b then k b \<le> k a else opt_desc (key a) (key b))"

definition coalesce :: "'a option \<Rightarrow> 'a option \<Rightarrow> 'a option" where
  "coalesce a b = (case a of None \<Rightarrow> b | Some x \<Rightarrow> Some x)"

definition invoice_filter :: "gid \<Rightarrow> string \<Rightarrow> string \<Rightarrow> bool \<Rightarrow> db \<Rightarrow> invoice \<Rightarrow> bool" where
  "invoice_filter tenant status0 search trashed s i =
     (let trash = trashed \<or> equal_fold (trim_space status0) ''trashed'';
          status = (if trash then [] else status0);
          q = trim_space search; pat = ''%'' @ q @ ''%''
      in inv_tenant i = tenant \<and> has_customer s i \<and> (live i = (\<not> trash))
         \<and> (status = [] \<or> inv_status i = status)
         \<and> (q = [] \<or> ilike (inv_number i) pat \<or> ilike (customer_name s (inv_customer i)) pat))"

definition page_query :: "int \<Rightarrow> int \<Rightarrow> (db \<Rightarrow> 'r list) \<Rightarrow> (db, 'r list) prog" where
  "page_query l off g = exec (\<lambda>s. map_option (\<lambda>xs. (xs, s)) (page l off (g s)))"

definition list_invoices ::
  "gid \<Rightarrow> string \<Rightarrow> string \<Rightarrow> bool \<Rightarrow> int \<Rightarrow> int \<Rightarrow> (db, invoice list \<times> int) prog" where
  "list_invoices tenant status search trashed limit offset =
     bind set_tenant (\<lambda>_.
     bind (auto (query (\<lambda>s. int (length (filter (invoice_filter tenant status search trashed s) (invoices s)))))) (\<lambda>total.
     bind (auto (page_query (if limit \<le> 0 then 20 else limit) offset (\<lambda>s.
        order_by (desc_then_id (\<lambda>i. coalesce (inv_deleted i) (inv_issued i)) inv_id)
          (filter (invoice_filter tenant status search trashed s) (invoices s))))) (\<lambda>rows.
     ret (rows, total))))"

definition list_customer_invoices :: "gid \<Rightarrow> gid \<Rightarrow> int \<Rightarrow> (db, invoice list) prog" where
  "list_customer_invoices tenant customer limit =
     bind set_tenant (\<lambda>_.
     auto (page_query (if limit \<le> 0 then 100 else limit) 0 (\<lambda>s.
       order_by (desc_then_id (\<lambda>i. Some (inv_due i)) inv_id)
         (filter (\<lambda>i. inv_tenant i = tenant \<and> inv_customer i = customer \<and> live i \<and> has_customer s i) (invoices s)))))"

section \<open>Payments\<close>

definition payment_counts_toward_invoice :: "string \<Rightarrow> bool" where
  "payment_counts_toward_invoice status =
     (let st = to_lower (trim_space status) in st = ''paid'' \<or> st = ''success'')"

definition insert_payment :: "payment \<Rightarrow> db \<Rightarrow> (gid \<times> db) option" where
  "insert_payment p s =
     (if int64_ok (pay_amount p)
        \<and> list_ex (\<lambda>c. cust_id c = pay_customer p) (customers s)
        \<and> (case pay_invoice p of None \<Rightarrow> True | Some i \<Rightarrow> list_ex (\<lambda>r. inv_id r = i) (invoices s))
      then Some (next_id s, s\<lparr>next_id := Suc (next_id s),
             payments := payments s @ [p\<lparr>pay_id := next_id s, pay_deleted := None\<rparr>]\<rparr>)
      else None)"

text \<open>The \<open>UPDATE\<close> of \<open>RecordPayment\<close> and \<open>PayInvoiceFromWallet\<close>.\<close>

definition add_paid :: "int \<Rightarrow> int \<Rightarrow> invoice \<Rightarrow> invoice" where
  "add_paid now amount i =
     (let full = inv_total i \<le> inv_paid i + amount in
      i\<lparr>inv_paid := inv_paid i + amount,
        inv_status := (if full then ''paid'' else ''partial''),
        inv_paid_at := (if full then Some now else inv_paid_at i)\<rparr>)"

definition update_invoices :: "(invoice \<Rightarrow> bool) \<Rightarrow> (invoice \<Rightarrow> invoice) \<Rightarrow> db \<Rightarrow> (nat \<times> db) option" where
  "update_invoices p f s =
     (if list_all (\<lambda>i. p i \<longrightarrow> invoice_amounts_ok (f i)) (invoices s)
      then Some (affected p (invoices s), s\<lparr>invoices := update_rows p f (invoices s)\<rparr>)
      else None)"

definition is_invoice :: "gid \<Rightarrow> gid \<Rightarrow> invoice \<Rightarrow> bool" where
  "is_invoice tenant iid i \<longleftrightarrow> inv_tenant i = tenant \<and> inv_id i = iid"

definition record_payment :: "int \<Rightarrow> payment \<Rightarrow> (db, payment) prog" where
  "record_payment now p =
     bind set_tenant (\<lambda>_.
     let meth = trim_space (pay_method p);
         st0 = to_lower (trim_space (pay_status p));
         status = (if st0 = [] then ''paid'' else st0);
         settled = (status = ''paid'' \<or> status = ''success'');
         q = p\<lparr>pay_method := meth, pay_status := status,
               pay_paid_at := (if settled then Some now else None), pay_created := now\<rparr>
     in if meth = [] then raise (Rejected ''metode pembayaran wajib'')
        else tx (bind (exec (insert_payment q)) (\<lambda>id.
                 bind (case pay_invoice p of
                         None \<Rightarrow> ret 0
                       | Some iid \<Rightarrow>
                           if settled
                           then exec (update_invoices (\<lambda>i. is_invoice (pay_tenant p) iid i \<and> live i)
                                        (add_paid now (pay_amount p)))
                           else ret 0) (\<lambda>_.
                 ret (q\<lparr>pay_id := id, pay_deleted := None\<rparr>)))))"

definition get_payment :: "gid \<Rightarrow> gid \<Rightarrow> (db, payment) prog" where
  "get_payment tenant pid =
     bind set_tenant (\<lambda>_.
     bind (auto (query (\<lambda>s. first_row (\<lambda>p. pay_tenant p = tenant \<and> pay_id p = pid) (payments s)))) (\<lambda>row.
     case row of None \<Rightarrow> raise Not_found | Some p \<Rightarrow> ret p))"

definition delta_invoice :: "int \<Rightarrow> int \<Rightarrow> int \<Rightarrow> invoice \<Rightarrow> invoice" where
  "delta_invoice now today delta i =
     (let paid = max 0 (inv_paid i + delta) in
      i\<lparr>inv_paid := paid,
        inv_status := (if paid \<le> 0 then (if inv_due i < today then ''overdue'' else ''issued'')
                       else if inv_total i \<le> paid then ''paid'' else ''partial''),
        inv_paid_at := (if inv_total i \<le> paid
                        then (case inv_paid_at i of None \<Rightarrow> Some now | Some t \<Rightarrow> Some t)
                        else None)\<rparr>)"

definition apply_invoice_payment_delta :: "int \<Rightarrow> int \<Rightarrow> gid \<Rightarrow> gid \<Rightarrow> int \<Rightarrow> (db, unit) prog" where
  "apply_invoice_payment_delta now today tenant invoice delta =
     (if delta = 0 then ret ()
      else bind (exec (update_invoices (\<lambda>i. is_invoice tenant invoice i \<and> live i) (delta_invoice now today delta)))
             (\<lambda>_. ret ()))"

definition update_payments :: "(payment \<Rightarrow> bool) \<Rightarrow> (payment \<Rightarrow> payment) \<Rightarrow> db \<Rightarrow> (nat \<times> db) option" where
  "update_payments p f s = Some (affected p (payments s), s\<lparr>payments := update_rows p f (payments s)\<rparr>)"

definition touches_invoice :: "payment \<Rightarrow> bool" where
  "touches_invoice p \<longleftrightarrow> payment_counts_toward_invoice (pay_status p) \<and> 0 < pay_amount p"

definition shift_paid :: "int \<Rightarrow> int \<Rightarrow> gid \<Rightarrow> payment \<Rightarrow> int \<Rightarrow> (db, unit) prog" where
  "shift_paid now today tenant p delta =
     (case pay_invoice p of
        None \<Rightarrow> ret ()
      | Some iid \<Rightarrow> when_do (touches_invoice p) (apply_invoice_payment_delta now today tenant iid delta))"

definition delete_payment :: "int \<Rightarrow> int \<Rightarrow> gid \<Rightarrow> gid \<Rightarrow> (db, unit) prog" where
  "delete_payment now today tenant pid =
     bind (get_payment tenant pid) (\<lambda>p.
     if pay_deleted p \<noteq> None then raise Not_found
     else tx (bind (shift_paid now today tenant p (- pay_amount p)) (\<lambda>_.
              bind (exec (update_payments (\<lambda>r. pay_tenant r = tenant \<and> pay_id r = pid \<and> pay_deleted r = None)
                            (\<lambda>r. r\<lparr>pay_deleted := Some now\<rparr>))) (\<lambda>n.
              if n = 0 then raise Not_found else ret ()))))"


section \<open>Trash\<close>

text \<open>\<open>RestoreInvoice\<close> and \<open>RestorePayment\<close> tell payments trashed together with their
  invoice by the instant they were trashed at, with two seconds of tolerance.\<close>

definition restore_cutoff :: "int \<Rightarrow> int" where
  "restore_cutoff deleted = deleted - 2 * second"

definition delete_invoice :: "int \<Rightarrow> gid \<Rightarrow> gid \<Rightarrow> (db, unit) prog" where
  "delete_invoice now tenant iid =
     bind set_tenant (\<lambda>_.
     tx (bind (exec (\<lambda>s. Some ((), s\<lparr>intents := update_rows
                (\<lambda>r. pi_tenant r = tenant \<and> pi_invoice r = Some iid
                     \<and> to_lower (pi_status r) \<in> {''pending'', ''created'', ''unpaid''})
                (\<lambda>r. r\<lparr>pi_status := ''cancelled'', pi_invoice := None\<rparr>) (intents s)\<rparr>))) (\<lambda>_.
         bind (exec (update_payments (\<lambda>r. pay_tenant r = tenant \<and> pay_invoice r = Some iid \<and> pay_deleted r = None)
                (\<lambda>r. r\<lparr>pay_deleted := Some now\<rparr>))) (\<lambda>_.
         bind (exec (update_invoices (\<lambda>i. is_invoice tenant iid i \<and> live i) (\<lambda>i. i\<lparr>inv_deleted := Some now\<rparr>))) (\<lambda>n.
         if n = 0 then raise Not_found else ret ())))))"

definition restore_invoice :: "gid \<Rightarrow> gid \<Rightarrow> (db, unit) prog" where
  "restore_invoice tenant iid =
     bind (get_invoice_including_deleted tenant iid) (\<lambda>(i, _).
     case inv_deleted i of
       None \<Rightarrow> ret ()
     | Some deleted \<Rightarrow>
         tx (bind (exec (update_payments
                (\<lambda>r. pay_tenant r = tenant \<and> pay_invoice r = Some iid
                     \<and> (case pay_deleted r of None \<Rightarrow> False | Some t \<Rightarrow> restore_cutoff deleted \<le> t))
                (\<lambda>r. r\<lparr>pay_deleted := None\<rparr>))) (\<lambda>_.
             bind (exec (update_invoices (\<lambda>j. is_invoice tenant iid j \<and> \<not> live j) (\<lambda>j. j\<lparr>inv_deleted := None\<rparr>))) (\<lambda>n.
             if n = 0 then raise Not_found else ret ()))))"

text \<open>The first half of \<open>RestorePayment\<close>: whether the payment came back with its invoice.\<close>

definition restore_with_invoice :: "gid \<Rightarrow> payment \<Rightarrow> int \<Rightarrow> (db, bool) prog" where
  "restore_with_invoice tenant p deleted =
     (case pay_invoice p of
        None \<Rightarrow> ret False
      | Some iid \<Rightarrow>
          bind (attempt (get_invoice_including_deleted tenant iid)) (\<lambda>r.
          case r of
            Inl e \<Rightarrow> if e = Not_found then ret False else raise e
          | Inr (i, _) \<Rightarrow>
              (case inv_deleted i of
                 None \<Rightarrow> ret False
               | Some t \<Rightarrow>
                   bind (restore_invoice tenant (inv_id i)) (\<lambda>_. ret (restore_cutoff t \<le> deleted)))))"

definition restore_payment :: "int \<Rightarrow> int \<Rightarrow> gid \<Rightarrow> gid \<Rightarrow> (db, unit) prog" where
  "restore_payment now today tenant pid =
     bind (get_payment tenant pid) (\<lambda>p.
     case pay_deleted p of
       None \<Rightarrow> ret ()
     | Some deleted \<Rightarrow>
         bind (restore_with_invoice tenant p deleted) (\<lambda>bundled.
         if bundled then ret ()
         else tx (bind (exec (update_payments (\<lambda>r. pay_tenant r = tenant \<and> pay_id r = pid \<and> pay_deleted r \<noteq> None)
                        (\<lambda>r. r\<lparr>pay_deleted := None\<rparr>))) (\<lambda>n.
                  if n = 0 then raise Not_found
                  else shift_paid now today tenant p (pay_amount p)))))"

definition set_invoice_discount_amounts :: "gid \<Rightarrow> gid \<Rightarrow> int \<Rightarrow> int \<Rightarrow> int \<Rightarrow> (db, unit) prog" where
  "set_invoice_discount_amounts tenant iid discount tax tot =
     bind set_tenant (\<lambda>_.
     bind (auto (exec (update_invoices (\<lambda>i. is_invoice tenant iid i \<and> live i)
            (\<lambda>i. i\<lparr>inv_discount := discount, inv_tax := tax, inv_total := tot\<rparr>)))) (\<lambda>n.
     if n = 0 then raise Not_found else ret ()))"

definition err_invoice_not_trashed :: err where
  "err_invoice_not_trashed = Rejected ''hanya tagihan di sampah yang bisa dihapus permanen''"

definition err_invoice_has_paid :: err where
  "err_invoice_has_paid = Rejected ''tagihan sudah memiliki pembayaran, tidak bisa dihapus permanen''"

text \<open>\<open>DELETE FROM invoices\<close>, with \<open>ON DELETE CASCADE\<close> on the items and \<open>SET NULL\<close> on payments
  and intents.\<close>

definition set_null :: "gid list \<Rightarrow> gid option \<Rightarrow> gid option" where
  "set_null gone x = (case x of None \<Rightarrow> None | Some i \<Rightarrow> if i \<in> set gone then None else Some i)"

definition delete_invoice_rows :: "(invoice \<Rightarrow> bool) \<Rightarrow> db \<Rightarrow> (nat \<times> db) option" where
  "delete_invoice_rows p s =
     (let gone = map inv_id (filter p (invoices s))
      in Some (affected p (invoices s), s\<lparr>
           invoices := filter (\<lambda>i. \<not> p i) (invoices s),
           invoice_items := filter (\<lambda>it. item_invoice it \<notin> set gone) (invoice_items s),
           payments := map (\<lambda>r. r\<lparr>pay_invoice := set_null gone (pay_invoice r)\<rparr>) (payments s),
           intents := map (\<lambda>r. r\<lparr>pi_invoice := set_null gone (pi_invoice r)\<rparr>) (intents s)\<rparr>))"

definition purge_invoice :: "gid \<Rightarrow> gid \<Rightarrow> (db, unit) prog" where
  "purge_invoice tenant iid =
     bind set_tenant (\<lambda>_.
     bind (auto (query (\<lambda>s. first_row (is_invoice tenant iid) (invoices s)))) (\<lambda>row.
     case row of
       None \<Rightarrow> raise Not_found
     | Some i \<Rightarrow>
         if inv_deleted i = None then raise err_invoice_not_trashed
         else if 0 < inv_paid i then raise err_invoice_has_paid
         else bind (auto (exec (delete_invoice_rows (\<lambda>j. is_invoice tenant iid j \<and> \<not> live j)))) (\<lambda>n.
              if n = 0 then raise Not_found else ret ())))"

section \<open>What the worker asks\<close>

definition outstanding :: "invoice \<Rightarrow> bool" where
  "outstanding i \<longleftrightarrow> live i \<and> unpaid_status (inv_status i) \<and> inv_paid i < inv_total i"

text \<open>The unpaid invoices with the phone number of the customer; the joined name is not used in the model.\<close>

definition dunning_due :: "int \<Rightarrow> gid \<Rightarrow> db \<Rightarrow> invoice \<Rightarrow> bool" where
  "dunning_due today tenant s i \<longleftrightarrow> inv_tenant i = tenant \<and> has_customer s i \<and> outstanding i
     \<and> today - 3 \<le> inv_due i \<and> inv_due i \<le> today + 7"

definition list_dunning_invoices :: "int \<Rightarrow> gid \<Rightarrow> (db, (invoice \<times> string) list) prog" where
  "list_dunning_invoices today tenant =
     auto (query (\<lambda>s. map (\<lambda>i. (i, case first_row (\<lambda>c. cust_id c = inv_customer i) (customers s) of
          None \<Rightarrow> [] | Some c \<Rightarrow> cust_phone c))
       (filter (dunning_due today tenant s) (invoices s))))"

definition list_overdue_invoices :: "int \<Rightarrow> gid \<Rightarrow> (db, invoice list) prog" where
  "list_overdue_invoices today tenant =
     bind set_tenant (\<lambda>_.
     auto (query (\<lambda>s. filter (\<lambda>i. inv_tenant i = tenant \<and> has_customer s i \<and> live i
         \<and> unpaid_status (inv_status i) \<and> inv_due i < today) (invoices s))))"

definition list_invoice_items :: "gid \<Rightarrow> (db, invoice_item list) prog" where
  "list_invoice_items iid = auto (query (items_of iid))"

text \<open>\<open>ORDER BY issued_at, id\<close>, ascending, \<open>NULL\<close> last.\<close>

definition asc_then_id :: "('r \<Rightarrow> int option) \<Rightarrow> ('r \<Rightarrow> gid) \<Rightarrow> 'r \<Rightarrow> 'r \<Rightarrow> bool" where
  "asc_then_id key k a b \<longleftrightarrow> (if key a = key b then k a \<le> k b else opt_desc (key b) (key a))"

fun attach_items :: "invoice list \<Rightarrow> (db, (invoice \<times> invoice_item list) list) prog" where
  "attach_items [] = ret []"
| "attach_items (i # is) =
     bind (list_invoice_items (inv_id i)) (\<lambda>its.
     bind (attach_items is) (\<lambda>rest. ret ((i, its) # rest)))"

definition list_customer_unpaid_invoices_with_items ::
  "gid \<Rightarrow> gid \<Rightarrow> (db, (invoice \<times> invoice_item list) list) prog" where
  "list_customer_unpaid_invoices_with_items tenant customer =
     bind set_tenant (\<lambda>_.
     bind (auto (query (\<lambda>s. order_by (asc_then_id inv_issued inv_id)
        (filter (\<lambda>i. inv_tenant i = tenant \<and> inv_customer i = customer \<and> live i \<and> has_customer s i
           \<and> unpaid_status (inv_status i)) (invoices s))))) attach_items)"

definition uniq_ids :: "gid list \<Rightarrow> gid list" where
  "uniq_ids ids = rev (remdups (rev (filter (\<lambda>x. x \<noteq> nil_id) ids)))"

text \<open>\<open>ORDER BY paid_at DESC NULLS LAST, issued_at DESC NULLS LAST, id DESC\<close>.\<close>

fun opt_desc_last :: "int option \<Rightarrow> int option \<Rightarrow> bool" where
  "opt_desc_last _ None = True"
| "opt_desc_last None (Some b) = False"
| "opt_desc_last (Some a) (Some b) = (b \<le> a)"

definition latest_paid :: "invoice \<Rightarrow> invoice \<Rightarrow> bool" where
  "latest_paid a b \<longleftrightarrow>
     (if inv_paid_at a \<noteq> inv_paid_at b then opt_desc_last (inv_paid_at a) (inv_paid_at b)
      else if inv_issued a \<noteq> inv_issued b then opt_desc_last (inv_issued a) (inv_issued b)
      else inv_id b \<le> inv_id a)"

definition last_paid_invoice :: "gid \<Rightarrow> gid list \<Rightarrow> (db, invoice \<times> invoice_item list) prog" where
  "last_paid_invoice tenant custs =
     (let uniq = uniq_ids custs in
      if uniq = [] then raise Not_found
      else bind set_tenant (\<lambda>_.
        bind (auto (query (\<lambda>s. order_by latest_paid
          (filter (\<lambda>i. inv_tenant i = tenant \<and> inv_customer i \<in> set uniq \<and> live i \<and> has_customer s i
             \<and> inv_status i = ''paid'') (invoices s))))) (\<lambda>rows.
        case rows of
          [] \<Rightarrow> raise Not_found
        | i # _ \<Rightarrow> bind (list_invoice_items (inv_id i)) (\<lambda>items. ret (i, items)))))"

definition invoice_items_map :: "gid \<Rightarrow> gid list \<Rightarrow> (db, (gid \<times> invoice_item list) list) prog" where
  "invoice_items_map tenant ids =
     (let uniq = uniq_ids ids in
      if ids = [] then ret []
      else bind set_tenant (\<lambda>_.
        if uniq = [] then ret []
        else auto (query (\<lambda>s. map (\<lambda>i. (i,
            order_by (\<lambda>a b. item_id a \<le> item_id b)
              (filter (\<lambda>it. item_tenant it = tenant \<and> item_invoice it = i) (invoice_items s)))) uniq))))"


definition sum_overdue_unpaid_for_subscription :: "int \<Rightarrow> gid \<Rightarrow> gid \<Rightarrow> (db, int) prog" where
  "sum_overdue_unpaid_for_subscription today tenant sub =
     auto (query (\<lambda>s. sum_where (\<lambda>i. inv_tenant i = tenant \<and> inv_subscription i = Some sub
        \<and> outstanding i \<and> inv_due i < today) (\<lambda>i. inv_total i - inv_paid i) (invoices s)))"

definition list_manual_overdue_invoices_for_late_fee :: "int \<Rightarrow> gid \<Rightarrow> (db, invoice list) prog" where
  "list_manual_overdue_invoices_for_late_fee today tenant =
     bind set_tenant (\<lambda>_.
     auto (query (\<lambda>s. order_by (\<lambda>a b. if inv_due a = inv_due b then inv_id a \<le> inv_id b else inv_due a < inv_due b)
       (filter (\<lambda>i. inv_tenant i = tenant \<and> inv_subscription i = None \<and> outstanding i
          \<and> inv_due i < today \<and> inv_late_fee i = None) (invoices s)))))"

definition apply_invoice_late_fee :: "int \<Rightarrow> gid \<Rightarrow> gid \<Rightarrow> int \<Rightarrow> string \<Rightarrow> (db, unit) prog" where
  "apply_invoice_late_fee now tenant iid amount description =
     (if amount \<le> 0 then ret ()
      else bind set_tenant (\<lambda>_.
        tx (bind (query (\<lambda>s. first_row (\<lambda>i. is_invoice tenant iid i \<and> live i) (invoices s))) (\<lambda>row.
            case row of
              None \<Rightarrow> raise Not_found
            | Some i \<Rightarrow>
                if inv_late_fee i \<noteq> None then ret ()
                else bind (exec (insert_item tenant iid
                       \<lparr>item_id = 0, item_tenant = tenant, item_invoice = iid, item_desc = description,
                        item_qty = 1, item_price = amount, item_amount = amount\<rparr>)) (\<lambda>_.
                     bind (exec (update_invoices (is_invoice tenant iid)
                       (\<lambda>i. i\<lparr>inv_subtotal := inv_subtotal i + amount, inv_total := inv_total i + amount,
                              inv_late_fee := Some now\<rparr>))) (\<lambda>_. ret ()))))))"

text \<open>Instants of the database's days: midnight of a day in the session's time zone.\<close>

definition midnight :: "int \<Rightarrow> int \<Rightarrow> int" where
  "midnight zone day = day * 86400 * second - zone"

definition past_due :: "int \<Rightarrow> int \<Rightarrow> int \<Rightarrow> invoice \<Rightarrow> bool" where
  "past_due zone now grace i \<longleftrightarrow> outstanding i \<and> midnight zone (inv_due i + grace) < now"

definition subscription_has_past_due_unpaid :: "int \<Rightarrow> int \<Rightarrow> int \<Rightarrow> gid \<Rightarrow> gid \<Rightarrow> (db, bool) prog" where
  "subscription_has_past_due_unpaid zone now grace tenant sub =
     bind (auto (query (\<lambda>s. length (filter (\<lambda>i. inv_tenant i = tenant \<and> inv_isolir i
        \<and> (inv_subscription i = Some sub \<or> inv_isolir_sub i = Some sub) \<and> past_due zone now grace i) (invoices s)))))
       (\<lambda>n. ret (0 < n))"

definition invoice_number_of :: "db \<Rightarrow> gid \<Rightarrow> gid option \<Rightarrow> string" where
  "invoice_number_of s tenant iid =
     (case iid of
        None \<Rightarrow> []
      | Some i \<Rightarrow> (case first_row (is_invoice tenant i) (invoices s) of None \<Rightarrow> [] | Some r \<Rightarrow> inv_number r))"

definition payment_filter :: "gid \<Rightarrow> string \<Rightarrow> bool \<Rightarrow> db \<Rightarrow> payment \<Rightarrow> bool" where
  "payment_filter tenant search trashed s p =
     (let q = trim_space search; pat = ''%'' @ q @ ''%'';
          c = first_row (\<lambda>c. cust_id c = pay_customer p \<and> cust_tenant c = pay_tenant p) (customers s)
      in pay_tenant p = tenant \<and> ((pay_deleted p \<noteq> None) = trashed) \<and>
         (q = [] \<or> (case c of None \<Rightarrow> False | Some r \<Rightarrow> ilike (cust_name r) pat \<or> ilike (cust_code r) pat)
          \<or> ilike (invoice_number_of s (pay_tenant p) (pay_invoice p)) pat
          \<or> ilike (pay_method p) pat
          \<or> ilike (case pay_reference p of None \<Rightarrow> [] | Some r \<Rightarrow> r) pat))"

definition payment_instant :: "payment \<Rightarrow> int option" where
  "payment_instant p = coalesce (pay_paid_at p) (Some (pay_created p))"

definition list_payments :: "gid \<Rightarrow> string \<Rightarrow> bool \<Rightarrow> int \<Rightarrow> int \<Rightarrow> (db, payment list \<times> int) prog" where
  "list_payments tenant search trashed limit offset =
     bind set_tenant (\<lambda>_.
     bind (auto (query (\<lambda>s. int (length (filter (payment_filter tenant search trashed s) (payments s)))))) (\<lambda>n.
     bind (auto (page_query (if limit \<le> 0 then 20 else limit) offset (\<lambda>s.
       order_by (desc_then_id (\<lambda>p. coalesce (pay_deleted p) (payment_instant p)) pay_id)
         (filter (payment_filter tenant search trashed s) (payments s))))) (\<lambda>rows.
     ret (rows, n))))"

definition list_customer_payments :: "gid \<Rightarrow> gid \<Rightarrow> int \<Rightarrow> (db, payment list) prog" where
  "list_customer_payments tenant customer limit =
     auto (page_query (if limit \<le> 0 then 20 else limit) 0 (\<lambda>s.
       order_by (\<lambda>a b. opt_desc (payment_instant a) (payment_instant b))
         (filter (\<lambda>p. pay_tenant p = tenant \<and> pay_customer p = customer \<and> pay_deleted p = None) (payments s))))"


section \<open>The invariant of paid amounts\<close>

text \<open>What the payments of an invoice add up to: the settled ones that are not in the trash.\<close>

definition pays :: "invoice \<Rightarrow> payment \<Rightarrow> bool" where
  "pays i p \<longleftrightarrow> pay_tenant p = inv_tenant i \<and> pay_invoice p = Some (inv_id i) \<and> pay_deleted p = None
     \<and> payment_counts_toward_invoice (pay_status p)"

definition collected :: "payment list \<Rightarrow> invoice \<Rightarrow> int" where
  "collected ps i = sum_where (pays i) pay_amount ps"

definition keys_ok :: "db \<Rightarrow> bool" where
  "keys_ok s \<longleftrightarrow> fresh_keys inv_id (invoices s) (next_id s) \<and> fresh_keys pay_id (payments s) (next_id s)
     \<and> (\<forall>p\<in>set (payments s). \<forall>i. pay_invoice p = Some i \<longrightarrow> i < next_id s)
     \<and> (\<forall>p\<in>set (payments s). pay_invoice p \<noteq> None \<longrightarrow> 0 \<le> pay_amount p)"

definition paid_ok :: "db \<Rightarrow> bool" where
  "paid_ok s \<longleftrightarrow> keys_ok s \<and> (\<forall>i\<in>set (invoices s). live i \<longrightarrow> inv_paid i = collected (payments s) i)"

lemma stable_keys_ok: "stable keys_ok"
  by (simp add: stable_def keys_ok_def)

lemma stable_paid_ok: "stable paid_ok"
  by (simp add: stable_def paid_ok_def keys_ok_def)

lemma paid_ok_empty: "paid_ok empty_db"
  by (simp add: paid_ok_def keys_ok_def empty_db_def fresh_keys_def)

lemma is_space_low: "is_space (char_low c) = is_space c"
  by (auto simp: is_space_def char_low_def is_upper_def Let_def)

lemma trim_space_lower: "trim_space (to_lower (trim_space s)) = to_lower (trim_space s)"
proof -
  let ?t = "trim_space s"
  have "?t = [] \<or> (\<not> is_space (hd ?t) \<and> \<not> is_space (last ?t))" by (rule trim_norm.norm_clean)
  then have "to_lower ?t = [] \<or> (\<not> is_space (hd (to_lower ?t)) \<and> \<not> is_space (last (to_lower ?t)))"
    by (cases "?t = []") (simp_all add: to_lower_def hd_map last_map is_space_low)
  then show ?thesis by (rule trim_space_id)
qed

lemma counts_normalised:
  "payment_counts_toward_invoice (to_lower (trim_space st))
     \<longleftrightarrow> to_lower (trim_space st) = ''paid'' \<or> to_lower (trim_space st) = ''success''"
  by (simp add: payment_counts_toward_invoice_def trim_space_lower Let_def)

lemma counts_paid [simp]: "payment_counts_toward_invoice ''paid''"
  by code_simp

lemma collected_append: "collected (ps @ [p]) i = collected ps i + (if pays i p then pay_amount p else 0)"
  by (simp add: collected_def)

lemma pays_key: "inv_id i = inv_id j \<Longrightarrow> inv_tenant i = inv_tenant j \<Longrightarrow> pays i = pays j"
  by (simp add: pays_def fun_eq_iff)

lemma collected_key:
  "inv_id i = inv_id j \<Longrightarrow> inv_tenant i = inv_tenant j \<Longrightarrow> collected ps i = collected ps j"
  unfolding collected_def using pays_key [of i j] by metis

lemma collected_nonneg:
  assumes "keys_ok s" shows "0 \<le> collected (payments s) i"
  unfolding collected_def
proof (rule sum_where_nonneg)
  fix p assume p: "p \<in> set (payments s)" "pays i p"
  then have "pay_invoice p \<noteq> None" by (simp add: pays_def)
  then show "0 \<le> pay_amount p" using assms p(1) unfolding keys_ok_def by blast
qed

lemma collected_none: "(\<And>p. p \<in> set ps \<Longrightarrow> pay_invoice p \<noteq> Some (inv_id i)) \<Longrightarrow> collected ps i = 0"
  unfolding collected_def by (rule sum_where_none) (auto simp: pays_def)

text \<open>\<open>paid_off d\<close>: the paid amounts are \<open>d\<close> short of what the payments add up to.  An
  operation is a walk between such states that ends at \<open>d = 0\<close>.\<close>

definition paid_off :: "(invoice \<Rightarrow> int) \<Rightarrow> db \<Rightarrow> bool" where
  "paid_off d s \<longleftrightarrow> keys_ok s \<and> (\<forall>i\<in>set (invoices s). live i \<longrightarrow> inv_paid i + d i = collected (payments s) i)"

lemma paid_off_0: "paid_ok = paid_off (\<lambda>_. 0)"
  by (simp add: paid_ok_def paid_off_def fun_eq_iff)

lemma stable_paid_off: "stable (paid_off d)"
  by (simp add: stable_def paid_off_def keys_ok_def)

lemma update_invoices_Some:
  "update_invoices p f s = Some (n, s') \<Longrightarrow>
   s' = s\<lparr>invoices := update_rows p f (invoices s)\<rparr> \<and> n = affected p (invoices s)"
  by (auto simp: update_invoices_def split: if_splits)

lemma keys_ok_invoices:
  "(\<And>i. inv_id (f i) = inv_id i) \<Longrightarrow> keys_ok (s\<lparr>invoices := update_rows p f (invoices s)\<rparr>) = keys_ok s"
  by (simp add: keys_ok_def fresh_keys_update)

lemma paid_off_update_invoices:
  assumes "paid_off d s" and "update_invoices p f s = Some (n, s')"
    and f: "\<And>i. inv_id (f i) = inv_id i \<and> inv_tenant (f i) = inv_tenant i"
    and yes: "\<And>i. i \<in> set (invoices s) \<Longrightarrow> p i \<Longrightarrow> live (f i) \<Longrightarrow> live i \<and> inv_paid (f i) + e (f i) = inv_paid i + d i"
    and no: "\<And>i. i \<in> set (invoices s) \<Longrightarrow> \<not> p i \<Longrightarrow> live i \<Longrightarrow> e i = d i"
  shows "paid_off e s'"
proof -
  have s': "s' = s\<lparr>invoices := update_rows p f (invoices s)\<rparr>"
    using update_invoices_Some assms(2) by blast
  have "inv_paid i + e i = collected (payments s) i" if i: "i \<in> set (update_rows p f (invoices s))" "live i" for i
  proof -
    obtain i0 where i0: "i0 \<in> set (invoices s)" "i = (if p i0 then f i0 else i0)"
      using i by (auto simp: set_update_rows)
    have "collected (payments s) i = collected (payments s) i0"
      using collected_key [of i i0] i0(2) f by (cases "p i0") auto
    then show ?thesis
      using i0 i(2) yes [of i0] no [of i0] assms(1) by (cases "p i0") (auto simp: paid_off_def)
  qed
  then show ?thesis using assms(1) f by (simp add: s' paid_off_def keys_ok_invoices)
qed

text \<open>An update that touches neither key, tenant, paid amount nor the trash.\<close>

lemma paid_ok_update_other:
  assumes "paid_ok s" and "update_invoices p f s = Some (n, s')"
    and "\<And>i. inv_id (f i) = inv_id i \<and> inv_tenant (f i) = inv_tenant i
           \<and> inv_paid (f i) = inv_paid i \<and> live (f i) = live i"
  shows "paid_ok s'"
  using assms unfolding paid_off_0 by (intro paid_off_update_invoices [of "\<lambda>_. 0" s p f n s']) auto

lemma keys_ok_insert_item: "insert_item t i it s = Some (x, s') \<Longrightarrow> keys_ok s \<Longrightarrow> keys_ok s'"
  by (auto simp: insert_item_def keys_ok_def fresh_keys_def less_SucI split: if_splits)

lemma paid_ok_insert_item: "insert_item t i it s = Some (x, s') \<Longrightarrow> paid_ok s \<Longrightarrow> paid_ok s'"
  using keys_ok_insert_item [of t i it s x s']
  by (auto simp: insert_item_def paid_ok_def split: if_splits)

lemma paid_ok_insert_invoice:
  assumes "insert_invoice now i s = Some (x, s')" and ok: "paid_ok s"
  shows "paid_ok s'"
proof -
  define new where "new = i\<lparr>inv_id := next_id s, inv_paid := 0, inv_issued := Some now,
    inv_paid_at := None, inv_deleted := None, inv_late_fee := None\<rparr>"
  have s': "s' = s\<lparr>next_id := Suc (next_id s), invoices := invoices s @ [new]\<rparr>"
    using assms(1) by (auto simp: insert_invoice_def new_def Let_def split: if_splits)
  have k: "keys_ok s" using ok by (simp add: paid_ok_def)
  have "collected (payments s) new = 0"
    using k by (intro collected_none) (auto simp: keys_ok_def new_def)
  moreover have "keys_ok s'"
    using k fresh_keys_append [of inv_id "invoices s" "next_id s" new]
      fresh_keys_mono [of pay_id "payments s" "next_id s" "Suc (next_id s)"]
    by (auto simp: keys_ok_def s' new_def less_SucI)
  ultimately show ?thesis using ok by (auto simp: paid_ok_def s' new_def)
qed

lemma keeps_exec_paid:
  "(\<And>s x s'. paid_ok s \<Longrightarrow> u s = Some (x, s') \<Longrightarrow> paid_ok s') \<Longrightarrow> keeps paid_ok (exec u)"
  using keeps_exec [OF stable_paid_ok] by blast

lemma create_invoice_paid_ok: "keeps paid_ok (create_invoice now i items)"
  unfolding create_invoice_def
  by (intro keeps_intros keeps_tx gives_keeps keeps_exec_paid stable_paid_ok)
    (auto intro: paid_ok_insert_invoice paid_ok_insert_item)

lemma insert_payment_paid_off:
  assumes "insert_payment p s = Some (x, s')" and ok: "paid_ok s"
    and amt: "pay_invoice p \<noteq> None \<longrightarrow> 0 \<le> pay_amount p"
  shows "paid_off (\<lambda>i. if pays i (p\<lparr>pay_deleted := None\<rparr>) then pay_amount p else 0) s'"
proof -
  define new where "new = p\<lparr>pay_id := next_id s, pay_deleted := None\<rparr>"
  have s': "s' = s\<lparr>next_id := Suc (next_id s), payments := payments s @ [new]\<rparr>"
    using assms(1) by (auto simp: insert_payment_def new_def split: if_splits)
  have k: "keys_ok s" using ok by (simp add: paid_ok_def)
  have ref: "i < next_id s" if "pay_invoice p = Some i" for i
    using assms(1) that k
    by (auto simp: insert_payment_def keys_ok_def fresh_keys_def list_ex_iff split: if_splits)
  have "keys_ok s'"
    using k ref amt fresh_keys_append [of pay_id "payments s" "next_id s" new]
      fresh_keys_mono [of inv_id "invoices s" "next_id s" "Suc (next_id s)"]
    by (auto simp: keys_ok_def s' new_def less_SucI)
  moreover have "pays i new = pays i (p\<lparr>pay_deleted := None\<rparr>)" for i
    by (simp add: pays_def new_def)
  ultimately show ?thesis using ok
    by (auto simp: paid_ok_def paid_off_def s' collected_append new_def)
qed

lemma record_payment_paid_ok:
  assumes "pay_invoice p \<noteq> None \<longrightarrow> 0 \<le> pay_amount p"
  shows "keeps paid_ok (record_payment now p)"
proof -
  let ?st = "to_lower (trim_space (pay_status p))"
  define status where "status = (if ?st = [] then ''paid'' else ?st)"
  define settled where "settled \<longleftrightarrow> status = ''paid'' \<or> status = ''success''"
  define q where "q = p\<lparr>pay_method := trim_space (pay_method p), pay_status := status,
    pay_paid_at := (if settled then Some now else None), pay_created := now\<rparr>"
  define d where "d = (\<lambda>i. if pays i (q\<lparr>pay_deleted := None\<rparr>) then pay_amount q else 0)"
  have cnt: "payment_counts_toward_invoice status = settled"
    using counts_normalised [of "pay_status p"] by (simp add: status_def settled_def)
  have d: "d i = (if settled \<and> pay_invoice p = Some (inv_id i) \<and> inv_tenant i = pay_tenant p then pay_amount p else 0)" for i
    by (auto simp: d_def pays_def q_def cnt)
  have ins: "gives paid_ok (exec (insert_payment q)) (\<lambda>_. paid_off d)"
    using insert_payment_paid_off [of q] assms unfolding d_def
    by (intro gives_exec stable_paid_ok) (auto simp: q_def)
  have upd: "gives (paid_off d) (case pay_invoice p of None \<Rightarrow> ret 0
      | Some iid \<Rightarrow> if settled then exec (update_invoices (\<lambda>i. is_invoice (pay_tenant p) iid i \<and> live i)
                                  (add_paid now (pay_amount p))) else ret 0) (\<lambda>_. paid_ok)"
  proof (cases "pay_invoice p")
    case None
    then have "d = (\<lambda>_. 0)" using d by (simp add: fun_eq_iff)
    then show ?thesis using None by (simp add: paid_off_0 gives_ret)
  next
    case (Some iid)
    show ?thesis
    proof (cases settled)
      case False
      then have "d = (\<lambda>_. 0)" using d by (simp add: fun_eq_iff)
      then show ?thesis using False Some by (simp add: paid_off_0 gives_ret)
    next
      case True
      have "paid_ok s'" if "paid_off d s"
        "update_invoices (\<lambda>i. is_invoice (pay_tenant p) iid i \<and> live i) (add_paid now (pay_amount p)) s = Some (n, s')" for s n s'
        unfolding paid_off_0 using that
        by (rule paid_off_update_invoices)
          (auto simp: add_paid_def Let_def live_def is_invoice_def d Some True)
      then show ?thesis using True Some by (simp add: gives_exec stable_paid_off)
    qed
  qed
  show ?thesis
    unfolding record_payment_def Let_def status_def [symmetric] settled_def [symmetric] q_def [symmetric]
    by (intro keeps_intros keeps_tx stable_paid_ok gives_bind [OF ins] gives_bind [OF upd] gives_ret) auto
qed

text \<open>Updating the one payment a key names.\<close>

lemma collected_update_one:
  assumes "distinct (map pay_id ps)" and "p \<in> set ps"
    and q: "\<And>r. r \<in> set ps \<Longrightarrow> q r \<longleftrightarrow> pay_id r = pay_id p"
  shows "collected (update_rows q f ps) i
    = collected ps i - (if pays i p then pay_amount p else 0) + (if pays i (f p) then pay_amount (f p) else 0)"
  using assms
proof (induction ps)
  case (Cons r ps)
  show ?case
  proof (cases "r = p")
    case True
    have "pay_id p \<notin> pay_id ` set ps" using Cons.prems(1) True by simp
    then have "update_rows q f ps = ps"
      using Cons.prems(3) by (intro update_rows_none) (metis imageI list.set_intros(2))
    then show ?thesis using True Cons.prems by (simp add: collected_def)
  next
    case False
    then have "p \<in> set ps" using Cons.prems(2) by simp
    moreover from this have "\<not> q r" using Cons.prems False by force
    ultimately show ?thesis using Cons.IH Cons.prems by (simp add: collected_def)
  qed
qed simp

definition has_payment :: "payment \<Rightarrow> db \<Rightarrow> bool" where
  "has_payment p s \<longleftrightarrow> p \<in> set (payments s)"

lemma stable_has_payment: "stable (has_payment p)"
  by (simp add: stable_def has_payment_def)

lemma get_payment_gives:
  assumes st: "stable P"
  shows "gives P (get_payment t pid) (\<lambda>p s. P s \<and> has_payment p s \<and> pay_tenant p = t \<and> pay_id p = pid)"
  unfolding get_payment_def
proof (intro gives_bind [OF gives_set_tenant [OF st]])
  let ?row = "\<lambda>r s. P s \<and> (case r of None \<Rightarrow> True | Some p \<Rightarrow> has_payment p s \<and> pay_tenant p = t \<and> pay_id p = pid)"
  have "stable (?row r)" for r
    using st by (auto simp: stable_def has_payment_def split: option.split)
  then have "gives P (auto (query (\<lambda>s. first_row (\<lambda>p. pay_tenant p = t \<and> pay_id p = pid) (payments s)))) ?row"
    using st by (intro gives_auto_query) (auto simp: has_payment_def split: option.split dest: first_row_Some)
  then show "gives P (bind (auto (query (\<lambda>s. first_row (\<lambda>p. pay_tenant p = t \<and> pay_id p = pid) (payments s))))
      (\<lambda>row. case row of None \<Rightarrow> raise Not_found | Some p \<Rightarrow> ret p))
      (\<lambda>p s. P s \<and> has_payment p s \<and> pay_tenant p = t \<and> pay_id p = pid)"
    by (rule gives_bind) (auto intro: gives_ret split: option.split)
qed

lemma keeps_get_payment [keeps_intros]: "stable P \<Longrightarrow> keeps P (get_payment t pid)"
  unfolding get_payment_def by (intro keeps_intros)

text \<open>How far the paid amount of an invoice moves with a payment of it.\<close>

definition share :: "payment \<Rightarrow> invoice \<Rightarrow> int" where
  "share p i = (if pays i (p\<lparr>pay_deleted := None\<rparr>) then pay_amount p else 0)"

lemma share_live: "pay_deleted p = None \<Longrightarrow> share p i = (if pays i p then pay_amount p else 0)"
  by (simp add: share_def pays_def)

lemma collected_ge_share:
  assumes k: "keys_ok s" and p: "p \<in> set (payments s)" "pay_deleted p = None"
  shows "share p i \<le> collected (payments s) i"
proof (cases "pays i p")
  case False
  then show ?thesis using p(2) collected_nonneg [OF k] by (simp add: share_live)
next
  case True
  have "distinct (map pay_id (payments s))" using k by (simp add: keys_ok_def fresh_keys_def)
  from collected_update_one [OF this p(1), of "\<lambda>r. pay_id r = pay_id p" "\<lambda>r. r\<lparr>pay_amount := 0\<rparr>" i]
  have e: "collected (update_rows (\<lambda>r. pay_id r = pay_id p) (\<lambda>r. r\<lparr>pay_amount := 0\<rparr>) (payments s)) i
      = collected (payments s) i - pay_amount p"
    using True by (simp add: pays_def)
  have "0 \<le> sum_where (pays i) pay_amount (update_rows (\<lambda>r. pay_id r = pay_id p) (\<lambda>r. r\<lparr>pay_amount := 0\<rparr>) (payments s))"
  proof (rule sum_where_nonneg)
    fix r assume r: "r \<in> set (update_rows (\<lambda>r. pay_id r = pay_id p) (\<lambda>r. r\<lparr>pay_amount := 0\<rparr>) (payments s))" "pays i r"
    then have "pay_invoice r \<noteq> None" by (simp add: pays_def)
    then show "0 \<le> pay_amount r" using r(1) k by (auto simp: set_update_rows keys_ok_def)
  qed
  then show ?thesis using e p(2) True by (simp add: share_live collected_def)
qed

lemma shift_paid_gives:
  assumes st: "stable P" and frame: "\<And>s q f. P s \<Longrightarrow> P (s\<lparr>invoices := update_rows q f (invoices s)\<rparr>)"
    and amt: "pay_tenant p = tenant" "pay_invoice p \<noteq> None \<longrightarrow> 0 \<le> pay_amount p"
    and delta: "delta = k * pay_amount p"
    and room: "\<And>s i. paid_off d s \<Longrightarrow> P s \<Longrightarrow> i \<in> set (invoices s) \<Longrightarrow> live i \<Longrightarrow> 0 \<le> inv_paid i + k * share p i"
    and key: "\<And>i j. inv_id i = inv_id j \<Longrightarrow> inv_tenant i = inv_tenant j \<Longrightarrow> d i = d j"
  shows "gives (\<lambda>s. paid_off d s \<and> P s) (shift_paid now today tenant p delta)
           (\<lambda>_ s. paid_off (\<lambda>i. d i - k * share p i) s \<and> P s)"
proof -
  have sh: "share p i = (if pay_invoice p = Some (inv_id i) \<and> inv_tenant i = tenant
      \<and> payment_counts_toward_invoice (pay_status p) then pay_amount p else 0)" for i
    using amt(1) by (auto simp: share_def pays_def)
  have skip: "gives (\<lambda>s. paid_off d s \<and> P s) (ret ()) (\<lambda>_ s. paid_off (\<lambda>i. d i - k * share p i) s \<and> P s)"
    if "\<And>i. k * share p i = 0"
  proof (intro gives_ret)
    have "(\<lambda>i. d i - k * share p i) = d" using that by (intro ext) (simp only: diff_zero)
    then show "paid_off (\<lambda>i. d i - k * share p i) s \<and> P s" if "paid_off d s \<and> P s" for s
      using that by simp
  qed
  show ?thesis
  proof (cases "pay_invoice p")
    case None
    then show ?thesis using skip sh by (simp add: shift_paid_def)
  next
    case (Some iid)
    show ?thesis
    proof (cases "touches_invoice p \<and> delta \<noteq> 0")
      case False
      have "k * share p i = 0" for i
        using False Some amt(2) sh [of i] delta by (auto simp: touches_invoice_def)
      then show ?thesis using skip False Some
        by (auto simp: shift_paid_def when_do_def apply_invoice_payment_delta_def)
    next
      case True
      have upd: "paid_off (\<lambda>i. d i - k * share p i) s'"
        if "paid_off d s \<and> P s"
          "update_invoices (\<lambda>i. is_invoice tenant iid i \<and> live i) (delta_invoice now today delta) s = Some (n, s')"
        for s n s'
        using that
      proof (intro paid_off_update_invoices [OF conjunct1 [OF that(1)] that(2)])
        fix i assume i: "i \<in> set (invoices s)" "is_invoice tenant iid i \<and> live i"
        have ip: "inv_paid (delta_invoice now today delta i) = max 0 (inv_paid i + delta)"
          by (simp add: delta_invoice_def Let_def)
        from i have "share p i = pay_amount p" using True Some sh [of i] by (simp add: is_invoice_def touches_invoice_def)
        moreover have "share p (delta_invoice now today delta i) = share p i"
          by (simp add: share_def pays_def delta_invoice_def Let_def)
        moreover have "d (delta_invoice now today delta i) = d i" by (rule key) (simp_all add: delta_invoice_def Let_def)
        ultimately show "live i \<and> inv_paid (delta_invoice now today delta i)
            + (d (delta_invoice now today delta i) - k * share p (delta_invoice now today delta i)) = inv_paid i + d i"
          using room [of s i] that(1) i delta ip by (simp add: max_def)
      next
        fix i assume "\<not> (is_invoice tenant iid i \<and> live i)" "live i"
        then show "d i - k * share p i = d i" using sh [of i] Some by (auto simp: is_invoice_def)
      qed (simp add: delta_invoice_def Let_def)
      have "P s'" if "P s" "update_invoices (\<lambda>i. is_invoice tenant iid i \<and> live i) (delta_invoice now today delta) s = Some (n, s')" for s n s'
        using update_invoices_Some [OF that(2)] frame [OF that(1)] by simp
      then have "gives (\<lambda>s. paid_off d s \<and> P s) (exec (update_invoices (\<lambda>i. is_invoice tenant iid i \<and> live i)
          (delta_invoice now today delta))) (\<lambda>_ s. paid_off (\<lambda>i. d i - k * share p i) s \<and> P s)"
        using upd by (intro gives_exec stable_conj stable_paid_off st) blast
      then show ?thesis using True Some
        by (auto simp: shift_paid_def when_do_def apply_invoice_payment_delta_def intro!: gives_bind gives_ret)
    qed
  qed
qed

lemma keys_ok_update_payments:
  assumes "keys_ok s"
    and "\<And>r. pay_id (f r) = pay_id r \<and> pay_invoice (f r) = pay_invoice r \<and> pay_amount (f r) = pay_amount r"
  shows "keys_ok (s\<lparr>payments := update_rows q f (payments s)\<rparr>)"
proof -
  have "pay_invoice (if q r then f r else r) = pay_invoice r" "pay_amount (if q r then f r else r) = pay_amount r" for r
    using assms(2) by auto
  then show ?thesis using assms by (auto simp: keys_ok_def fresh_keys_update set_update_rows)
qed

lemma paid_off_flip_payment:
  assumes off: "paid_off d s" and p: "has_payment p s"
    and q: "\<And>r. r \<in> set (payments s) \<Longrightarrow> q r \<longleftrightarrow> pay_id r = pay_id p"
    and f: "\<And>r. pay_id (f r) = pay_id r \<and> pay_invoice (f r) = pay_invoice r \<and> pay_amount (f r) = pay_amount r"
    and e: "\<And>i. e i = d i - (if pays i p then pay_amount p else 0) + (if pays i (f p) then pay_amount p else 0)"
    and s': "s' = s\<lparr>payments := update_rows q f (payments s)\<rparr>"
  shows "paid_off e s'"
proof -
  have dist: "distinct (map pay_id (payments s))" using off by (simp add: paid_off_def keys_ok_def fresh_keys_def)
  have "keys_ok s'" using off f keys_ok_update_payments unfolding s' by (simp add: paid_off_def)
  then show ?thesis
    using off collected_update_one [OF dist p [unfolded has_payment_def], of q f] q f
    by (simp add: paid_off_def s' e)
qed

lemma delete_payment_paid_ok: "keeps paid_ok (delete_payment now today tenant pid)"
  unfolding delete_payment_def
proof (rule keeps_bind_safe [OF keeps_get_payment [OF stable_paid_ok] get_payment_gives [OF stable_paid_ok]])
  fix p
  let ?R = "\<lambda>s. paid_ok s \<and> has_payment p s \<and> pay_tenant p = tenant \<and> pay_id p = pid"
  let ?q = "\<lambda>r. pay_tenant r = tenant \<and> pay_id r = pid \<and> pay_deleted r = None"
  let ?f = "\<lambda>r. r\<lparr>pay_deleted := Some now\<rparr>"
  have stR: "stable ?R" by (simp add: stable_def paid_ok_def keys_ok_def has_payment_def)
  show "safe ?R paid_ok (if pay_deleted p \<noteq> None then raise Not_found
     else tx (bind (shift_paid now today tenant p (- pay_amount p)) (\<lambda>_.
       bind (exec (update_payments ?q ?f)) (\<lambda>n. if n = 0 then raise Not_found else ret ()))))"
  proof (cases "pay_deleted p = None \<and> pay_tenant p = tenant \<and> pay_id p = pid \<and> (pay_invoice p \<noteq> None \<longrightarrow> 0 \<le> pay_amount p)")
    case False
    show ?thesis
    proof (cases "pay_deleted p = None")
      case True
      have "\<not> ?R s" for s using False True by (auto simp: paid_ok_def keys_ok_def has_payment_def)
      then show ?thesis unfolding safe_def by blast
    next
      case False
      then show ?thesis by (auto intro: safe_raise)
    qed
  next
    case True
    have sh: "share p i = (if pays i p then pay_amount p else 0)" for i using True by (simp add: share_live)
    have "gives (\<lambda>s. paid_off (\<lambda>_. 0) s \<and> has_payment p s) (shift_paid now today tenant p (- pay_amount p))
        (\<lambda>_ s. paid_off (\<lambda>i. 0 - (-1) * share p i) s \<and> has_payment p s)"
    proof (rule shift_paid_gives [OF stable_has_payment])
      fix s i assume a: "paid_off (\<lambda>_. 0) s" "has_payment p s" "i \<in> set (invoices s)" "live i"
      then show "0 \<le> inv_paid i + (-1) * share p i"
        using collected_ge_share [of s p i] True by (simp add: paid_off_def has_payment_def)
    qed (use True in \<open>simp_all add: has_payment_def\<close>)
    then have g1: "gives ?R (shift_paid now today tenant p (- pay_amount p))
        (\<lambda>_ s. paid_off (share p) s \<and> has_payment p s)"
      by (rule gives_mono) (simp_all add: paid_off_0)
    have "paid_ok s'" if "paid_off (share p) s \<and> has_payment p s" "update_payments ?q ?f s = Some (n, s')" for s n s'
    proof -
      have dist: "distinct (map pay_id (payments s))" using that(1) by (simp add: paid_off_def keys_ok_def fresh_keys_def)
      have "r = p" if "r \<in> set (payments s)" "pay_id r = pay_id p" for r
        using unique_row [OF dist that(1)] \<open>paid_off (share p) s \<and> has_payment p s\<close> that(2) by (simp add: has_payment_def)
      then have q: "?q r \<longleftrightarrow> pay_id r = pay_id p" if "r \<in> set (payments s)" for r using that True by auto
      show ?thesis unfolding paid_off_0
        by (rule paid_off_flip_payment [where f = ?f and q = ?q, OF conjunct1 [OF that(1)] conjunct2 [OF that(1)] q])
          (use that(2) in \<open>auto simp: sh pays_def update_payments_def\<close>)
    qed
    then have g2: "gives (\<lambda>s. paid_off (share p) s \<and> has_payment p s) (exec (update_payments ?q ?f)) (\<lambda>_. paid_ok)"
      by (intro gives_exec stable_conj stable_paid_off stable_has_payment) blast
    have "safe ?R paid_ok (tx (bind (shift_paid now today tenant p (- pay_amount p)) (\<lambda>_.
       bind (exec (update_payments ?q ?f)) (\<lambda>n. if n = 0 then raise Not_found else ret ()))))"
      by (intro safe_tx stR stable_paid_ok gives_bind [OF g1] gives_bind [OF g2]) (auto intro: gives_ret)
    then show ?thesis using True by simp
  qed
qed

lemma delete_invoice_paid_ok: "keeps paid_ok (delete_invoice now tenant iid)"
proof -
  let ?f = "\<lambda>r. r\<lparr>pay_deleted := Some now\<rparr>"
  let ?q = "\<lambda>r. pay_tenant r = tenant \<and> pay_invoice r = Some iid \<and> pay_deleted r = None"
  define half where "half s \<longleftrightarrow> keys_ok s \<and>
    (\<forall>i\<in>set (invoices s). live i \<and> \<not> is_invoice tenant iid i \<longrightarrow> inv_paid i = collected (payments s) i)" for s
  have st: "stable half" by (simp add: stable_def half_def keys_ok_def)
  have pay: "half s'" if "paid_ok s" "update_payments ?q ?f s = Some (n, s')" for s n s'
  proof -
    have s': "s' = s\<lparr>payments := update_rows ?q ?f (payments s)\<rparr>" using that(2) by (simp add: update_payments_def)
    have k: "keys_ok s'" unfolding s' using that(1) by (intro keys_ok_update_payments) (simp_all add: paid_ok_def)
    have "collected (payments s') i = collected (payments s) i" if "\<not> is_invoice tenant iid i" for i
      unfolding s' collected_def
      using that by (simp add: sum_where_update) (intro sum_where_cong; auto simp: pays_def is_invoice_def)
    then show ?thesis using that(1) k by (simp add: half_def paid_ok_def s')
  qed
  have inv: "paid_ok s'"
    if h: "half s" and u: "update_invoices (\<lambda>i. is_invoice tenant iid i \<and> live i) (\<lambda>i. i\<lparr>inv_deleted := Some now\<rparr>) s = Some (n, s')"
    for s n s'
  proof -
    define d where "d i = collected (payments s) i - (if is_invoice tenant iid i then inv_paid i else collected (payments s) i)" for i
    have "paid_off d s" using h by (auto simp: paid_off_def half_def d_def)
    then show ?thesis unfolding paid_off_0 using u
      by (rule paid_off_update_invoices) (auto simp: live_def d_def)
  qed
  have g0: "gives paid_ok (exec (\<lambda>s. Some ((), s\<lparr>intents := update_rows p f (intents s)\<rparr>))) (\<lambda>_. paid_ok)" for p f
    by (intro gives_exec stable_paid_ok) (auto simp: paid_ok_def keys_ok_def)
  have g1: "gives paid_ok (exec (update_payments ?q ?f)) (\<lambda>_. half)"
    using pay by (intro gives_exec stable_paid_ok)
  have g2: "gives half (exec (update_invoices (\<lambda>i. is_invoice tenant iid i \<and> live i) (\<lambda>i. i\<lparr>inv_deleted := Some now\<rparr>))) (\<lambda>_. paid_ok)"
    using inv by (intro gives_exec st)
  show ?thesis
    unfolding delete_invoice_def
    by (intro keeps_intros keeps_tx stable_paid_ok gives_bind [OF g0] gives_bind [OF g1] gives_bind [OF g2])
      (auto intro: gives_ret)
qed

lemma set_invoice_discount_amounts_paid_ok: "keeps paid_ok (set_invoice_discount_amounts tenant iid d t tot)"
  unfolding set_invoice_discount_amounts_def
  by (intro keeps_intros keeps_exec_paid stable_paid_ok)
    (auto elim!: paid_ok_update_other simp: live_def)

lemma apply_invoice_late_fee_paid_ok: "keeps paid_ok (apply_invoice_late_fee now tenant iid amount desc)"
proof -
  have "keeps paid_ok (exec (update_invoices (is_invoice tenant iid)
      (\<lambda>i. i\<lparr>inv_subtotal := inv_subtotal i + amount, inv_total := inv_total i + amount, inv_late_fee := Some now\<rparr>)))"
    by (intro keeps_exec_paid) (auto elim!: paid_ok_update_other simp: live_def)
  moreover have "keeps paid_ok (exec (insert_item t i it))" for t i it
    by (intro keeps_exec_paid) (auto intro: paid_ok_insert_item)
  ultimately show ?thesis
    unfolding apply_invoice_late_fee_def
    by (intro keeps_intros keeps_tx stable_paid_ok gives_keeps)
qed

text \<open>Purging a trashed invoice detaches its payments; no other invoice's sum moves.\<close>

lemma delete_invoice_rows_paid_ok:
  assumes "delete_invoice_rows (\<lambda>j. is_invoice tenant iid j \<and> \<not> live j) s = Some (n, s')" and ok: "paid_ok s"
  shows "paid_ok s'"
proof -
  let ?p = "\<lambda>j. is_invoice tenant iid j \<and> \<not> live j"
  define gone where "gone = map inv_id (filter ?p (invoices s))"
  have s': "invoices s' = filter (\<lambda>i. \<not> ?p i) (invoices s)" "next_id s' = next_id s"
    "payments s' = map (\<lambda>r. r\<lparr>pay_invoice := set_null gone (pay_invoice r)\<rparr>) (payments s)"
    using assms(1) by (auto simp: delete_invoice_rows_def Let_def gone_def)
  have k: "keys_ok s" using ok by (simp add: paid_ok_def)
  then have dist: "distinct (map inv_id (invoices s))" by (simp add: keys_ok_def fresh_keys_def)
  have pid: "map pay_id (payments s') = map pay_id (payments s)" by (simp add: s' comp_def)
  have cl: "set_null gone x = Some i \<Longrightarrow> x = Some i" for x i by (auto simp: set_null_def split: option.splits if_splits)
  have "keys_ok s'"
    unfolding keys_ok_def
  proof (intro conjI)
    show "fresh_keys inv_id (invoices s') (next_id s')"
      unfolding s' using k by (intro fresh_keys_filter) (simp add: keys_ok_def)
    show "fresh_keys pay_id (payments s') (next_id s')"
      using k by (simp add: keys_ok_def fresh_keys_def s' comp_def)
    show "\<forall>p\<in>set (payments s'). \<forall>i. pay_invoice p = Some i \<longrightarrow> i < next_id s'"
      using k by (auto simp: keys_ok_def s' dest: cl)
    show "\<forall>p\<in>set (payments s'). pay_invoice p \<noteq> None \<longrightarrow> 0 \<le> pay_amount p"
      using k by (auto simp: keys_ok_def s' dest!: cl)
  qed
  moreover have "inv_paid i = collected (payments s') i" if i: "i \<in> set (invoices s')" "live i" for i
  proof -
    have "i \<in> set (invoices s)" using i by (simp add: s')
    have "inv_id i \<notin> set gone"
    proof
      assume "inv_id i \<in> set gone"
      then obtain j where "j \<in> set (invoices s)" "?p j" "inv_id j = inv_id i" by (auto simp: gone_def)
      then show False using unique_row [OF dist, of j i] \<open>i \<in> set (invoices s)\<close> i(2) by auto
    qed
    then have "set_null gone x = Some (inv_id i) \<longleftrightarrow> x = Some (inv_id i)" for x
      by (auto simp: set_null_def split: option.splits)
    then have "pays i (r\<lparr>pay_invoice := set_null gone (pay_invoice r)\<rparr>) = pays i r" for r by (simp add: pays_def)
    then have "collected (payments s') i = collected (payments s) i"
      by (simp add: s' collected_def sum_where_def comp_def cong: if_cong)
    then show ?thesis using ok \<open>i \<in> set (invoices s)\<close> i(2) by (simp add: paid_ok_def)
  qed
  ultimately show ?thesis by (simp add: paid_ok_def)
qed

lemma purge_invoice_paid_ok: "keeps paid_ok (purge_invoice tenant iid)"
  unfolding purge_invoice_def
  by (intro keeps_intros keeps_exec_paid stable_paid_ok) (auto intro: delete_invoice_rows_paid_ok)

text \<open>When the trash holds exactly what \<open>RestoreInvoice\<close> brings back.\<close>

definition comes_back :: "int \<Rightarrow> payment \<Rightarrow> bool" where
  "comes_back deleted p \<longleftrightarrow> (case pay_deleted p of None \<Rightarrow> True | Some t \<Rightarrow> restore_cutoff deleted \<le> t)"

definition trash_ok :: "gid \<Rightarrow> gid \<Rightarrow> db \<Rightarrow> bool" where
  "trash_ok tenant iid s \<longleftrightarrow> (\<forall>i\<in>set (invoices s). is_invoice tenant iid i \<longrightarrow>
     (case inv_deleted i of None \<Rightarrow> True
      | Some t \<Rightarrow> inv_paid i = sum_where (\<lambda>p. comes_back t p \<and> pays i (p\<lparr>pay_deleted := None\<rparr>)) pay_amount (payments s)))"

lemma stable_trash_ok: "stable (trash_ok tenant iid)"
  by (simp add: stable_def trash_ok_def cong: option.case_cong)

lemma get_invoice_any_gives:
  assumes st: "stable P"
  shows "gives P (get_invoice_any del t iid) (\<lambda>(i, its) s. P s \<and> i \<in> set (invoices s) \<and> is_invoice t iid i)"
proof -
  let ?row = "\<lambda>r s. P s \<and> (case r of None \<Rightarrow> True | Some i \<Rightarrow> i \<in> set (invoices s) \<and> is_invoice t iid i)"
  have stR: "stable (?row r)" for r using st by (auto simp: stable_def split: option.split)
  then have q: "gives P (auto (query (get_invoice_rows del t iid))) ?row"
    using st by (intro gives_auto_query) (auto simp: get_invoice_rows_def is_invoice_def split: option.split dest: first_row_Some)
  have its: "gives (?row (Some i)) (auto (query (items_of iid))) (\<lambda>_. ?row (Some i))" for i
    using stR [of "Some i"] by (intro gives_auto_query) auto
  show ?thesis
    unfolding get_invoice_any_def
    by (rule gives_bind [OF gives_set_tenant [OF st]], rule gives_bind [OF q])
      (auto split: option.split intro!: gives_bind [OF its [simplified]] gives_ret)
qed

lemma keeps_get_invoice_any [keeps_intros]: "stable P \<Longrightarrow> keeps P (get_invoice_any del t iid)"
  unfolding get_invoice_any_def by (intro keeps_intros)

lemma keeps_get_invoice [keeps_intros]: "stable P \<Longrightarrow> keeps P (get_invoice t iid)"
  unfolding get_invoice_def by (intro keeps_intros)

lemma restore_invoice_paid_ok: "safe (\<lambda>s. paid_ok s \<and> trash_ok tenant iid s) paid_ok (restore_invoice tenant iid)"
proof -
  let ?R = "\<lambda>s. paid_ok s \<and> trash_ok tenant iid s"
  have stR: "stable ?R" by (intro stable_conj stable_paid_ok stable_trash_ok)
  define tx_part where "tx_part deleted =
    tx (bind (exec (update_payments
                (\<lambda>r. pay_tenant r = tenant \<and> pay_invoice r = Some iid
                     \<and> (case pay_deleted r of None \<Rightarrow> False | Some t \<Rightarrow> restore_cutoff deleted \<le> t))
                (\<lambda>r. r\<lparr>pay_deleted := None\<rparr>))) (\<lambda>_.
             bind (exec (update_invoices (\<lambda>j. is_invoice tenant iid j \<and> \<not> live j) (\<lambda>j. j\<lparr>inv_deleted := None\<rparr>))) (\<lambda>n.
             if n = 0 then raise Not_found else ret ())))" for deleted
  have main: "safe (\<lambda>s. ?R s \<and> i \<in> set (invoices s) \<and> is_invoice tenant iid i) paid_ok (tx_part deleted)"
    if del: "inv_deleted i = Some deleted" for i deleted
  proof -
    let ?q = "\<lambda>r. pay_tenant r = tenant \<and> pay_invoice r = Some iid
        \<and> (case pay_deleted r of None \<Rightarrow> False | Some t \<Rightarrow> restore_cutoff deleted \<le> t)"
    let ?f = "\<lambda>r. r\<lparr>pay_deleted := None\<rparr>"
    let ?S = "\<lambda>s. ?R s \<and> i \<in> set (invoices s) \<and> is_invoice tenant iid i"
    define half where "half s \<longleftrightarrow> keys_ok s \<and> (\<forall>j\<in>set (invoices s).
      (live j \<or> is_invoice tenant iid j) \<longrightarrow> inv_paid j = collected (payments s) j)" for s
    have stH: "stable half" by (simp add: stable_def half_def keys_ok_def)
    have pay: "half s'" if a: "?S s" "update_payments ?q ?f s = Some (n, s')" for s n s'
    proof -
      have s': "s' = s\<lparr>payments := update_rows ?q ?f (payments s)\<rparr>" using a(2) by (simp add: update_payments_def)
      have k: "keys_ok s'" unfolding s' using a(1) by (intro keys_ok_update_payments) (simp_all add: paid_ok_def)
      have dist: "distinct (map inv_id (invoices s))" using a(1) by (simp add: paid_ok_def keys_ok_def fresh_keys_def)
      have only: "j = i" if "j \<in> set (invoices s)" "is_invoice tenant iid j" for j
        using unique_row [OF dist that(1), of i] a(1) that(2) by (simp add: is_invoice_def)
      have "inv_paid i = sum_where (\<lambda>p. comes_back deleted p \<and> pays i (p\<lparr>pay_deleted := None\<rparr>)) pay_amount (payments s)"
        using a(1) del by (auto simp: trash_ok_def)
      also have "\<dots> = collected (payments s') i"
      proof -
        have key: "inv_tenant i = tenant" "inv_id i = iid" using a(1) by (simp_all add: is_invoice_def)
        have c: "comes_back deleted r \<and> pays i (r\<lparr>pay_deleted := None\<rparr>) \<longleftrightarrow> pays i (if ?q r then ?f r else r)" for r
          using key by (cases "pay_deleted r") (auto simp: pays_def comes_back_def)
        have "payments s' = update_rows ?q ?f (payments s)" by (simp add: s')
        then have "collected (payments s') i = sum_where (\<lambda>r. pays i (if ?q r then ?f r else r))
            (\<lambda>r. pay_amount (if ?q r then ?f r else r)) (payments s)"
          by (simp only: collected_def sum_where_update)
        also have "\<dots> = sum_where (\<lambda>p. comes_back deleted p \<and> pays i (p\<lparr>pay_deleted := None\<rparr>)) pay_amount (payments s)"
          by (rule sum_where_cong) (simp_all only: c split: if_split, simp)
        finally show ?thesis ..
      qed
      finally have "inv_paid i = collected (payments s') i" .
      moreover have "collected (payments s') j = collected (payments s) j" if "\<not> is_invoice tenant iid j" for j
        using that unfolding s' collected_def
        by (simp add: sum_where_update) (intro sum_where_cong; auto simp: pays_def is_invoice_def)
      moreover have "invoices s' = invoices s" by (simp add: s')
      moreover have "\<forall>j\<in>set (invoices s). live j \<longrightarrow> inv_paid j = collected (payments s) j"
        using a(1) by (simp add: paid_ok_def)
      ultimately show ?thesis using k only unfolding half_def by metis
    qed
    have inv: "paid_ok s'"
      if h: "half s" and u: "update_invoices (\<lambda>j. is_invoice tenant iid j \<and> \<not> live j) (\<lambda>j. j\<lparr>inv_deleted := None\<rparr>) s = Some (n, s')"
      for s n s'
    proof -
      have s': "s' = s\<lparr>invoices := update_rows (\<lambda>j. is_invoice tenant iid j \<and> \<not> live j) (\<lambda>j. j\<lparr>inv_deleted := None\<rparr>) (invoices s)\<rparr>"
        using update_invoices_Some [OF u] by simp
      have "inv_paid j = collected (payments s) j" if j: "j \<in> set (invoices s')" "live j" for j
      proof -
        obtain j0 where j0: "j0 \<in> set (invoices s)"
          "j = (if is_invoice tenant iid j0 \<and> \<not> live j0 then j0\<lparr>inv_deleted := None\<rparr> else j0)"
          using j(1) by (auto simp: s' set_update_rows)
        have "collected (payments s) j = collected (payments s) j0" using j0(2) by (intro collected_key) auto
        moreover have "inv_paid j = inv_paid j0" using j0(2) by auto
        moreover have "live j0 \<or> is_invoice tenant iid j0" using j0(2) j(2) by auto
        ultimately show ?thesis using h j0(1) unfolding half_def by metis
      qed
      then show ?thesis using h by (simp add: paid_ok_def s' half_def keys_ok_invoices)
    qed
    have stS: "stable ?S"
      using stable_conj [OF stR, of "\<lambda>s. i \<in> set (invoices s) \<and> is_invoice tenant iid i"] by (simp add: stable_def)
    have g1: "gives ?S (exec (update_payments ?q ?f)) (\<lambda>_. half)" using pay by (intro gives_exec stS)
    have g2: "gives half (exec (update_invoices (\<lambda>j. is_invoice tenant iid j \<and> \<not> live j) (\<lambda>j. j\<lparr>inv_deleted := None\<rparr>))) (\<lambda>_. paid_ok)"
      using inv by (intro gives_exec stH)
    show ?thesis
      unfolding tx_part_def
      by (intro safe_tx stS stable_paid_ok gives_bind [OF g1] gives_bind [OF g2]) (auto intro: gives_ret)
  qed
  have keepR: "safe ?R paid_ok (get_invoice_including_deleted tenant iid)"
    using keeps_get_invoice_any [OF stR, of True tenant iid]
    by (auto simp: get_invoice_including_deleted_def keeps_def safe_def)
  show ?thesis
    unfolding restore_invoice_def tx_part_def [symmetric]
    by (rule safe_bind [OF keepR get_invoice_any_gives [OF stR, of True, folded get_invoice_including_deleted_def]])
      (auto split: prod.split option.split intro: safe_ret main [unfolded conj_assoc])
qed

section \<open>The invoice ledger as a transition system\<close>

text \<open>
  One step is one call, under any pattern of statement failures, or a change of the
  customers made elsewhere.  \<open>RestoreInvoice\<close> is
  admitted where the trash holds what it brings back; \<open>RestorePayment\<close> is left to
  its own lemmas.
\<close>

inductive ledger_step :: "db \<Rightarrow> db \<Rightarrow> bool" where
  failures_change: "ledger_step s (s\<lparr>faults := fs\<rparr>)"
| customers_change: "ledger_step s (s\<lparr>customers := cs\<rparr>)"
| step_create: "ledger_step s (snd (create_invoice now i items s))"
| step_record: "pay_invoice p \<noteq> None \<longrightarrow> 0 \<le> pay_amount p \<Longrightarrow> ledger_step s (snd (record_payment now p s))"
| step_delete_payment: "ledger_step s (snd (delete_payment now today t pid s))"
| step_delete: "ledger_step s (snd (delete_invoice now t iid s))"
| step_restore: "trash_ok t iid s \<Longrightarrow> ledger_step s (snd (restore_invoice t iid s))"
| step_purge: "ledger_step s (snd (purge_invoice t iid s))"
| step_discount: "ledger_step s (snd (set_invoice_discount_amounts t iid d tax tot s))"
| step_late_fee: "ledger_step s (snd (apply_invoice_late_fee now t iid amount desc s))"

inductive_cases ledger_stepE: "ledger_step s s'"

lemma ledger_step_paid_ok: "ledger_step s s' \<Longrightarrow> paid_ok s \<Longrightarrow> paid_ok s'"
proof (induction rule: ledger_step.induct)
  case (failures_change s fs)
  then show ?case using stable_faults [OF stable_paid_ok] by blast
next
  case (customers_change s cs)
  then show ?case by (simp add: paid_ok_def keys_ok_def)
next
  case (step_create s now i items)
  then show ?case using create_invoice_paid_ok unfolding keeps_def by blast
next
  case (step_record p s now)
  then show ?case using record_payment_paid_ok unfolding keeps_def by blast
next
  case (step_delete_payment s now today t pid)
  then show ?case using delete_payment_paid_ok unfolding keeps_def by blast
next
  case (step_delete s now t iid)
  then show ?case using delete_invoice_paid_ok unfolding keeps_def by blast
next
  case (step_restore t iid s)
  then show ?case using restore_invoice_paid_ok unfolding safe_def by blast
next
  case (step_purge s t iid)
  then show ?case using purge_invoice_paid_ok unfolding keeps_def by blast
next
  case (step_discount s t iid d tax tot)
  then show ?case using set_invoice_discount_amounts_paid_ok unfolding keeps_def by blast
next
  case (step_late_fee s now t iid amount desc)
  then show ?case using apply_invoice_late_fee_paid_ok unfolding keeps_def by blast
qed

lemma reachable_paid_ok: "ledger_step\<^sup>*\<^sup>* empty_db s \<Longrightarrow> paid_ok s"
  by (induction rule: rtranclp_induct) (auto intro: paid_ok_empty ledger_step_paid_ok)

section \<open>Properties\<close>


definition sample_customer :: customer where
  "sample_customer = \<lparr>cust_id = 7, cust_tenant = 1, cust_cluster = None, cust_code = ''C7'', cust_name = ''Ana'',
     cust_email = None, cust_phone = [], cust_address = None, cust_lat = None, cust_lng = None, cust_identity_type = None,
     cust_identity_number = None, cust_active = True, cust_portal = True, cust_photo = None, cust_dismantled = None,
     cust_password = None, cust_created = 0, cust_reseller = None, cust_sales = None\<rparr>"

definition sample_invoice :: invoice where
  "sample_invoice = \<lparr>inv_id = 0, inv_tenant = 1, inv_customer = 7, inv_subscription = None, inv_isolir_sub = None,
     inv_isolir = False, inv_number = ''INV-1'', inv_subtotal = 100, inv_tax = 0, inv_discount = 0, inv_total = 100,
     inv_paid = 0, inv_status = ''issued'', inv_due = 20000, inv_issued = None, inv_paid_at = None,
     inv_deleted = None, inv_late_fee = None\<rparr>"

definition sample_payment :: "gid \<Rightarrow> int \<Rightarrow> payment" where
  "sample_payment iid amount = \<lparr>pay_id = 0, pay_tenant = 1, pay_customer = 7, pay_invoice = Some iid, pay_amount = amount,
     pay_method = ''cash'', pay_reference = None, pay_status = [], pay_sandbox = False, pay_paid_at = None,
     pay_created = 0, pay_deleted = None\<rparr>"

definition sample_db :: db where
  "sample_db = snd (create_invoice 5 sample_invoice [] (empty_db\<lparr>customers := [sample_customer]\<rparr>))"

definition sample_paid_db :: db where
  "sample_paid_db = snd (record_payment 9 (sample_payment 1 60) sample_db)"

lemma sample_db_reachable: "ledger_step\<^sup>*\<^sup>* empty_db sample_db"
proof -
  have "ledger_step empty_db (empty_db\<lparr>customers := [sample_customer]\<rparr>)" by (rule customers_change)
  moreover have "ledger_step (empty_db\<lparr>customers := [sample_customer]\<rparr>) sample_db"
    unfolding sample_db_def by (rule step_create)
  ultimately show ?thesis by (meson converse_rtranclp_into_rtranclp rtranclp.rtrancl_refl)
qed

lemma sample_reachable: "ledger_step\<^sup>*\<^sup>* empty_db sample_paid_db"
proof -
  note sample_db_reachable
  moreover have "ledger_step sample_db sample_paid_db"
    unfolding sample_paid_db_def by (rule step_record) (simp add: sample_payment_def)
  ultimately show ?thesis by (rule rtranclp.rtrancl_into_rtrancl)
qed


text \<open>a payment the user trashed just before its invoice comes back with the invoice although its
  amount was taken off already: the invoice shows nothing paid while its payment is live.\<close>

theorem restore_resurrects_payment:
  "let s1 = snd (delete_payment (100 * second) 1 1 2 sample_paid_db);
       s2 = snd (delete_invoice (101 * second) 1 1 s1);
       s3 = snd (restore_invoice 1 1 s2)
   in map inv_paid (invoices s3) = [0] \<and> map pay_deleted (payments s3) = [None]
      \<and> map pay_amount (payments s3) = [60] \<and> map (collected (payments s3)) (invoices s3) = [60]
      \<and> trash_ok 1 1 s2 = False"
  by code_simp

lemma update_trash_restore:
  assumes "\<forall>r\<in>set rows. pay_tenant r = tenant \<longrightarrow> pay_invoice r = Some iid \<longrightarrow>
      (case pay_deleted r of None \<Rightarrow> True | Some t \<Rightarrow> t < restore_cutoff now)"
  shows "update_rows (\<lambda>r. pay_tenant r = tenant \<and> pay_invoice r = Some iid
        \<and> (case pay_deleted r of None \<Rightarrow> False | Some t \<Rightarrow> restore_cutoff now \<le> t)) (\<lambda>r. r\<lparr>pay_deleted := None\<rparr>)
      (update_rows (\<lambda>r. pay_tenant r = tenant \<and> pay_invoice r = Some iid \<and> pay_deleted r = None)
        (\<lambda>r. r\<lparr>pay_deleted := Some now\<rparr>) rows) = rows"
  using assms
proof (induction rows)
  case (Cons r rows)
  then show ?case by (cases r) (auto simp: restore_cutoff_def split: option.splits)
qed simp

text \<open>The state after trashing an invoice, with no failure.\<close>

definition trashed :: "int \<Rightarrow> gid \<Rightarrow> gid \<Rightarrow> db \<Rightarrow> db" where
  "trashed now tenant iid s = s\<lparr>
     intents := update_rows (\<lambda>r. pi_tenant r = tenant \<and> pi_invoice r = Some iid
       \<and> to_lower (pi_status r) \<in> {''pending'', ''created'', ''unpaid''})
       (\<lambda>r. r\<lparr>pi_status := ''cancelled'', pi_invoice := None\<rparr>) (intents s),
     payments := update_rows (\<lambda>r. pay_tenant r = tenant \<and> pay_invoice r = Some iid \<and> pay_deleted r = None)
       (\<lambda>r. r\<lparr>pay_deleted := Some now\<rparr>) (payments s),
     invoices := update_rows (\<lambda>j. is_invoice tenant iid j \<and> live j) (\<lambda>j. j\<lparr>inv_deleted := Some now\<rparr>) (invoices s)\<rparr>"

lemma calm_trashed [simp]: "calm (trashed now tenant iid s) = calm s"
  by (simp add: trashed_def calm_def)

lemma calm_delete_invoice:
  assumes "calm s" and "i \<in> set (invoices s)" "is_invoice tenant iid i" "inv_deleted i = None"
    and amounts: "list_all invoice_amounts_ok (invoices s)"
  shows "delete_invoice now tenant iid s = (Inr (), trashed now tenant iid s)"
proof -
  have hit: "affected (\<lambda>j. is_invoice tenant iid j \<and> live j) (invoices s) \<noteq> 0"
    using assms(2-4) by (auto simp: affected_0 live_def)
  have ok: "list_all (\<lambda>j. (is_invoice tenant iid j \<and> live j) \<longrightarrow> invoice_amounts_ok (j\<lparr>inv_deleted := Some now\<rparr>)) (invoices s)"
    using amounts by (auto simp: list_all_iff invoice_amounts_ok_def)
  show ?thesis
    unfolding delete_invoice_def
    by (simp add: bind_def [of set_tenant] calm_set_tenant [OF assms(1)], rule calm_tx [OF assms(1)])
      (use assms(1) hit ok in \<open>simp_all add: bind_def exec_def calm_round_trip calm_def update_payments_def
         update_invoices_def ret_def trashed_def\<close>)
qed

lemma trashed_row:
  assumes keys: "keys_ok s" and i: "i \<in> set (invoices s)" "is_invoice tenant iid i" "inv_deleted i = None"
    and j: "j \<in> set (invoices (trashed now tenant iid s))" "is_invoice tenant iid j"
  shows "j = i\<lparr>inv_deleted := Some now\<rparr>"
proof -
  have dist: "distinct (map inv_id (invoices s))" using keys by (simp add: keys_ok_def fresh_keys_def)
  obtain j0 where j0: "j0 \<in> set (invoices s)"
    "j = (if is_invoice tenant iid j0 \<and> live j0 then j0\<lparr>inv_deleted := Some now\<rparr> else j0)"
    using j(1) by (auto simp: trashed_def set_update_rows)
  then have "is_invoice tenant iid j0" using j(2) by (auto simp: is_invoice_def split: if_splits)
  then have "j0 = i" using unique_row [OF dist j0(1) i(1)] i(2) by (simp add: is_invoice_def)
  then show ?thesis using j0(2) i(2,3) by (simp add: live_def)
qed

lemma trashed_mem:
  assumes "i \<in> set (invoices s)" "is_invoice tenant iid i" "inv_deleted i = None"
  shows "i\<lparr>inv_deleted := Some now\<rparr> \<in> set (invoices (trashed now tenant iid s))"
  using assms by (auto simp: trashed_def set_update_rows live_def)

lemma trashed_get:
  assumes keys: "keys_ok s" and i: "i \<in> set (invoices s)" "is_invoice tenant iid i" "inv_deleted i = None"
    and cust: "has_customer s i"
  shows "get_invoice_rows True tenant iid (trashed now tenant iid s) = Some (i\<lparr>inv_deleted := Some now\<rparr>)"
proof (cases "get_invoice_rows True tenant iid (trashed now tenant iid s)")
  case None
  have "has_customer (trashed now tenant iid s) (i\<lparr>inv_deleted := Some now\<rparr>)"
    using cust by (simp add: has_customer_def trashed_def)
  then show ?thesis using None trashed_mem [OF i, of now] i(2)
    by (auto simp: get_invoice_rows_def first_row_None is_invoice_def)
next
  case (Some j)
  then have "j \<in> set (invoices (trashed now tenant iid s))" "is_invoice tenant iid j"
    by (auto simp: get_invoice_rows_def is_invoice_def dest!: first_row_Some)
  then show ?thesis using trashed_row [OF keys i] Some by blast
qed

lemma trashed_undone:
  assumes "keys_ok s" "i \<in> set (invoices s)" "is_invoice tenant iid i" "inv_deleted i = None"
  shows "update_rows (\<lambda>j. is_invoice tenant iid j \<and> \<not> live j) (\<lambda>j. j\<lparr>inv_deleted := None\<rparr>)
    (invoices (trashed now tenant iid s)) = invoices s"
proof -
  have dist: "distinct (map inv_id (invoices s))" using assms(1) by (simp add: keys_ok_def fresh_keys_def)
  have "(\<lambda>j. if is_invoice tenant iid j \<and> \<not> live j then j\<lparr>inv_deleted := None\<rparr> else j)
      (if is_invoice tenant iid r \<and> live r then r\<lparr>inv_deleted := Some now\<rparr> else r) = r" if "r \<in> set (invoices s)" for r
  proof -
    have "is_invoice tenant iid r \<Longrightarrow> inv_deleted r = None"
      using unique_row [OF dist that assms(2)] assms(3,4) by (simp add: is_invoice_def)
    then show ?thesis by (cases r) (auto simp: live_def is_invoice_def)
  qed
  then show ?thesis by (simp add: trashed_def update_rows_def map_idI)
qed

lemma calm_restore_trashed:
  assumes "calm s" and keys: "keys_ok s" and i: "i \<in> set (invoices s)" "is_invoice tenant iid i" "inv_deleted i = None"
    and cust: "has_customer s i" and amounts: "list_all invoice_amounts_ok (invoices s)"
    and tol: "\<forall>r\<in>set (payments s). pay_tenant r = tenant \<longrightarrow> pay_invoice r = Some iid \<longrightarrow>
      (case pay_deleted r of None \<Rightarrow> True | Some t \<Rightarrow> t < restore_cutoff now)"
  shows "restore_invoice tenant iid (trashed now tenant iid s)
    = (Inr (), (trashed now tenant iid s)\<lparr>payments := payments s, invoices := invoices s\<rparr>)"
proof -
  let ?s1 = "trashed now tenant iid s" and ?i1 = "i\<lparr>inv_deleted := Some now\<rparr>"
  have c1: "calm ?s1" using assms(1) by simp
  have hit: "affected (\<lambda>j. is_invoice tenant iid j \<and> \<not> live j) (invoices ?s1) \<noteq> 0"
  proof -
    have "is_invoice tenant iid ?i1 \<and> \<not> live ?i1" using i(2) by (simp add: live_def is_invoice_def)
    then show ?thesis using trashed_mem [OF i, of now] unfolding affected_0 by blast
  qed
  have ok: "list_all (\<lambda>j. (is_invoice tenant iid j \<and> \<not> live j) \<longrightarrow> invoice_amounts_ok (j\<lparr>inv_deleted := None\<rparr>)) (invoices ?s1)"
    using amounts by (auto simp: list_all_iff invoice_amounts_ok_def trashed_def set_update_rows)
  have g: "get_invoice_including_deleted tenant iid ?s1 = (Inr (?i1, items_of iid ?s1), ?s1)"
    using c1 trashed_get [OF keys i cust, of now]
    by (simp add: get_invoice_including_deleted_def get_invoice_any_def bind_def calm_set_tenant calm_auto_query ret_def)
  have c2: "calm (?s1\<lparr>payments := payments s, invoices := invoices s\<rparr>)" using c1 by (simp add: calm_def)
  have ps: "payments ?s1 = update_rows (\<lambda>r. pay_tenant r = tenant \<and> pay_invoice r = Some iid \<and> pay_deleted r = None)
      (\<lambda>r. r\<lparr>pay_deleted := Some now\<rparr>) (payments s)" by (simp add: trashed_def)
  show ?thesis
    unfolding restore_invoice_def
    by (simp add: bind_def [of "get_invoice_including_deleted tenant iid"] g, rule calm_tx [OF c1 _ c2])
      (use c1 hit ok trashed_undone [OF keys i, of now] update_trash_restore [OF tol, folded ps] in
        \<open>simp add: bind_def exec_def calm_round_trip calm_def update_payments_def update_invoices_def ret_def\<close>)
qed



end
