(* ===== verification/Billing_Calc.thy ===== *)
theory Billing_Calc
  imports GoFloat GoTime
begin

text \<open>
  The arithmetic of \<open>internal/billing/engine.go\<close>: cycle lengths, prorated amounts, taxes,
  late fees, and the calendar of due dates and billing anchors.  Amounts are int64 values
  converted to \<open>float64\<close> as the code does; percentages are \<open>float64\<close> values.
\<close>

section \<open>Definitions\<close>

definition default_late_fee_percent :: rat where "default_late_fee_percent = 5"

definition days_in_billing_cycle :: "string \<Rightarrow> int" where
  "days_in_billing_cycle cycle =
     (if cycle = ''daily'' then 1 else if cycle = ''weekly'' then 7
      else if cycle = ''yearly'' then 365 else 30)"

definition prorate_amount :: "int \<Rightarrow> int \<Rightarrow> int \<Rightarrow> int" where
  "prorate_amount full_price days_used days_in_period =
     (if days_in_period \<le> 0 then full_price
      else go_round (f_div (f_mul (f_of_int full_price) (f_of_int days_used)) (f_of_int days_in_period)))"

definition percent_of :: "int \<Rightarrow> rat \<Rightarrow> int" where
  "percent_of amount percent = go_round (f_div (f_mul (f_of_int amount) percent) 100)"

definition calculate_invoice_amount :: "int \<Rightarrow> rat \<Rightarrow> int \<Rightarrow> int \<Rightarrow> int \<times> int" where
  "calculate_invoice_amount price tax_percent prorate_days total_days =
     (let subtotal =
            (if 0 < prorate_days \<and> 0 < total_days \<and> prorate_days < total_days
             then go_round (f_div (f_mul (f_of_int price) (f_of_int prorate_days)) (f_of_int total_days))
             else price)
      in (subtotal, percent_of subtotal tax_percent))"

definition apply_late_fee :: "int \<Rightarrow> rat \<Rightarrow> int" where
  "apply_late_fee amount percent =
     (if amount \<le> 0 \<or> percent \<le> 0 then 0 else percent_of amount percent)"

definition next_bill_date :: "gtime \<Rightarrow> string \<Rightarrow> gtime" where
  "next_bill_date from_t cycle =
     (if cycle = ''daily'' then add_date from_t 0 0 1
      else if cycle = ''weekly'' then add_date from_t 0 0 7
      else if cycle = ''yearly'' then add_date from_t 1 0 0
      else add_date from_t 0 1 0)"

definition clamp_day :: "int \<Rightarrow> int" where
  "clamp_day day = (if day < 1 then 1 else if 28 < day then 28 else day)"

definition noon :: int where "noon = 12 * 3600 * second"

definition next_cycle_anchor :: "gtime \<Rightarrow> int \<Rightarrow> gtime" where
  "next_cycle_anchor from_t day0 =
     (let day = clamp_day day0;
          from_n = go_date (t_year from_t) (t_month from_t) (t_day from_t) noon (t_zone from_t);
          candidate = go_date (t_year from_n) (t_month from_n) day noon (t_zone from_t)
      in if after candidate from_n then candidate
         else go_date (t_year from_n) (t_month from_n + 1) day noon (t_zone from_t))"

definition next_due_date :: "gtime \<Rightarrow> int \<Rightarrow> gtime" where
  "next_due_date from_t day0 =
     (let day = clamp_day day0;
          from_n = go_date (t_year from_t) (t_month from_t) (t_day from_t) noon (t_zone from_t)
      in if t_day from_n \<le> day
         then go_date (t_year from_n) (t_month from_n) day noon (t_zone from_t)
         else go_date (t_year from_n) (t_month from_n + 1) day noon (t_zone from_t))"

text \<open>\<open>Duration.Hours()\<close>, divided by 24 and rounded up.\<close>

definition hours :: "int \<Rightarrow> rat" where
  "hours d = f_add (f_of_int (go_div d hour_ns)) (f_div (f_of_int (go_mod d hour_ns)) 3600000000000)"

definition days_ceil :: "int \<Rightarrow> int" where
  "days_ceil d = \<lceil>f_div (hours d) 24\<rceil>"

definition remaining_days_until :: "gtime \<Rightarrow> gtime \<Rightarrow> int \<Rightarrow> int" where
  "remaining_days_until now until_t cycle_days =
     (if \<not> after until_t now then 0
      else let days = days_ceil (time_sub until_t now);
               days = (if days < 1 then 1 else days)
           in if 0 < cycle_days \<and> cycle_days < days then cycle_days else days)"

definition first_prorate_days :: "gtime \<Rightarrow> gtime \<Rightarrow> int \<Rightarrow> int" where
  "first_prorate_days started until_t period_days =
     (let days = days_ceil (time_sub until_t started);
          days = (if days < 1 then 1 else days)
      in if period_days < days then period_days else days)"

definition plan_change_direction :: "int \<Rightarrow> int \<Rightarrow> int \<Rightarrow> int \<Rightarrow> string" where
  "plan_change_direction old_download old_upload new_download new_upload =
     (if old_download < new_download then ''upgrade''
      else if new_download < old_download then ''downgrade''
      else if old_upload < new_upload then ''upgrade''
      else if new_upload < old_upload then ''downgrade''
      else ''same'')"

definition plan_change_label :: "string \<Rightarrow> string" where
  "plan_change_label direction =
     (if direction = ''upgrade'' then ''Upgrade'' else if direction = ''downgrade'' then ''Downgrade''
      else ''Ganti paket'')"

section \<open>Calendar lemmas\<close>

lemma clamp_day_range: "1 \<le> clamp_day d \<and> clamp_day d \<le> 28"
  by (simp add: clamp_day_def)

text \<open>The first day of a month, by the running number of the month.\<close>

definition month_start :: "int \<Rightarrow> int" where
  "month_start k = day_number (k div 12) (k mod 12 + 1) 1"

lemma month_start_step:
  "month_start (k + 1) = month_start k + month_days (leap_year (k div 12)) (k mod 12 + 1)"
proof -
  have r: "0 \<le> k mod 12" "k mod 12 < 12" by simp_all
  have n: "day_number (if k mod 12 + 1 = 12 then k div 12 + 1 else k div 12) (if k mod 12 + 1 = 12 then 1 else k mod 12 + 1 + 1) 1
      = month_start k + month_days (leap_year (k div 12)) (k mod 12 + 1)"
    unfolding month_start_def using r by (intro day_number_next_month) auto
  show ?thesis
  proof (cases "k mod 12 = 11")
    case True
    then have "(k + 1) div 12 = k div 12 + 1" "(k + 1) mod 12 = 0" by presburger+
    then have "month_start (k + 1) = day_number (k div 12 + 1) (0 + 1) 1" unfolding month_start_def by (simp only:)
    moreover have "day_number (k div 12 + 1) (0 + 1) 1 = month_start k + month_days (leap_year (k div 12)) (k mod 12 + 1)"
      using n unfolding True by simp
    ultimately show ?thesis by (simp only:)
  next
    case False
    have k: "k + 1 = 12 * (k div 12) + (k mod 12 + 1)" by simp
    have "(k + 1) div 12 = k div 12" using r False by (intro int_div_pos_eq [OF k]) auto
    moreover have "(k + 1) mod 12 = k mod 12 + 1" using r False by (intro int_mod_pos_eq [OF k]) auto
    ultimately have "month_start (k + 1) = day_number (k div 12) (k mod 12 + 1 + 1) 1" unfolding month_start_def by (simp only:)
    moreover have "(k mod 12 + 1 = 12) = False" using False by simp
    ultimately show ?thesis using n by (simp only: if_False)
  qed
qed

lemma month_start_mono: "j \<le> k \<Longrightarrow> month_start j \<le> month_start k"
proof (induction k rule: int_ge_induct)
  case (step i)
  have "0 \<le> i mod 12" "i mod 12 < 12" by simp_all
  then have "0 \<le> month_days (leap_year (i div 12)) (i mod 12 + 1)"
    using month_days_28 [of "i mod 12 + 1" "leap_year (i div 12)"] by linarith
  then show ?case using step by (simp add: month_start_step)
qed simp

definition month_index :: "int \<Rightarrow> int \<Rightarrow> int" where
  "month_index y m = 12 * y + (m - 1)"

lemma month_index_parts: "1 \<le> m \<Longrightarrow> m \<le> 12 \<Longrightarrow> month_index y m div 12 = y \<and> month_index y m mod 12 + 1 = m"
  unfolding month_index_def by presburger

lemma day_number_in_month:
  assumes "valid_date y m d"
  shows "day_number y m d = month_start (month_index y m) + (d - 1)"
    and "day_number y m d < month_start (month_index y m + 1)"
proof -
  have m: "1 \<le> m" "m \<le> 12" using assms by (simp_all add: valid_date_def)
  show e: "day_number y m d = month_start (month_index y m) + (d - 1)"
    using month_index_parts [OF m, of y] by (simp add: month_start_def day_number_def)
  show "day_number y m d < month_start (month_index y m + 1)"
    unfolding e month_start_step using month_index_parts [OF m, of y] assms by (simp add: valid_date_def)
qed

text \<open>Dates are ordered by month first, then by day.\<close>

lemma day_number_le:
  assumes "valid_date y m d" "valid_date y' m' d'" and "day_number y m d \<le> day_number y' m' d'"
  shows "month_index y m < month_index y' m' \<or> (month_index y m = month_index y' m' \<and> d \<le> d')"
proof (cases "month_index y m < month_index y' m'")
  case False
  show ?thesis
  proof (cases "month_index y m = month_index y' m'")
    case True
    then show ?thesis using assms(3) day_number_in_month(1) [OF assms(1)] day_number_in_month(1) [OF assms(2)] by simp
  next
    case neq: False
    then have "month_start (month_index y' m' + 1) \<le> month_start (month_index y m)"
      using False by (intro month_start_mono) linarith
    then show ?thesis
      using assms(3) day_number_in_month(2) [OF assms(2)] day_number_in_month(1) [OF assms(1)] assms(1)
      by (simp add: valid_date_def)
  qed
qed simp

lemma day_number_less:
  assumes "valid_date y m d" "valid_date y' m' d'"
    and "month_index y m < month_index y' m' \<or> (month_index y m = month_index y' m' \<and> d < d')"
  shows "day_number y m d < day_number y' m' d'"
  using day_number_le [OF assms(2,1)] assms(3) by linarith

lemma day_number_le_iff:
  assumes "valid_date y m d" "valid_date y' m' d'"
  shows "day_number y m d \<le> day_number y' m' d' \<longleftrightarrow>
    month_index y m < month_index y' m' \<or> (month_index y m = month_index y' m' \<and> d \<le> d')"
proof
  assume r: "month_index y m < month_index y' m' \<or> (month_index y m = month_index y' m' \<and> d \<le> d')"
  show "day_number y m d \<le> day_number y' m' d'"
  proof (cases "month_index y m = month_index y' m' \<and> d = d'")
    case True
    then show ?thesis using day_number_in_month(1) [OF assms(1)] day_number_in_month(1) [OF assms(2)] by simp
  next
    case False
    then show ?thesis using day_number_less [OF assms] r by force
  qed
qed (rule day_number_le [OF assms])

lemma month_index_next: "1 \<le> m \<Longrightarrow> m \<le> 12 \<Longrightarrow>
  month_index (if m = 12 then y + 1 else y) (if m = 12 then 1 else m + 1) = month_index y m + 1"
  by (auto simp: month_index_def)

lemma noon_range: "0 \<le> noon" "noon < day_ns"
  by (simp_all add: noon_def)

text \<open>Both calendar functions pick the wanted day in the month of the date or in the next one.\<close>

definition on_day :: "gtime \<Rightarrow> int \<Rightarrow> bool \<Rightarrow> gtime" where
  "on_day t d this_month =
     (if this_month then \<lparr>t_year = t_year t, t_month = t_month t, t_day = d, t_nanos = noon, t_zone = t_zone t\<rparr>
      else \<lparr>t_year = (if t_month t = 12 then t_year t + 1 else t_year t),
            t_month = (if t_month t = 12 then 1 else t_month t + 1), t_day = d, t_nanos = noon, t_zone = t_zone t\<rparr>)"

lemma noon_of_day:
  assumes "valid_time t"
  shows "go_date (t_year t) (t_month t) (t_day t) noon (t_zone t)
    = \<lparr>t_year = t_year t, t_month = t_month t, t_day = t_day t, t_nanos = noon, t_zone = t_zone t\<rparr>"
  using assms noon_range by (intro go_date_plain) (auto simp: valid_time_def valid_date_def)

lemma on_day_date:
  assumes "valid_time t" "1 \<le> d" "d \<le> 28"
  shows "go_date (t_year t) (t_month t) d noon (t_zone t) = on_day t d True"
    and "go_date (t_year t) (t_month t + 1) d noon (t_zone t) = on_day t d False"
  using assms noon_range go_date_28 [of "t_month t" d noon] go_date_next_month [of "t_month t" d noon]
  by (auto simp: valid_time_def valid_date_def on_day_def)

lemma on_day_valid:
  assumes "valid_time t" "1 \<le> d" "d \<le> 28"
  shows "valid_time (on_day t d b)"
    and "month_index (t_year (on_day t d b)) (t_month (on_day t d b))
      = month_index (t_year t) (t_month t) + (if b then 0 else 1)"
    and "t_day (on_day t d b) = d" and "t_nanos (on_day t d b) = noon" and "t_zone (on_day t d b) = t_zone t"
proof -
  have m: "1 \<le> t_month t" "t_month t \<le> 12" using assms(1) by (simp_all add: valid_time_def valid_date_def)
  have m': "1 \<le> t_month (on_day t d b)" "t_month (on_day t d b) \<le> 12" using m by (auto simp: on_day_def)
  show "valid_time (on_day t d b)"
    using assms(2,3) month_days_28 [OF m', of "leap_year (t_year (on_day t d b))"] m' noon_range
    by (auto simp: valid_time_def valid_date_def on_day_def)
  show "month_index (t_year (on_day t d b)) (t_month (on_day t d b))
      = month_index (t_year t) (t_month t) + (if b then 0 else 1)"
    using month_index_next [OF m, of "t_year t"] by (simp add: on_day_def)
qed (simp_all add: on_day_def)

lemma next_due_date_eq:
  assumes "valid_time t"
  shows "next_due_date t day = on_day t (clamp_day day) (t_day t \<le> clamp_day day)"
  using assms on_day_date [OF assms, of "clamp_day day"] clamp_day_range [of day]
  by (simp add: next_due_date_def Let_def noon_of_day)

lemma next_cycle_anchor_eq:
  assumes "valid_time t"
  shows "next_cycle_anchor t day = on_day t (clamp_day day) (t_day t < clamp_day day)"
proof -
  let ?n = "\<lparr>t_year = t_year t, t_month = t_month t, t_day = t_day t, t_nanos = noon, t_zone = t_zone t\<rparr>"
  have "after (on_day t (clamp_day day) True) ?n \<longleftrightarrow> t_day t < clamp_day day"
    by (simp add: after_def instant_def day_of_def on_day_def day_number_def)
  then show ?thesis
    using on_day_date [OF assms, of "clamp_day day"] clamp_day_range [of day]
    by (simp add: next_cycle_anchor_def Let_def noon_of_day [OF assms])
qed

lemma day_of_le_iff:
  "valid_time a \<Longrightarrow> valid_time b \<Longrightarrow> day_of a \<le> day_of b \<longleftrightarrow>
     month_index (t_year a) (t_month a) < month_index (t_year b) (t_month b)
     \<or> (month_index (t_year a) (t_month a) = month_index (t_year b) (t_month b) \<and> t_day a \<le> t_day b)"
  unfolding day_of_def by (rule day_number_le_iff) (simp_all add: valid_time_def)

section \<open>Properties of the calendar\<close>

text \<open>C22: a due date is the first date with the (clamped) due day on or after the date of issue:
  it is a real date at noon in the same zone, and no earlier date qualifies.\<close>

theorem next_due_date_first:
  assumes "valid_time t"
  shows "valid_time (next_due_date t day) \<and> t_day (next_due_date t day) = clamp_day day
    \<and> t_nanos (next_due_date t day) = noon \<and> t_zone (next_due_date t day) = t_zone t
    \<and> day_of t \<le> day_of (next_due_date t day)
    \<and> (\<forall>u. valid_time u \<and> t_day u = clamp_day day \<and> day_of t \<le> day_of u \<longrightarrow> day_of (next_due_date t day) \<le> day_of u)"
proof -
  let ?b = "t_day t \<le> clamp_day day" and ?r = "on_day t (clamp_day day) (t_day t \<le> clamp_day day)"
  have c: "1 \<le> clamp_day day" "clamp_day day \<le> 28" using clamp_day_range by auto
  note v = on_day_valid [OF assms c, of ?b]
  have "day_of t \<le> day_of ?r" using day_of_le_iff [OF assms v(1)] v by auto
  moreover have "day_of ?r \<le> day_of u" if "valid_time u" "t_day u = clamp_day day" "day_of t \<le> day_of u" for u
    using day_of_le_iff [OF assms that(1)] day_of_le_iff [OF v(1) that(1)] v that by auto
  ultimately show ?thesis using v by (auto simp: next_due_date_eq [OF assms])
qed

lemma next_due_date_first_witness:
  "let t = \<lparr>t_year = 2026, t_month = 12, t_day = 20, t_nanos = 5, t_zone = 25200\<rparr> in
   t_day (next_due_date t 31) = 28 \<and> t_day (next_due_date t 10) = 10 \<and> next_due_date t 10 =
     \<lparr>t_year = 2027, t_month = 1, t_day = 10, t_nanos = noon, t_zone = 25200\<rparr>"
proof -
  let ?t = "\<lparr>t_year = 2026, t_month = 12, t_day = 20, t_nanos = 5, t_zone = 25200\<rparr>"
  have v: "valid_time ?t" by code_simp
  have "next_due_date ?t 10 = \<lparr>t_year = 2027, t_month = 1, t_day = 10, t_nanos = noon, t_zone = 25200\<rparr>"
    by code_simp
  then show ?thesis using next_due_date_first [OF v, of 31] next_due_date_first [OF v, of 10]
    by (simp add: clamp_day_def)
qed

text \<open>a billing anchor is the first date with the (clamped) cycle day strictly after the
  activation date, so that activating on the day itself gives the same day of the next month.\<close>

theorem next_cycle_anchor_first:
  assumes "valid_time t"
  shows "valid_time (next_cycle_anchor t day) \<and> t_day (next_cycle_anchor t day) = clamp_day day
    \<and> day_of t < day_of (next_cycle_anchor t day)
    \<and> (\<forall>u. valid_time u \<and> t_day u = clamp_day day \<and> day_of t < day_of u \<longrightarrow> day_of (next_cycle_anchor t day) \<le> day_of u)"
proof -
  let ?b = "t_day t < clamp_day day" and ?r = "on_day t (clamp_day day) (t_day t < clamp_day day)"
  have c: "1 \<le> clamp_day day" "clamp_day day \<le> 28" using clamp_day_range by auto
  note v = on_day_valid [OF assms c, of ?b]
  have "\<not> day_of ?r \<le> day_of t" using day_of_le_iff [OF v(1) assms] v by auto
  moreover have "day_of ?r \<le> day_of u" if "valid_time u" "t_day u = clamp_day day" "day_of t < day_of u" for u
    using day_of_le_iff [OF that(1) assms] day_of_le_iff [OF v(1) that(1)] v that by auto
  ultimately show ?thesis using v by (auto simp: next_cycle_anchor_eq [OF assms])
qed

lemma next_cycle_anchor_first_witness:
  "let t = \<lparr>t_year = 2026, t_month = 2, t_day = 5, t_nanos = 0, t_zone = 0\<rparr> in
   t_day (next_cycle_anchor t 5) = 5 \<and> day_of (next_cycle_anchor t 5) = day_of t + 28"
proof -
  let ?t = "\<lparr>t_year = 2026, t_month = 2, t_day = 5, t_nanos = 0, t_zone = 0\<rparr>"
  have v: "valid_time ?t" by code_simp
  have "day_of (next_cycle_anchor ?t 5) = day_of ?t + 28" by code_simp
  then show ?thesis using next_cycle_anchor_first [OF v, of 5] by (simp add: clamp_day_def)
qed

text \<open>stepping a monthly bill keeps the day of the month when it is at most 28.\<close>

theorem next_bill_date_monthly:
  assumes "valid_time t" and "t_day t \<le> 28" and "cycle \<notin> {''daily'', ''weekly'', ''yearly''}"
  shows "t_day (next_bill_date t cycle) = t_day t \<and> t_nanos (next_bill_date t cycle) = t_nanos t
    \<and> month_index (t_year (next_bill_date t cycle)) (t_month (next_bill_date t cycle))
      = month_index (t_year t) (t_month t) + 1"
proof -
  have m: "1 \<le> t_month t" "t_month t \<le> 12" "1 \<le> t_day t" "0 \<le> t_nanos t" "t_nanos t < day_ns"
    using assms(1) by (simp_all add: valid_time_def valid_date_def)
  have "next_bill_date t cycle = go_date (t_year t) (t_month t + 1) (t_day t) (t_nanos t) (t_zone t)"
    using assms(3) by (auto simp: next_bill_date_def add_date_def)
  then show ?thesis
    using go_date_next_month [OF m(1,2,3) assms(2) m(4,5), of "t_year t" "t_zone t"] month_index_next [OF m(1,2), of "t_year t"]
    by simp
qed

lemma next_bill_date_monthly_witness:
  "let t = \<lparr>t_year = 2026, t_month = 12, t_day = 28, t_nanos = 7, t_zone = 0\<rparr> in
   t_day (next_bill_date t ''monthly'') = 28"
  using next_bill_date_monthly [of "\<lparr>t_year = 2026, t_month = 12, t_day = 28, t_nanos = 7, t_zone = 0\<rparr>" "''monthly''"]
  by (simp add: Let_def valid_time_def valid_date_def month_days_def days_before_month_def)

text \<open>a monthly subscription that starts on the 31st is never billed in February and drifts to
  the 3rd of March for good: \<open>AddDate\<close> carries the missing days into the next month.\<close>

theorem next_bill_date_drifts:
  "let t = \<lparr>t_year = 2026, t_month = 1, t_day = 31, t_nanos = noon, t_zone = 25200\<rparr>;
       n = next_bill_date t ''monthly''
   in (t_year n, t_month n, t_day n) = (2026, 3, 3)
      \<and> (t_month (next_bill_date n ''monthly''), t_day (next_bill_date n ''monthly'')) = (4, 3)"
  by code_simp

section \<open>Properties of the amounts\<close>

lemma int_mult_bound: "0 \<le> a \<Longrightarrow> a < (A :: int) \<Longrightarrow> 0 \<le> b \<Longrightarrow> b \<le> B \<Longrightarrow> 0 < B \<Longrightarrow> a * b < A * B"
proof -
  assume h: "0 \<le> a" "a < A" "0 \<le> b" "b \<le> B" "0 < B"
  have "a * b \<le> a * B" using h by (intro mult_left_mono)
  also have "\<dots> < A * B" using h by (intro mult_strict_right_mono)
  finally show ?thesis .
qed

text \<open>Amounts below \<open>2^41\<close> (two trillion) times a day count or an integer percentage fit in
  a float exactly, so the division is the only rounding before \<open>math.Round\<close>.\<close>

lemma quotient_exact:
  assumes "0 \<le> a" "a < 2 ^ 41" "0 \<le> d" "d \<le> t" "0 < t" "t \<le> 1000"
  shows "go_round (f_div (f_mul (f_of_int a) (f_of_int d)) (f_of_int t)) = (2 * (a * d) + t) div (2 * t)"
proof -
  have p: "0 \<le> a * d" "a * d < 2 ^ 41 * t" using assms int_mult_bound [of a "2 ^ 41" d t] by auto
  have "2 ^ 41 * t \<le> 2 ^ 41 * (1000 :: int)" using assms by simp
  then have q: "\<bar>a * d\<bar> < 2 ^ 53" using p by simp
  have "f_of_int a = of_int a" "f_of_int d = of_int d" "f_of_int t = of_int t"
    using assms by (simp_all add: f_of_int_exact)
  then have "f_mul (f_of_int a) (f_of_int d) = of_int (a * d)" "f_of_int t = of_int t"
    using fl64_of_int [OF q] by (simp_all add: f_mul_def)
  then show ?thesis
    using go_round_fl64 [of "a * d" t] p assms by (simp add: f_div_def mult.commute)
qed

lemma percent_exact:
  assumes "0 \<le> a" "a < 2 ^ 41" "0 \<le> k" "k \<le> 100"
  shows "percent_of a (of_int k) = (2 * (a * k) + 100) div 200"
proof -
  have k: "f_of_int k = of_int k" "f_of_int 100 = 100" using assms f_of_int_exact [of k] f_of_int_exact [of 100] by auto
  show ?thesis using quotient_exact [of a k 100] assms by (simp add: percent_of_def k)
qed

lemma rounded_share_bounds:
  assumes "0 \<le> a" "0 \<le> d" "d \<le> t" "0 < (t :: int)"
  shows "0 \<le> (2 * (a * d) + t) div (2 * t) \<and> (2 * (a * d) + t) div (2 * t) \<le> a"
proof
  show "0 \<le> (2 * (a * d) + t) div (2 * t)" using assms by (simp add: pos_imp_zdiv_nonneg_iff)
  have "a * d \<le> a * t" using assms by (intro mult_left_mono)
  then have "2 * (a * d) + t < (a + 1) * (2 * t)" using assms by (simp add: algebra_simps)
  then have "(2 * (a * d) + t) div (2 * t) < a + 1"
    using assms div_bounds(1) [of "2 * t" "2 * (a * d) + t"]
    by (smt (verit, best) mult.commute mult_less_cancel_left_pos)
  then show "(2 * (a * d) + t) div (2 * t) \<le> a" by simp
qed

text \<open>C23: a prorated amount is the exact share rounded half up, it lies between nothing and the
  full price, and more days never cost less.\<close>

theorem prorate_amount_exact:
  assumes "0 \<le> price" "price < 2 ^ 41" "0 \<le> days" "days \<le> period" "0 < period" "period \<le> 1000"
  shows "prorate_amount price days period = (2 * (price * days) + period) div (2 * period)
    \<and> 0 \<le> prorate_amount price days period \<and> prorate_amount price days period \<le> price
    \<and> prorate_amount price period period = price
    \<and> (\<forall>d\<in>{0..days}. prorate_amount price d period \<le> prorate_amount price days period)"
proof -
  have e: "prorate_amount price d period = (2 * (price * d) + period) div (2 * period)" if "0 \<le> d" "d \<le> period" for d
    using quotient_exact [OF assms(1,2) that] assms by (simp add: prorate_amount_def)
  have "(2 * (price * period) + period) div (2 * period) = price"
    using assms by (intro int_div_pos_eq [of _ _ _ period]) auto
  moreover have "prorate_amount price d period \<le> prorate_amount price days period" if "d \<in> {0..days}" for d
  proof -
    have "price * d \<le> price * days" using that assms by (intro mult_left_mono) auto
    then show ?thesis using e [of d] e [of days] that assms by (simp add: zdiv_mono1)
  qed
  ultimately show ?thesis
    using e [of days] e [of period] assms rounded_share_bounds [of price days period] by simp
qed

lemma prorate_amount_exact_witness:
  "prorate_amount 250000 10 30 = 83333 \<and> prorate_amount 250000 20 30 = 166667"
  using prorate_amount_exact [of 250000 10 30] prorate_amount_exact [of 250000 20 30] by simp

text \<open>with an integer tax rate the first bill charges the exact prorated price and its exact
  tax, never more than the full price and its tax.\<close>

theorem calculate_invoice_amount_exact:
  assumes "0 \<le> price" "price < 2 ^ 41" "0 \<le> k" "k \<le> 100" "0 \<le> days" "0 < period" "period \<le> 1000"
  shows "let (subtotal, tax) = calculate_invoice_amount price (of_int k) days period in
    0 \<le> subtotal \<and> subtotal \<le> price \<and> tax = (subtotal * k + 50) div 100 \<and> 0 \<le> tax \<and> tax \<le> subtotal
    \<and> subtotal = (if 0 < days \<and> days < period then (2 * (price * days) + period) div (2 * period) else price)"
proof -
  define sub where "sub = (if 0 < days \<and> days < period then (2 * (price * days) + period) div (2 * period) else price)"
  have s: "0 \<le> sub" "sub \<le> price" using rounded_share_bounds [of price days period] assms by (auto simp: sub_def)
  have c: "calculate_invoice_amount price (of_int k) days period = (sub, percent_of sub (of_int k))"
    using quotient_exact [of price days period] assms by (auto simp: calculate_invoice_amount_def sub_def Let_def)
  have "percent_of sub (of_int k) = (2 * (sub * k) + 100) div 200" using s assms by (intro percent_exact) auto
  also have "(2 * (sub * k) + 100) div 200 = (2 * (sub * k + 50)) div (2 * 100)" by simp
  also have "\<dots> = (sub * k + 50) div 100" by (rule div_mult_mult1) simp
  finally have t: "percent_of sub (of_int k) = (sub * k + 50) div 100" .
  have "(2 * (sub * k) + 100) div (2 * 100) = (sub * k + 50) div 100"
    using div_mult_mult1 [of 2 "sub * k + 50" 100] by simp
  then show ?thesis using rounded_share_bounds [of sub k 100] s assms c t by (simp add: sub_def [symmetric])
qed

lemma calculate_invoice_amount_exact_witness:
  "calculate_invoice_amount 150000 (of_int 11) 7 30 = (35000, 3850)"
proof -
  have "let (subtotal, tax) = calculate_invoice_amount 150000 (of_int 11) 7 30 in subtotal = 35000 \<and> tax = 3850"
    using calculate_invoice_amount_exact [of 150000 11 7 30] by (auto split: prod.splits)
  then show ?thesis by (auto split: prod.splits)
qed

text \<open>a late fee is never negative and is the exact integer percentage of what is owed.\<close>

theorem apply_late_fee_exact:
  assumes "amount < 2 ^ 41" "0 \<le> k" "k \<le> 100"
  shows "apply_late_fee amount (of_int k) = (if amount \<le> 0 \<or> k = 0 then 0 else (amount * k + 50) div 100)
    \<and> 0 \<le> apply_late_fee amount (of_int k) \<and> apply_late_fee amount (of_int k) \<le> max 0 amount"
proof (cases "amount \<le> 0 \<or> k = 0")
  case True
  then show ?thesis by (auto simp: apply_late_fee_def)
next
  case False
  then have "apply_late_fee amount (of_int k) = (2 * (amount * k) + 100) div 200"
    using assms percent_exact [of amount k] by (simp add: apply_late_fee_def)
  moreover have "(2 * (amount * k) + 100) div (2 * 100) = (amount * k + 50) div 100"
    using div_mult_mult1 [of 2 "amount * k + 50" 100] by simp
  ultimately show ?thesis using False rounded_share_bounds [of amount k 100] assms by auto
qed

lemma apply_late_fee_exact_witness: "apply_late_fee 123450 (of_int 5) = 6173"
  using apply_late_fee_exact [of 123450 5] by simp

text \<open>the days left of a cycle are between 0 and the cycle length, and 0 exactly when the cycle
  is over.\<close>

theorem remaining_days_bounds:
  assumes "0 < cycle_days"
  shows "0 \<le> remaining_days_until now u cycle_days \<and> remaining_days_until now u cycle_days \<le> cycle_days
    \<and> (remaining_days_until now u cycle_days = 0 \<longleftrightarrow> \<not> after u now)"
  using assms by (auto simp: remaining_days_until_def Let_def)

lemma remaining_days_bounds_witness:
  "let now = \<lparr>t_year = 2026, t_month = 3, t_day = 1, t_nanos = 0, t_zone = 0\<rparr>;
       u = \<lparr>t_year = 2026, t_month = 3, t_day = 11, t_nanos = 1, t_zone = 0\<rparr>
   in remaining_days_until u now 30 = 0 \<and> remaining_days_until now u 7 \<le> 7 \<and> remaining_days_until now u 7 \<noteq> 0"
proof -
  let ?now = "\<lparr>t_year = 2026, t_month = 3, t_day = 1, t_nanos = 0, t_zone = 0\<rparr>"
  let ?u = "\<lparr>t_year = 2026, t_month = 3, t_day = 11, t_nanos = 1, t_zone = 0\<rparr>"
  have "after ?u ?now \<and> \<not> after ?now ?u" by code_simp
  then show ?thesis using remaining_days_bounds [of 30 ?u ?now] remaining_days_bounds [of 7 ?now ?u] by simp
qed

end
