(* ===== verification/Journal.thy ===== *)
theory Journal
  imports Invoices "HOL-Library.Char_ord" "HOL-Library.List_Lexorder"
begin

text \<open>
  Double-entry bookkeeping: the writers of the journal (\<open>lookupAccountTx\<close> and
  \<open>postWalletJournalTx\<close> of store/wallet.go, \<open>PostJournalEntry\<close> and \<open>RecordPaymentJournal\<close> of
  store/operations.go, \<open>FindAccountByTypeOrCode\<close> and \<open>FindCashAndRevenueAccounts\<close> of
  store/extra_ops.go, \<open>CreateExpense\<close> of store/accounting.go) and the reports that read it
  (store/ledger.go).  The tenant's date (\<open>TenantNow\<close>) is the argument \<open>today\<close>, the server's
  clock the argument \<open>now\<close>.  Account codes compare by bytes, as under the C collation.
  Sums are unbounded integers: the totals of a tenant's books fit in 64 bits.
\<close>

section \<open>Accounts\<close>

definition account_matches :: "gid \<Rightarrow> string \<Rightarrow> string \<Rightarrow> account \<Rightarrow> bool" where
  "account_matches tenant typ code a \<longleftrightarrow>
     acc_tenant a = tenant \<and> acc_active a \<and> (to_lower (acc_type a) = to_lower typ \<or> acc_code a = code)"

text \<open>\<open>ORDER BY CASE WHEN best THEN 0 ELSE 1 END, code\<close>.\<close>

definition best_then_code :: "(account \<Rightarrow> bool) \<Rightarrow> account \<Rightarrow> account \<Rightarrow> bool" where
  "best_then_code best a b \<longleftrightarrow> (if best a = best b then acc_code a \<le> acc_code b else best a)"

definition pick_account :: "(account \<Rightarrow> bool) \<Rightarrow> account list \<Rightarrow> gid option" where
  "pick_account best rows = (case order_by (best_then_code best) rows of [] \<Rightarrow> None | a # _ \<Rightarrow> Some (acc_id a))"

text \<open>\<open>lookupAccountTx\<close> drops the error of its query and returns the nil id.\<close>

definition lookup_account_tx :: "gid \<Rightarrow> string \<Rightarrow> string \<Rightarrow> (db, gid) prog" where
  "lookup_account_tx tenant typ code =
     bind (attempt (query (\<lambda>s. pick_account (\<lambda>a. acc_code a = code)
        (filter (account_matches tenant typ code) (accounts s))))) (\<lambda>r.
     ret (case r of Inr (Some a) \<Rightarrow> a | _ \<Rightarrow> nil_id))"

definition find_account_by_type_or_code :: "gid \<Rightarrow> string \<Rightarrow> string \<Rightarrow> (db, gid) prog" where
  "find_account_by_type_or_code tenant typ code =
     bind (auto (query (\<lambda>s. pick_account (\<lambda>a. to_lower (acc_type a) = to_lower typ)
        (filter (account_matches tenant typ code) (accounts s))))) (\<lambda>r.
     case r of None \<Rightarrow> raise Not_found | Some a \<Rightarrow> ret a)"

definition or_nil :: "(db, gid) prog \<Rightarrow> (db, gid) prog" where
  "or_nil m = bind (attempt m) (\<lambda>r. ret (case r of Inl _ \<Rightarrow> nil_id | Inr a \<Rightarrow> a))"

definition find_cash_and_revenue_accounts :: "gid \<Rightarrow> (db, gid \<times> gid) prog" where
  "find_cash_and_revenue_accounts tenant =
     bind (or_nil (find_account_by_type_or_code tenant ''asset'' ''1110'')) (\<lambda>c1.
     bind (if c1 = nil_id then or_nil (find_account_by_type_or_code tenant ''cash'' ''1000'') else ret c1) (\<lambda>cash.
     bind (or_nil (find_account_by_type_or_code tenant ''revenue'' ''4110'')) (\<lambda>r1.
     bind (if r1 = nil_id then or_nil (find_account_by_type_or_code tenant ''income'' ''4000'') else ret r1) (\<lambda>rev.
     ret (cash, rev)))))"

section \<open>Writing the journal\<close>

definition opt_text :: "string \<Rightarrow> string option" where
  "opt_text s = (if trim_space s = [] then None else Some s)"

definition opt_id :: "gid option \<Rightarrow> gid option" where
  "opt_id x = (case x of None \<Rightarrow> None | Some i \<Rightarrow> if i = nil_id then None else Some i)"

definition insert_journal_entry :: "journal_entry \<Rightarrow> db \<Rightarrow> (gid \<times> db) option" where
  "insert_journal_entry e s =
     Some (next_id s, s\<lparr>next_id := Suc (next_id s), journal_entries := journal_entries s @ [e\<lparr>je_id := next_id s\<rparr>]\<rparr>)"

definition has_account :: "gid \<Rightarrow> db \<Rightarrow> bool" where
  "has_account a s \<longleftrightarrow> list_ex (\<lambda>r. acc_id r = a) (accounts s)"

definition insert_journal_lines :: "journal_line list \<Rightarrow> db \<Rightarrow> (unit \<times> db) option" where
  "insert_journal_lines ls s =
     (if list_all (\<lambda>l. has_account (jl_account l) s \<and> int64_ok (jl_debit l) \<and> int64_ok (jl_credit l)) ls
      then Some ((), s\<lparr>journal_lines := journal_lines s @ ls\<rparr>) else None)"

text \<open>The pair of lines every writer posts.\<close>

definition debit_credit :: "gid \<Rightarrow> gid \<Rightarrow> gid \<Rightarrow> gid \<Rightarrow> int \<Rightarrow> journal_line list" where
  "debit_credit tenant entry debit credit amount =
     [\<lparr>jl_tenant = tenant, jl_entry = entry, jl_account = debit, jl_debit = amount, jl_credit = 0\<rparr>,
      \<lparr>jl_tenant = tenant, jl_entry = entry, jl_account = credit, jl_debit = 0, jl_credit = amount\<rparr>]"

definition post_wallet_journal_tx ::
  "int \<Rightarrow> int \<Rightarrow> gid \<Rightarrow> string \<Rightarrow> string \<Rightarrow> string \<Rightarrow> gid option \<Rightarrow> gid \<Rightarrow> gid \<Rightarrow> int \<Rightarrow> (db, unit) prog" where
  "post_wallet_journal_tx now today tenant desc ref source_type source_id debit credit amount =
     (if amount \<le> 0 \<or> debit = nil_id \<or> credit = nil_id then ret ()
      else bind (exec (insert_journal_entry \<lparr>je_id = 0, je_tenant = tenant, je_date = today,
                   je_reference = opt_text ref, je_desc = desc, je_source_type = opt_text source_type,
                   je_source_id = opt_id source_id, je_created = now\<rparr>)) (\<lambda>entry.
           exec (insert_journal_lines (debit_credit tenant entry debit credit amount))))"

text \<open>A journal entry as the caller of \<open>PostJournalEntry\<close> gives it: lines of account, debit, credit.\<close>

definition post_journal_entry :: "journal_entry \<Rightarrow> (gid \<times> int \<times> int) list \<Rightarrow> (db, gid) prog" where
  "post_journal_entry e ls =
     tx (bind (exec (insert_journal_entry e)) (\<lambda>entry.
         bind (for_each ls (\<lambda>(acc, d, c). exec (insert_journal_lines
                 [\<lparr>jl_tenant = je_tenant e, jl_entry = entry, jl_account = acc, jl_debit = d, jl_credit = c\<rparr>]))) (\<lambda>_.
         ret entry)))"

definition record_payment_journal :: "int \<Rightarrow> int \<Rightarrow> gid \<Rightarrow> int \<Rightarrow> gid \<Rightarrow> gid \<Rightarrow> string \<Rightarrow> (db, gid) prog" where
  "record_payment_journal now today tenant amount cash revenue ref =
     post_journal_entry \<lparr>je_id = 0, je_tenant = tenant, je_date = today, je_reference = opt_text ref,
         je_desc = ''Pembayaran '' @ ref, je_source_type = opt_text ''payment'', je_source_id = None, je_created = now\<rparr>
       [(cash, amount, 0), (revenue, 0, amount)]"

definition insert_expense :: "expense \<Rightarrow> db \<Rightarrow> (gid \<times> db) option" where
  "insert_expense e s =
     (if int64_ok (exp_amount e)
      then Some (next_id s, s\<lparr>next_id := Suc (next_id s), expenses := expenses s @ [e\<lparr>exp_id := next_id s\<rparr>]\<rparr>)
      else None)"

definition first_account_of_type :: "gid \<Rightarrow> string \<Rightarrow> (db, gid) prog" where
  "first_account_of_type tenant typ =
     bind (attempt (query (\<lambda>s. pick_account (\<lambda>_. True)
        (filter (\<lambda>a. acc_tenant a = tenant \<and> acc_active a \<and> to_lower (acc_type a) = typ) (accounts s))))) (\<lambda>r.
     ret (case r of Inr (Some a) \<Rightarrow> a | _ \<Rightarrow> nil_id))"

text \<open>\<open>date\<close> is \<open>None\<close> where the caller left it empty.\<close>

definition create_expense ::
  "int \<Rightarrow> int \<Rightarrow> gid \<Rightarrow> int \<Rightarrow> string \<Rightarrow> string \<Rightarrow> int option \<Rightarrow> (db, unit) prog" where
  "create_expense now today tenant amount category0 desc date0 =
     (if amount \<le> 0 then raise (Rejected ''nominal beban harus > 0'')
      else
        let category = (if trim_space category0 = [] then ''ops'' else trim_space category0);
            date = (case date0 of None \<Rightarrow> today | Some d \<Rightarrow> d)
        in with_tenant
          (bind (first_account_of_type tenant ''expense'') (\<lambda>expense_acc.
           bind (first_account_of_type tenant ''asset'') (\<lambda>cash_acc.
           bind (exec (insert_expense \<lparr>exp_id = 0, exp_tenant = tenant,
                   exp_account = (if expense_acc = nil_id then None else Some expense_acc), exp_amount = amount,
                   exp_category = category, exp_desc = desc, exp_date = date, exp_created = now\<rparr>)) (\<lambda>eid.
           if expense_acc = nil_id \<or> cash_acc = nil_id then ret ()
           else bind (exec (insert_journal_entry \<lparr>je_id = 0, je_tenant = tenant, je_date = date,
                   je_reference = None, je_desc = ''Beban '' @ category, je_source_type = Some ''expense'',
                   je_source_id = Some eid, je_created = now\<rparr>)) (\<lambda>entry.
                exec (insert_journal_lines (debit_credit tenant entry expense_acc cash_acc amount))))))))"

section \<open>Balanced books\<close>

definition entry_debit :: "gid \<Rightarrow> gid \<Rightarrow> journal_line list \<Rightarrow> int" where
  "entry_debit t e ls = sum_where (\<lambda>l. jl_tenant l = t \<and> jl_entry l = e) jl_debit ls"

definition entry_credit :: "gid \<Rightarrow> gid \<Rightarrow> journal_line list \<Rightarrow> int" where
  "entry_credit t e ls = sum_where (\<lambda>l. jl_tenant l = t \<and> jl_entry l = e) jl_credit ls"

definition own_account :: "gid \<Rightarrow> gid \<Rightarrow> db \<Rightarrow> bool" where
  "own_account t a s \<longleftrightarrow> (\<exists>r\<in>set (accounts s). acc_id r = a \<and> acc_tenant r = t)"

definition has_entry :: "gid \<Rightarrow> db \<Rightarrow> bool" where
  "has_entry e s \<longleftrightarrow> (\<exists>r\<in>set (journal_entries s). je_id r = e)"

text \<open>The books while entry \<open>e\<close> of tenant \<open>t\<close> is being written: it is off balance by \<open>d\<close>.\<close>

definition books_off :: "gid \<Rightarrow> gid \<Rightarrow> int \<Rightarrow> db \<Rightarrow> bool" where
  "books_off t e d s \<longleftrightarrow>
     (\<forall>t' e'. entry_debit t' e' (journal_lines s)
        = entry_credit t' e' (journal_lines s) + (if t' = t \<and> e' = e then d else 0))
     \<and> (\<forall>l\<in>set (journal_lines s). own_account (jl_tenant l) (jl_account l) s \<and> has_entry (jl_entry l) s
          \<and> 0 \<le> jl_debit l \<and> 0 \<le> jl_credit l)
     \<and> distinct (map acc_id (accounts s)) \<and> (\<forall>a\<in>set (accounts s). acc_id a \<noteq> nil_id)
     \<and> fresh_keys je_id (journal_entries s) (next_id s)"

definition books_ok :: "db \<Rightarrow> bool" where
  "books_ok = books_off 0 0 0"

lemma books_off_0: "books_off t e 0 s = books_ok s"
  by (simp add: books_off_def books_ok_def)

lemma books_okD: "books_ok s \<Longrightarrow> entry_debit t e (journal_lines s) = entry_credit t e (journal_lines s)"
  by (simp add: books_off_def books_ok_def)

lemma books_frame:
  assumes "accounts s' = accounts s" "journal_lines s' = journal_lines s"
    "journal_entries s' = journal_entries s" "next_id s \<le> next_id s'"
  shows "books_off t e d s \<Longrightarrow> books_off t e d s'"
  using assms fresh_keys_mono by (auto simp: books_off_def own_account_def has_entry_def)

lemma stable_books_off: "stable (books_off t e d)"
  by (simp add: stable_def books_off_def own_account_def has_entry_def)

lemma stable_books_ok: "stable books_ok"
  unfolding books_ok_def by (rule stable_books_off)

lemma stable_own_account: "stable (own_account t a)"
  by (simp add: stable_def own_account_def)

lemma stable_has_entry: "stable (has_entry e)"
  by (simp add: stable_def has_entry_def)

definition nil_or_own :: "gid \<Rightarrow> gid \<Rightarrow> db \<Rightarrow> bool" where
  "nil_or_own t a s \<longleftrightarrow> a = nil_id \<or> own_account t a s"

lemma stable_nil_or_own: "stable (nil_or_own t a)"
  by (simp add: stable_def nil_or_own_def own_account_def)

lemma pick_account_set: "pick_account best rows = Some x \<Longrightarrow> \<exists>a\<in>set rows. acc_id a = x"
proof -
  assume "pick_account best rows = Some x"
  then obtain a as where "order_by (best_then_code best) rows = a # as" "acc_id a = x"
    by (auto simp: pick_account_def split: list.splits)
  then show ?thesis by (metis list.set_intros(1) set_order_by)
qed

lemma gives_attempt_query:
  assumes st: "stable P"
  shows "gives P (attempt (query g)) (\<lambda>r s. P s \<and> (\<forall>x. r = Inr x \<longrightarrow> x = g s))"
  unfolding gives_def
proof (intro allI impI)
  fix s x s' assume p: "P s" and e: "attempt (query g) s = (Inr x, s')"
  then have q: "query g s = (x, s')" by (auto simp: attempt_def split: prod.splits)
  have "P (snd (query g s))" using keeps_query [OF st, of g] p unfolding keeps_def by blast
  moreover have "y = g s'" if "x = Inr y" for y using query_Inr [of g s y s'] q that by auto
  ultimately show "P s' \<and> (\<forall>y. x = Inr y \<longrightarrow> y = g s')" using q by simp
qed

lemma picked_account:
  assumes r: "\<forall>x. r = Inr x \<longrightarrow> x = pick_account best (filter p (accounts s))"
    and p: "\<And>a. p a \<Longrightarrow> acc_tenant a = t"
  shows "nil_or_own t (case r of Inr (Some a) \<Rightarrow> a | _ \<Rightarrow> nil_id) s"
proof (cases "\<exists>a. r = Inr (Some a)")
  case True
  then obtain a where a: "r = Inr (Some a)" by blast
  then have "pick_account best (filter p (accounts s)) = Some a" using r by simp
  then obtain b where "b \<in> set (accounts s)" "p b" "acc_id b = a" by (auto dest!: pick_account_set)
  then show ?thesis using p a unfolding nil_or_own_def own_account_def by auto
qed (auto simp: nil_or_own_def split: sum.splits option.splits)

lemma lookup_account_tx_gives:
  assumes "stable P"
  shows "gives P (lookup_account_tx t typ code) (\<lambda>a s. P s \<and> nil_or_own t a s)"
  unfolding lookup_account_tx_def
  by (intro gives_bind [OF gives_attempt_query [OF assms]] gives_ret conjI
      picked_account [where p = "account_matches t typ code" and best = "\<lambda>a. acc_code a = code"])
    (auto simp: account_matches_def)

lemma first_account_of_type_gives:
  assumes "stable P"
  shows "gives P (first_account_of_type t typ) (\<lambda>a s. P s \<and> nil_or_own t a s)"
  unfolding first_account_of_type_def
  by (intro gives_bind [OF gives_attempt_query [OF assms]] gives_ret conjI
      picked_account [where p = "\<lambda>a. acc_tenant a = t \<and> acc_active a \<and> to_lower (acc_type a) = typ" and best = "\<lambda>_. True"]) auto

section \<open>Every writer keeps the books balanced\<close>

lemma insert_journal_entry_books:
  assumes "insert_journal_entry e s = Some (x, s')" and ok: "books_ok s"
  shows "books_off t x 0 s' \<and> has_entry x s' \<and> accounts s' = accounts s"
proof -
  have s': "x = next_id s" "s' = s\<lparr>next_id := Suc (next_id s), journal_entries := journal_entries s @ [e\<lparr>je_id := next_id s\<rparr>]\<rparr>"
    using assms(1) by (auto simp: insert_journal_entry_def)
  show ?thesis using ok unfolding books_ok_def books_off_def
    by (auto simp: s' has_entry_def own_account_def intro!: fresh_keys_append)
qed

lemma insert_journal_lines_books:
  assumes u: "insert_journal_lines ls s = Some (x, s')" and off: "books_off t e d s" and he: "has_entry e s"
    and ls: "\<And>l. l \<in> set ls \<Longrightarrow> jl_tenant l = t \<and> jl_entry l = e \<and> own_account t (jl_account l) s
      \<and> 0 \<le> jl_debit l \<and> 0 \<le> jl_credit l"
  shows "books_off t e (d + (\<Sum>l\<leftarrow>ls. jl_debit l) - (\<Sum>l\<leftarrow>ls. jl_credit l)) s' \<and> has_entry e s'
    \<and> accounts s' = accounts s"
proof -
  have s': "s' = s\<lparr>journal_lines := journal_lines s @ ls\<rparr>"
    using u by (auto simp: insert_journal_lines_def split: if_splits)
  have sums: "sum_where (\<lambda>l. jl_tenant l = t' \<and> jl_entry l = e') g ls
      = (if t' = t \<and> e' = e then (\<Sum>l\<leftarrow>ls. g l) else 0)" for t' e' and g :: "journal_line \<Rightarrow> int"
  proof -
    have "jl_tenant l = t" "jl_entry l = e" if "l \<in> set ls" for l using ls that by blast+
    then have "sum_where (\<lambda>l. jl_tenant l = t' \<and> jl_entry l = e') g ls = sum_where (\<lambda>_. t' = t \<and> e' = e) g ls"
      by (intro sum_where_cong) (blast, rule refl)
    also have "\<dots> = (if t' = t \<and> e' = e then (\<Sum>l\<leftarrow>ls. g l) else 0)"
      by (cases "t' = t \<and> e' = e") (simp_all only: sum_where_def if_True if_False, simp_all)
    finally show ?thesis .
  qed
  have same: "own_account t' a s' = own_account t' a s" "has_entry x s' = has_entry x s" for t' a x
    by (simp_all add: s' own_account_def has_entry_def)
  have lines: "journal_lines s' = journal_lines s @ ls" by (simp add: s')
  have "entry_debit t' e' (journal_lines s') = entry_credit t' e' (journal_lines s')
      + (if t' = t \<and> e' = e then d + (\<Sum>l\<leftarrow>ls. jl_debit l) - (\<Sum>l\<leftarrow>ls. jl_credit l) else 0)" for t' e'
  proof -
    have "entry_debit t' e' (journal_lines s) = entry_credit t' e' (journal_lines s) + (if t' = t \<and> e' = e then d else 0)"
      using off by (simp add: books_off_def)
    then show ?thesis by (simp add: lines entry_debit_def entry_credit_def sums)
  qed
  moreover have "\<forall>l\<in>set (journal_lines s'). own_account (jl_tenant l) (jl_account l) s' \<and> has_entry (jl_entry l) s'
      \<and> 0 \<le> jl_debit l \<and> 0 \<le> jl_credit l"
    using off he ls unfolding books_off_def lines same by auto
  moreover have "accounts s' = accounts s" "journal_entries s' = journal_entries s" "next_id s' = next_id s"
    by (simp_all add: s')
  ultimately show ?thesis using off he unfolding books_off_def same by simp
qed

lemma debit_credit_books:
  assumes "insert_journal_lines (debit_credit t e debit credit amount) s = Some (x, s')"
    and "books_off t e 0 s" "has_entry e s" "own_account t debit s" "own_account t credit s" "0 \<le> amount"
  shows "books_ok s'"
proof -
  let ?ls = "debit_credit t e debit credit amount"
  have "jl_tenant l = t \<and> jl_entry l = e \<and> own_account t (jl_account l) s
      \<and> 0 \<le> jl_debit l \<and> 0 \<le> jl_credit l" if "l \<in> set ?ls" for l
    using that assms(4-6) by (auto simp: debit_credit_def)
  from insert_journal_lines_books [OF assms(1-3) this]
  have "books_off t e (0 + (\<Sum>l\<leftarrow>?ls. jl_debit l) - (\<Sum>l\<leftarrow>?ls. jl_credit l)) s'" by blast
  then show ?thesis by (simp add: debit_credit_def books_off_0)
qed

text \<open>The steps of a posting, from two accounts of the tenant.\<close>

lemma posting_gives:
  "0 \<le> amount \<Longrightarrow> gives (\<lambda>s. books_ok s \<and> (own_account t debit s \<and> own_account t credit s))
     (bind (exec (insert_journal_entry e)) (\<lambda>entry. exec (insert_journal_lines (debit_credit t entry debit credit amount))))
     (\<lambda>_. books_ok)"
proof (rule gives_bind)
  assume pos: "0 \<le> amount"
  let ?A = "\<lambda>s. own_account t debit s \<and> own_account t credit s"
  have stA: "stable ?A" by (intro stable_conj stable_own_account)
  have fr: "?A s \<Longrightarrow> accounts s' = accounts s \<Longrightarrow> ?A s'" for s s' by (simp add: own_account_def)
  have ins: "(books_off t x 0 s' \<and> has_entry x s') \<and> ?A s'"
    if "books_ok s \<and> ?A s" "insert_journal_entry e s = Some (x, s')" for s x s'
    using insert_journal_entry_books [OF that(2), of t] that(1) fr [of s s'] by blast
  show "gives (\<lambda>s. books_ok s \<and> ?A s) (exec (insert_journal_entry e))
      (\<lambda>x s. (books_off t x 0 s \<and> has_entry x s) \<and> ?A s)"
    by (rule gives_exec [OF stable_conj [OF stable_books_ok stA] ins])
  have lines: "books_ok s'" if "(books_off t x 0 s \<and> has_entry x s) \<and> ?A s"
    "insert_journal_lines (debit_credit t x debit credit amount) s = Some (y, s')" for x s y s'
    using debit_credit_books [OF that(2)] that(1) pos by blast
  show "gives (\<lambda>s. (books_off t x 0 s \<and> has_entry x s) \<and> ?A s)
      (exec (insert_journal_lines (debit_credit t x debit credit amount))) (\<lambda>_. books_ok)" for x
    by (rule gives_exec [OF stable_conj [OF stable_conj [OF stable_books_off stable_has_entry] stA] lines])
qed

lemma post_wallet_journal_tx_gives:
  "gives (\<lambda>s. books_ok s \<and> nil_or_own t debit s \<and> nil_or_own t credit s)
     (post_wallet_journal_tx now today t desc ref st sid debit credit amount) (\<lambda>_. books_ok)"
proof (cases "amount \<le> 0 \<or> debit = nil_id \<or> credit = nil_id")
  case True
  then show ?thesis by (auto simp: post_wallet_journal_tx_def intro: gives_ret)
next
  case False
  then show ?thesis unfolding post_wallet_journal_tx_def
    by (simp only: if_False) (rule gives_mono [OF posting_gives], auto simp: nil_or_own_def)
qed

text \<open>\<open>PostJournalEntry\<close> keeps the books balanced when its lines balance and are posted to accounts
  of the tenant; the code does not check either.\<close>

definition writing :: "gid \<Rightarrow> gid \<Rightarrow> (gid \<times> int \<times> int) list \<Rightarrow> int \<Rightarrow> db \<Rightarrow> bool" where
  "writing t e ls d s \<longleftrightarrow> (books_off t e d s \<and> has_entry e s) \<and> (\<forall>(a, x, y)\<in>set ls. own_account t a s \<and> 0 \<le> x \<and> 0 \<le> y)"

lemma stable_writing: "stable (writing t e ls d)"
  by (simp add: stable_def writing_def books_off_def own_account_def has_entry_def)

lemma write_lines_gives:
  "gives (writing t e ls d)
     (for_each ls (\<lambda>(acc, x, y). exec (insert_journal_lines
        [\<lparr>jl_tenant = t, jl_entry = e, jl_account = acc, jl_debit = x, jl_credit = y\<rparr>])))
     (\<lambda>_. books_off t e (d + (\<Sum>(_, x, _)\<leftarrow>ls. x) - (\<Sum>(_, _, y)\<leftarrow>ls. y)))"
proof (induction ls arbitrary: d)
  case Nil
  show ?case by (auto simp: writing_def intro: gives_ret)
next
  case (Cons l ls)
  obtain acc x y where l: "l = (acc, x, y)" by (cases l) auto
  let ?line = "\<lparr>jl_tenant = t, jl_entry = e, jl_account = acc, jl_debit = x, jl_credit = y\<rparr>"
  have step: "writing t e ls (d + x - y) s'"
    if w: "writing t e (l # ls) d s" and u: "insert_journal_lines [?line] s = Some (u, s')" for s u s'
  proof -
    have b: "books_off t e (d + x - y) s' \<and> has_entry e s' \<and> accounts s' = accounts s"
      using insert_journal_lines_books [OF u, of t e d] w by (auto simp: writing_def l)
    then have "own_account t a s' = own_account t a s" for a by (simp add: own_account_def)
    then show ?thesis using w b unfolding writing_def by simp
  qed
  have "gives (writing t e (l # ls) d) (exec (insert_journal_lines [?line])) (\<lambda>_. writing t e ls (d + x - y))"
    by (rule gives_exec [OF stable_writing step])
  moreover note Cons.IH [of "d + x - y"]
  ultimately have "gives (writing t e (l # ls) d)
      (bind (exec (insert_journal_lines [?line])) (\<lambda>_. for_each ls (\<lambda>(acc, x, y). exec (insert_journal_lines
        [\<lparr>jl_tenant = t, jl_entry = e, jl_account = acc, jl_debit = x, jl_credit = y\<rparr>]))))
      (\<lambda>_. books_off t e (d + x - y + (\<Sum>(_, x, _)\<leftarrow>ls. x) - (\<Sum>(_, _, y)\<leftarrow>ls. y)))"
    by (rule gives_bind)
  moreover have "d + x - y + (\<Sum>(_, x, _)\<leftarrow>ls. x) - (\<Sum>(_, _, y)\<leftarrow>ls. y)
      = d + (\<Sum>(_, x, _)\<leftarrow>l # ls. x) - (\<Sum>(_, _, y)\<leftarrow>l # ls. y)" by (simp add: l)
  ultimately show ?case by (simp only: for_each.simps l prod.case)
qed

lemma post_journal_entry_safe:
  assumes "(\<Sum>(_, x, _)\<leftarrow>ls. x) = (\<Sum>(_, _, y)\<leftarrow>ls. y)"
  shows "safe (\<lambda>s. books_ok s \<and> (\<forall>(a, x, y)\<in>set ls. own_account (je_tenant e) a s \<and> 0 \<le> x \<and> 0 \<le> y)) books_ok (post_journal_entry e ls)"
proof -
  let ?A = "\<lambda>s. \<forall>(a, x, y)\<in>set ls. own_account (je_tenant e) a s \<and> 0 \<le> x \<and> 0 \<le> y"
  have stA: "stable ?A" by (simp add: stable_def own_account_def)
  have ins: "writing (je_tenant e) x ls 0 s'"
    if "books_ok s \<and> ?A s" "insert_journal_entry e s = Some (x, s')" for s x s'
    using insert_journal_entry_books [OF that(2), of "je_tenant e"] that(1)
    by (auto simp: writing_def own_account_def)
  let ?put = "\<lambda>entry. for_each ls (\<lambda>(acc, d, c). exec (insert_journal_lines
                 [\<lparr>jl_tenant = je_tenant e, jl_entry = entry, jl_account = acc, jl_debit = d, jl_credit = c\<rparr>]))"
  have g1: "gives (\<lambda>s. books_ok s \<and> ?A s) (exec (insert_journal_entry e)) (\<lambda>x. writing (je_tenant e) x ls 0)"
    by (rule gives_exec [OF stable_conj [OF stable_books_ok stA] ins])
  have g2: "gives (writing (je_tenant e) x ls 0) (bind (?put x) (\<lambda>_. ret x)) (\<lambda>_. books_ok)" for x
    by (rule gives_bind [OF write_lines_gives]) (rule gives_ret, simp add: assms books_off_0)
  have "gives (\<lambda>s. books_ok s \<and> ?A s) (bind (exec (insert_journal_entry e)) (\<lambda>x. bind (?put x) (\<lambda>_. ret x))) (\<lambda>_. books_ok)"
    by (rule gives_bind [OF g1 g2])
  then show ?thesis unfolding post_journal_entry_def
    by (intro safe_tx stable_conj stable_books_ok stA) auto
qed

lemma record_payment_journal_safe:
  assumes "0 \<le> amount"
  shows "safe (\<lambda>s. books_ok s \<and> own_account t cash s \<and> own_account t revenue s) books_ok
     (record_payment_journal now today t amount cash revenue ref)"
proof -
  have "safe (\<lambda>s. books_ok s \<and> own_account (je_tenant e) cash s \<and> own_account (je_tenant e) revenue s) books_ok
     (post_journal_entry e [(cash, amount, 0), (revenue, 0, amount)])" for e
    using post_journal_entry_safe [of "[(cash, amount, 0), (revenue, 0, amount)]" e] assms by simp
  from this [of "\<lparr>je_id = 0, je_tenant = t, je_date = today, je_reference = opt_text ref,
         je_desc = ''Pembayaran '' @ ref, je_source_type = opt_text ''payment'', je_source_id = None, je_created = now\<rparr>"]
  show ?thesis unfolding record_payment_journal_def by (simp only: journal_entry.simps)
qed

lemma create_expense_books_ok: "keeps books_ok (create_expense now today t amount category desc date)"
proof (cases "amount \<le> 0")
  case True
  then show ?thesis by (simp add: create_expense_def keeps_raise)
next
  case False
  have ins: "(books_ok s' \<and> (nil_or_own t a s' \<and> nil_or_own t b s'))"
    if "books_ok s \<and> (nil_or_own t a s \<and> nil_or_own t b s)" "insert_expense e s = Some (x, s')" for s x s' a b e
  proof -
    have s': "s' = s\<lparr>next_id := Suc (next_id s), expenses := expenses s @ [e\<lparr>exp_id := next_id s\<rparr>]\<rparr>"
      using that(2) by (auto simp: insert_expense_def split: if_splits)
    have "books_ok s'" unfolding books_ok_def
      by (rule books_frame [OF _ _ _ _ that(1) [THEN conjunct1, unfolded books_ok_def]]) (simp_all add: s')
    then show ?thesis using that(1) by (simp add: s' nil_or_own_def own_account_def)
  qed
  have st: "stable (\<lambda>s. books_ok s \<and> (nil_or_own t a s \<and> nil_or_own t b s))" for a b
    by (intro stable_conj stable_books_ok stable_nil_or_own)
  have g0: "gives books_ok (first_account_of_type t x) (\<lambda>a s. books_ok s \<and> nil_or_own t a s)" for x
    by (rule first_account_of_type_gives [OF stable_books_ok])
  have g1: "gives (\<lambda>s. books_ok s \<and> nil_or_own t a s) (first_account_of_type t x)
      (\<lambda>b s. books_ok s \<and> (nil_or_own t a s \<and> nil_or_own t b s))" for a x
    using first_account_of_type_gives [OF stable_conj [OF stable_books_ok stable_nil_or_own]]
    by (rule gives_mono) auto
  have g2: "gives (\<lambda>s. books_ok s \<and> (nil_or_own t a s \<and> nil_or_own t b s)) (exec (insert_expense e))
      (\<lambda>_ s. books_ok s \<and> (nil_or_own t a s \<and> nil_or_own t b s))" for a b e
    by (rule gives_exec [OF st ins])
  have g3: "gives (\<lambda>s. books_ok s \<and> (nil_or_own t a s \<and> nil_or_own t b s))
      (if a = nil_id \<or> b = nil_id then ret ()
       else bind (exec (insert_journal_entry e)) (\<lambda>entry. exec (insert_journal_lines (debit_credit t entry a b amount))))
      (\<lambda>_. books_ok)" for a b e
  proof (cases "a = nil_id \<or> b = nil_id")
    case True
    then show ?thesis by (auto intro: gives_ret)
  next
    case nn: False
    have "0 \<le> amount" using False by simp
    with nn show ?thesis by (simp only: if_False) (rule gives_mono [OF posting_gives], auto simp: nil_or_own_def)
  qed
  show ?thesis
    using False unfolding create_expense_def Let_def
    by (simp only: if_False)
      (intro keeps_with_tenant stable_books_ok gives_bind [OF g0] gives_bind [OF g1] gives_bind [OF g2] g3)
qed

end
