(* ===== verification/Ledger.thy ===== *)
theory Ledger
  imports Journal
begin

text \<open>
  The reports of \<open>store/ledger.go\<close>: trial balance, profit and loss, balance sheet, general
  journal, account ledger; and of \<open>store/accounting.go\<close>: receivables by age and the cash flow.
  The lemmas show that the reports of balanced books balance, and that the account ledger
  and the trial balance agree.
\<close>

section \<open>Definitions\<close>

definition normal_balance :: "string \<Rightarrow> int \<Rightarrow> int \<Rightarrow> int" where
  "normal_balance account_type debit credit =
     (let t = to_lower (trim_space account_type) in
      if t = ''asset'' \<or> t = ''expense'' then debit - credit else credit - debit)"

text \<open>\<open>normalizeRange\<close> on dates; \<open>None\<close> is Go's zero time.\<close>

definition normalize_range :: "int \<Rightarrow> int option \<Rightarrow> int option \<Rightarrow> int \<times> int" where
  "normalize_range today from to =
     (let start = (case from of None \<Rightarrow> day_number (fst (date_of_day today)) 1 1 | Some d \<Rightarrow> d);
          stop = (case to of None \<Rightarrow> today | Some d \<Rightarrow> d)
      in if stop < start then (stop, start) else (start, stop))"

record balance_row =
  br_account :: gid
  br_code :: string
  br_name :: string
  br_type :: string
  br_debit :: int
  br_credit :: int
  br_balance :: int

text \<open>Whether the entry of a line is dated in a range (the join with \<open>journal_entries\<close>).\<close>

definition dated :: "db \<Rightarrow> (int \<Rightarrow> bool) \<Rightarrow> journal_line \<Rightarrow> bool" where
  "dated s p l = (case first_row (\<lambda>e. je_id e = jl_entry l) (journal_entries s) of None \<Rightarrow> False | Some e \<Rightarrow> p (je_date e))"

definition account_sum :: "gid \<Rightarrow> (int \<Rightarrow> bool) \<Rightarrow> gid \<Rightarrow> (journal_line \<Rightarrow> int) \<Rightarrow> db \<Rightarrow> int" where
  "account_sum tenant p acc g s =
     sum_where (\<lambda>l. jl_tenant l = tenant \<and> jl_account l = acc \<and> dated s p l) g (journal_lines s)"

definition balance_row_of :: "gid \<Rightarrow> (int \<Rightarrow> bool) \<Rightarrow> db \<Rightarrow> account \<Rightarrow> balance_row" where
  "balance_row_of tenant p s a =
     (let d = account_sum tenant p (acc_id a) jl_debit s; c = account_sum tenant p (acc_id a) jl_credit s
      in \<lparr>br_account = acc_id a, br_code = acc_code a, br_name = acc_name a, br_type = acc_type a,
          br_debit = d, br_credit = c, br_balance = normal_balance (acc_type a) d c\<rparr>)"

definition dates_within :: "int \<Rightarrow> int \<Rightarrow> int \<Rightarrow> bool" where
  "dates_within lo hi d \<longleftrightarrow> lo \<le> d \<and> d \<le> hi"

definition account_balances :: "int \<Rightarrow> gid \<Rightarrow> int option \<Rightarrow> int option \<Rightarrow> (db, balance_row list) prog" where
  "account_balances today tenant from to =
     bind set_tenant (\<lambda>_.
     case normalize_range today from to of (start, stop) \<Rightarrow>
     auto (query (\<lambda>s. map (balance_row_of tenant (dates_within start stop) s)
       (order_by (\<lambda>a b. acc_code a \<le> acc_code b) (filter (\<lambda>a. acc_tenant a = tenant) (accounts s))))))"

text \<open>The map from account to the totals before a date; a missing account reads as zeros.\<close>

definition account_openings :: "gid \<Rightarrow> int \<Rightarrow> (db, gid \<Rightarrow> int \<times> int) prog" where
  "account_openings tenant before_day =
     bind set_tenant (\<lambda>_.
     auto (query (\<lambda>s acc. (account_sum tenant (\<lambda>d. d < before_day) acc jl_debit s,
                            account_sum tenant (\<lambda>d. d < before_day) acc jl_credit s))))"

record trial_report =
  tb_from :: int
  tb_to :: int
  tb_rows :: "balance_row list"
  tb_debit :: int
  tb_credit :: int

fun trial_rows :: "(gid \<Rightarrow> int \<times> int) \<Rightarrow> balance_row list \<Rightarrow> trial_report \<Rightarrow> trial_report" where
  "trial_rows openings [] tb = tb"
| "trial_rows openings (r # rs) tb =
     (let op = openings (br_account r);
          total_debit = br_debit r + fst op; total_credit = br_credit r + snd op
      in if total_debit = 0 \<and> total_credit = 0 then trial_rows openings rs tb
         else trial_rows openings rs (tb\<lparr>tb_debit := tb_debit tb + br_debit r, tb_credit := tb_credit tb + br_credit r,
                tb_rows := tb_rows tb @ [r\<lparr>br_balance := normal_balance (br_type r) total_debit total_credit\<rparr>]\<rparr>))"

definition trial_balance :: "int \<Rightarrow> gid \<Rightarrow> int option \<Rightarrow> int option \<Rightarrow> (db, trial_report) prog" where
  "trial_balance today tenant from to =
     (case normalize_range today from to of (start, stop) \<Rightarrow>
      bind (account_balances today tenant (Some start) (Some stop)) (\<lambda>rows.
      bind (account_openings tenant start) (\<lambda>openings.
      ret (trial_rows openings rows \<lparr>tb_from = start, tb_to = stop, tb_rows = [], tb_debit = 0, tb_credit = 0\<rparr>))))"

type_synonym report_line = "string \<times> string \<times> int"

record pnl_report =
  pl_revenue :: int
  pl_expense :: int
  pl_profit :: int
  pl_revenue_lines :: "report_line list"
  pl_expense_lines :: "report_line list"

fun pnl_rows :: "balance_row list \<Rightarrow> pnl_report \<Rightarrow> pnl_report" where
  "pnl_rows [] rep = rep"
| "pnl_rows (r # rs) rep =
     (if br_debit r = 0 \<and> br_credit r = 0 then pnl_rows rs rep
      else let t = to_lower (br_type r); line = (br_code r, br_name r, br_balance r) in
        pnl_rows rs
         (if t = ''revenue'' \<or> t = ''income''
          then rep\<lparr>pl_revenue := pl_revenue rep + br_balance r, pl_revenue_lines := pl_revenue_lines rep @ [line]\<rparr>
          else if t = ''expense''
          then rep\<lparr>pl_expense := pl_expense rep + br_balance r, pl_expense_lines := pl_expense_lines rep @ [line]\<rparr>
          else rep))"

definition profit_and_loss :: "int \<Rightarrow> gid \<Rightarrow> int option \<Rightarrow> int option \<Rightarrow> (db, pnl_report) prog" where
  "profit_and_loss today tenant from to =
     (case normalize_range today from to of (start, stop) \<Rightarrow>
      bind (account_balances today tenant (Some start) (Some stop)) (\<lambda>rows.
      let rep = pnl_rows rows \<lparr>pl_revenue = 0, pl_expense = 0, pl_profit = 0, pl_revenue_lines = [], pl_expense_lines = []\<rparr>
      in ret (rep\<lparr>pl_profit := pl_revenue rep - pl_expense rep\<rparr>)))"

record sheet_report =
  bs_assets :: "report_line list"
  bs_liabilities :: "report_line list"
  bs_equity :: "report_line list"
  bs_total_assets :: int
  bs_total_liabilities :: int
  bs_total_equity :: int
  bs_earnings :: int
  bs_total :: int
  bs_balanced :: bool

fun sheet_rows :: "balance_row list \<Rightarrow> sheet_report \<Rightarrow> sheet_report" where
  "sheet_rows [] rep = rep"
| "sheet_rows (r # rs) rep =
     (if br_debit r = 0 \<and> br_credit r = 0 then sheet_rows rs rep
      else let t = to_lower (br_type r); line = (br_code r, br_name r, br_balance r) in
        sheet_rows rs
         (if t = ''asset'' then rep\<lparr>bs_assets := bs_assets rep @ [line], bs_total_assets := bs_total_assets rep + br_balance r\<rparr>
          else if t = ''liability''
          then rep\<lparr>bs_liabilities := bs_liabilities rep @ [line], bs_total_liabilities := bs_total_liabilities rep + br_balance r\<rparr>
          else if t = ''equity'' then rep\<lparr>bs_equity := bs_equity rep @ [line], bs_total_equity := bs_total_equity rep + br_balance r\<rparr>
          else if t = ''revenue'' \<or> t = ''income'' then rep\<lparr>bs_earnings := bs_earnings rep + br_balance r\<rparr>
          else if t = ''expense'' then rep\<lparr>bs_earnings := bs_earnings rep - br_balance r\<rparr>
          else rep))"

definition books_start :: int where "books_start = day_number 1800 1 1"

definition balance_sheet :: "int \<Rightarrow> gid \<Rightarrow> int option \<Rightarrow> int option \<Rightarrow> (db, sheet_report) prog" where
  "balance_sheet today tenant from to =
     (case normalize_range today from to of (_, stop) \<Rightarrow>
      bind (account_balances today tenant (Some books_start) (Some stop)) (\<lambda>rows.
      let rep = sheet_rows rows \<lparr>bs_assets = [], bs_liabilities = [], bs_equity = [], bs_total_assets = 0,
                  bs_total_liabilities = 0, bs_total_equity = 0, bs_earnings = 0, bs_total = 0, bs_balanced = False\<rparr>;
          total = bs_total_liabilities rep + bs_total_equity rep + bs_earnings rep
      in ret (rep\<lparr>bs_total := total, bs_balanced := (bs_total_assets rep = total)\<rparr>)))"

record ledger_line =
  ll_entry :: gid
  ll_date :: int
  ll_reference :: string
  ll_desc :: string
  ll_debit :: int
  ll_credit :: int
  ll_balance :: int

record ledger_report =
  lr_account :: account
  lr_from :: int
  lr_to :: int
  lr_opening :: int
  lr_lines :: "ledger_line list"
  lr_debit :: int
  lr_credit :: int
  lr_closing :: int

definition text_or_empty :: "string option \<Rightarrow> string" where
  "text_or_empty x = (case x of None \<Rightarrow> [] | Some t \<Rightarrow> t)"

text \<open>A line joined with its entry.\<close>

definition joined_lines :: "gid \<Rightarrow> gid \<Rightarrow> (int \<Rightarrow> bool) \<Rightarrow> db \<Rightarrow> (journal_line \<times> journal_entry) list" where
  "joined_lines tenant acc p s =
     concat (map (\<lambda>l. case first_row (\<lambda>e. je_id e = jl_entry l) (journal_entries s) of
                        None \<Rightarrow> []
                      | Some e \<Rightarrow> if jl_tenant l = tenant \<and> jl_account l = acc \<and> p (je_date e) then [(l, e)] else [])
        (journal_lines s))"

definition by_date_created :: "journal_line \<times> journal_entry \<Rightarrow> journal_line \<times> journal_entry \<Rightarrow> bool" where
  "by_date_created a b \<longleftrightarrow>
     (if je_date (snd a) = je_date (snd b) then je_created (snd a) \<le> je_created (snd b)
      else je_date (snd a) < je_date (snd b))"

fun ledger_rows :: "string \<Rightarrow> int \<Rightarrow> (journal_line \<times> journal_entry) list \<Rightarrow> ledger_report \<Rightarrow> ledger_report" where
  "ledger_rows ty balance [] rep = rep\<lparr>lr_closing := balance\<rparr>"
| "ledger_rows ty balance ((l, e) # rows) rep =
     (let balance' = balance + normal_balance ty (jl_debit l) (jl_credit l) in
      ledger_rows ty balance' rows (rep\<lparr>lr_debit := lr_debit rep + jl_debit l, lr_credit := lr_credit rep + jl_credit l,
        lr_lines := lr_lines rep @ [\<lparr>ll_entry = je_id e, ll_date = je_date e, ll_reference = text_or_empty (je_reference e),
          ll_desc = je_desc e, ll_debit = jl_debit l, ll_credit = jl_credit l, ll_balance = balance'\<rparr>]\<rparr>))"

definition account_ledger :: "int \<Rightarrow> gid \<Rightarrow> gid \<Rightarrow> int option \<Rightarrow> int option \<Rightarrow> (db, ledger_report) prog" where
  "account_ledger today tenant acc from to =
     bind set_tenant (\<lambda>_.
     case normalize_range today from to of (start, stop) \<Rightarrow>
     bind (auto (query (\<lambda>s. first_row (\<lambda>a. acc_tenant a = tenant \<and> acc_id a = acc) (accounts s)))) (\<lambda>row.
     case row of None \<Rightarrow> raise Db_error | Some a \<Rightarrow>
     bind (attempt (auto (query (\<lambda>s. (account_sum tenant (\<lambda>d. d < start) acc jl_debit s,
                                       account_sum tenant (\<lambda>d. d < start) acc jl_credit s))))) (\<lambda>r.
     let (o_debit, o_credit) = (case r of Inr x \<Rightarrow> x | Inl _ \<Rightarrow> (0, 0));
         opening = normal_balance (acc_type a) o_debit o_credit
     in bind (auto (query (\<lambda>s. order_by by_date_created (joined_lines tenant acc (dates_within start stop) s)))) (\<lambda>rows.
        ret (ledger_rows (acc_type a) opening rows \<lparr>lr_account = a, lr_from = start, lr_to = stop, lr_opening = opening,
               lr_lines = [], lr_debit = 0, lr_credit = 0, lr_closing = 0\<rparr>)))))"

record journal_line_view =
  lv_account :: account
  lv_debit :: int
  lv_credit :: int

record journal_view =
  jv_entry :: journal_entry
  jv_debit :: int
  jv_credit :: int
  jv_lines :: "journal_line_view list"

text \<open>\<open>journalLinesForEntries\<close>: the lines of some entries joined with their accounts, the largest
  debit first.\<close>

definition journal_lines_for_entries :: "gid \<Rightarrow> gid list \<Rightarrow> (db, (gid \<times> journal_line_view) list) prog" where
  "journal_lines_for_entries tenant ids =
     auto (query (\<lambda>s. order_by (\<lambda>a b. lv_debit (snd b) \<le> lv_debit (snd a))
       (concat (map (\<lambda>l. case first_row (\<lambda>a. acc_id a = jl_account l) (accounts s) of
            None \<Rightarrow> []
          | Some a \<Rightarrow> [(jl_entry l, \<lparr>lv_account = a, lv_debit = jl_debit l, lv_credit = jl_credit l\<rparr>)])
          (filter (\<lambda>l. jl_tenant l = tenant \<and> jl_entry l \<in> set ids) (journal_lines s))))))"

definition attach_line :: "journal_view list \<Rightarrow> gid \<times> journal_line_view \<Rightarrow> journal_view list" where
  "attach_line vs vl =
     map (\<lambda>v. if je_id (jv_entry v) = fst vl
              then v\<lparr>jv_lines := jv_lines v @ [snd vl], jv_debit := jv_debit v + lv_debit (snd vl),
                     jv_credit := jv_credit v + lv_credit (snd vl)\<rparr> else v) vs"

definition journal_filter :: "gid \<Rightarrow> int \<Rightarrow> int \<Rightarrow> gid option \<Rightarrow> string \<Rightarrow> db \<Rightarrow> journal_entry \<Rightarrow> bool" where
  "journal_filter tenant start stop acc search s e =
     (let q = trim_space search; pat = ''%'' @ q @ ''%'' in
      je_tenant e = tenant \<and> start \<le> je_date e \<and> je_date e \<le> stop
      \<and> (case opt_id acc of None \<Rightarrow> True
         | Some a \<Rightarrow> list_ex (\<lambda>l. jl_entry l = je_id e \<and> jl_account l = a) (journal_lines s))
      \<and> (q = [] \<or> ilike (je_desc e) pat \<or> ilike (text_or_empty (je_reference e)) pat))"

definition newest_entry :: "journal_entry \<Rightarrow> journal_entry \<Rightarrow> bool" where
  "newest_entry a b \<longleftrightarrow>
     (if je_date a = je_date b then je_created b \<le> je_created a else je_date b < je_date a)"

definition general_journal ::
  "int \<Rightarrow> gid \<Rightarrow> int option \<Rightarrow> int option \<Rightarrow> gid option \<Rightarrow> string \<Rightarrow> int \<Rightarrow> int \<Rightarrow> (db, journal_view list \<times> int) prog" where
  "general_journal today tenant from to acc search limit0 offset =
     bind set_tenant (\<lambda>_.
     case normalize_range today from to of (start, stop) \<Rightarrow>
     let limit = (if limit0 \<le> 0 then 50 else limit0) in
     bind (auto (query (\<lambda>s. int (length (filter (journal_filter tenant start stop acc search s) (journal_entries s)))))) (\<lambda>total.
     bind (auto (page_query limit offset (\<lambda>s. order_by newest_entry
        (filter (journal_filter tenant start stop acc search s) (journal_entries s))))) (\<lambda>rows.
     let views = map (\<lambda>e. \<lparr>jv_entry = e, jv_debit = 0, jv_credit = 0, jv_lines = []\<rparr>) rows in
     if rows = [] then ret (views, total)
     else bind (journal_lines_for_entries tenant (map je_id rows)) (\<lambda>lines.
          ret (foldl attach_line views lines, total)))))"

section \<open>Receivables and cash flow\<close>

text \<open>The buckets \<open>current\<close>, \<open>d30\<close>, \<open>d60\<close>, \<open>d90\<close> of \<open>AgingReceivable\<close>.\<close>

definition aging_bucket :: "int \<Rightarrow> int \<Rightarrow> string" where
  "aging_bucket today due =
     (if today \<le> due then ''current'' else if today - 30 \<le> due then ''d30''
      else if today - 60 \<le> due then ''d60'' else ''d90'')"

definition receivable :: "gid \<Rightarrow> invoice \<Rightarrow> bool" where
  "receivable tenant i \<longleftrightarrow> inv_tenant i = tenant \<and> live i \<and> unpaid_status (inv_status i)"

definition aging_receivable :: "int \<Rightarrow> gid \<Rightarrow> (db, (string \<times> int) list) prog" where
  "aging_receivable today tenant =
     auto (query (\<lambda>s. map (\<lambda>b. (b, sum_where (\<lambda>i. receivable tenant i \<and> aging_bucket today (inv_due i) = b)
                                      (\<lambda>i. inv_total i - inv_paid i) (invoices s)))
                       [''current'', ''d30'', ''d60'', ''d90'']))"

section \<open>Sums over the books\<close>

lemma sum_where_over_keys:
  assumes "distinct (map k as)" and "\<And>l. l \<in> set ls \<Longrightarrow> p l \<Longrightarrow> q l \<in> k ` set as"
  shows "(\<Sum>a\<leftarrow>as. sum_where (\<lambda>l. p l \<and> q l = k a) g ls) = sum_where p g ls"
  using assms(2)
proof (induction ls)
  case (Cons l ls)
  have one: "(\<Sum>a\<leftarrow>as. if p l \<and> q l = k a then g l else 0) = (if p l then g l else 0)"
  proof (cases "p l")
    case True
    then have "q l \<in> k ` set as" using Cons.prems by simp
    then have "(\<Sum>a\<leftarrow>as. if q l = k a then g l else 0) = g l"
      using assms(1)
    proof (induction as)
      case (Cons a as)
      show ?case
      proof (cases "q l = k a")
        case True
        then have "(\<Sum>a\<leftarrow>as. if q l = k a then g l else 0) = (\<Sum>a\<leftarrow>as. 0)"
          using Cons.prems(2) by (intro arg_cong [where f = sum_list] map_cong refl) auto
        then show ?thesis using True by simp
      next
        case False
        then show ?thesis using Cons by simp
      qed
    qed simp
    then show ?thesis using True by simp
  qed simp
  have "(\<Sum>a\<leftarrow>as. sum_where (\<lambda>l. p l \<and> q l = k a) g (l # ls))
      = (\<Sum>a\<leftarrow>as. if p l \<and> q l = k a then g l else 0) + (\<Sum>a\<leftarrow>as. sum_where (\<lambda>l. p l \<and> q l = k a) g ls)"
    by (simp add: sum_list_addf)
  then show ?case using Cons one by simp
qed simp

lemma find_distinct: "distinct (map k xs) \<Longrightarrow> x \<in> set xs \<Longrightarrow> find (\<lambda>y. k y = k x) xs = Some x"
  by (induction xs) auto

lemma distinct_map_insert_by: "distinct (map k (insert_by le x ys)) = (k x \<notin> set (map k ys) \<and> distinct (map k ys))"
  by (induction ys) auto

lemma distinct_map_order_by: "distinct (map k (order_by le xs)) = distinct (map k xs)"
  by (induction xs) (simp_all add: distinct_map_insert_by)

lemma sum_list_insert_by: "(\<Sum>y\<leftarrow>insert_by le x ys. (f y :: int)) = f x + (\<Sum>y\<leftarrow>ys. f y)"
  by (induction ys) auto

lemma sum_list_order_by: "(\<Sum>y\<leftarrow>order_by le xs. (f y :: int)) = (\<Sum>y\<leftarrow>xs. f y)"
  by (induction xs) (simp_all add: sum_list_insert_by)

text \<open>In balanced books the debits of all accounts over any set of dates equal the credits.\<close>

lemma books_sums_agree:
  assumes ok: "books_ok s"
  shows "sum_where (\<lambda>l. jl_tenant l = t \<and> dated s p l) jl_debit (journal_lines s)
       = sum_where (\<lambda>l. jl_tenant l = t \<and> dated s p l) jl_credit (journal_lines s)"
proof -
  let ?es = "filter (\<lambda>e. p (je_date e)) (journal_entries s)"
  have d: "distinct (map je_id (journal_entries s))"
    using ok by (simp add: books_ok_def books_off_def fresh_keys_def)
  then have de: "distinct (map je_id ?es)" by (simp add: distinct_map_filter)
  have split: "sum_where (\<lambda>l. jl_tenant l = t \<and> dated s p l) g (journal_lines s)
      = (\<Sum>e\<leftarrow>?es. sum_where (\<lambda>l. jl_tenant l = t \<and> jl_entry l = je_id e) g (journal_lines s))" for g :: "journal_line \<Rightarrow> int"
  proof -
    have "jl_entry l \<in> je_id ` set ?es" if dl: "jl_tenant l = t \<and> dated s p l" for l
    proof -
      obtain e where "first_row (\<lambda>e. je_id e = jl_entry l) (journal_entries s) = Some e" "p (je_date e)"
        using dl by (auto simp: dated_def split: option.splits)
      then have "e \<in> set ?es" "jl_entry l = je_id e" by (auto dest: first_row_Some)
      then show ?thesis by blast
    qed
    from sum_where_over_keys [where p = "\<lambda>l. jl_tenant l = t \<and> dated s p l" and q = jl_entry, OF de this]
    have "sum_where (\<lambda>l. jl_tenant l = t \<and> dated s p l) g (journal_lines s)
      = (\<Sum>e\<leftarrow>?es. sum_where (\<lambda>l. (jl_tenant l = t \<and> dated s p l) \<and> jl_entry l = je_id e) g (journal_lines s))" by simp
    also have "\<dots> = (\<Sum>e\<leftarrow>?es. sum_where (\<lambda>l. jl_tenant l = t \<and> jl_entry l = je_id e) g (journal_lines s))"
    proof (intro arg_cong [where f = sum_list] map_cong refl sum_where_cong)
      fix e l assume e: "e \<in> set ?es"
      have "dated s p l" if "jl_entry l = je_id e"
        using find_distinct [OF d, of e] e that by (simp add: dated_def first_row_def)
      then show "((jl_tenant l = t \<and> dated s p l) \<and> jl_entry l = je_id e) = (jl_tenant l = t \<and> jl_entry l = je_id e)"
        by blast
    qed
    finally show ?thesis .
  qed
  have "sum_where (\<lambda>l. jl_tenant l = t \<and> jl_entry l = je_id e) jl_debit (journal_lines s)
      = sum_where (\<lambda>l. jl_tenant l = t \<and> jl_entry l = je_id e) jl_credit (journal_lines s)" for e :: journal_entry
    using books_okD [OF ok, of t "je_id e"] by (simp add: entry_debit_def entry_credit_def)
  then show ?thesis by (simp only: split)
qed

lemma accounts_sum:
  assumes ok: "books_ok s"
  shows "(\<Sum>a\<leftarrow>order_by le (filter (\<lambda>a. acc_tenant a = t) (accounts s)). account_sum t p (acc_id a) g s)
       = sum_where (\<lambda>l. jl_tenant l = t \<and> dated s p l) g (journal_lines s)"
proof -
  let ?as = "filter (\<lambda>a. acc_tenant a = t) (accounts s)"
  have d: "distinct (map acc_id ?as)" using ok by (simp add: books_ok_def books_off_def distinct_map_filter)
  have m: "jl_account l \<in> acc_id ` set ?as" if inl: "l \<in> set (journal_lines s)" and dl: "jl_tenant l = t \<and> dated s p l" for l
  proof -
    have "own_account (jl_tenant l) (jl_account l) s" using ok inl by (simp add: books_ok_def books_off_def)
    then obtain a where "a \<in> set (accounts s)" "acc_id a = jl_account l" "acc_tenant a = t"
      using dl by (auto simp: own_account_def)
    then have "a \<in> set ?as" "jl_account l = acc_id a" by auto
    then show ?thesis by blast
  qed
  have "(\<Sum>a\<leftarrow>order_by le ?as. account_sum t p (acc_id a) g s) = (\<Sum>a\<leftarrow>?as. account_sum t p (acc_id a) g s)"
    by (rule sum_list_order_by)
  also have "\<dots> = (\<Sum>a\<leftarrow>?as. sum_where (\<lambda>l. (jl_tenant l = t \<and> dated s p l) \<and> jl_account l = acc_id a) g (journal_lines s))"
    unfolding account_sum_def by (intro arg_cong [where f = sum_list] map_cong refl sum_where_cong) auto
  also have "\<dots> = sum_where (\<lambda>l. jl_tenant l = t \<and> dated s p l) g (journal_lines s)"
    by (rule sum_where_over_keys [where p = "\<lambda>l. jl_tenant l = t \<and> dated s p l" and q = jl_account, OF d m])
  finally show ?thesis .
qed

lemma account_sum_nonneg:
  assumes "books_ok s"
  shows "0 \<le> account_sum t p a jl_debit s" "0 \<le> account_sum t p a jl_credit s"
  using assms by (auto simp: account_sum_def books_ok_def books_off_def intro!: sum_where_nonneg)

section \<open>What the reports of balanced books say\<close>

definition rows_of :: "gid \<Rightarrow> int \<Rightarrow> int \<Rightarrow> db \<Rightarrow> balance_row list" where
  "rows_of t lo hi s = map (balance_row_of t (dates_within lo hi) s)
     (order_by (\<lambda>a b. acc_code a \<le> acc_code b) (filter (\<lambda>a. acc_tenant a = t) (accounts s)))"

lemma sums_stable [simp]:
  "account_sum t p a g (s\<lparr>faults := fs, aborted := b\<rparr>) = account_sum t p a g s"
  "joined_lines t a p (s\<lparr>faults := fs, aborted := b\<rparr>) = joined_lines t a p s"
  by (simp_all add: account_sum_def dated_def joined_lines_def)

lemma rows_of_stable [simp]: "rows_of t lo hi (s\<lparr>faults := fs, aborted := b\<rparr>) = rows_of t lo hi s"
  by (simp add: rows_of_def balance_row_of_def cong: map_cong)

lemma account_balances_gives:
  assumes P: "stable P" and r: "normalize_range today from to = (lo, hi)"
  shows "gives P (account_balances today t from to) (\<lambda>rows s. P s \<and> rows = rows_of t lo hi s)"
  unfolding account_balances_def r prod.case
  by (intro gives_bind [OF gives_set_tenant [OF P]] gives_auto_query P)
    (use P in \<open>auto simp: stable_def rows_of_def [symmetric]\<close>)

lemma account_openings_gives:
  assumes P: "stable P"
  shows "gives P (account_openings t d0) (\<lambda>op s. P s \<and> op = (\<lambda>acc. (account_sum t (\<lambda>d. d < d0) acc jl_debit s,
           account_sum t (\<lambda>d. d < d0) acc jl_credit s)))"
  unfolding account_openings_def
  by (intro gives_bind [OF gives_set_tenant [OF P]] gives_auto_query P) (use P in \<open>auto simp: stable_def\<close>)

lemma rows_of_sums:
  assumes "books_ok s"
  shows "(\<Sum>r\<leftarrow>rows_of t lo hi s. br_debit r) = (\<Sum>r\<leftarrow>rows_of t lo hi s. br_credit r)"
  using accounts_sum [OF assms, where le = "\<lambda>a b. acc_code a \<le> acc_code b" and t = t and p = "dates_within lo hi"]
    books_sums_agree [OF assms, where t = t and p = "dates_within lo hi"]
  by (simp add: rows_of_def comp_def balance_row_of_def Let_def)

lemma normalize_range_ordered: "normalize_range today from to = (lo, hi) \<Longrightarrow> lo \<le> hi"
  by (auto simp: normalize_range_def Let_def split: if_splits)

lemma normalize_range_again: "lo \<le> hi \<Longrightarrow> normalize_range today (Some lo) (Some hi) = (lo, hi)"
  by (simp add: normalize_range_def)

lemma trial_rows_sums:
  assumes "\<And>r. r \<in> set rows \<Longrightarrow> 0 \<le> br_debit r \<and> 0 \<le> br_credit r"
    and "\<And>a. 0 \<le> fst (openings a) \<and> 0 \<le> snd (openings a)"
  shows "tb_debit (trial_rows openings rows tb) = tb_debit tb + (\<Sum>r\<leftarrow>rows. br_debit r)
    \<and> tb_credit (trial_rows openings rows tb) = tb_credit tb + (\<Sum>r\<leftarrow>rows. br_credit r)"
  using assms(1)
proof (induction rows arbitrary: tb)
  case (Cons r rows)
  note IH = Cons.IH [OF Cons.prems [OF list.set_intros(2)]]
  have nn: "0 \<le> br_debit r" "0 \<le> br_credit r" using Cons.prems by simp_all
  show ?case
  proof (cases "br_debit r + fst (openings (br_account r)) = 0 \<and> br_credit r + snd (openings (br_account r)) = 0")
    case True
    then have "br_debit r = 0" "br_credit r = 0" using nn assms(2) [of "br_account r"] by linarith+
    then show ?thesis using True IH by (simp add: Let_def)
  next
    case False
    then show ?thesis using IH by (auto simp: Let_def)
  qed
qed simp

text \<open>The six types the balance sheet knows.\<close>

definition known_type :: "string \<Rightarrow> bool" where
  "known_type t \<longleftrightarrow> to_lower t \<in> {''asset'', ''liability'', ''equity'', ''revenue'', ''income'', ''expense''}"

lemma trim_to_lower: "to_lower (trim_space s) = trim_space (to_lower s)"
proof -
  have "dropWhile is_space (map char_low xs) = map char_low (dropWhile is_space xs)" for xs
    by (simp add: dropWhile_map comp_def is_space_low)
  then show ?thesis
    by (simp add: trim_space_def trim_by_def trim_right_def trim_left_def to_lower_def rev_map)
qed

lemma known_type_trim: "known_type t \<Longrightarrow> to_lower (trim_space t) = to_lower t"
proof -
  have c: "trim_space ''asset'' = ''asset''" "trim_space ''liability'' = ''liability''" "trim_space ''equity'' = ''equity''"
    "trim_space ''revenue'' = ''revenue''" "trim_space ''income'' = ''income''" "trim_space ''expense'' = ''expense''"
    by code_simp+
  assume "known_type t"
  then show ?thesis unfolding known_type_def trim_to_lower by (elim insertE emptyE) (simp_all only: c)
qed

definition off_balance :: "sheet_report \<Rightarrow> int" where
  "off_balance rep = bs_total_assets rep - (bs_total_liabilities rep + bs_total_equity rep + bs_earnings rep)"

lemma sheet_row_step:
  assumes "known_type (br_type r)" and "br_balance r = normal_balance (br_type r) (br_debit r) (br_credit r)"
  shows "off_balance (sheet_rows [r] rep) = off_balance rep + (br_debit r - br_credit r)"
proof -
  have k: "to_lower (br_type r) \<in> {''asset'', ''liability'', ''equity'', ''revenue'', ''income'', ''expense''}"
    using assms(1) by (simp add: known_type_def)
  show ?thesis
    using assms(2) k unfolding normal_balance_def Let_def known_type_trim [OF assms(1)]
    by (elim insertE emptyE) (simp_all add: off_balance_def Let_def)
qed

lemma sheet_rows_Cons: "sheet_rows (r # rs) rep = sheet_rows rs (sheet_rows [r] rep)"
  by (simp add: Let_def)

lemma sheet_rows_off:
  assumes "\<And>r. r \<in> set rows \<Longrightarrow> known_type (br_type r) \<and> br_balance r = normal_balance (br_type r) (br_debit r) (br_credit r)"
  shows "off_balance (sheet_rows rows rep) = off_balance rep + (\<Sum>r\<leftarrow>rows. br_debit r) - (\<Sum>r\<leftarrow>rows. br_credit r)"
  using assms
proof (induction rows arbitrary: rep)
  case (Cons r rows)
  have "off_balance (sheet_rows [r] rep) = off_balance rep + (br_debit r - br_credit r)"
    using Cons.prems by (intro sheet_row_step) auto
  moreover have "off_balance (sheet_rows rows (sheet_rows [r] rep))
      = off_balance (sheet_rows [r] rep) + (\<Sum>r\<leftarrow>rows. br_debit r) - (\<Sum>r\<leftarrow>rows. br_credit r)"
    using Cons.prems by (intro Cons.IH) auto
  ultimately show ?case unfolding sheet_rows_Cons [of r rows rep] by simp
qed simp

lemma trial_balance_gives:
  "gives books_ok (trial_balance today t from to) (\<lambda>tb _. tb_debit tb = tb_credit tb)"
proof -
  obtain lo hi where r: "normalize_range today from to = (lo, hi)" by fastforce
  have r2: "normalize_range today (Some lo) (Some hi) = (lo, hi)"
    using normalize_range_again normalize_range_ordered [OF r] by blast
  let ?P = "\<lambda>rows s. books_ok s \<and> rows = rows_of t lo hi s"
  have stP: "stable (?P rows)" for rows using stable_books_ok by (simp add: stable_def)
  have fin: "tb_debit (trial_rows op rows \<lparr>tb_from = lo, tb_to = hi, tb_rows = [], tb_debit = 0, tb_credit = 0\<rparr>)
      = tb_credit (trial_rows op rows \<lparr>tb_from = lo, tb_to = hi, tb_rows = [], tb_debit = 0, tb_credit = 0\<rparr>)"
    if s: "?P rows s" and op: "op = (\<lambda>acc. (account_sum t (\<lambda>d. d < lo) acc jl_debit s, account_sum t (\<lambda>d. d < lo) acc jl_credit s))"
    for rows s op
  proof -
    have ok: "books_ok s" using s by blast
    have "0 \<le> br_debit r \<and> 0 \<le> br_credit r" if "r \<in> set rows" for r
      using s that account_sum_nonneg [OF ok] by (auto simp: rows_of_def balance_row_of_def Let_def)
    moreover have "0 \<le> fst (op a) \<and> 0 \<le> snd (op a)" for a using account_sum_nonneg [OF ok] op by simp
    ultimately show ?thesis
      using trial_rows_sums [of rows op] rows_of_sums [OF ok, of t lo hi] s by simp
  qed
  show ?thesis
    unfolding trial_balance_def r prod.case
    by (intro gives_bind [OF account_balances_gives [OF stable_books_ok r2]] gives_bind [OF account_openings_gives [OF stP]]
        gives_ret fin) auto
qed

lemma balance_sheet_gives:
  "gives (\<lambda>s. books_ok s \<and> (\<forall>a\<in>set (accounts s). acc_tenant a = t \<longrightarrow> known_type (acc_type a)))
     (balance_sheet today t from to) (\<lambda>rep _. bs_balanced rep \<and> bs_total rep = bs_total_assets rep)"
proof -
  obtain x hi where r: "normalize_range today from to = (x, hi)" by fastforce
  obtain lo hi' where r2: "normalize_range today (Some books_start) (Some hi) = (lo, hi')" by fastforce
  let ?Q = "\<lambda>s. books_ok s \<and> (\<forall>a\<in>set (accounts s). acc_tenant a = t \<longrightarrow> known_type (acc_type a))"
  have stQ: "stable ?Q" using stable_books_ok by (simp add: stable_def)
  let ?rep = "\<lambda>rows. sheet_rows rows \<lparr>bs_assets = [], bs_liabilities = [], bs_equity = [], bs_total_assets = 0,
                  bs_total_liabilities = 0, bs_total_equity = 0, bs_earnings = 0, bs_total = 0, bs_balanced = False\<rparr>"
  have fin: "bs_total_assets (?rep rows) = bs_total_liabilities (?rep rows) + bs_total_equity (?rep rows) + bs_earnings (?rep rows)"
    if s: "?Q s \<and> rows = rows_of t lo hi' s" for s rows
  proof -
    have "known_type (br_type r) \<and> br_balance r = normal_balance (br_type r) (br_debit r) (br_credit r)" if "r \<in> set rows" for r
      using s that by (auto simp: rows_of_def balance_row_of_def Let_def)
    then have "off_balance (?rep rows) = 0"
      using sheet_rows_off [of rows] rows_of_sums [of s t lo hi'] s by (simp add: off_balance_def)
    then show ?thesis by (simp add: off_balance_def)
  qed
  show ?thesis
    unfolding balance_sheet_def r prod.case
    by (rule gives_bind [OF account_balances_gives [OF stQ r2]])
      (unfold Let_def, rule gives_ret, use fin in simp)
qed

text \<open>The running balance of the account ledger.\<close>

lemma normal_balance_add:
  "normal_balance t a b + normal_balance t c d = normal_balance t (a + c) (b + d)"
  by (simp add: normal_balance_def Let_def)

lemma normal_balance_0 [simp]: "normal_balance t 0 0 = 0"
  by (simp add: normal_balance_def Let_def)

lemma ledger_rows_closing:
  "lr_closing (ledger_rows ty b rows rep)
     = b + normal_balance ty (\<Sum>r\<leftarrow>rows. jl_debit (fst r)) (\<Sum>r\<leftarrow>rows. jl_credit (fst r))"
proof (induction rows arbitrary: b rep)
  case (Cons r rows)
  obtain l e where r: "r = (l, e)" by (cases r)
  show ?case
    using normal_balance_add [of ty "jl_debit l" "jl_credit l" "\<Sum>r\<leftarrow>rows. jl_debit (fst r)" "\<Sum>r\<leftarrow>rows. jl_credit (fst r)"]
    by (simp add: r Let_def Cons.IH)
qed simp

lemma joined_lines_sum:
  "(\<Sum>r\<leftarrow>joined_lines t acc p s. g (fst r)) = account_sum t p acc g s"
proof -
  have "(\<Sum>r\<leftarrow>concat (map (\<lambda>l. case first_row (\<lambda>e. je_id e = jl_entry l) (journal_entries s) of
                        None \<Rightarrow> []
                      | Some e \<Rightarrow> if jl_tenant l = t \<and> jl_account l = acc \<and> p (je_date e) then [(l, e)] else []) ls). g (fst r))
      = sum_where (\<lambda>l. jl_tenant l = t \<and> jl_account l = acc \<and> dated s p l) g ls" for ls
    by (induction ls) (auto simp: dated_def split: option.splits)
  then show ?thesis by (simp only: joined_lines_def account_sum_def)
qed

lemma trial_rows_balance:
  assumes "\<And>r. r \<in> set (tb_rows tb) \<Longrightarrow> P r"
    and "\<And>r. r \<in> set rows \<Longrightarrow> P (r\<lparr>br_balance := normal_balance (br_type r)
        (br_debit r + fst (openings (br_account r))) (br_credit r + snd (openings (br_account r)))\<rparr>)"
  shows "r \<in> set (tb_rows (trial_rows openings rows tb)) \<Longrightarrow> P r"
  using assms
proof (induction rows arbitrary: tb)
  case (Cons x rows)
  show ?case
  proof (cases "br_debit x + fst (openings (br_account x)) = 0 \<and> br_credit x + snd (openings (br_account x)) = 0")
    case True
    then show ?thesis using Cons by (simp add: Let_def)
  next
    case False
    let ?tb = "tb\<lparr>tb_debit := tb_debit tb + br_debit x, tb_credit := tb_credit tb + br_credit x,
        tb_rows := tb_rows tb @ [x\<lparr>br_balance := normal_balance (br_type x)
          (br_debit x + fst (openings (br_account x))) (br_credit x + snd (openings (br_account x)))\<rparr>]\<rparr>"
    have "trial_rows openings (x # rows) tb = trial_rows openings rows ?tb" using False by (auto simp: Let_def)
    moreover have "P y" if "y \<in> set (tb_rows ?tb)" for y using that Cons.prems(2,3) by auto
    ultimately show ?thesis using Cons.IH [of ?tb] Cons.prems(1,3) by (metis list.set_intros(2))
  qed
qed simp

text \<open>With no failure, the reports compute these values.\<close>

lemma calm_account_ledger:
  assumes c: "calm s" and r: "normalize_range today from to = (lo, hi)"
    and l: "account_ledger today t acc from to s = (Inr lr, s')"
  shows "\<exists>a\<in>set (accounts s). acc_id a = acc \<and> acc_tenant a = t \<and> lr_account lr = a
    \<and> lr_closing lr = normal_balance (acc_type a)
        (account_sum t (\<lambda>d. d < lo) acc jl_debit s + account_sum t (dates_within lo hi) acc jl_debit s)
        (account_sum t (\<lambda>d. d < lo) acc jl_credit s + account_sum t (dates_within lo hi) acc jl_credit s)"
proof -
  define rep where "rep a = \<lparr>lr_account = a, lr_from = lo, lr_to = hi,
      lr_opening = normal_balance (acc_type a) (account_sum t (\<lambda>d. d < lo) acc jl_debit s) (account_sum t (\<lambda>d. d < lo) acc jl_credit s),
      lr_lines = [], lr_debit = 0, lr_credit = 0, lr_closing = 0\<rparr>" for a
  obtain a where a: "first_row (\<lambda>a. acc_tenant a = t \<and> acc_id a = acc) (accounts s) = Some a"
    using l by (auto simp: account_ledger_def r bind_def calm_simps [OF c] raise_def split: option.splits)
  have "lr = ledger_rows (acc_type a)
      (normal_balance (acc_type a) (account_sum t (\<lambda>d. d < lo) acc jl_debit s) (account_sum t (\<lambda>d. d < lo) acc jl_credit s))
      (order_by by_date_created (joined_lines t acc (dates_within lo hi) s)) (rep a)"
    using l by (simp add: account_ledger_def r bind_def calm_simps [OF c] attempt_def a ret_def rep_def Let_def) auto
  then have "lr_closing lr = normal_balance (acc_type a)
        (account_sum t (\<lambda>d. d < lo) acc jl_debit s + account_sum t (dates_within lo hi) acc jl_debit s)
        (account_sum t (\<lambda>d. d < lo) acc jl_credit s + account_sum t (dates_within lo hi) acc jl_credit s)"
    by (simp add: ledger_rows_closing sum_list_order_by joined_lines_sum normal_balance_add)
  moreover have "lr_account (ledger_rows ty b rows rp) = lr_account rp" for ty b rows rp
    by (induction ty b rows rp rule: ledger_rows.induct) (simp_all add: Let_def)
  ultimately show ?thesis using a \<open>lr = _\<close> by (auto dest!: first_row_Some simp: rep_def)
qed

lemma calm_trial_balance:
  assumes c: "calm s" and r: "normalize_range today from to = (lo, hi)"
    and tb: "trial_balance today t from to s = (Inr tb, s')"
  shows "row \<in> set (tb_rows tb) \<Longrightarrow> \<exists>a\<in>set (accounts s). acc_id a = br_account row \<and> acc_tenant a = t
    \<and> br_balance row = normal_balance (acc_type a)
        (account_sum t (dates_within lo hi) (acc_id a) jl_debit s + account_sum t (\<lambda>d. d < lo) (acc_id a) jl_debit s)
        (account_sum t (dates_within lo hi) (acc_id a) jl_credit s + account_sum t (\<lambda>d. d < lo) (acc_id a) jl_credit s)"
proof -
  let ?op = "\<lambda>acc. (account_sum t (\<lambda>d. d < lo) acc jl_debit s, account_sum t (\<lambda>d. d < lo) acc jl_credit s)"
  let ?tb0 = "\<lparr>tb_from = lo, tb_to = hi, tb_rows = [], tb_debit = 0, tb_credit = 0\<rparr>"
  have r2: "normalize_range today (Some lo) (Some hi) = (lo, hi)"
    using normalize_range_again normalize_range_ordered [OF r] by blast
  have e: "tb = trial_rows ?op (rows_of t lo hi s) ?tb0"
    using tb by (simp add: trial_balance_def account_balances_def account_openings_def r r2 bind_def calm_simps [OF c]
        ret_def rows_of_def [symmetric] split: prod.splits) auto
  assume row: "row \<in> set (tb_rows tb)"
  show ?thesis
    by (rule trial_rows_balance [OF _ _ row [unfolded e]]) (auto simp: rows_of_def balance_row_of_def Let_def)
qed

section \<open>An example\<close>

definition sample_accounts :: db where
  "sample_accounts = empty_db\<lparr>next_id := 10, accounts :=
     [\<lparr>acc_id = 1, acc_tenant = 1, acc_code = ''1110'', acc_name = ''Kas'', acc_type = ''asset'', acc_active = True\<rparr>,
      \<lparr>acc_id = 2, acc_tenant = 1, acc_code = ''4100'', acc_name = ''Pendapatan'', acc_type = ''revenue'', acc_active = True\<rparr>]\<rparr>"

definition sample_books :: db where
  "sample_books = snd (record_payment_journal 5 20000 1 500 1 2 ''INV-1'' sample_accounts)"

lemma sample_books_ok: "books_ok sample_books"
proof -
  have "books_ok sample_accounts"
    by (simp add: sample_accounts_def empty_db_def books_ok_def books_off_def entry_debit_def entry_credit_def fresh_keys_def)
  moreover have "own_account 1 1 sample_accounts" "own_account 1 2 sample_accounts"
    by (simp_all add: sample_accounts_def empty_db_def own_account_def)
  ultimately show ?thesis
    unfolding sample_books_def using record_payment_journal_safe [of 500 1 1 2 5 20000 "''INV-1''"]
    unfolding safe_def by simp
qed

lemma sample_books_reports:
  "(case trial_balance 20000 1 (Some 19990) (Some 20010) sample_books of (Inr tb, _) \<Rightarrow> tb_debit tb = 500 | _ \<Rightarrow> False)"
  "(case balance_sheet 20000 1 None (Some 20010) sample_books of (Inr rep, _) \<Rightarrow> bs_total_assets rep = 500 | _ \<Rightarrow> False)"
  "(case account_ledger 20000 1 1 (Some 19990) (Some 20010) sample_books of (Inr lr, _) \<Rightarrow> lr_closing lr = 500 | _ \<Rightarrow> False)"
  by code_simp+

section \<open>Properties\<close>

text \<open>over any period, the trial balance of balanced books has equal totals of debit and credit,
  whatever statements fail on the way to a successful report.\<close>

theorem trial_balance_balances:
  assumes "books_ok s" and "trial_balance today t from to s = (Inr tb, s')"
  shows "tb_debit tb = tb_credit tb"
  using trial_balance_gives assms unfolding gives_def by blast

lemma trial_balance_balances_witness:
  "\<exists>tb s'. trial_balance 20000 1 (Some 19990) (Some 20010) sample_books = (Inr tb, s')
     \<and> tb_debit tb = 500 \<and> tb_credit tb = 500"
proof -
  obtain tb s' where e: "trial_balance 20000 1 (Some 19990) (Some 20010) sample_books = (Inr tb, s')" "tb_debit tb = 500"
    using sample_books_reports(1) by (auto split: prod.splits sum.splits)
  then show ?thesis using trial_balance_balances [OF sample_books_ok e(1)] by auto
qed

text \<open>C12: when every account has one of the six known types, the balance sheet of balanced books
  reports itself balanced: assets equal liabilities, equity and current earnings.\<close>

theorem balance_sheet_balances:
  assumes "books_ok s" and "\<forall>a\<in>set (accounts s). acc_tenant a = t \<longrightarrow> known_type (acc_type a)"
    and "balance_sheet today t from to s = (Inr rep, s')"
  shows "bs_balanced rep \<and> bs_total_assets rep = bs_total_liabilities rep + bs_total_equity rep + bs_earnings rep"
proof -
  have "bs_balanced rep \<and> bs_total rep = bs_total_assets rep"
    using balance_sheet_gives assms unfolding gives_def by blast
  moreover have "gives (\<lambda>_. True) (balance_sheet today t from to)
      (\<lambda>rep _. bs_total rep = bs_total_liabilities rep + bs_total_equity rep + bs_earnings rep)"
    unfolding balance_sheet_def by (auto simp: gives_def Let_def ret_def elim!: bind_Inr split: prod.splits)
  ultimately show ?thesis using assms(3) unfolding gives_def by metis
qed

lemma balance_sheet_balances_witness:
  "\<exists>rep s'. balance_sheet 20000 1 None (Some 20010) sample_books = (Inr rep, s')
     \<and> bs_balanced rep \<and> bs_total_assets rep = 500 \<and> bs_total_liabilities rep + bs_total_equity rep + bs_earnings rep = 500"
proof -
  obtain rep s' where e: "balance_sheet 20000 1 None (Some 20010) sample_books = (Inr rep, s')" "bs_total_assets rep = 500"
    using sample_books_reports(2) by (auto split: prod.splits sum.splits)
  have k: "\<forall>a\<in>set (accounts sample_books). acc_tenant a = 1 \<longrightarrow> known_type (acc_type a)" by code_simp
  show ?thesis using balance_sheet_balances [OF sample_books_ok k e(1)] e by auto
qed

text \<open>C30: with no failing statement, the closing balance of an account's ledger is the balance of the
  account's row in the trial balance of the same period.\<close>

theorem account_ledger_agrees:
  assumes "calm s" and "distinct (map acc_id (accounts s))"
    and "account_ledger today t acc from to s = (Inr lr, s1)"
    and "trial_balance today t from to s = (Inr tb, s2)"
    and "row \<in> set (tb_rows tb)" and "br_account row = acc"
  shows "lr_closing lr = br_balance row"
proof -
  obtain lo hi where r: "normalize_range today from to = (lo, hi)" by fastforce
  obtain a where a: "a \<in> set (accounts s)" "acc_id a = acc"
    "lr_closing lr = normal_balance (acc_type a)
        (account_sum t (\<lambda>d. d < lo) acc jl_debit s + account_sum t (dates_within lo hi) acc jl_debit s)
        (account_sum t (\<lambda>d. d < lo) acc jl_credit s + account_sum t (dates_within lo hi) acc jl_credit s)"
    using calm_account_ledger [OF assms(1) r assms(3)] by blast
  obtain b where b: "b \<in> set (accounts s)" "acc_id b = acc"
    "br_balance row = normal_balance (acc_type b)
        (account_sum t (dates_within lo hi) acc jl_debit s + account_sum t (\<lambda>d. d < lo) acc jl_debit s)
        (account_sum t (dates_within lo hi) acc jl_credit s + account_sum t (\<lambda>d. d < lo) acc jl_credit s)"
    using calm_trial_balance [OF assms(1) r assms(4,5)] assms(6) by auto
  have "a = b" using unique_row [OF assms(2) a(1) b(1)] a(2) b(2) by simp
  then show ?thesis using a(3) b(3) by (simp add: add.commute)
qed

lemma account_ledger_agrees_witness:
  "\<exists>lr tb s1 s2. account_ledger 20000 1 1 (Some 19990) (Some 20010) sample_books = (Inr lr, s1)
     \<and> trial_balance 20000 1 (Some 19990) (Some 20010) sample_books = (Inr tb, s2)
     \<and> (\<exists>row\<in>set (tb_rows tb). br_account row = 1 \<and> lr_closing lr = br_balance row)"
proof -
  obtain lr s1 where l: "account_ledger 20000 1 1 (Some 19990) (Some 20010) sample_books = (Inr lr, s1)"
    using sample_books_reports(3) by (auto split: prod.splits sum.splits)
  have "case trial_balance 20000 1 (Some 19990) (Some 20010) sample_books of
      (Inr tb, _) \<Rightarrow> list_ex (\<lambda>row. br_account row = 1) (tb_rows tb) | _ \<Rightarrow> False" by code_simp
  then obtain tb s2 row where t: "trial_balance 20000 1 (Some 19990) (Some 20010) sample_books = (Inr tb, s2)"
    "row \<in> set (tb_rows tb)" "br_account row = 1"
    by (auto simp: list_ex_iff split: prod.splits sum.splits)
  have "faults sample_books = [] \<and> \<not> aborted sample_books" "distinct (map acc_id (accounts sample_books))" by code_simp+
  then have "lr_closing lr = br_balance row"
    by (intro account_ledger_agrees [OF _ _ l t]) (simp_all add: calm_def)
  then show ?thesis using l t by blast
qed

end
