(* ===== verification/Balances.thy ===== *)
theory Balances
  imports Billing_Db
begin

text \<open>
  Stored balances.  The program keeps several amounts that are also the sum of the rows of
  another table: a wallet's balance and its transactions, a reseller's commission balance
  and its entries.  The locale \<open>running_balance\<close> is the contract of such a pair of tables; it
  carries the steps by which the code moves both, one statement at a time, so that the
  balance is off by a known amount between two statements of a transaction.
\<close>

definition off_by :: "('h \<Rightarrow> gid) \<Rightarrow> ('h \<Rightarrow> int) \<Rightarrow> ('r \<Rightarrow> gid) \<Rightarrow> ('r \<Rightarrow> int) \<Rightarrow> gid \<Rightarrow> int \<Rightarrow> 'h list \<Rightarrow> 'r list \<Rightarrow> bool" where
  "off_by hkey bal rkey weight k d hs rs \<longleftrightarrow>
     distinct (map hkey hs) \<and> (\<forall>r\<in>set rs. rkey r \<in> hkey ` set hs) \<and>
     (\<forall>h\<in>set hs. bal h = sum_where (\<lambda>r. rkey r = hkey h) weight rs + (if hkey h = k then d else 0))"

definition agree :: "('h \<Rightarrow> gid) \<Rightarrow> ('h \<Rightarrow> int) \<Rightarrow> ('r \<Rightarrow> gid) \<Rightarrow> ('r \<Rightarrow> int) \<Rightarrow> 'h list \<Rightarrow> 'r list \<Rightarrow> bool" where
  "agree hkey bal rkey weight hs rs \<longleftrightarrow> off_by hkey bal rkey weight 0 0 hs rs"

lemma off_by_0: "off_by hkey bal rkey weight k 0 hs rs = agree hkey bal rkey weight hs rs"
  by (simp add: off_by_def agree_def)

lemma agreeD:
  "agree hkey bal rkey weight hs rs \<Longrightarrow> h \<in> set hs \<Longrightarrow> bal h = sum_where (\<lambda>r. rkey r = hkey h) weight rs"
  by (simp add: agree_def off_by_def)

lemma agree_Nil: "agree hkey bal rkey weight [] []"
  by (simp add: agree_def off_by_def)

lemma sum_where_partition:
  "distinct ks \<Longrightarrow> (\<And>r. r \<in> set rs \<Longrightarrow> key r \<in> set ks) \<Longrightarrow>
   (\<Sum>k\<leftarrow>ks. sum_where (\<lambda>r. key r = k) g rs) = (\<Sum>r\<leftarrow>rs. g r)"
proof (induction rs)
  case (Cons r rs)
  have "(\<Sum>k\<leftarrow>ks. sum_where (\<lambda>r. key r = k) g (r # rs))
      = (\<Sum>k\<leftarrow>ks. if key r = k then g r else 0) + (\<Sum>k\<leftarrow>ks. sum_where (\<lambda>r. key r = k) g rs)"
    by (simp add: sum_list_addf)
  moreover have "(\<Sum>k\<leftarrow>ks. if key r = k then g r else 0) = g r"
    using Cons.prems by (simp add: sum_list_distinct_conv_sum_set)
  ultimately show ?case using Cons by simp
qed simp

lemma sum_where_at:
  "distinct rs \<Longrightarrow> r \<in> set rs \<Longrightarrow> sum_where q (\<lambda>x. if x = r then c else 0) rs = (if q r then c else 0)"
proof (induction rs)
  case (Cons x rs)
  show ?case
  proof (cases "x = r")
    case True
    then have "sum_where q (\<lambda>x. if x = r then c else 0) rs = sum_where q (\<lambda>_. 0) rs"
      using Cons.prems by (intro sum_where_cong) auto
    moreover have "sum_where q (\<lambda>_. 0) rs = 0" by (induction rs) auto
    ultimately show ?thesis using True by simp
  qed (use Cons in auto)
qed simp

lemma distinct_rows: "distinct (map k rows) \<Longrightarrow> distinct rows"
  by (simp add: distinct_map)

locale running_balance =
  fixes hkey :: "'h \<Rightarrow> gid" and bal :: "'h \<Rightarrow> int" and move :: "int \<Rightarrow> 'h \<Rightarrow> 'h"
    and rkey :: "'r \<Rightarrow> gid" and weight :: "'r \<Rightarrow> int"
  assumes move_bal: "bal (move d h) = bal h + d"
    and move_key: "hkey (move d h) = hkey h"
begin

text \<open>The balance moves.\<close>

lemma shift:
  assumes off: "off_by hkey bal rkey weight k d hs rs"
    and p: "\<And>h. h \<in> set hs \<Longrightarrow> p h \<longleftrightarrow> hkey h = k"
  shows "off_by hkey bal rkey weight k (d + e) (update_rows p (move e) hs) rs"
proof -
  have "map hkey (update_rows p (move e) hs) = map hkey hs"
    by (rule map_update_rows) (rule move_key)
  then have keys: "map hkey (update_rows p (move e) hs) = map hkey hs"
    "hkey ` set (update_rows p (move e) hs) = hkey ` set hs" by (metis set_map)+
  have "bal h = sum_where (\<lambda>r. rkey r = hkey h) weight rs + (if hkey h = k then d + e else 0)"
    if h: "h \<in> set (update_rows p (move e) hs)" for h
  proof -
    obtain h0 where h0: "h0 \<in> set hs" "h = (if p h0 then move e h0 else h0)"
      using h unfolding set_update_rows by blast
    then have "bal h0 = sum_where (\<lambda>r. rkey r = hkey h0) weight rs + (if hkey h0 = k then d else 0)"
      using off by (simp add: off_by_def)
    then show ?thesis using h0 p [OF h0(1)] by (auto simp: move_bal move_key)
  qed
  then show ?thesis using off unfolding off_by_def keys by simp
qed

text \<open>A row is written.\<close>

lemma append_row:
  assumes off: "off_by hkey bal rkey weight k d hs rs" and r: "rkey r = k" and k: "k \<in> hkey ` set hs"
  shows "off_by hkey bal rkey weight k (d - weight r) hs (rs @ [r])"
  using assms by (auto simp: off_by_def)

text \<open>A holder is opened with a balance.\<close>

lemma holder_new:
  assumes off: "agree hkey bal rkey weight hs rs" and new: "hkey h \<notin> hkey ` set hs"
  shows "off_by hkey bal rkey weight (hkey h) (bal h) (hs @ [h]) rs"
proof -
  have "sum_where (\<lambda>r. rkey r = hkey h) weight rs = 0"
    using off new unfolding agree_def off_by_def by (intro sum_where_none) metis
  moreover have "hkey x \<noteq> hkey h" if "x \<in> set hs" for x using that new by (metis image_eqI)
  ultimately show ?thesis using off new unfolding agree_def off_by_def by auto
qed

text \<open>A row changes its weight.\<close>

lemma reweigh:
  assumes off: "off_by hkey bal rkey weight k d hs rs" and dist: "distinct (map rid rs)"
    and r: "r \<in> set rs" "rkey r = k" and f: "\<And>x. rkey (f x) = rkey x"
    and p: "\<And>x. x \<in> set rs \<Longrightarrow> p x \<longleftrightarrow> rid x = rid r"
  shows "off_by hkey bal rkey weight k (d + weight r - weight (f r)) hs (update_rows p f rs)"
proof -
  have only: "p x \<longleftrightarrow> x = r" if "x \<in> set rs" for x
    using p [OF that] unique_row [OF dist that r(1)] by blast
  have sums: "sum_where (\<lambda>x. rkey x = j) weight (update_rows p f rs)
      = sum_where (\<lambda>x. rkey x = j) weight rs + (if j = k then weight (f r) - weight r else 0)" for j
  proof -
    have "sum_where (\<lambda>x. rkey x = j) weight (update_rows p f rs)
        = sum_where (\<lambda>x. rkey x = j) (\<lambda>x. weight x + (if x = r then weight (f r) - weight r else 0)) rs"
      unfolding sum_where_update by (rule sum_where_cong) (simp_all add: only f)
    also have "\<dots> = sum_where (\<lambda>x. rkey x = j) weight rs
        + sum_where (\<lambda>x. rkey x = j) (\<lambda>x. if x = r then weight (f r) - weight r else 0) rs"
      by (induction rs) auto
    also have "sum_where (\<lambda>x. rkey x = j) (\<lambda>x. if x = r then weight (f r) - weight r else 0) rs
        = (if j = k then weight (f r) - weight r else 0)"
      using sum_where_at [OF distinct_rows [OF dist] r(1)] r(2) by auto
    finally show ?thesis .
  qed
  have "\<forall>x\<in>set (update_rows p f rs). rkey x \<in> hkey ` set hs"
    using off f by (auto simp: off_by_def set_update_rows)
  then show ?thesis using off by (auto simp: off_by_def sums)
qed

text \<open>The whole table of balances is the whole table of rows.\<close>

lemma grand_total:
  assumes "agree hkey bal rkey weight hs rs"
  shows "(\<Sum>h\<leftarrow>hs. bal h) = (\<Sum>r\<leftarrow>rs. weight r)"
proof -
  have "(\<Sum>h\<leftarrow>hs. bal h) = (\<Sum>k\<leftarrow>map hkey hs. sum_where (\<lambda>r. rkey r = k) weight rs)"
    using agreeD [OF assms] by (auto intro!: arg_cong [where f = sum_list])
  also have "\<dots> = (\<Sum>r\<leftarrow>rs. weight r)"
    using assms by (intro sum_where_partition) (auto simp: agree_def off_by_def)
  finally show ?thesis .
qed

end

interpretation wallet_balance: running_balance w_id w_balance "\<lambda>d w. w\<lparr>w_balance := w_balance w + d\<rparr>" wt_wallet wt_amount
  by unfold_locales simp_all

end
