(* ===== verification/Wallet.thy ===== *)
theory Wallet
  imports Balances Journal
begin

text \<open>
  Customer wallets: \<open>internal/store/wallet.go\<close>, with \<open>GetWallet\<close> and \<open>CreditWallet\<close> of
  \<open>internal/store/invoices.go\<close>.  A wallet's balance is the sum of its transactions; the
  properties say so of every history of calls under failures, that paying an invoice from
  the wallet is all or nothing, and that it never overdraws.
\<close>

section \<open>The program\<close>

definition own_wallet :: "gid \<Rightarrow> gid \<Rightarrow> wallet \<Rightarrow> bool" where
  "own_wallet tenant customer w \<longleftrightarrow> w_tenant w = tenant \<and> w_customer w = customer"

definition get_wallet :: "gid \<Rightarrow> gid \<Rightarrow> (db, int) prog" where
  "get_wallet tenant customer =
     auto (query (\<lambda>s. case first_row (own_wallet tenant customer) (wallets s) of None \<Rightarrow> 0 | Some w \<Rightarrow> w_balance w))"

text \<open>\<open>INSERT ... ON CONFLICT (tenant_id, customer_id) DO UPDATE\<close>.\<close>

definition upsert_wallet :: "gid \<Rightarrow> gid \<Rightarrow> int \<Rightarrow> db \<Rightarrow> ((gid \<times> int) \<times> db) option" where
  "upsert_wallet tenant customer amount s =
     (case first_row (own_wallet tenant customer) (wallets s) of
        Some w \<Rightarrow>
          if int64_ok (w_balance w + amount)
          then Some ((w_id w, w_balance w + amount),
                 s\<lparr>wallets := update_rows (own_wallet tenant customer) (\<lambda>x. x\<lparr>w_balance := w_balance x + amount\<rparr>) (wallets s)\<rparr>)
          else None
      | None \<Rightarrow>
          if int64_ok amount \<and> list_ex (\<lambda>c. cust_id c = customer) (customers s)
          then Some ((next_id s, amount), s\<lparr>next_id := Suc (next_id s),
                 wallets := wallets s @ [\<lparr>w_id = next_id s, w_tenant = tenant, w_customer = customer, w_balance = amount\<rparr>]\<rparr>)
          else None)"

definition insert_wallet_txn :: "wallet_txn \<Rightarrow> db \<Rightarrow> (unit \<times> db) option" where
  "insert_wallet_txn x s =
     (if int64_ok (wt_amount x) \<and> list_ex (\<lambda>w. w_id w = wt_wallet x) (wallets s)
      then Some ((), s\<lparr>next_id := Suc (next_id s), wallet_txns := wallet_txns s @ [x\<lparr>wt_id := next_id s\<rparr>]\<rparr>)
      else None)"

definition insert_wallet_txn_tx :: "int \<Rightarrow> gid \<Rightarrow> gid \<Rightarrow> int \<Rightarrow> string \<Rightarrow> string \<Rightarrow> string \<Rightarrow> (db, unit) prog" where
  "insert_wallet_txn_tx now tenant wid amount kind ref desc =
     exec (insert_wallet_txn \<lparr>wt_id = 0, wt_tenant = tenant, wt_wallet = wid, wt_amount = amount, wt_type = kind,
       wt_reference = opt_text ref, wt_desc = opt_text desc, wt_created = now\<rparr>)"

definition credit_wallet :: "int \<Rightarrow> gid \<Rightarrow> gid \<Rightarrow> int \<Rightarrow> string \<Rightarrow> string \<Rightarrow> string \<Rightarrow> (db, unit) prog" where
  "credit_wallet now tenant customer amount kind ref desc =
     tx (bind (exec (upsert_wallet tenant customer amount)) (\<lambda>(wid, _).
         exec (insert_wallet_txn \<lparr>wt_id = 0, wt_tenant = tenant, wt_wallet = wid, wt_amount = amount, wt_type = kind,
           wt_reference = Some ref, wt_desc = Some desc, wt_created = now\<rparr>)))"

definition topup_wallet :: "int \<Rightarrow> int \<Rightarrow> gid \<Rightarrow> gid \<Rightarrow> int \<Rightarrow> string \<Rightarrow> string \<Rightarrow> string \<Rightarrow> (db, int) prog" where
  "topup_wallet now today tenant customer amount kind0 ref desc =
     (if amount \<le> 0 then raise (Rejected ''nominal topup harus > 0'')
      else let kind = (if trim_space kind0 = [] then ''topup'' else kind0) in
        with_tenant
          (bind (exec (upsert_wallet tenant customer amount)) (\<lambda>(wid, new_balance).
           bind (insert_wallet_txn_tx now tenant wid amount kind ref desc) (\<lambda>_.
           bind (lookup_account_tx tenant ''asset'' ''1110'') (\<lambda>cash.
           bind (lookup_account_tx tenant ''liability'' ''2100'') (\<lambda>liability.
           bind (post_wallet_journal_tx now today tenant ''Topup saldo'' ref ''wallet_topup'' (Some customer)
                   cash liability amount) (\<lambda>_.
           ret new_balance)))))))"

definition take_from_wallet :: "gid \<Rightarrow> gid \<Rightarrow> int \<Rightarrow> db \<Rightarrow> (unit \<times> db) option" where
  "take_from_wallet tenant wid amount s =
     (if list_all (\<lambda>w. w_tenant w = tenant \<and> w_id w = wid \<longrightarrow> int64_ok (w_balance w - amount)) (wallets s)
      then Some ((), s\<lparr>wallets := update_rows (\<lambda>w. w_tenant w = tenant \<and> w_id w = wid)
                         (\<lambda>w. w\<lparr>w_balance := w_balance w - amount\<rparr>) (wallets s)\<rparr>)
      else None)"

definition settled_status :: "string \<Rightarrow> bool" where
  "settled_status status \<longleftrightarrow> to_lower (trim_space status) \<in> {''paid'', ''void'', ''cancelled'', ''canceled''}"

text \<open>The part of \<open>PayInvoiceFromWallet\<close> after the guards.\<close>

definition wallet_payment :: "int \<Rightarrow> gid \<Rightarrow> gid \<Rightarrow> gid \<Rightarrow> int \<Rightarrow> string \<Rightarrow> payment" where
  "wallet_payment now tenant customer iid remaining num =
     \<lparr>pay_id = 0, pay_tenant = tenant, pay_customer = customer, pay_invoice = Some iid, pay_amount = remaining,
      pay_method = ''saldo'', pay_reference = Some num, pay_status = ''paid'', pay_sandbox = False,
      pay_paid_at = Some now, pay_created = now, pay_deleted = None\<rparr>"

definition settle_from_wallet ::
  "int \<Rightarrow> int \<Rightarrow> gid \<Rightarrow> gid \<Rightarrow> gid \<Rightarrow> gid \<Rightarrow> int \<Rightarrow> string \<Rightarrow> (db, payment option) prog" where
  "settle_from_wallet now today tenant customer iid wid remaining num =
     bind (exec (take_from_wallet tenant wid remaining)) (\<lambda>_.
     bind (insert_wallet_txn_tx now tenant wid (- remaining) ''invoice_payment'' num (''Bayar tagihan '' @ num)) (\<lambda>_.
     bind (exec (insert_payment (wallet_payment now tenant customer iid remaining num))) (\<lambda>pid.
     bind (exec (update_invoices (is_invoice tenant iid) (add_paid now remaining))) (\<lambda>_.
     bind (lookup_account_tx tenant ''liability'' ''2100'') (\<lambda>liability.
     bind (lookup_account_tx tenant ''revenue'' ''4100'') (\<lambda>revenue.
     bind (post_wallet_journal_tx now today tenant (''Pembayaran '' @ num) num ''wallet_payment'' (Some iid)
             liability revenue remaining) (\<lambda>_.
     ret (Some ((wallet_payment now tenant customer iid remaining num)\<lparr>pay_id := pid\<rparr>)))))))))"

definition pay_invoice_from_wallet ::
  "int \<Rightarrow> int \<Rightarrow> gid \<Rightarrow> gid \<Rightarrow> gid \<Rightarrow> (db, payment option) prog" where
  "pay_invoice_from_wallet now today tenant customer iid =
     bind set_tenant (\<lambda>_.
     with_tenant
       (bind (query (\<lambda>s. first_row (\<lambda>i. is_invoice tenant iid i \<and> inv_customer i = customer \<and> live i) (invoices s))) (\<lambda>row.
        case row of None \<Rightarrow> ret None
        | Some i \<Rightarrow>
            if settled_status (inv_status i) then ret None
            else let remaining = wrap64 (inv_total i - inv_paid i) in
              if remaining \<le> 0 then ret None
              else bind (query (\<lambda>s. first_row (own_wallet tenant customer) (wallets s))) (\<lambda>wrow.
                case wrow of None \<Rightarrow> ret None
                | Some w \<Rightarrow>
                    if w_balance w < remaining then ret None
                    else settle_from_wallet now today tenant customer iid (w_id w) remaining (inv_number i)))))"

section \<open>Histories\<close>

definition in_wallet_of :: "db \<Rightarrow> gid \<Rightarrow> gid \<Rightarrow> wallet_txn \<Rightarrow> bool" where
  "in_wallet_of s tenant customer x \<longleftrightarrow>
     wt_tenant x = tenant \<and> list_ex (\<lambda>w. w_id w = wt_wallet x \<and> w_customer w = customer) (wallets s)"

definition list_wallet_txns :: "gid \<Rightarrow> gid \<Rightarrow> int \<Rightarrow> int \<Rightarrow> (db, wallet_txn list \<times> int) prog" where
  "list_wallet_txns tenant customer limit offset =
     bind set_tenant (\<lambda>_.
     bind (auto (query (\<lambda>s. int (affected (in_wallet_of s tenant customer) (wallet_txns s))))) (\<lambda>n.
     bind (auto (page_query (if limit \<le> 0 \<or> 200 < limit then 50 else limit) offset (\<lambda>s.
       order_by (desc_then_id (\<lambda>x. Some (wt_created x)) wt_id) (filter (in_wallet_of s tenant customer) (wallet_txns s))))) (\<lambda>rows.
     ret (rows, n))))"

record wallet_topup =
  tu_txn :: wallet_txn
  tu_customer :: gid
  tu_name :: string
  tu_code :: string

text \<open>A transaction joined with its wallet and, where the tenant has it, the customer.\<close>

definition topup_row :: "db \<Rightarrow> wallet_txn \<Rightarrow> wallet_topup option" where
  "topup_row s x =
     (case first_row (\<lambda>w. w_id w = wt_wallet x) (wallets s) of
        None \<Rightarrow> None
      | Some w \<Rightarrow>
          let c = first_row (\<lambda>c. cust_id c = w_customer w \<and> cust_tenant c = wt_tenant x) (customers s) in
          Some \<lparr>tu_txn = x, tu_customer = w_customer w,
                tu_name = (case c of None \<Rightarrow> [] | Some r \<Rightarrow> cust_name r),
                tu_code = (case c of None \<Rightarrow> [] | Some r \<Rightarrow> cust_code r)\<rparr>)"

definition topup_filter :: "gid \<Rightarrow> string \<Rightarrow> wallet_topup \<Rightarrow> bool" where
  "topup_filter tenant search r =
     (let x = tu_txn r; q = trim_space search; pat = ''%'' @ q @ ''%''
      in wt_tenant x = tenant \<and> wt_type x \<in> {''topup'', ''topup_admin''} \<and> 0 < wt_amount x
         \<and> (q = [] \<or> ilike (tu_name r) pat \<or> ilike (tu_code r) pat
            \<or> ilike (case wt_reference x of None \<Rightarrow> [] | Some t \<Rightarrow> t) pat
            \<or> ilike (case wt_desc x of None \<Rightarrow> [] | Some t \<Rightarrow> t) pat))"

definition topup_rows :: "gid \<Rightarrow> string \<Rightarrow> db \<Rightarrow> wallet_topup list" where
  "topup_rows tenant search s = filter (topup_filter tenant search) (List.map_filter (topup_row s) (wallet_txns s))"

definition list_wallet_topups :: "gid \<Rightarrow> string \<Rightarrow> int \<Rightarrow> int \<Rightarrow> (db, wallet_topup list \<times> int) prog" where
  "list_wallet_topups tenant search limit offset =
     bind set_tenant (\<lambda>_.
     bind (auto (query (\<lambda>s. int (length (topup_rows tenant search s))))) (\<lambda>n.
     bind (auto (page_query (if limit \<le> 0 then 20 else limit) offset (\<lambda>s.
       order_by (desc_then_id (\<lambda>r. Some (wt_created (tu_txn r))) (\<lambda>r. wt_id (tu_txn r))) (topup_rows tenant search s)))) (\<lambda>rows.
     ret (rows, n))))"

section \<open>What a customer owes\<close>

text \<open>\<open>ORDER BY due_date ASC, issued_at ASC NULLS FIRST\<close>.\<close>

definition oldest_first :: "invoice \<Rightarrow> invoice \<Rightarrow> bool" where
  "oldest_first a b \<longleftrightarrow>
     (if inv_due a = inv_due b then opt_desc_last (inv_issued b) (inv_issued a) else inv_due a < inv_due b)"

definition outstanding_ids :: "bool \<Rightarrow> gid \<Rightarrow> gid \<Rightarrow> (db, gid list) prog" where
  "outstanding_ids sub_only tenant customer =
     bind set_tenant (\<lambda>_.
     auto (query (\<lambda>s. map inv_id (order_by oldest_first (filter (\<lambda>i. inv_tenant i = tenant \<and> inv_customer i = customer
        \<and> outstanding i \<and> (sub_only \<longrightarrow> inv_subscription i \<noteq> None)) (invoices s))))))"

definition outstanding_invoice_ids :: "gid \<Rightarrow> gid \<Rightarrow> (db, gid list) prog" where
  "outstanding_invoice_ids = outstanding_ids False"

definition outstanding_subscription_invoice_ids :: "gid \<Rightarrow> gid \<Rightarrow> (db, gid list) prog" where
  "outstanding_subscription_invoice_ids = outstanding_ids True"

section \<open>What a posting leaves alone\<close>

text \<open>An assertion that does not look at the journal, and only needs \<open>next_id\<close> to grow.\<close>

definition off_journal :: "(db \<Rightarrow> bool) \<Rightarrow> bool" where
  "off_journal P \<longleftrightarrow> stable P \<and>
     (\<forall>s n js ls es. P s \<longrightarrow> next_id s \<le> n \<longrightarrow>
        P (s\<lparr>next_id := n, journal_entries := js, journal_lines := ls, expenses := es\<rparr>))"

lemma off_journal_stable: "off_journal P \<Longrightarrow> stable P"
  by (simp add: off_journal_def)

lemma off_journalD:
  "off_journal P \<Longrightarrow> P s \<Longrightarrow> next_id s \<le> n \<Longrightarrow>
   P (s\<lparr>next_id := n, journal_entries := js, journal_lines := ls, expenses := es\<rparr>)"
  by (simp add: off_journal_def)

lemma keeps_lookup_account_tx [keeps_intros]: "stable P \<Longrightarrow> keeps P (lookup_account_tx t kind code)"
  unfolding lookup_account_tx_def by (intro keeps_intros)

lemma journal_writes_frame:
  assumes off: "off_journal P" and "P s"
  shows "insert_journal_entry e s = Some (x, s') \<Longrightarrow> P s'" "insert_journal_lines ls s = Some (y, s') \<Longrightarrow> P s'"
    "insert_expense p s = Some (x, s') \<Longrightarrow> P s'"
  using off_journalD [OF assms, where n = "next_id s'" and js = "journal_entries s'"
      and ls = "journal_lines s'" and es = "expenses s'"]
  by (auto simp: insert_journal_entry_def insert_journal_lines_def insert_expense_def split: if_splits)

lemma keeps_journal_writes [keeps_intros]:
  assumes "off_journal P"
  shows "keeps P (exec (insert_journal_entry e))" "keeps P (exec (insert_journal_lines ls))"
    "keeps P (exec (insert_expense p))"
  by (intro keeps_exec off_journal_stable [OF assms], erule (1) journal_writes_frame [OF assms])+

lemma keeps_post_wallet_journal [keeps_intros]:
  assumes off: "off_journal P"
  shows "keeps P (post_wallet_journal_tx now today t desc ref st sid debit credit amount)"
  unfolding post_wallet_journal_tx_def by (intro keeps_intros off)

section \<open>Balances\<close>

definition wallets_off :: "gid \<Rightarrow> int \<Rightarrow> db \<Rightarrow> bool" where
  "wallets_off k d s \<longleftrightarrow> off_by w_id w_balance wt_wallet wt_amount k d (wallets s) (wallet_txns s)
     \<and> fresh_keys w_id (wallets s) (next_id s)
     \<and> distinct (map (\<lambda>w. (w_tenant w, w_customer w)) (wallets s))"

definition wallets_ok :: "db \<Rightarrow> bool" where
  "wallets_ok s \<longleftrightarrow> wallets_off 0 0 s"

lemma wallets_off_0: "wallets_off k 0 s = wallets_ok s"
  by (simp add: wallets_ok_def wallets_off_def off_by_0)

lemma wallets_frame:
  "wallets s' = wallets s \<Longrightarrow> wallet_txns s' = wallet_txns s \<Longrightarrow> next_id s \<le> next_id s' \<Longrightarrow>
   wallets_off k d s \<Longrightarrow> wallets_off k d s'"
  using fresh_keys_mono [of w_id "wallets s" "next_id s" "next_id s'"] by (auto simp: wallets_off_def)

lemma stable_wallets_off: "stable (wallets_off k d)"
  by (simp add: stable_def wallets_off_def)

lemma off_journal_wallets: "off_journal (wallets_off k d)"
  unfolding off_journal_def using stable_wallets_off by (auto elim!: wallets_frame [rotated -1])

lemma stable_wallets_ok: "stable wallets_ok"
  by (simp add: stable_def wallets_ok_def wallets_off_def)

lemma own_wallet_unique:
  "wallets_off k d s \<Longrightarrow> v \<in> set (wallets s) \<Longrightarrow> own_wallet t c v \<Longrightarrow> w \<in> set (wallets s) \<Longrightarrow> own_wallet t c w \<Longrightarrow> v = w"
  using unique_row [of "\<lambda>w. (w_tenant w, w_customer w)" "wallets s" v w]
  by (simp add: wallets_off_def own_wallet_def)

lemma wallets_shift:
  assumes ok: "wallets_ok s" and p: "\<And>x. x \<in> set (wallets s) \<Longrightarrow> p x \<longleftrightarrow> w_id x = k"
  shows "wallets_off k e (s\<lparr>wallets := update_rows p (\<lambda>x. x\<lparr>w_balance := w_balance x + e\<rparr>) (wallets s)\<rparr>)"
proof -
  let ?ws = "update_rows p (\<lambda>x. x\<lparr>w_balance := w_balance x + e\<rparr>) (wallets s)"
  have "off_by w_id w_balance wt_wallet wt_amount k 0 (wallets s) (wallet_txns s)"
    using ok by (simp add: wallets_ok_def wallets_off_def off_by_0)
  from wallet_balance.shift [OF this p]
  have "off_by w_id w_balance wt_wallet wt_amount k e ?ws (wallet_txns s)" by simp
  moreover have "map (\<lambda>w. (w_tenant w, w_customer w)) ?ws = map (\<lambda>w. (w_tenant w, w_customer w)) (wallets s)"
    by (rule map_update_rows) simp
  moreover have "fresh_keys w_id ?ws n = fresh_keys w_id (wallets s) n" for n
    by (rule fresh_keys_update) simp
  ultimately show ?thesis using ok by (simp only: wallets_ok_def wallets_off_def) simp
qed

lemma wallet_by_id:
  "wallets_ok s \<Longrightarrow> v \<in> set (wallets s) \<Longrightarrow> w \<in> set (wallets s) \<Longrightarrow> w_id v = w_id w \<Longrightarrow> v = w"
  using unique_row [of w_id "wallets s" v w] by (simp add: wallets_ok_def wallets_off_def fresh_keys_def)

lemma upsert_wallet_off:
  assumes u: "upsert_wallet t c amount s = Some ((wid, b), s')" and ok: "wallets_ok s"
  shows "wallets_off wid amount s'"
proof (cases "first_row (own_wallet t c) (wallets s)")
  case None
  define w where "w = \<lparr>w_id = next_id s, w_tenant = t, w_customer = c, w_balance = amount\<rparr>"
  have s': "wid = next_id s" "s' = s\<lparr>next_id := Suc (next_id s), wallets := wallets s @ [w]\<rparr>"
    using u None by (auto simp: upsert_wallet_def w_def split: if_splits)
  have new: "w_id w \<notin> w_id ` set (wallets s)"
    using ok by (auto simp: wallets_ok_def wallets_off_def fresh_keys_def w_def)
  have "off_by w_id w_balance wt_wallet wt_amount (w_id w) (w_balance w) (wallets s @ [w]) (wallet_txns s)"
    using ok new by (intro wallet_balance.holder_new) (auto simp: wallets_ok_def wallets_off_def agree_def)
  moreover have "\<forall>x\<in>set (wallets s). \<not> own_wallet t c x" using None by (simp add: first_row_None)
  ultimately show ?thesis using ok fresh_keys_append [of w_id "wallets s" "next_id s" w]
    by (auto simp: s' w_def wallets_ok_def wallets_off_def own_wallet_def)
next
  case (Some w)
  note w = first_row_Some [OF Some]
  have s': "wid = w_id w" "s' = s\<lparr>wallets := update_rows (own_wallet t c) (\<lambda>x. x\<lparr>w_balance := w_balance x + amount\<rparr>) (wallets s)\<rparr>"
    using u Some by (auto simp: upsert_wallet_def split: if_splits)
  have "own_wallet t c x \<longleftrightarrow> w_id x = wid" if x: "x \<in> set (wallets s)" for x
    using own_wallet_unique [OF ok [unfolded wallets_ok_def] x] wallet_by_id [OF ok x] w s'(1) by blast
  then show ?thesis unfolding s'(2) by (rule wallets_shift [OF ok])
qed

lemma insert_wallet_txn_off:
  assumes u: "insert_wallet_txn x s = Some (y, s')" and off: "wallets_off (wt_wallet x) d s"
  shows "wallets_off (wt_wallet x) (d - wt_amount x) s'"
proof -
  have s': "s' = s\<lparr>next_id := Suc (next_id s), wallet_txns := wallet_txns s @ [x\<lparr>wt_id := next_id s\<rparr>]\<rparr>"
    "wt_wallet x \<in> w_id ` set (wallets s)"
    using u by (auto simp: insert_wallet_txn_def list_ex_iff split: if_splits intro: rev_image_eqI)
  have "off_by w_id w_balance wt_wallet wt_amount (wt_wallet x) (d - wt_amount (x\<lparr>wt_id := next_id s\<rparr>)) (wallets s)
      (wallet_txns s @ [x\<lparr>wt_id := next_id s\<rparr>])"
    using off s'(2) by (intro wallet_balance.append_row) (auto simp: wallets_off_def)
  then show ?thesis using off fresh_keys_mono [of w_id "wallets s" "next_id s" "Suc (next_id s)"]
    by (simp add: wallets_off_def s'(1))
qed

lemma take_from_wallet_off:
  assumes u: "take_from_wallet t (w_id w) amount s = Some (y, s')" and ok: "wallets_ok s"
    and w: "w \<in> set (wallets s)" "w_tenant w = t"
  shows "wallets_off (w_id w) (- amount) s'"
proof -
  have s': "s' = s\<lparr>wallets := update_rows (\<lambda>x. w_tenant x = t \<and> w_id x = w_id w)
      (\<lambda>x. x\<lparr>w_balance := w_balance x + (- amount)\<rparr>) (wallets s)\<rparr>"
    using u by (auto simp: take_from_wallet_def split: if_splits)
  have "(w_tenant x = t \<and> w_id x = w_id w) \<longleftrightarrow> w_id x = w_id w" if "x \<in> set (wallets s)" for x
    using wallet_by_id [OF ok that w(1)] w(2) by blast
  then show ?thesis unfolding s' by (rule wallets_shift [OF ok])
qed

text \<open>Assertions that do not look at the wallets, or at the invoices and payments.\<close>

definition off_wallets :: "(db \<Rightarrow> bool) \<Rightarrow> bool" where
  "off_wallets P \<longleftrightarrow> stable P \<and>
     (\<forall>s n ws xs. P s \<longrightarrow> next_id s \<le> n \<longrightarrow> P (s\<lparr>next_id := n, wallets := ws, wallet_txns := xs\<rparr>))"

definition off_payments :: "(db \<Rightarrow> bool) \<Rightarrow> bool" where
  "off_payments P \<longleftrightarrow> stable P \<and>
     (\<forall>s n vs its ps qs. P s \<longrightarrow> next_id s \<le> n \<longrightarrow>
        P (s\<lparr>next_id := n, invoices := vs, invoice_items := its, payments := ps, intents := qs\<rparr>))"

lemma off_walletsD:
  "off_wallets P \<Longrightarrow> P s \<Longrightarrow> next_id s \<le> n \<Longrightarrow> P (s\<lparr>next_id := n, wallets := ws, wallet_txns := xs\<rparr>)"
  by (simp add: off_wallets_def)

lemma off_paymentsD:
  "off_payments P \<Longrightarrow> P s \<Longrightarrow> next_id s \<le> n \<Longrightarrow>
   P (s\<lparr>next_id := n, invoices := vs, invoice_items := its, payments := ps, intents := qs\<rparr>)"
  by (simp add: off_payments_def)

lemma off_payments_stable: "off_payments P \<Longrightarrow> stable P"
  by (simp add: off_payments_def)

lemma off_wallets_stable: "off_wallets P \<Longrightarrow> stable P"
  by (simp add: off_wallets_def)

lemma upsert_wallet_frame:
  assumes "off_wallets P" and "P s" and "upsert_wallet t c amount s = Some (x, s')"
  shows "P s'"
  using off_walletsD [OF assms(1,2), where n = "next_id s'" and ws = "wallets s'" and xs = "wallet_txns s"] assms(3)
  by (auto simp: upsert_wallet_def split: option.splits if_splits)

lemma insert_wallet_txn_frame:
  assumes "off_wallets P" and "P s" and "insert_wallet_txn t s = Some (x, s')"
  shows "P s'"
  using off_walletsD [OF assms(1,2), where n = "next_id s'" and ws = "wallets s" and xs = "wallet_txns s'"] assms(3)
  by (auto simp: insert_wallet_txn_def split: if_splits)

lemma take_from_wallet_frame:
  assumes "off_wallets P" and "P s" and "take_from_wallet t w amount s = Some (x, s')"
  shows "P s'"
  using off_walletsD [OF assms(1,2), where n = "next_id s" and ws = "wallets s'" and xs = "wallet_txns s"] assms(3)
  by (auto simp: take_from_wallet_def split: if_splits)

lemma payment_writes_frame:
  assumes off: "off_payments P" and "P s"
  shows "insert_payment p s = Some (x, s') \<Longrightarrow> P s'" "update_invoices q f s = Some (n, s') \<Longrightarrow> P s'"
    "update_payments q' g s = Some (n, s') \<Longrightarrow> P s'" "insert_invoice now i s = Some (x, s') \<Longrightarrow> P s'"
    "insert_item t iid it s = Some (u, s') \<Longrightarrow> P s'" "delete_invoice_rows q s = Some (n, s') \<Longrightarrow> P s'"
  using off_paymentsD [OF assms, where n = "next_id s'" and vs = "invoices s'" and its = "invoice_items s'"
      and ps = "payments s'" and qs = "intents s'"]
  by (auto simp: insert_payment_def update_payments_def insert_invoice_def insert_item_def delete_invoice_rows_def
      Let_def update_invoices_def split: if_splits)

lemma keeps_wallet_writes [keeps_intros]:
  assumes "off_wallets P"
  shows "keeps P (exec (upsert_wallet t c amount))" "keeps P (insert_wallet_txn_tx now t w amount kind ref desc)"
    "keeps P (exec (insert_wallet_txn x))" "keeps P (exec (take_from_wallet t w amount))"
  using assms unfolding insert_wallet_txn_tx_def
  by (auto simp: off_wallets_def intro!: keeps_exec
      intro: upsert_wallet_frame [OF assms] insert_wallet_txn_frame [OF assms] take_from_wallet_frame [OF assms])

lemma keeps_payment_writes [keeps_intros]:
  assumes off: "off_payments P"
  shows "keeps P (exec (insert_payment p))" "keeps P (exec (update_invoices q f))"
    "keeps P (exec (update_payments q' g))" "keeps P (exec (insert_invoice now i))"
    "keeps P (exec (insert_item t iid it))" "keeps P (exec (delete_invoice_rows q))"
  by (intro keeps_exec off_payments_stable [OF off], erule (1) payment_writes_frame [OF off])+

lemma books_off_wallets: "off_wallets books_ok" "off_payments books_ok"
  unfolding off_wallets_def off_payments_def books_ok_def using stable_books_off
  by (auto elim!: books_frame [rotated -1])

lemma own_off_wallets: "off_wallets (nil_or_own t a)" "off_payments (nil_or_own t a)"
  by (auto simp: off_wallets_def off_payments_def stable_def nil_or_own_def own_account_def)

lemma keys_ok_grows: "keys_ok s \<Longrightarrow> next_id s \<le> n \<Longrightarrow> keys_ok (s\<lparr>next_id := n\<rparr>)"
  using fresh_keys_mono [of inv_id "invoices s" "next_id s" n] fresh_keys_mono [of pay_id "payments s" "next_id s" n]
  by (force simp: keys_ok_def)

lemma paid_off_frame:
  "invoices s' = invoices s \<Longrightarrow> payments s' = payments s \<Longrightarrow> next_id s \<le> next_id s' \<Longrightarrow> paid_off d s \<Longrightarrow> paid_off d s'"
  using keys_ok_grows [of s "next_id s'"] by (simp add: paid_off_def keys_ok_def)

lemma paid_off_wallets: "off_wallets (paid_off d)" "off_journal (paid_off d)"
  unfolding off_wallets_def off_journal_def using stable_paid_off
  by (auto elim!: paid_off_frame [rotated -1])

lemma wallets_off_payments: "off_payments (wallets_off k d)"
  unfolding off_payments_def using stable_wallets_off by (auto elim!: wallets_frame [rotated -1])

lemma off_conj:
  "off_wallets P \<Longrightarrow> off_wallets Q \<Longrightarrow> off_wallets (\<lambda>s. P s \<and> Q s)"
  "off_payments P \<Longrightarrow> off_payments Q \<Longrightarrow> off_payments (\<lambda>s. P s \<and> Q s)"
  "off_journal P \<Longrightarrow> off_journal Q \<Longrightarrow> off_journal (\<lambda>s. P s \<and> Q s)"
  by (auto simp: off_wallets_def off_payments_def off_journal_def)

section \<open>Every wallet call keeps the balances, the paid amounts and the books\<close>

lemma gives_bind2:
  "gives P m (\<lambda>(a, b). R a b) \<Longrightarrow> (\<And>a b. gives (R a b) (f a b) Q) \<Longrightarrow> gives P (bind m (\<lambda>(a, b). f a b)) Q"
  by (rule gives_bind) (auto split: prod.split)

lemma upsert_wallet_gives:
  "gives wallets_ok (exec (upsert_wallet t c amount)) (\<lambda>(wid, b). wallets_off wid amount)"
  using upsert_wallet_off by (intro gives_exec stable_wallets_ok) auto

lemma insert_wallet_txn_gives:
  "gives (wallets_off (wt_wallet x) (wt_amount x)) (exec (insert_wallet_txn x)) (\<lambda>_. wallets_ok)"
proof -
  have "wallets_ok s'" if "wallets_off (wt_wallet x) (wt_amount x) s" "insert_wallet_txn x s = Some (y, s')" for s y s'
    using insert_wallet_txn_off [OF that(2,1)] by (simp add: wallets_off_0)
  then show ?thesis by (intro gives_exec stable_wallets_off)
qed

lemma insert_wallet_txn_tx_gives:
  "gives (wallets_off wid amount) (insert_wallet_txn_tx now t wid amount kind ref desc) (\<lambda>_. wallets_ok)"
  unfolding insert_wallet_txn_tx_def
  using insert_wallet_txn_gives [of "\<lparr>wt_id = 0, wt_tenant = t, wt_wallet = wid, wt_amount = amount, wt_type = kind,
       wt_reference = opt_text ref, wt_desc = opt_text desc, wt_created = now\<rparr>"] by simp

lemma credit_wallet_wallets_ok: "keeps wallets_ok (credit_wallet now t c amount kind ref desc)"
  unfolding credit_wallet_def
proof (intro keeps_tx stable_wallets_ok gives_bind2 [OF upsert_wallet_gives])
  fix wid b
  show "gives (wallets_off wid amount) (exec (insert_wallet_txn \<lparr>wt_id = 0, wt_tenant = t, wt_wallet = wid,
      wt_amount = amount, wt_type = kind, wt_reference = Some ref, wt_desc = Some desc, wt_created = now\<rparr>)) (\<lambda>_. wallets_ok)"
    using insert_wallet_txn_gives [of "\<lparr>wt_id = 0, wt_tenant = t, wt_wallet = wid,
      wt_amount = amount, wt_type = kind, wt_reference = Some ref, wt_desc = Some desc, wt_created = now\<rparr>"] by simp
qed

lemma off_journal_wallets_ok: "off_journal wallets_ok" "off_payments wallets_ok"
  using off_journal_wallets [of 0 0] wallets_off_payments [of 0 0] by (simp_all add: wallets_ok_def [abs_def])

lemma topup_wallet_wallets_ok: "keeps wallets_ok (topup_wallet now today t c amount kind ref desc)"
  unfolding topup_wallet_def Let_def
  by (intro keeps_intros keeps_with_tenant stable_wallets_ok gives_bind2 [OF upsert_wallet_gives]
      gives_bind [OF insert_wallet_txn_tx_gives] gives_keeps off_journal_wallets_ok)

lemma settle_from_wallet_wallets_ok:
  "gives (\<lambda>s. wallets_ok s \<and> (\<exists>w\<in>set (wallets s). w_id w = wid \<and> w_tenant w = t))
     (settle_from_wallet now today t c iid wid remaining num) (\<lambda>_. wallets_ok)"
proof -
  let ?R = "\<lambda>s. wallets_ok s \<and> (\<exists>w\<in>set (wallets s). w_id w = wid \<and> w_tenant w = t)"
  have "stable ?R" by (simp add: stable_def wallets_ok_def wallets_off_def)
  moreover have "wallets_off wid (- remaining) s'" if "?R s" "take_from_wallet t wid remaining s = Some (x, s')" for s x s'
    using that take_from_wallet_off [of t _ remaining s x s'] by blast
  ultimately have g: "gives ?R (exec (take_from_wallet t wid remaining)) (\<lambda>_. wallets_off wid (- remaining))"
    by (rule gives_exec)
  show ?thesis unfolding settle_from_wallet_def
    by (intro gives_bind [OF g] gives_bind [OF insert_wallet_txn_tx_gives] gives_keeps keeps_intros
        stable_wallets_ok off_journal_wallets_ok)
qed

text \<open>What the guards of \<open>PayInvoiceFromWallet\<close> have established when it settles.\<close>

definition ready :: "gid \<Rightarrow> gid \<Rightarrow> gid \<Rightarrow> invoice \<Rightarrow> wallet \<Rightarrow> db \<Rightarrow> bool" where
  "ready t c iid i w s \<longleftrightarrow> i \<in> set (invoices s) \<and> is_invoice t iid i \<and> live i \<and> inv_customer i = c
     \<and> \<not> settled_status (inv_status i) \<and> w \<in> set (wallets s) \<and> own_wallet t c w
     \<and> 0 < wrap64 (inv_total i - inv_paid i) \<and> wrap64 (inv_total i - inv_paid i) \<le> w_balance w"

lemma stable_ready: "stable (ready t c iid i w)"
  by (simp add: stable_def ready_def)

lemma gives_query_first:
  "stable P \<Longrightarrow> gives P (query (\<lambda>s. first_row p (f s))) (\<lambda>row s. P s \<and> (\<forall>r. row = Some r \<longrightarrow> r \<in> set (f s) \<and> p r))"
  by (rule gives_query) (auto dest: first_row_Some)

lemma pay_invoice_gives:
  assumes P: "stable P" and Q: "\<And>r. stable (Q r)" and none: "\<And>s. P s \<Longrightarrow> Q None s"
    and settle: "\<And>i w. gives (\<lambda>s. P s \<and> ready t c iid i w s)
      (settle_from_wallet now today t c iid (w_id w) (wrap64 (inv_total i - inv_paid i)) (inv_number i)) Q"
  shows "gives P (bind (query (\<lambda>s. first_row (\<lambda>i. is_invoice t iid i \<and> inv_customer i = c \<and> live i) (invoices s))) (\<lambda>row.
        case row of None \<Rightarrow> ret None
        | Some i \<Rightarrow>
            if settled_status (inv_status i) then ret None
            else let remaining = wrap64 (inv_total i - inv_paid i) in
              if remaining \<le> 0 then ret None
              else bind (query (\<lambda>s. first_row (own_wallet t c) (wallets s))) (\<lambda>wrow.
                case wrow of None \<Rightarrow> ret None
                | Some w \<Rightarrow>
                    if w_balance w < remaining then ret None
                    else settle_from_wallet now today t c iid (w_id w) remaining (inv_number i)))) Q"
proof (rule gives_bind)
  let ?I = "\<lambda>i s. i \<in> set (invoices s) \<and> is_invoice t iid i \<and> inv_customer i = c \<and> live i"
  show "gives P (query (\<lambda>s. first_row (\<lambda>i. is_invoice t iid i \<and> inv_customer i = c \<and> live i) (invoices s)))
      (\<lambda>row s. P s \<and> (\<forall>i. row = Some i \<longrightarrow> ?I i s))"
    by (rule gives_query_first [OF P])
  fix row
  show "gives (\<lambda>s. P s \<and> (\<forall>i. row = Some i \<longrightarrow> ?I i s)) (case row of None \<Rightarrow> ret None
        | Some i \<Rightarrow>
            if settled_status (inv_status i) then ret None
            else let remaining = wrap64 (inv_total i - inv_paid i) in
              if remaining \<le> 0 then ret None
              else bind (query (\<lambda>s. first_row (own_wallet t c) (wallets s))) (\<lambda>wrow.
                case wrow of None \<Rightarrow> ret None
                | Some w \<Rightarrow>
                    if w_balance w < remaining then ret None
                    else settle_from_wallet now today t c iid (w_id w) remaining (inv_number i))) Q"
  proof (cases row)
    case None
    then show ?thesis using none by (auto intro: gives_ret)
  next
    case (Some i)
    define rem where "rem = wrap64 (inv_total i - inv_paid i)"
    let ?W = "\<lambda>wrow s. (P s \<and> ?I i s) \<and> (\<forall>w. wrow = Some w \<longrightarrow> w \<in> set (wallets s) \<and> own_wallet t c w)"
    have st: "stable (\<lambda>s. P s \<and> ?I i s)" by (intro stable_conj P) (auto simp: stable_def)
    have w: "gives (\<lambda>s. P s \<and> ?I i s) (query (\<lambda>s. first_row (own_wallet t c) (wallets s))) ?W"
      by (rule gives_query_first [OF st])
    have "gives (?W wrow) (case wrow of None \<Rightarrow> ret None
        | Some w \<Rightarrow> if w_balance w < rem then ret None
            else settle_from_wallet now today t c iid (w_id w) rem (inv_number i)) Q" if "0 < rem" "\<not> settled_status (inv_status i)" for wrow
    proof (cases wrow)
      case None
      then show ?thesis using none by (auto intro: gives_ret)
    next
      case (Some w)
      show ?thesis
      proof (cases "w_balance w < rem")
        case True
        then show ?thesis using none Some by (auto intro: gives_ret)
      next
        case False
        have "gives (?W wrow) (settle_from_wallet now today t c iid (w_id w) rem (inv_number i)) Q"
          unfolding rem_def by (rule gives_mono [OF settle [of i w]]) (use False that Some in \<open>auto simp: ready_def rem_def\<close>)
        then show ?thesis using False Some by simp
      qed
    qed
    then have "0 < rem \<Longrightarrow> \<not> settled_status (inv_status i) \<Longrightarrow> gives (\<lambda>s. P s \<and> ?I i s) (bind (query (\<lambda>s. first_row (own_wallet t c) (wallets s))) (\<lambda>wrow. case wrow of None \<Rightarrow> ret None
        | Some w \<Rightarrow> if w_balance w < rem then ret None
            else settle_from_wallet now today t c iid (w_id w) rem (inv_number i))) Q"
      using gives_bind [OF w] by blast
    then show ?thesis unfolding Some option.case Let_def rem_def [symmetric]
      using none by (auto intro: gives_ret)
  qed
qed

lemma pay_invoice_keeps:
  assumes P: "stable P" and settle: "\<And>i w. gives (\<lambda>s. P s \<and> ready t c iid i w s)
      (settle_from_wallet now today t c iid (w_id w) (wrap64 (inv_total i - inv_paid i)) (inv_number i)) (\<lambda>_. P)"
  shows "keeps P (pay_invoice_from_wallet now today t c iid)"
  unfolding pay_invoice_from_wallet_def
  by (rule keeps_bind [OF keeps_set_tenant [OF P] keeps_with_tenant [OF P pay_invoice_gives [OF P P _ settle]]])

lemma pay_invoice_wallets_ok: "keeps wallets_ok (pay_invoice_from_wallet now today t c iid)"
  by (rule pay_invoice_keeps [OF stable_wallets_ok], rule gives_mono [OF settle_from_wallet_wallets_ok])
    (auto simp: ready_def own_wallet_def)

text \<open>Paid amounts.\<close>

lemma add_paid_simps [simp]:
  "inv_id (add_paid now a i) = inv_id i" "inv_tenant (add_paid now a i) = inv_tenant i"
  "inv_paid (add_paid now a i) = inv_paid i + a" "inv_deleted (add_paid now a i) = inv_deleted i"
  "inv_total (add_paid now a i) = inv_total i"
  by (simp_all add: add_paid_def Let_def)

lemma wallet_payment_paid_gives:
  assumes "0 \<le> amount"
  shows "gives paid_ok (exec (insert_payment (wallet_payment now t c iid amount num)))
     (\<lambda>_. paid_off (\<lambda>i. if is_invoice t iid i then amount else 0))"
proof -
  have "paid_off (\<lambda>i. if is_invoice t iid i then amount else 0) s'"
    if "paid_ok s" "insert_payment (wallet_payment now t c iid amount num) s = Some (x, s')" for s x s'
  proof -
    have "pays i ((wallet_payment now t c iid amount num)\<lparr>pay_deleted := None\<rparr>) \<longleftrightarrow> is_invoice t iid i" for i
      by (auto simp: pays_def wallet_payment_def is_invoice_def)
    moreover have "pay_amount (wallet_payment now t c iid amount num) = amount" by (simp add: wallet_payment_def)
    ultimately show ?thesis using insert_payment_paid_off [OF that(2,1)] assms by (simp cong: if_cong)
  qed
  then show ?thesis by (intro gives_exec stable_paid_ok)
qed

lemma add_paid_gives:
  "gives (paid_off (\<lambda>i. if is_invoice t iid i then amount else 0))
     (exec (update_invoices (is_invoice t iid) (add_paid now amount))) (\<lambda>_. paid_ok)"
proof -
  have "paid_ok s'" if "paid_off (\<lambda>i. if is_invoice t iid i then amount else 0) s"
    "update_invoices (is_invoice t iid) (add_paid now amount) s = Some (n, s')" for s n s'
    unfolding paid_off_0 using that
    by (rule paid_off_update_invoices) (auto simp: live_def)
  then show ?thesis by (intro gives_exec stable_paid_off)
qed

lemma paid_ok_wallets: "off_wallets paid_ok" "off_journal paid_ok"
  using paid_off_wallets by (simp_all add: paid_off_0)

lemma settle_from_wallet_paid_ok:
  assumes "0 \<le> remaining"
  shows "gives paid_ok (settle_from_wallet now today t c iid wid remaining num) (\<lambda>_. paid_ok)"
  unfolding settle_from_wallet_def
  by (rule gives_bind [OF gives_keeps], intro keeps_intros paid_ok_wallets,
      rule gives_bind [OF gives_keeps], intro keeps_intros paid_ok_wallets,
      rule gives_bind [OF wallet_payment_paid_gives [OF assms]], rule gives_bind [OF add_paid_gives],
      intro gives_keeps keeps_intros stable_paid_ok paid_ok_wallets)

lemma pay_invoice_paid_ok: "keeps paid_ok (pay_invoice_from_wallet now today t c iid)"
proof (rule pay_invoice_keeps [OF stable_paid_ok])
  fix i w
  show "gives (\<lambda>s. paid_ok s \<and> ready t c iid i w s)
      (settle_from_wallet now today t c iid (w_id w) (wrap64 (inv_total i - inv_paid i)) (inv_number i)) (\<lambda>_. paid_ok)"
  proof (cases "0 \<le> wrap64 (inv_total i - inv_paid i)")
    case True
    then show ?thesis by (rule gives_mono [OF settle_from_wallet_paid_ok]) auto
  next
    case False
    then show ?thesis by (auto simp: gives_def ready_def)
  qed
qed

lemma topup_wallet_paid_ok: "keeps paid_ok (topup_wallet now today t c amount kind ref desc)"
  unfolding topup_wallet_def Let_def
  by (intro keeps_intros keeps_with_tenant stable_paid_ok gives_keeps paid_ok_wallets)

lemma credit_wallet_paid_ok: "keeps paid_ok (credit_wallet now t c amount kind ref desc)"
  unfolding credit_wallet_def
  by (intro keeps_intros keeps_tx stable_paid_ok gives_keeps paid_ok_wallets)

text \<open>The books.\<close>

lemma lookups_then_post_gives:
  assumes "stable P" "\<And>s. P s \<Longrightarrow> books_ok s"
  shows "gives P (bind (lookup_account_tx t k1 c1) (\<lambda>a. bind (lookup_account_tx t k2 c2) (\<lambda>b.
     bind (post_wallet_journal_tx now today t desc ref st sid a b amount) (\<lambda>_. ret x)))) (\<lambda>_. books_ok)"
proof -
  let ?N = "\<lambda>a s. nil_or_own t a s"
  have g1: "gives P (lookup_account_tx t k1 c1) (\<lambda>a s. P s \<and> ?N a s)"
    by (rule lookup_account_tx_gives [OF assms(1)])
  have g2: "gives (\<lambda>s. P s \<and> ?N a s) (lookup_account_tx t k2 c2) (\<lambda>b s. (P s \<and> ?N a s) \<and> ?N b s)" for a
    by (rule lookup_account_tx_gives [OF stable_conj [OF assms(1) stable_nil_or_own]])
  have g3: "gives (\<lambda>s. (P s \<and> ?N a s) \<and> ?N b s) (post_wallet_journal_tx now today t desc ref st sid a b amount) (\<lambda>_. books_ok)" for a b
    using assms(2) by (intro gives_mono [OF post_wallet_journal_tx_gives]) auto
  show ?thesis by (rule gives_bind [OF g1], rule gives_bind [OF g2], rule gives_bind [OF g3], rule gives_ret)
qed

lemma topup_wallet_books_ok: "keeps books_ok (topup_wallet now today t c amount kind ref desc)"
proof -
  have "gives books_ok (bind (exec (upsert_wallet t c amount)) (\<lambda>(wid, nb).
           bind (insert_wallet_txn_tx now t wid amount k ref desc) (\<lambda>_.
           bind (lookup_account_tx t ''asset'' ''1110'') (\<lambda>cash.
           bind (lookup_account_tx t ''liability'' ''2100'') (\<lambda>liability.
           bind (post_wallet_journal_tx now today t ''Topup saldo'' ref ''wallet_topup'' (Some c) cash liability amount) (\<lambda>_.
           ret nb)))))) (\<lambda>_. books_ok)" for k
    by (rule gives_bind [OF gives_keeps]) (auto intro: keeps_intros books_off_wallets
      intro!: gives_bind [OF gives_keeps] lookups_then_post_gives [OF stable_books_ok] split: prod.split)
  then show ?thesis unfolding topup_wallet_def Let_def
    by (intro keeps_intros keeps_with_tenant stable_books_ok)
qed

lemma credit_wallet_books_ok: "keeps books_ok (credit_wallet now t c amount kind ref desc)"
  unfolding credit_wallet_def
  by (intro keeps_intros keeps_tx stable_books_ok gives_keeps books_off_wallets)

lemma settle_from_wallet_books_ok:
  "gives books_ok (settle_from_wallet now today t c iid wid remaining num) (\<lambda>_. books_ok)"
  unfolding settle_from_wallet_def
  by (rule gives_bind [OF gives_keeps], intro keeps_intros books_off_wallets,
      rule gives_bind [OF gives_keeps], intro keeps_intros books_off_wallets,
      rule gives_bind [OF gives_keeps], intro keeps_intros books_off_wallets,
      rule gives_bind [OF gives_keeps], intro keeps_intros books_off_wallets,
      rule lookups_then_post_gives [OF stable_books_ok])

lemma pay_invoice_books_ok: "keeps books_ok (pay_invoice_from_wallet now today t c iid)"
  by (rule pay_invoice_keeps [OF stable_books_ok], rule gives_mono [OF settle_from_wallet_books_ok]) auto

section \<open>Paying is all or nothing\<close>

definition tables_are :: "wallet list \<Rightarrow> wallet_txn list \<Rightarrow> invoice list \<Rightarrow> payment list \<Rightarrow> gid \<Rightarrow> db \<Rightarrow> bool" where
  "tables_are ws xs vs ps n s \<longleftrightarrow>
     wallets s = ws \<and> wallet_txns s = xs \<and> invoices s = vs \<and> payments s = ps \<and> next_id s = n"

lemma stable_tables_are: "stable (tables_are ws xs vs ps n)"
  by (simp add: stable_def tables_are_def)

lemma off_journal_tables: "off_journal (\<lambda>s. \<exists>m. tables_are ws xs vs ps m s)"
  by (auto simp: off_journal_def stable_def tables_are_def)

definition wallet_taking :: "int \<Rightarrow> gid \<Rightarrow> gid \<Rightarrow> int \<Rightarrow> string \<Rightarrow> gid \<Rightarrow> wallet_txn" where
  "wallet_taking now t wid amount num n = \<lparr>wt_id = n, wt_tenant = t, wt_wallet = wid, wt_amount = - amount,
     wt_type = ''invoice_payment'', wt_reference = opt_text num, wt_desc = opt_text (''Bayar tagihan '' @ num), wt_created = now\<rparr>"

lemma settle_from_wallet_gives:
  "gives (tables_are ws xs vs ps n) (settle_from_wallet now today t c iid wid amount num)
     (\<lambda>r s. (r = Some ((wallet_payment now t c iid amount num)\<lparr>pay_id := Suc n\<rparr>) \<and>
         (\<forall>j\<in>set vs. is_invoice t iid j \<longrightarrow> invoice_amounts_ok (add_paid now amount j))) \<and>
        (\<exists>m. tables_are (update_rows (\<lambda>w. w_tenant w = t \<and> w_id w = wid) (\<lambda>w. w\<lparr>w_balance := w_balance w - amount\<rparr>) ws)
           (xs @ [wallet_taking now t wid amount num n])
           (update_rows (is_invoice t iid) (add_paid now amount) vs)
           (ps @ [(wallet_payment now t c iid amount num)\<lparr>pay_id := Suc n\<rparr>]) m s))"
proof -
  let ?ws = "update_rows (\<lambda>w. w_tenant w = t \<and> w_id w = wid) (\<lambda>w. w\<lparr>w_balance := w_balance w - amount\<rparr>) ws"
  let ?xs = "xs @ [wallet_taking now t wid amount num n]"
  let ?vs = "update_rows (is_invoice t iid) (add_paid now amount) vs"
  let ?p = "(wallet_payment now t c iid amount num)\<lparr>pay_id := Suc n\<rparr>"
  let ?ok = "\<forall>j\<in>set vs. is_invoice t iid j \<longrightarrow> invoice_amounts_ok (add_paid now amount j)"
  let ?paid_up = "\<lambda>s. \<exists>m. tables_are ?ws ?xs ?vs (ps @ [?p]) m s"
  have g1: "gives (tables_are ws xs vs ps n) (exec (take_from_wallet t wid amount)) (\<lambda>_. tables_are ?ws xs vs ps n)"
    by (rule gives_exec [OF stable_tables_are]) (auto simp: take_from_wallet_def tables_are_def split: if_splits)
  have g2: "gives (tables_are ?ws xs vs ps n)
      (insert_wallet_txn_tx now t wid (- amount) ''invoice_payment'' num (''Bayar tagihan '' @ num)) (\<lambda>_. tables_are ?ws ?xs vs ps (Suc n))"
    unfolding insert_wallet_txn_tx_def
    by (rule gives_exec [OF stable_tables_are]) (auto simp: insert_wallet_txn_def wallet_taking_def tables_are_def split: if_splits)
  have g3: "gives (tables_are ?ws ?xs vs ps (Suc n)) (exec (insert_payment (wallet_payment now t c iid amount num)))
      (\<lambda>pid s. pid = Suc n \<and> tables_are ?ws ?xs vs (ps @ [?p]) (Suc (Suc n)) s)"
    by (rule gives_exec [OF stable_tables_are])
      (auto simp: insert_payment_def tables_are_def wallet_payment_def split: if_splits)
  have g4: "gives (\<lambda>s. pid = Suc n \<and> tables_are ?ws ?xs vs (ps @ [?p]) (Suc (Suc n)) s)
      (exec (update_invoices (is_invoice t iid) (add_paid now amount))) (\<lambda>_ s. (pid = Suc n \<and> ?ok) \<and> ?paid_up s)" for pid
  proof (rule gives_exec)
    show "stable (\<lambda>s. pid = Suc n \<and> tables_are ?ws ?xs vs (ps @ [?p]) (Suc (Suc n)) s)"
      by (simp add: stable_def tables_are_def)
    fix s x s'
    assume "pid = Suc n \<and> tables_are ?ws ?xs vs (ps @ [?p]) (Suc (Suc n)) s"
      "update_invoices (is_invoice t iid) (add_paid now amount) s = Some (x, s')"
    then show "(pid = Suc n \<and> ?ok) \<and> ?paid_up s'"
      by (auto simp: update_invoices_def tables_are_def list_all_iff split: if_splits)
  qed
  have st: "off_journal (\<lambda>s. (pid = Suc n \<and> ?ok) \<and> ?paid_up s)" for pid
    using off_journal_tables by (auto simp: off_journal_def stable_def)
  show ?thesis unfolding settle_from_wallet_def
    by (rule gives_bind [OF g1], rule gives_bind [OF g2], rule gives_bind [OF g3], rule gives_bind [OF g4],
        rule gives_bind [OF gives_keeps], rule keeps_lookup_account_tx [OF off_journal_stable [OF st]],
        rule gives_bind [OF gives_keeps], rule keeps_lookup_account_tx [OF off_journal_stable [OF st]],
        rule gives_bind [OF gives_keeps], rule keeps_post_wallet_journal [OF st], rule gives_ret) auto
qed

lemma atomic_pay: "atomic (pay_invoice_from_wallet now today t c iid)"
  unfolding pay_invoice_from_wallet_def by (rule atomic_after_read [OF keeps_set_tenant atomic_tx(2)])

lemma wrap64_diff:
  assumes "int64_ok (b + wrap64 (c - b))" and "int64_ok c"
  shows "wrap64 (c - b) = c - b"
proof -
  define q where "q = (c - b + 2 ^ 63) div 2 ^ 64"
  have w: "wrap64 (c - b) = c - b - 2 ^ 64 * q"
    unfolding wrap64_def q_def by (simp add: minus_mult_div_eq_mod [symmetric])
  then have "- 1 < q" "q < 1" using assms unfolding int64_ok_def by simp_all
  then show ?thesis using w by simp
qed

definition paid_from_wallet :: "int \<Rightarrow> gid \<Rightarrow> gid \<Rightarrow> gid \<Rightarrow> db \<Rightarrow> payment \<Rightarrow> db \<Rightarrow> bool" where
  "paid_from_wallet now t c iid s p s' \<longleftrightarrow> (\<exists>i w.
     i \<in> set (invoices s) \<and> is_invoice t iid i \<and> inv_customer i = c \<and> live i \<and> \<not> settled_status (inv_status i) \<and>
     w \<in> set (wallets s) \<and> own_wallet t c w \<and>
     pay_amount p = inv_total i - inv_paid i \<and> 0 < pay_amount p \<and> pay_amount p \<le> w_balance w \<and>
     payments s' = payments s @ [p] \<and> pay_invoice p = Some iid \<and> pay_status p = ''paid'' \<and>
     invoices s' = update_rows (is_invoice t iid)
       (\<lambda>j. j\<lparr>inv_paid := inv_total i, inv_status := ''paid'', inv_paid_at := Some now\<rparr>) (invoices s) \<and>
     wallets s' = update_rows (own_wallet t c) (\<lambda>x. x\<lparr>w_balance := w_balance w - pay_amount p\<rparr>) (wallets s))"

lemma settled_tables:
  assumes ok: "wallets_ok s" "keys_ok s" and amounts: "list_all invoice_amounts_ok (invoices s)"
    and ready: "ready t c iid i w s"
    and new: "\<forall>j\<in>set (invoices s). is_invoice t iid j \<longrightarrow> invoice_amounts_ok (add_paid now amount j)"
    and amount: "amount = wrap64 (inv_total i - inv_paid i)"
    and fin: "tables_are (update_rows (\<lambda>x. w_tenant x = t \<and> w_id x = w_id w) (\<lambda>x. x\<lparr>w_balance := w_balance x - amount\<rparr>) (wallets s))
       xs (update_rows (is_invoice t iid) (add_paid now amount) (invoices s)) (payments s @ [p]) m s'"
    and p: "p = (wallet_payment now t c iid amount num)\<lparr>pay_id := n\<rparr>"
  shows "paid_from_wallet now t c iid s p s'"
proof -
  note r = ready [unfolded ready_def]
  have "int64_ok (inv_paid i + amount)" "int64_ok (inv_total i)"
    using r new amounts by (auto simp: invoice_amounts_ok_def list_all_iff)
  then have exact: "amount = inv_total i - inv_paid i" using wrap64_diff amount by metis
  have "add_paid now amount j = j\<lparr>inv_paid := inv_total i, inv_status := ''paid'', inv_paid_at := Some now\<rparr>"
    if "j \<in> set (invoices s)" "is_invoice t iid j" for j
  proof -
    have "distinct (map inv_id (invoices s))" using ok(2) by (simp add: keys_ok_def fresh_keys_def)
    from unique_row [OF this that(1), of i] have "j = i" using r that(2) by (simp add: is_invoice_def)
    then show ?thesis by (simp add: add_paid_def exact)
  qed
  then have vs: "update_rows (is_invoice t iid) (add_paid now amount) (invoices s) =
      update_rows (is_invoice t iid) (\<lambda>j. j\<lparr>inv_paid := inv_total i, inv_status := ''paid'', inv_paid_at := Some now\<rparr>) (invoices s)"
    by (auto simp: update_rows_def)
  have mine: "(w_tenant x = t \<and> w_id x = w_id w) = own_wallet t c x \<and> (own_wallet t c x \<longrightarrow> x = w)" if "x \<in> set (wallets s)" for x
    using own_wallet_unique [OF ok(1) [unfolded wallets_ok_def] that] wallet_by_id [OF ok(1) that] r
    unfolding own_wallet_def by metis
  have ws: "update_rows (\<lambda>x. w_tenant x = t \<and> w_id x = w_id w) (\<lambda>x. x\<lparr>w_balance := w_balance x - amount\<rparr>) (wallets s)
      = update_rows (own_wallet t c) (\<lambda>x. x\<lparr>w_balance := w_balance w - amount\<rparr>) (wallets s)"
    using mine by (auto simp: update_rows_def)
  have pa: "pay_amount p = amount" "pay_invoice p = Some iid" "pay_status p = ''paid''" by (simp_all add: p wallet_payment_def)
  have "wrap64 amount = amount" by (simp add: amount)
  then show ?thesis unfolding paid_from_wallet_def
    using r fin by (intro exI [of _ i] exI [of _ w]) (simp add: tables_are_def vs ws pa exact [symmetric] amount [symmetric])
qed

lemma stable_paid_from_wallet: "stable (paid_from_wallet now t c iid s p)"
  by (simp add: stable_def paid_from_wallet_def)

lemma pay_invoice_outcome:
  assumes ok: "wallets_ok s" "keys_ok s" and amounts: "list_all invoice_amounts_ok (invoices s)"
  shows "gives (same_tables s) (pay_invoice_from_wallet now today t c iid)
    (\<lambda>r s'. case r of None \<Rightarrow> same_tables s s' | Some p \<Rightarrow> paid_from_wallet now t c iid s p s')"
proof -
  let ?Q = "\<lambda>r s'. case r of None \<Rightarrow> same_tables s s' | Some p \<Rightarrow> paid_from_wallet now t c iid s p s'"
  have stQ: "stable (?Q r)" for r
    using stable_same_tables stable_paid_from_wallet by (cases r) simp_all
  have settle: "gives (\<lambda>s1. same_tables s s1 \<and> ready t c iid i w s1)
      (settle_from_wallet now today t c iid (w_id w) (wrap64 (inv_total i - inv_paid i)) (inv_number i)) ?Q" for i w
  proof (cases "ready t c iid i w s")
    case True
    let ?a = "wrap64 (inv_total i - inv_paid i)"
    show ?thesis
    proof (rule gives_mono [OF settle_from_wallet_gives])
      show "tables_are (wallets s) (wallet_txns s) (invoices s) (payments s) (next_id s) s1"
        if "same_tables s s1 \<and> ready t c iid i w s1" for s1
        using same_tables_D [of s s1] that by (simp add: tables_are_def)
    qed (auto intro!: settled_tables [OF ok amounts True])
  next
    case False
    then have "\<not> (same_tables s s1 \<and> ready t c iid i w s1)" for s1
      using same_tables_D [of s s1] by (auto simp: ready_def)
    then show ?thesis unfolding gives_def by blast
  qed
  show ?thesis
    unfolding pay_invoice_from_wallet_def
    by (rule gives_bind [OF gives_set_tenant [OF stable_same_tables]],
        rule gives_with_tenant [OF stable_same_tables stQ pay_invoice_gives [OF stable_same_tables stQ _ settle]]) simp
qed

section \<open>Properties\<close>

text \<open>C6: paying an invoice from the wallet is all or nothing.  When it reports a payment, under any
  failures, an unpaid invoice of the customer was settled exactly: the payment is what was missing,
  the invoice is paid in full, the wallet had the money and is charged that amount.  When it
  reports none, or fails, no table has changed.\<close>

theorem wallet_payment_all_or_nothing:
  assumes "wallets_ok s" and "keys_ok s" and "list_all invoice_amounts_ok (invoices s)"
    and run: "pay_invoice_from_wallet now today t c iid s = (r, s')"
  shows "case r of Inr (Some p) \<Rightarrow> paid_from_wallet now t c iid s p s' | _ \<Rightarrow> same_tables s s'"
proof (cases r)
  case (Inl e)
  then show ?thesis using atomic_pay run unfolding atomic_def by auto
next
  case (Inr x)
  have "case x of None \<Rightarrow> same_tables s s' | Some p \<Rightarrow> paid_from_wallet now t c iid s p s'"
    using pay_invoice_outcome [OF assms(1-3), of now today t c iid, unfolded gives_def] run [unfolded Inr]
      same_tables_refl [of s] by blast
  then show ?thesis using Inr by (cases x) simp_all
qed

definition sample_wallet_db :: db where
  "sample_wallet_db = snd (topup_wallet 8 20000 1 7 150 [] [] [] sample_db)"

lemma sample_wallet_ok: "wallets_ok sample_wallet_db \<and> keys_ok sample_wallet_db"
proof -
  have "paid_ok sample_db" using reachable_paid_ok [OF sample_db_reachable] .
  then have "paid_ok sample_wallet_db"
    using topup_wallet_paid_ok unfolding keeps_def sample_wallet_db_def by blast
  moreover have "wallets sample_db = [] \<and> wallet_txns sample_db = []" by code_simp
  then have "wallets_ok sample_db" by (simp add: wallets_ok_def wallets_off_def off_by_def fresh_keys_def)
  then have "wallets_ok sample_wallet_db"
    using topup_wallet_wallets_ok unfolding keeps_def sample_wallet_db_def by blast
  ultimately show ?thesis by (simp add: paid_ok_def)
qed

lemma wallet_payment_all_or_nothing_witness:
  "let (r, s') = pay_invoice_from_wallet 9 20000 1 7 1 sample_wallet_db in
   map w_balance (wallets s') = [50] \<and> map inv_status (invoices s') = [''paid''] \<and>
   (case r of Inr (Some p) \<Rightarrow> paid_from_wallet 9 1 7 1 sample_wallet_db p s' | _ \<Rightarrow> False)"
proof -
  obtain r s' where run: "pay_invoice_from_wallet 9 20000 1 7 1 sample_wallet_db = (r, s')" by fastforce
  have e: "case pay_invoice_from_wallet 9 20000 1 7 1 sample_wallet_db of (r, s') \<Rightarrow>
     map w_balance (wallets s') = [50] \<and> map inv_status (invoices s') = [''paid''] \<and>
     (case r of Inr (Some _) \<Rightarrow> True | _ \<Rightarrow> False)" by code_simp
  have a: "list_all invoice_amounts_ok (invoices sample_wallet_db)" by code_simp
  have "case r of Inr (Some p) \<Rightarrow> paid_from_wallet 9 1 7 1 sample_wallet_db p s' | _ \<Rightarrow> same_tables sample_wallet_db s'"
    using wallet_payment_all_or_nothing [OF _ _ a run] sample_wallet_ok by blast
  then show ?thesis using e run by (auto split: sum.splits option.splits)
qed

end
