(* ===== verification/Money.thy ===== *)
theory Money
  imports Wallet
begin

text \<open>
  Invoices, payments, wallets and the journal together.  The calls of the four components
  run against the same tables, in any order and under any failures; the system keeps all
  their invariants at once: paid amounts are what was collected, wallet balances are the
  sum of their transactions and never negative, and the books balance.
\<close>

section \<open>Invoice calls leave the rest alone\<close>

lemma keeps_tx_frame: "stable P \<Longrightarrow> keeps P m \<Longrightarrow> keeps P (tx m)"
  by (rule keeps_tx [OF _ gives_keeps])

lemma keepsD: "keeps P m \<Longrightarrow> P s \<Longrightarrow> P (snd (m s))"
  by (simp add: keeps_def)

text \<open>The contract of an assertion about other tables: no invoice call can break it.\<close>

locale apart_from_invoices =
  fixes P :: "db \<Rightarrow> bool"
  assumes off: "off_payments P" and customers: "P (s\<lparr>customers := cs\<rparr>) = P s"
begin

lemma keeps_get_invoice_off: "keeps P (get_invoice_any b t iid)"
  unfolding get_invoice_any_def by (intro keeps_intros off_payments_stable [OF off])

lemma keeps_create_invoice_off: "keeps P (create_invoice now i items)"
  unfolding create_invoice_def by (intro keeps_intros keeps_tx_frame off off_payments_stable [OF off])

lemma keeps_record_payment_off: "keeps P (record_payment now p)"
  unfolding record_payment_def Let_def by (intro keeps_intros keeps_tx_frame off off_payments_stable [OF off])

lemma keeps_shift_paid_off: "keeps P (shift_paid now today t p d)"
  unfolding shift_paid_def apply_invoice_payment_delta_def by (intro keeps_intros off off_payments_stable [OF off])

lemma keeps_delete_payment_off: "keeps P (delete_payment now today t pid)"
  unfolding delete_payment_def get_payment_def
  by (intro keeps_intros keeps_tx_frame keeps_shift_paid_off off off_payments_stable [OF off])

lemma keeps_cancel_intents_off: "keeps P (exec (\<lambda>s. Some ((), s\<lparr>intents := f (intents s)\<rparr>)))"
proof (rule keeps_exec [OF off_payments_stable [OF off]])
  fix s x s' assume "P s" "Some ((), s\<lparr>intents := f (intents s)\<rparr>) = Some (x, s')"
  then show "P s'"
    using off_paymentsD [OF off, of s "next_id s" "intents s'" "payments s" "invoice_items s" "invoices s"] by auto
qed

lemma keeps_delete_invoice_off: "keeps P (delete_invoice now t iid)"
  unfolding delete_invoice_def
  by (intro keeps_intros keeps_tx_frame keeps_cancel_intents_off off off_payments_stable [OF off])

lemma keeps_restore_invoice_off: "keeps P (restore_invoice t iid)"
  unfolding restore_invoice_def get_invoice_including_deleted_def
  by (intro keeps_intros keeps_tx_frame keeps_get_invoice_off off off_payments_stable [OF off])

lemma keeps_purge_invoice_off: "keeps P (purge_invoice t iid)"
  unfolding purge_invoice_def by (intro keeps_intros off off_payments_stable [OF off])

lemma keeps_discount_off: "keeps P (set_invoice_discount_amounts t iid d tax tot)"
  unfolding set_invoice_discount_amounts_def by (intro keeps_intros off off_payments_stable [OF off])

lemma keeps_late_fee_off: "keeps P (apply_invoice_late_fee now t iid amount desc)"
  unfolding apply_invoice_late_fee_def by (intro keeps_intros keeps_tx_frame off off_payments_stable [OF off])

lemmas invoice_calls_off = keeps_create_invoice_off keeps_record_payment_off keeps_delete_payment_off
  keeps_delete_invoice_off keeps_restore_invoice_off keeps_purge_invoice_off keeps_discount_off keeps_late_fee_off

lemma step: "ledger_step s s' \<Longrightarrow> P s \<Longrightarrow> P s'"
proof (induction rule: ledger_step.induct)
  case (failures_change s fs)
  then show ?case using stable_faults [OF off_payments_stable [OF off]] by simp
next
  case (customers_change s cs)
  then show ?case by (simp add: customers)
qed (simp_all add: keepsD invoice_calls_off)

end

interpretation wallet_frame: apart_from_invoices wallets_ok
  using off_journal_wallets_ok(2) by unfold_locales (simp_all add: wallets_ok_def wallets_off_def)

interpretation books_apart: apart_from_invoices books_ok
  using books_off_wallets(2)
  by unfold_locales (simp_all add: books_ok_def books_off_def own_account_def has_entry_def)

section \<open>Journal calls leave the rest alone\<close>

lemma keeps_create_expense_off:
  "off_journal P \<Longrightarrow> keeps P (create_expense now today t amount category desc date)"
  unfolding create_expense_def first_account_of_type_def Let_def with_tenant_def
  by (intro keeps_intros keeps_tx_frame off_journal_stable)

lemma keeps_record_payment_journal_off:
  "off_journal P \<Longrightarrow> keeps P (record_payment_journal now today t amount cash revenue ref)"
  unfolding record_payment_journal_def post_journal_entry_def
  by (intro keeps_intros keeps_tx_frame off_journal_stable)

section \<open>Wallets never go below zero\<close>

definition funded :: "db \<Rightarrow> bool" where
  "funded s \<longleftrightarrow> (\<forall>w\<in>set (wallets s). 0 \<le> w_balance w)"

lemma stable_funded: "stable funded"
  by (simp add: stable_def funded_def)

lemma off_funded: "off_journal funded" "off_payments funded"
  by (auto simp: off_journal_def off_payments_def stable_def funded_def)

interpretation funded_frame: apart_from_invoices funded
  by unfold_locales (simp_all add: off_funded funded_def)

lemma upsert_wallet_funded:
  "0 \<le> amount \<Longrightarrow> keeps funded (exec (upsert_wallet t c amount))"
  by (rule keeps_exec [OF stable_funded])
    (auto simp: upsert_wallet_def funded_def set_update_rows split: option.splits if_splits)

lemma wallet_txn_funded: "keeps funded (exec (insert_wallet_txn x))"
  by (rule keeps_exec [OF stable_funded]) (auto simp: insert_wallet_txn_def funded_def split: if_splits)

lemma credit_wallet_funded: "0 \<le> amount \<Longrightarrow> keeps funded (credit_wallet now t c amount kind ref desc)"
  unfolding credit_wallet_def by (intro keeps_tx_frame keeps_intros stable_funded upsert_wallet_funded wallet_txn_funded)

lemma topup_wallet_funded: "keeps funded (topup_wallet now today t c amount kind ref desc)"
proof (cases "amount \<le> 0")
  case True
  then show ?thesis by (simp add: topup_wallet_def keeps_raise)
next
  case False
  then have u: "keeps funded (exec (upsert_wallet t c amount))" by (intro upsert_wallet_funded) simp
  show ?thesis
    unfolding topup_wallet_def Let_def with_tenant_def insert_wallet_txn_tx_def
    by (intro keeps_intros keeps_tx_frame stable_funded u wallet_txn_funded off_funded)
qed

lemma settle_from_wallet_funded:
  "gives (\<lambda>s. wallets_ok s \<and> funded s \<and> ready t c iid i w s)
     (settle_from_wallet now today t c iid (w_id w) (wrap64 (inv_total i - inv_paid i)) num) (\<lambda>_. funded)"
proof -
  let ?R = "\<lambda>s. wallets_ok s \<and> funded s \<and> ready t c iid i w s"
  have take: "funded s'" if r: "?R s" and u: "take_from_wallet t (w_id w) (wrap64 (inv_total i - inv_paid i)) s = Some (x, s')" for s x s'
  proof -
    have "x = w" if "x \<in> set (wallets s)" "w_id x = w_id w" for x
      using wallet_by_id [OF _ that(1)] that(2) r by (simp add: ready_def)
    then have "wrap64 (inv_total i - inv_paid i) \<le> w_balance x" if "x \<in> set (wallets s)" "w_id x = w_id w" for x
      using r that unfolding ready_def by metis
    then show ?thesis using r u
      by (auto simp: take_from_wallet_def funded_def ready_def set_update_rows split: if_splits)
  qed
  have "stable ?R" by (intro stable_conj stable_wallets_ok stable_funded stable_ready)
  then have g: "gives ?R (exec (take_from_wallet t (w_id w) (wrap64 (inv_total i - inv_paid i)))) (\<lambda>_. funded)"
    using take by (rule gives_exec)
  show ?thesis unfolding settle_from_wallet_def insert_wallet_txn_tx_def
    by (rule gives_bind [OF g]) (intro gives_keeps keeps_intros stable_funded wallet_txn_funded off_funded)
qed

definition solvent :: "db \<Rightarrow> bool" where
  "solvent s \<longleftrightarrow> wallets_ok s \<and> funded s"

lemma pay_invoice_solvent: "keeps solvent (pay_invoice_from_wallet now today t c iid)"
proof (rule pay_invoice_keeps)
  show "stable solvent" unfolding solvent_def by (intro stable_conj stable_wallets_ok stable_funded)
  fix i w
  have a: "gives (\<lambda>s. solvent s \<and> ready t c iid i w s)
      (settle_from_wallet now today t c iid (w_id w) (wrap64 (inv_total i - inv_paid i)) (inv_number i)) (\<lambda>_. funded)"
    by (rule gives_mono [OF settle_from_wallet_funded]) (simp_all add: solvent_def)
  have b: "gives (\<lambda>s. solvent s \<and> ready t c iid i w s)
      (settle_from_wallet now today t c iid (w_id w) (wrap64 (inv_total i - inv_paid i)) (inv_number i)) (\<lambda>_. wallets_ok)"
    by (rule gives_mono [OF settle_from_wallet_wallets_ok]) (auto simp: solvent_def ready_def own_wallet_def)
  show "gives (\<lambda>s. solvent s \<and> ready t c iid i w s)
      (settle_from_wallet now today t c iid (w_id w) (wrap64 (inv_total i - inv_paid i)) (inv_number i)) (\<lambda>_. solvent)"
    using a b unfolding gives_def solvent_def by blast
qed

section \<open>The system\<close>

inductive money_step :: "db \<Rightarrow> db \<Rightarrow> bool" where
  invoicing: "ledger_step s s' \<Longrightarrow> money_step s s'"
| account_opened: "acc_id a \<notin> acc_id ` set (accounts s) \<Longrightarrow> acc_id a \<noteq> nil_id \<Longrightarrow>
    money_step s (s\<lparr>accounts := accounts s @ [a]\<rparr>)"
| credited: "0 \<le> amount \<Longrightarrow> money_step s (snd (credit_wallet now t c amount kind ref desc s))"
| topped_up: "money_step s (snd (topup_wallet now today t c amount kind ref desc s))"
| paid_from: "money_step s (snd (pay_invoice_from_wallet now today t c iid s))"
| spent: "money_step s (snd (create_expense now today t amount category desc date s))"
| payment_booked: "0 \<le> amount \<Longrightarrow> own_account t cash s \<Longrightarrow> own_account t revenue s \<Longrightarrow>
    money_step s (snd (record_payment_journal now today t amount cash revenue ref s))"

inductive_cases money_stepE: "money_step s s'"

definition money_ok :: "db \<Rightarrow> bool" where
  "money_ok s \<longleftrightarrow> paid_ok s \<and> solvent s \<and> books_ok s"

lemma money_ok_empty: "money_ok empty_db"
proof -
  have "wallets_ok empty_db" "funded empty_db" "books_ok empty_db"
    by (simp_all add: wallets_ok_def wallets_off_def off_by_def funded_def fresh_keys_def empty_db_def
        books_ok_def books_off_def entry_debit_def entry_credit_def)
  then show ?thesis by (simp add: money_ok_def solvent_def paid_ok_empty)
qed

lemma account_opened_ok:
  assumes "books_ok s" "acc_id a \<notin> acc_id ` set (accounts s)" "acc_id a \<noteq> nil_id"
  shows "books_ok (s\<lparr>accounts := accounts s @ [a]\<rparr>)"
  using assms by (auto simp: books_ok_def books_off_def own_account_def has_entry_def)

lemma keeps_conj: "keeps P m \<Longrightarrow> keeps Q m \<Longrightarrow> keeps (\<lambda>s. P s \<and> Q s) m"
  by (simp add: keeps_def)

lemma keeps_solvent: "keeps wallets_ok m \<Longrightarrow> keeps funded m \<Longrightarrow> keeps solvent m"
  using keeps_conj [of wallets_ok m funded] by (simp add: solvent_def [abs_def])

lemma keeps_money: "keeps paid_ok m \<Longrightarrow> keeps solvent m \<Longrightarrow> keeps books_ok m \<Longrightarrow> keeps money_ok m"
  using keeps_conj [OF _ keeps_conj [of solvent m books_ok]] by (simp add: money_ok_def [abs_def])

lemma solvent_off_journal: "off_journal solvent"
  unfolding solvent_def [abs_def] by (rule off_conj(3) [OF off_journal_wallets_ok(1) off_funded(1)])

lemma wallet_calls_keep:
  "0 \<le> amount \<Longrightarrow> keeps money_ok (credit_wallet now t c amount kind ref desc)"
  "keeps money_ok (topup_wallet now today t c topup kind ref desc)"
  "keeps money_ok (pay_invoice_from_wallet now today t c iid)"
  "keeps money_ok (create_expense now today t topup category desc date)"
  by (intro keeps_money keeps_solvent credit_wallet_paid_ok credit_wallet_wallets_ok credit_wallet_funded
        credit_wallet_books_ok topup_wallet_paid_ok topup_wallet_wallets_ok topup_wallet_funded topup_wallet_books_ok
        pay_invoice_paid_ok pay_invoice_solvent pay_invoice_books_ok create_expense_books_ok
        keeps_create_expense_off paid_ok_wallets solvent_off_journal; assumption?)+

lemma money_step_ok: "money_step s s' \<Longrightarrow> money_ok s \<Longrightarrow> money_ok s'"
proof (induction rule: money_step.induct)
  case (invoicing s s')
  then show ?case
    using ledger_step_paid_ok wallet_frame.step funded_frame.step books_apart.step
    by (simp add: money_ok_def solvent_def)
next
  case (account_opened a s)
  then show ?case
    using account_opened_ok
    by (simp add: money_ok_def solvent_def paid_ok_def keys_ok_def wallets_ok_def wallets_off_def funded_def)
next
  case (payment_booked amount t cash s revenue now today ref)
  then have "books_ok (snd (record_payment_journal now today t amount cash revenue ref s))"
    using record_payment_journal_safe unfolding safe_def money_ok_def by blast
  then show ?case
    using payment_booked keepsD [OF keeps_record_payment_journal_off [OF paid_ok_wallets(2)]]
      keepsD [OF keeps_record_payment_journal_off [OF solvent_off_journal]] by (simp add: money_ok_def)
qed (blast intro: keepsD wallet_calls_keep)+

lemma money_reachable: "money_step\<^sup>*\<^sup>* empty_db s \<Longrightarrow> money_ok s"
  by (induction rule: rtranclp_induct) (auto intro: money_ok_empty money_step_ok)

section \<open>Properties\<close>

text \<open>after any sequence of invoice, payment, wallet and journal calls, under any failures, a wallet's
  balance is the sum of its transactions and is not negative, and all balances together are all
  the transactions.\<close>

theorem wallet_balance_adds_up:
  assumes "money_step\<^sup>*\<^sup>* empty_db s" and "w \<in> set (wallets s)"
  shows "w_balance w = sum_where (\<lambda>x. wt_wallet x = w_id w) wt_amount (wallet_txns s) \<and> 0 \<le> w_balance w
    \<and> (\<Sum>v\<leftarrow>wallets s. w_balance v) = (\<Sum>x\<leftarrow>wallet_txns s. wt_amount x)"
proof -
  have m: "money_ok s" using assms(1) by (rule money_reachable)
  then have a: "agree w_id w_balance wt_wallet wt_amount (wallets s) (wallet_txns s)"
    by (simp add: money_ok_def solvent_def wallets_ok_def wallets_off_def agree_def)
  have "0 \<le> w_balance w" using m assms(2) by (simp add: money_ok_def solvent_def funded_def)
  then show ?thesis using agreeD [OF a assms(2)] wallet_balance.grand_total [OF a] by simp
qed

text \<open>after any such sequence every journal entry of every tenant has equal debits and credits, its lines
  are posted to accounts of the same tenant, and every invoice outside the trash has been paid what
  its payments add up to.\<close>

theorem books_stay_balanced:
  assumes "money_step\<^sup>*\<^sup>* empty_db s"
  shows "entry_debit t e (journal_lines s) = entry_credit t e (journal_lines s)
    \<and> list_all (\<lambda>l. own_account (jl_tenant l) (jl_account l) s) (journal_lines s)
    \<and> list_all (\<lambda>i. live i \<longrightarrow> inv_paid i = collected (payments s) i) (invoices s)"
proof -
  have m: "money_ok s" using assms by (rule money_reachable)
  then have "books_ok s" "paid_ok s" by (simp_all add: money_ok_def)
  then show ?thesis using books_okD [of s t e]
    by (auto simp: list_all_iff paid_ok_def books_ok_def books_off_def)
qed

definition plain_account :: "gid \<Rightarrow> string \<Rightarrow> string \<Rightarrow> account" where
  "plain_account a code kind = \<lparr>acc_id = a, acc_tenant = 1, acc_code = code, acc_name = code, acc_type = kind, acc_active = True\<rparr>"

definition sample_money_1 :: db where
  "sample_money_1 = sample_db\<lparr>accounts := [plain_account 91 ''1110'' ''asset'', plain_account 92 ''2100'' ''liability'',
     plain_account 93 ''4100'' ''revenue'']\<rparr>"

definition sample_money_2 :: db where
  "sample_money_2 = snd (topup_wallet 8 20000 1 7 150 [] [] [] sample_money_1)"

definition sample_money_3 :: db where
  "sample_money_3 = snd (pay_invoice_from_wallet 9 20000 1 7 1 sample_money_2)"

lemma accounts_opened:
  "distinct (map acc_id (accounts s @ new)) \<Longrightarrow> nil_id \<notin> acc_id ` set new \<Longrightarrow>
   money_step\<^sup>*\<^sup>* s (s\<lparr>accounts := accounts s @ new\<rparr>)"
proof (induction new arbitrary: s)
  case (Cons a new)
  let ?s1 = "s\<lparr>accounts := accounts s @ [a]\<rparr>"
  have "money_step s ?s1" using Cons.prems by (intro account_opened) auto
  moreover have "money_step\<^sup>*\<^sup>* ?s1 (?s1\<lparr>accounts := accounts ?s1 @ new\<rparr>)"
    using Cons.prems by (intro Cons.IH) auto
  ultimately show ?case by (simp add: converse_rtranclp_into_rtranclp)
qed simp

lemma sample_money_reachable: "money_step\<^sup>*\<^sup>* empty_db sample_money_3"
proof -
  have inv: "ledger_step\<^sup>*\<^sup>* a b \<Longrightarrow> money_step\<^sup>*\<^sup>* a b" for a b
    by (induction rule: rtranclp_induct) (auto intro: rtranclp.rtrancl_into_rtrancl invoicing)
  have acc: "accounts sample_db = []" by code_simp
  have "money_step\<^sup>*\<^sup>* sample_db sample_money_1"
    unfolding sample_money_1_def
    using accounts_opened [of sample_db "[plain_account 91 ''1110'' ''asset'', plain_account 92 ''2100'' ''liability'',
     plain_account 93 ''4100'' ''revenue'']"] acc by (simp add: plain_account_def)
  moreover have "money_step sample_money_1 sample_money_2" unfolding sample_money_2_def by (rule topped_up)
  moreover have "money_step sample_money_2 sample_money_3" unfolding sample_money_3_def by (rule paid_from)
  ultimately show ?thesis using inv [OF sample_db_reachable] by (meson rtranclp.rtrancl_into_rtrancl rtranclp_trans)
qed

lemma wallet_balance_adds_up_witness:
  "let w = hd (wallets sample_money_3) in w_balance w = 50
     \<and> w_balance w = sum_where (\<lambda>x. wt_wallet x = w_id w) wt_amount (wallet_txns sample_money_3)"
proof -
  have e: "case wallets sample_money_3 of [w] \<Rightarrow> w_balance w = 50 | _ \<Rightarrow> False" by code_simp
  then obtain w where w: "wallets sample_money_3 = [w]" "w_balance w = 50" by (auto split: list.splits)
  then show ?thesis using wallet_balance_adds_up [OF sample_money_reachable, of w] by simp
qed

lemma books_stay_balanced_witness:
  "let s = sample_money_3 in map jl_debit (journal_lines s) = [150, 0, 100, 0]
     \<and> map (\<lambda>i. (inv_status i, inv_paid i)) (invoices s) = [(''paid'', 100)]
     \<and> entry_debit 1 (jl_entry (hd (journal_lines s))) (journal_lines s) = entry_credit 1 (jl_entry (hd (journal_lines s))) (journal_lines s)"
proof -
  have "map jl_debit (journal_lines sample_money_3) = [150, 0, 100, 0]
     \<and> map (\<lambda>i. (inv_status i, inv_paid i)) (invoices sample_money_3) = [(''paid'', 100)]" by code_simp
  then show ?thesis using books_stay_balanced [OF sample_money_reachable] by (simp add: Let_def)
qed

end
