(* ===== verification/Tenant_Settings.thy ===== *)
theory Tenant_Settings
  imports Billing_Db Ledger
begin

text \<open>
  The settings of a tenant as the program reads them: \<open>GetSettingJSON\<close> and
  \<open>UpsertSettingJSON\<close> of store/settings.go, their users in store/general_settings.go and
  store/jobs_settings.go, and \<open>ClaimJob\<close> of store/extra_ops.go.  A stored JSON value is the
  record it decodes to over the defaults.  \<open>known\<close> tells the time zones that
  \<open>time.LoadLocation\<close> can load, \<open>offset\<close> the distance of a zone's clock from UTC at an instant.
  The readers never fail: without an answer from the database they fall back on fixed values.
\<close>

section \<open>The program\<close>

text \<open>\<open>GetSettingJSON\<close>: the row of a tenant under one key.\<close>

definition get_setting :: "(db \<Rightarrow> (gid \<times> 'v) list) \<Rightarrow> gid \<Rightarrow> (db, 'v) prog" where
  "get_setting rows tenant =
     bind set_tenant (\<lambda>_.
     bind (auto (query (\<lambda>s. map_of (rows s) tenant))) (\<lambda>v.
     case v of None \<Rightarrow> raise Not_found | Some x \<Rightarrow> ret x))"

text \<open>A read whose missing row means the default.\<close>

definition or_default_row :: "'v \<Rightarrow> ('v \<Rightarrow> 'v) \<Rightarrow> (db, 'v) prog \<Rightarrow> (db, 'v) prog" where
  "or_default_row def tidy m =
     bind (attempt m) (\<lambda>r. case r of
       Inl e \<Rightarrow> if e = Not_found then ret def else raise e
     | Inr v \<Rightarrow> ret (tidy v))"

definition get_general_settings :: "(string \<Rightarrow> bool) \<Rightarrow> gid \<Rightarrow> (db, general_settings) prog" where
  "get_general_settings known tenant =
     or_default_row default_general_settings (normalize_general_settings known) (get_setting general_rows tenant)"

definition upsert_general_settings :: "(string \<Rightarrow> bool) \<Rightarrow> gid \<Rightarrow> general_settings \<Rightarrow> (db, unit) prog" where
  "upsert_general_settings known tenant cfg =
     bind set_tenant (\<lambda>_.
     auto (exec (\<lambda>s. Some ((), s\<lparr>general_rows := AList.update tenant (normalize_general_settings known cfg) (general_rows s)\<rparr>))))"

definition get_job_schedule_settings :: "gid \<Rightarrow> (db, job_settings) prog" where
  "get_job_schedule_settings tenant =
     or_default_row default_job_settings normalize_job_settings (get_setting jobs_rows tenant)"

definition upsert_job_schedule_settings :: "gid \<Rightarrow> job_settings \<Rightarrow> (db, unit) prog" where
  "upsert_job_schedule_settings tenant cfg =
     bind set_tenant (\<lambda>_.
     auto (exec (\<lambda>s. Some ((), s\<lparr>jobs_rows := AList.update tenant (normalize_job_settings cfg) (jobs_rows s)\<rparr>))))"

text \<open>A reader: what it makes of the settings, or of an error.\<close>

definition read_general :: "(string \<Rightarrow> bool) \<Rightarrow> gid \<Rightarrow> 'a \<Rightarrow> (general_settings \<Rightarrow> 'a) \<Rightarrow> (db, 'a) prog" where
  "read_general known tenant fallback f =
     bind (attempt (get_general_settings known tenant)) (\<lambda>r.
     ret (case r of Inl _ \<Rightarrow> fallback | Inr g \<Rightarrow> f g))"

definition tenant_location :: "(string \<Rightarrow> bool) \<Rightarrow> string \<Rightarrow> gid \<Rightarrow> (db, string) prog" where
  "tenant_location known local tenant =
     (let d = gs_timezone default_general_settings in
      bind (read_general known tenant d (\<lambda>g. let z = trim_space (gs_timezone g) in if z \<noteq> [] then z else d)) (\<lambda>tz.
      ret (if known tz then tz else if known d then d else local)))"

definition tenant_now :: "(string \<Rightarrow> bool) \<Rightarrow> (string \<Rightarrow> int \<Rightarrow> int) \<Rightarrow> string \<Rightarrow> int \<Rightarrow> gid \<Rightarrow> (db, gtime) prog" where
  "tenant_now known offset local now tenant =
     bind (tenant_location known local tenant) (\<lambda>tz. ret (at_zone (offset tz now) now))"

definition effective_tax_percent :: "(string \<Rightarrow> bool) \<Rightarrow> gid \<Rightarrow> (db, rat) prog" where
  "effective_tax_percent known tenant = bind (get_general_settings known tenant) (\<lambda>g. ret (gs_tax g))"

definition isolir_grace_days :: "(string \<Rightarrow> bool) \<Rightarrow> gid \<Rightarrow> (db, int) prog" where
  "isolir_grace_days known tenant = read_general known tenant 0 gs_grace"

definition billing_cycle_start_day :: "(string \<Rightarrow> bool) \<Rightarrow> gid \<Rightarrow> (db, int) prog" where
  "billing_cycle_start_day known tenant = read_general known tenant 1 gs_cycle_day"

definition invoice_due_day :: "(string \<Rightarrow> bool) \<Rightarrow> gid \<Rightarrow> (db, int) prog" where
  "invoice_due_day known tenant =
     (let d = gs_due_day default_general_settings in read_general known tenant d (\<lambda>g. clamp_due_day (gs_due_day g) d))"

definition late_fee_percent :: "(string \<Rightarrow> bool) \<Rightarrow> gid \<Rightarrow> (db, rat) prog" where
  "late_fee_percent known tenant =
     (let d = gs_late_fee default_general_settings in
      read_general known tenant d (\<lambda>g. if gs_late_fee g < 0 \<or> 100 < gs_late_fee g then d else gs_late_fee g))"

definition wallet_enabled :: "(string \<Rightarrow> bool) \<Rightarrow> gid \<Rightarrow> (db, bool) prog" where
  "wallet_enabled known tenant = read_general known tenant False gs_wallet"

definition wallet_min_topup :: "(string \<Rightarrow> bool) \<Rightarrow> gid \<Rightarrow> (db, int) prog" where
  "wallet_min_topup known tenant = read_general known tenant (gs_min_topup default_general_settings) gs_min_topup"

text \<open>\<open>ClaimJob\<close>: \<open>INSERT ... ON CONFLICT DO NOTHING\<close> on the unique key (tenant, job, key).\<close>

definition claim_job :: "gid \<Rightarrow> string \<Rightarrow> string \<Rightarrow> (db, bool) prog" where
  "claim_job tenant job key =
     auto (exec (\<lambda>s. if (tenant, job, key) \<in> set (job_runs s) then Some (False, s)
       else Some (True, s\<lparr>job_runs := job_runs s @ [(tenant, job, key)]\<rparr>)))"

section \<open>Reading\<close>

lemma keeps_get_setting: "stable P \<Longrightarrow> keeps P (get_setting rows t)"
  unfolding get_setting_def by (intro keeps_intros)

lemma keeps_or_default_row: "keeps P m \<Longrightarrow> keeps P (or_default_row def tidy m)"
  unfolding or_default_row_def by (intro keeps_intros)

lemma keeps_get_general_settings [keeps_intros]: "stable P \<Longrightarrow> keeps P (get_general_settings known t)"
  unfolding get_general_settings_def by (intro keeps_or_default_row keeps_get_setting)

lemma keeps_read_general [keeps_intros]: "stable P \<Longrightarrow> keeps P (read_general known t d f)"
  unfolding read_general_def by (intro keeps_intros)

lemma keeps_settings_readers [keeps_intros]:
  assumes "stable P"
  shows "keeps P (tenant_location known local t)" "keeps P (tenant_now known offset local now t)"
    "keeps P (effective_tax_percent known t)" "keeps P (isolir_grace_days known t)"
    "keeps P (billing_cycle_start_day known t)" "keeps P (invoice_due_day known t)"
    "keeps P (late_fee_percent known t)" "keeps P (wallet_enabled known t)" "keeps P (wallet_min_topup known t)"
  unfolding tenant_now_def tenant_location_def effective_tax_percent_def isolir_grace_days_def
    billing_cycle_start_day_def invoice_due_day_def late_fee_percent_def wallet_enabled_def wallet_min_topup_def Let_def
  by (intro keeps_intros assms)+

text \<open>What \<open>GetGeneralSettings\<close> returns is in range, whatever is stored.\<close>

definition in_range :: "general_settings \<Rightarrow> bool" where
  "in_range g \<longleftrightarrow> 0 \<le> gs_tax g \<and> gs_tax g \<le> 100 \<and> 0 \<le> gs_late_fee g \<and> gs_late_fee g \<le> 100
     \<and> 0 \<le> gs_grace g \<and> gs_grace g \<le> 30 \<and> 1 \<le> gs_cycle_day g \<and> gs_cycle_day g \<le> 28
     \<and> 1 \<le> gs_due_day g \<and> gs_due_day g \<le> 28 \<and> 1000 \<le> gs_min_topup g \<and> gs_min_topup g \<le> 100000000"

lemma in_range_normalised: "in_range (normalize_general_settings known g)"
  using general_norm.norm_clean [of known g] by (simp add: in_range_def general_clean_def)

lemma in_range_default: "in_range default_general_settings"
  by (simp add: in_range_def default_general_settings_def)

lemma attempt_Inr: "fst (attempt m s) = Inr (fst (m s))" "snd (attempt m s) = snd (m s)"
  by (simp_all add: attempt_def split: prod.split)

lemma get_general_settings_in_range:
  "get_general_settings known t s = (Inr g, s') \<Longrightarrow> in_range g"
  unfolding get_general_settings_def or_default_row_def
  by (erule bind_Inr) (auto simp: ret_Inr in_range_default in_range_normalised split: sum.splits if_splits)

text \<open>A reader answers always, with the fallback or a value of settings in range.\<close>

lemma read_general_answers:
  obtains x s' where "read_general known t d f s = (Inr x, s')" and "x = d \<or> (\<exists>g. in_range g \<and> x = f g)"
proof -
  obtain r s' where g: "get_general_settings known t s = (r, s')" by fastforce
  have e: "read_general known t d f s = (Inr (case r of Inl _ \<Rightarrow> d | Inr g \<Rightarrow> f g), s')"
    using g by (simp add: read_general_def bind_def attempt_def ret_def)
  show ?thesis
  proof (cases r)
    case (Inl err)
    then show ?thesis using that e by simp
  next
    case (Inr x)
    then have "in_range x" using g get_general_settings_in_range by simp
    then show ?thesis using that [of "f x" s'] e Inr by auto
  qed
qed

lemma read_general_range:
  "Q d \<Longrightarrow> (\<And>g. in_range g \<Longrightarrow> Q (f g)) \<Longrightarrow> \<exists>x s'. read_general known t d f s = (Inr x, s') \<and> Q x"
  using read_general_answers [of known t d f s] by metis

lemma clamp_due_range: "1 \<le> d \<Longrightarrow> d \<le> 28 \<Longrightarrow> 1 \<le> clamp_due_day x d \<and> clamp_due_day x d \<le> 28"
  using clamp_due_day_range by simp

section \<open>Claiming jobs\<close>

fun claim_all :: "(gid \<times> string \<times> string) list \<Rightarrow> db \<Rightarrow> (err + bool) list \<times> db" where
  "claim_all [] s = ([], s)"
| "claim_all ((t, job, key) # cs) s =
     (let (r, s1) = claim_job t job key s; (rs, s2) = claim_all cs s1 in (r # rs, s2))"

lemma claim_job_cases:
  assumes "claim_job t job key s = (r, s')"
  shows "(r = Inr True \<and> (t, job, key) \<notin> set (job_runs s) \<and> job_runs s' = job_runs s @ [(t, job, key)])
    \<or> (r = Inr False \<and> (t, job, key) \<in> set (job_runs s) \<and> job_runs s' = job_runs s)
    \<or> (r = Inl Db_error \<and> job_runs s' = job_runs s)"
  using assms
  by (auto simp: claim_job_def auto_def exec_def bind_def round_trip_def Let_def split: prod.splits sum.splits if_splits option.splits)

definition wins :: "gid \<times> string \<times> string \<Rightarrow> (gid \<times> string \<times> string) list \<Rightarrow> (err + bool) list \<Rightarrow> nat" where
  "wins k cs rs = length (filter (\<lambda>(c, r). c = k \<and> r = Inr True) (zip cs rs))"

lemma claim_all_wins:
  "claim_all cs s = (rs, s') \<Longrightarrow> wins k cs rs \<le> (if k \<in> set (job_runs s) then 0 else 1)"
proof (induction cs arbitrary: s rs)
  case Nil
  then show ?case by (simp add: wins_def)
next
  case (Cons c cs)
  obtain t job key where c: "c = (t, job, key)" by (cases c) auto
  obtain r s1 where r: "claim_job t job key s = (r, s1)" by fastforce
  obtain rs' where rs': "claim_all cs s1 = (rs', s')" "rs = r # rs'"
    using Cons.prems r by (auto simp: c split: prod.splits)
  have w: "wins k (c # cs) rs = (if c = k \<and> r = Inr True then 1 else 0) + wins k cs rs'"
    by (simp add: wins_def rs'(2))
  show ?case
    using claim_job_cases [OF r] Cons.IH [OF rs'(1)] unfolding w by (auto simp: c split: if_splits)
qed

lemma calm_claim_job:
  "calm s \<Longrightarrow> claim_job t job key s = (if (t, job, key) \<in> set (job_runs s) then (Inr False, s)
     else (Inr True, s\<lparr>job_runs := job_runs s @ [(t, job, key)]\<rparr>))"
  unfolding claim_job_def
  by (cases "(t, job, key) \<in> set (job_runs s)")
    (simp_all add: auto_def exec_def bind_def calm_round_trip, simp_all add: calm_def)

lemma calm_claims: "calm s \<Longrightarrow> calm (s\<lparr>job_runs := js\<rparr>)"
  by (simp add: calm_def)

lemma calm_claim_all_wins:
  "calm s \<Longrightarrow> k \<in> set cs \<Longrightarrow> k \<notin> set (job_runs s) \<Longrightarrow> claim_all cs s = (rs, s') \<Longrightarrow> 1 \<le> wins k cs rs"
proof (induction cs arbitrary: s rs)
  case (Cons c cs)
  obtain t job key where c: "c = (t, job, key)" by (cases c) auto
  obtain r s1 where r: "claim_job t job key s = (r, s1)" by fastforce
  obtain rs' where rs': "claim_all cs s1 = (rs', s')" "rs = r # rs'"
    using Cons.prems(4) r by (auto simp: c split: prod.splits)
  have w: "wins k (c # cs) rs = (if c = k \<and> r = Inr True then 1 else 0) + wins k cs rs'"
    by (simp add: wins_def rs'(2))
  show ?case
  proof (cases "c = k")
    case True
    then show ?thesis using r Cons.prems(1,3) unfolding w by (simp add: c calm_claim_job)
  next
    case False
    have "calm s1" "k \<notin> set (job_runs s1)"
      using r Cons.prems(1,3) False by (auto simp: c calm_claim_job calm_claims split: if_splits)
    then show ?thesis using Cons.IH [OF _ _ _ rs'(1)] Cons.prems(2) False unfolding w by simp
  qed
qed simp

section \<open>Properties\<close>

text \<open>among all the claims ever made for one job key, by any workers and under any failures, at most
  one succeeds; without failures exactly one does, unless the key was taken before.\<close>

theorem claim_job_once:
  "wins k cs (fst (claim_all cs s)) \<le> 1
   \<and> (calm s \<and> k \<in> set cs \<and> k \<notin> set (job_runs s) \<longrightarrow> wins k cs (fst (claim_all cs s)) = 1)"
proof -
  obtain rs s' where e: "claim_all cs s = (rs, s')" by fastforce
  show ?thesis using claim_all_wins [OF e, of k] calm_claim_all_wins [of s k cs rs s'] e
    by (auto split: if_splits)
qed

lemma claim_job_once_witness:
  "wins (1, ''report'', ''2024-01'') [(1, ''report'', ''2024-01''), (1, ''report'', ''2024-01'')]
     (fst (claim_all [(1, ''report'', ''2024-01''), (1, ''report'', ''2024-01'')] empty_db)) = 1"
proof -
  have "calm empty_db \<and> (1, ''report'', ''2024-01'') \<in> set [(1::nat, ''report'', ''2024-01''), (1, ''report'', ''2024-01'')]
      \<and> (1, ''report'', ''2024-01'') \<notin> set (job_runs empty_db)"
    by (simp add: calm_def empty_db_def)
  then show ?thesis
    using claim_job_once [of "(1, ''report'', ''2024-01'')" "[(1, ''report'', ''2024-01''), (1, ''report'', ''2024-01'')]" empty_db]
    by blast
qed

text \<open>storing settings and reading them back gives the settings normalised, and storing those changes
  nothing more; the settings of other tenants are untouched.\<close>

theorem general_settings_roundtrip:
  assumes "calm s"
  shows "\<exists>s'. upsert_general_settings known t g s = (Inr (), s')
    \<and> get_general_settings known t s' = (Inr (normalize_general_settings known g), s')
    \<and> upsert_general_settings known t (normalize_general_settings known g) s' = (Inr (), s')
    \<and> (t' \<noteq> t \<longrightarrow> fst (get_general_settings known t' s') = fst (get_general_settings known t' s))"
proof -
  define n where "n = normalize_general_settings known g"
  define s' where "s' = s\<lparr>general_rows := AList.update t n (general_rows s)\<rparr>"
  have n: "normalize_general_settings known n = n" unfolding n_def by (rule general_norm.idempotent)
  have c: "calm s'" using assms by (simp add: s'_def calm_def)
  have up: "upsert_general_settings known t x r
      = (Inr (), r\<lparr>general_rows := AList.update t (normalize_general_settings known x) (general_rows r)\<rparr>)" if "calm r" for x r
    using that unfolding upsert_general_settings_def
    by (simp add: bind_def calm_set_tenant auto_def exec_def calm_round_trip) (simp add: calm_def)
  have get: "get_general_settings known u r = (Inr (case map_of (general_rows r) u of
      None \<Rightarrow> default_general_settings | Some x \<Rightarrow> normalize_general_settings known x), r)" if "calm r" for u r
    using that unfolding get_general_settings_def or_default_row_def get_setting_def
    by (simp add: bind_def attempt_def calm_simps raise_def ret_def split: option.split)
  have rows: "AList.update t n (AList.update t n (general_rows s)) = AList.update t n (general_rows s)"
    by (induction "general_rows s" arbitrary: s) (auto simp: update_Some_unfold)
  show ?thesis
    using up [OF assms, of g] up [OF c, of n] get [OF c, of t] get [OF c, of t'] get [OF assms, of t'] n rows
    by (intro exI [of _ s']) (simp add: s'_def n_def [symmetric] update_conv')
qed

lemma general_settings_roundtrip_witness:
  "\<exists>s'. upsert_general_settings (\<lambda>_. True) 1 (default_general_settings\<lparr>gs_due_day := 40\<rparr>) empty_db = (Inr (), s')
    \<and> map_prod id gs_due_day (hd (general_rows s')) = (1, 28)"
proof -
  have "calm empty_db" by (simp add: calm_def empty_db_def)
  from general_settings_roundtrip [OF this, of "\<lambda>_. True" 1 "default_general_settings\<lparr>gs_due_day := 40\<rparr>" 2]
  obtain s' where s': "upsert_general_settings (\<lambda>_. True) 1 (default_general_settings\<lparr>gs_due_day := 40\<rparr>) empty_db = (Inr (), s')"
    by blast
  have "map_prod id gs_due_day (hd (general_rows (snd (upsert_general_settings (\<lambda>_. True) 1
     (default_general_settings\<lparr>gs_due_day := 40\<rparr>) empty_db)))) = (1, 28)" by code_simp
  then show ?thesis using s' by auto
qed

text \<open>C35: the readers answer in every state and under any failures, with values in range.\<close>

theorem settings_readers_answer:
  "\<exists>late due cycle grace low wallet tz s1 s2 s3 s4 s5 s6 s7.
     late_fee_percent known t s = (Inr late, s1) \<and> 0 \<le> late \<and> late \<le> 100 \<and>
     invoice_due_day known t s = (Inr due, s2) \<and> 1 \<le> due \<and> due \<le> 28 \<and>
     billing_cycle_start_day known t s = (Inr cycle, s3) \<and> 1 \<le> cycle \<and> cycle \<le> 28 \<and>
     isolir_grace_days known t s = (Inr grace, s4) \<and> 0 \<le> grace \<and> grace \<le> 30 \<and>
     wallet_min_topup known t s = (Inr low, s5) \<and> 1000 \<le> low \<and> low \<le> 100000000 \<and>
     wallet_enabled known t s = (Inr wallet, s6) \<and>
     tenant_location known tz0 t s = (Inr tz, s7) \<and> (known tz \<or> tz = tz0)"
proof -
  note d = default_general_settings_def
  have fee: "\<exists>x s'. late_fee_percent known t s = (Inr x, s') \<and> (0 \<le> x \<and> x \<le> 100)"
    unfolding late_fee_percent_def Let_def by (rule read_general_range) (auto simp: d in_range_def)
  have due: "\<exists>x s'. invoice_due_day known t s = (Inr x, s') \<and> (1 \<le> x \<and> x \<le> 28)"
    unfolding invoice_due_day_def Let_def by (rule read_general_range) (simp_all add: d clamp_due_range)
  have cycle: "\<exists>x s'. billing_cycle_start_day known t s = (Inr x, s') \<and> (1 \<le> x \<and> x \<le> 28)"
    unfolding billing_cycle_start_day_def by (rule read_general_range) (simp_all add: in_range_def)
  have grace: "\<exists>x s'. isolir_grace_days known t s = (Inr x, s') \<and> (0 \<le> x \<and> x \<le> 30)"
    unfolding isolir_grace_days_def by (rule read_general_range) (simp_all add: in_range_def)
  have low: "\<exists>x s'. wallet_min_topup known t s = (Inr x, s') \<and> (1000 \<le> x \<and> x \<le> 100000000)"
    unfolding wallet_min_topup_def by (rule read_general_range) (simp_all add: d in_range_def)
  have wallet: "\<exists>x s'. wallet_enabled known t s = (Inr x, s') \<and> True"
    unfolding wallet_enabled_def by (rule read_general_range) simp_all
  let ?d = "gs_timezone default_general_settings"
  let ?f = "\<lambda>g. let z = trim_space (gs_timezone g) in if z \<noteq> [] then z else ?d"
  obtain z sz where "read_general known t ?d ?f s = (Inr z, sz)"
    using read_general_range [of "\<lambda>_. True" ?d ?f known t s] by blast
  then have "\<exists>x s'. tenant_location known tz0 t s = (Inr x, s') \<and> (known x \<or> x = tz0)"
    by (simp add: tenant_location_def Let_def bind_def ret_def)
  then show ?thesis using fee due cycle grace low wallet by metis
qed

end
