(* ===== verification/Plans.thy ===== *)
theory Plans
  imports Tenant_Settings Billing_Calc GoFmt
begin

text \<open>
  What a customer pays for: plans (\<open>internal/store/plans.go\<close>), their offers per cluster
  (\<open>internal/store/plan_offers.go\<close>) and discounts (\<open>internal/store/plan_discounts.go\<close>).  Dates
  of discounts are day numbers.  The names of clusters, which only order one list, are a
  parameter \<open>site\<close>.  The price a customer is billed is the offer's or the plan's, less the
  discount that makes it cheapest.
\<close>

section \<open>Choosing the best of a list\<close>

definition pick_best :: "('a \<Rightarrow> 'a \<Rightarrow> bool) \<Rightarrow> 'a list \<Rightarrow> 'a option" where
  "pick_best better xs = foldl (\<lambda>best x. case best of None \<Rightarrow> Some x | Some b \<Rightarrow> if better x b then Some x else best) None xs"

text \<open>The contract of the preference of such a loop.\<close>

locale preference =
  fixes better :: "'a \<Rightarrow> 'a \<Rightarrow> bool"
  assumes irreflexive: "\<not> better x x"
    and negatively_transitive: "\<not> better x y \<Longrightarrow> \<not> better y z \<Longrightarrow> \<not> better x z"
    and asymmetric: "better x y \<Longrightarrow> \<not> better y x"
begin

lemma loop_best:
  "foldl (\<lambda>best x. case best of None \<Rightarrow> Some x | Some b \<Rightarrow> if better x b then Some x else best) (Some b) xs = Some r \<Longrightarrow>
   (r = b \<or> r \<in> set xs) \<and> \<not> better b r \<and> (\<forall>y\<in>set xs. \<not> better y r)"
proof (induction xs arbitrary: b)
  case Nil
  then show ?case by (simp add: irreflexive)
next
  case (Cons x xs)
  define b' where "b' = (if better x b then x else b)"
  have e: "foldl (\<lambda>best x. case best of None \<Rightarrow> Some x | Some b \<Rightarrow> if better x b then Some x else best) (Some b') xs = Some r"
    using Cons.prems by (simp add: b'_def if_distrib)
  note ih = Cons.IH [OF e]
  have "\<not> better b b'" "\<not> better x b'"
    using asymmetric irreflexive by (auto simp: b'_def)
  then have "\<not> better b r" "\<not> better x r" using ih negatively_transitive by blast+
  then show ?case using ih by (auto simp: b'_def split: if_splits)
qed

lemma best: "pick_best better xs = Some r \<Longrightarrow> r \<in> set xs \<and> (\<forall>y\<in>set xs. \<not> better y r)"
  unfolding pick_best_def by (cases xs) (auto dest: loop_best)

lemma loop_Some: "\<exists>r. foldl (\<lambda>best x. case best of None \<Rightarrow> Some x | Some b \<Rightarrow> if better x b then Some x else best) (Some b) xs = Some r"
  by (induction xs arbitrary: b) auto

lemma none: "pick_best better xs = None \<longleftrightarrow> xs = []"
proof (cases xs)
  case (Cons a ys)
  then show ?thesis using loop_Some [of a ys] by (auto simp: pick_best_def)
qed (simp add: pick_best_def)

end

section \<open>Plans\<close>

definition is_plan :: "gid \<Rightarrow> gid \<Rightarrow> plan \<Rightarrow> bool" where
  "is_plan tenant pid p \<longleftrightarrow> plan_tenant p = tenant \<and> plan_id p = pid"

definition list_plans :: "gid \<Rightarrow> (db, plan list) prog" where
  "list_plans tenant =
     bind set_tenant (\<lambda>_.
     auto (query (\<lambda>s. order_by (\<lambda>a b. plan_name a \<le> plan_name b) (filter (\<lambda>p. plan_tenant p = tenant) (plans s)))))"

definition get_plan :: "gid \<Rightarrow> gid \<Rightarrow> (db, plan) prog" where
  "get_plan tenant pid =
     bind set_tenant (\<lambda>_.
     bind (auto (query (\<lambda>s. first_row (is_plan tenant pid) (plans s)))) (\<lambda>row.
     case row of None \<Rightarrow> raise Not_found | Some p \<Rightarrow> ret p))"

definition insert_plan :: "plan \<Rightarrow> db \<Rightarrow> (gid \<times> db) option" where
  "insert_plan p s =
     (if int64_ok (plan_price p) \<and> \<not> list_ex (\<lambda>q. plan_tenant q = plan_tenant p \<and> plan_code q = plan_code p) (plans s)
      then Some (next_id s, s\<lparr>next_id := Suc (next_id s), plans := plans s @ [p\<lparr>plan_id := next_id s\<rparr>]\<rparr>)
      else None)"

definition create_plan :: "plan \<Rightarrow> (db, gid) prog" where
  "create_plan p = bind set_tenant (\<lambda>_. auto (exec (insert_plan p)))"

definition update_plan :: "plan \<Rightarrow> (db, unit) prog" where
  "update_plan p =
     bind set_tenant (\<lambda>_.
     bind (auto (exec (\<lambda>s. let q = is_plan (plan_tenant p) (plan_id p) in
        if int64_ok (plan_price p) \<or> affected q (plans s) = 0
        then Some (affected q (plans s), s\<lparr>plans := update_rows q (\<lambda>r. p\<lparr>plan_code := plan_code r\<rparr>) (plans s)\<rparr>)
        else None))) (\<lambda>n.
     if n = 0 then raise Not_found else ret ()))"

text \<open>\<open>DELETE FROM plans\<close>: refused while a subscription refers to the plan, with
  \<open>ON DELETE CASCADE\<close> on its offers and discounts.\<close>

definition delete_plan :: "gid \<Rightarrow> gid \<Rightarrow> (db, unit) prog" where
  "delete_plan tenant pid =
     bind set_tenant (\<lambda>_.
     bind (auto (exec (\<lambda>s. let n = affected (is_plan tenant pid) (plans s) in
        if n \<noteq> 0 \<and> list_ex (\<lambda>x. sub_plan x = pid) (subscriptions s) then None
        else let gone = map disc_id (filter (\<lambda>d. n \<noteq> 0 \<and> disc_plan d = Some pid) (discounts s)) in
          Some (n, s\<lparr>plans := filter (\<lambda>p. \<not> is_plan tenant pid p) (plans s),
            offers := filter (\<lambda>o'. \<not> (n \<noteq> 0 \<and> off_plan o' = pid)) (offers s),
            discounts := filter (\<lambda>d. \<not> (n \<noteq> 0 \<and> disc_plan d = Some pid)) (discounts s),
            discount_customers := filter (\<lambda>(d, _). d \<notin> set gone) (discount_customers s)\<rparr>)))) (\<lambda>n.
     if n = 0 then raise Not_found else ret ()))"

record portal_plan =
  pp_id :: gid
  pp_name :: string
  pp_code :: string
  pp_price :: int
  pp_original :: int
  pp_label :: string
  pp_down :: int
  pp_up :: int
  pp_service :: string
  pp_cycle :: string

definition portal_option :: "plan \<Rightarrow> offer \<Rightarrow> portal_plan" where
  "portal_option p f = \<lparr>pp_id = plan_id p, pp_name = plan_name p, pp_code = plan_code p, pp_price = off_price f,
     pp_original = 0, pp_label = [], pp_down = plan_down p, pp_up = plan_up p, pp_service = plan_service p, pp_cycle = plan_cycle p\<rparr>"

definition price_then_name :: "('r \<Rightarrow> int) \<Rightarrow> ('r \<Rightarrow> string) \<Rightarrow> 'r \<Rightarrow> 'r \<Rightarrow> bool" where
  "price_then_name price name a b \<longleftrightarrow> price a < price b \<or> (price a = price b \<and> name a \<le> name b)"

definition portal_rows :: "gid \<Rightarrow> gid \<Rightarrow> string \<Rightarrow> gid \<Rightarrow> db \<Rightarrow> portal_plan list" where
  "portal_rows tenant cluster svc exclude s =
     concat (map (\<lambda>p. if plan_tenant p = tenant \<and> plan_active p \<and> plan_portal p
          \<and> (svc = [] \<or> plan_service p = svc) \<and> plan_id p \<noteq> exclude
        then map (portal_option p) (filter (\<lambda>f. off_plan f = plan_id p \<and> off_cluster f = cluster
               \<and> off_tenant f = plan_tenant p \<and> off_active f) (offers s))
        else []) (plans s))"

definition list_portal_plans :: "gid \<Rightarrow> gid option \<Rightarrow> string \<Rightarrow> gid \<Rightarrow> (db, portal_plan list) prog" where
  "list_portal_plans tenant cluster service exclude =
     bind set_tenant (\<lambda>_.
     let svc = trim_space (to_lower service) in
     case cluster of
       None \<Rightarrow> ret []
     | Some c \<Rightarrow> if c = nil_id then ret []
         else auto (query (\<lambda>s. order_by (price_then_name pp_price pp_name) (portal_rows tenant c svc exclude s))))"

record public_plan =
  pub_id :: gid
  pub_name :: string
  pub_price :: int
  pub_cycle :: string
  pub_service :: string
  pub_down :: int
  pub_up :: int
  pub_quota :: "int option"

text \<open>\<open>COALESCE(MIN(o.price) FILTER (WHERE o.is_active), 0)\<close>.\<close>

definition min_offer :: "db \<Rightarrow> plan \<Rightarrow> int" where
  "min_offer s p =
     (case map off_price (filter (\<lambda>f. off_plan f = plan_id p \<and> off_tenant f = plan_tenant p \<and> off_active f) (offers s)) of
        [] \<Rightarrow> 0 | x # xs \<Rightarrow> foldl min x xs)"

definition public_option :: "db \<Rightarrow> plan \<Rightarrow> public_plan" where
  "public_option s p =
     \<lparr>pub_id = plan_id p, pub_name = plan_name p,
      pub_price = (if plan_price p \<le> 0 \<and> 0 < min_offer s p then min_offer s p else plan_price p),
      pub_cycle = plan_cycle p, pub_service = plan_service p, pub_down = plan_down p, pub_up = plan_up p,
      pub_quota = plan_quota p\<rparr>"

definition list_public_plans :: "gid \<Rightarrow> (db, public_plan list) prog" where
  "list_public_plans tenant =
     bind set_tenant (\<lambda>_.
     auto (query (\<lambda>s. map (public_option s) (order_by (price_then_name plan_price plan_name)
       (filter (\<lambda>p. plan_tenant p = tenant \<and> plan_active p \<and> plan_portal p) (plans s))))))"

section \<open>Offers\<close>

text \<open>A row of \<open>planOfferSelect\<close>: the offer joined with its plan.\<close>

definition offer_rows :: "(offer \<Rightarrow> bool) \<Rightarrow> db \<Rightarrow> (offer \<times> plan) list" where
  "offer_rows q s = concat (map (\<lambda>f. map (Pair f) (filter (\<lambda>p. plan_id p = off_plan f) (plans s))) (filter q (offers s)))"

definition list_plan_offers :: "(gid \<Rightarrow> string) \<Rightarrow> gid \<Rightarrow> gid option \<Rightarrow> gid option \<Rightarrow> (db, (offer \<times> plan) list) prog" where
  "list_plan_offers site tenant cluster pid =
     bind set_tenant (\<lambda>_.
     auto (query (\<lambda>s. order_by
       (\<lambda>a b. site (off_cluster (fst a)) < site (off_cluster (fst b))
          \<or> (site (off_cluster (fst a)) = site (off_cluster (fst b)) \<and> plan_name (snd a) \<le> plan_name (snd b)))
       (offer_rows (\<lambda>f. off_tenant f = tenant
          \<and> (case cluster of None \<Rightarrow> True | Some c \<Rightarrow> off_cluster f = c)
          \<and> (case pid of None \<Rightarrow> True | Some p \<Rightarrow> off_plan f = p)) s))))"

definition get_offer_where :: "(offer \<Rightarrow> bool) \<Rightarrow> (db, offer \<times> plan) prog" where
  "get_offer_where q =
     bind set_tenant (\<lambda>_.
     bind (auto (query (offer_rows q))) (\<lambda>rows.
     case rows of [] \<Rightarrow> raise Not_found | r # _ \<Rightarrow> ret r))"

definition get_plan_offer :: "gid \<Rightarrow> gid \<Rightarrow> (db, offer \<times> plan) prog" where
  "get_plan_offer tenant fid = get_offer_where (\<lambda>f. off_tenant f = tenant \<and> off_id f = fid)"

definition get_plan_offer_by_plan_cluster :: "gid \<Rightarrow> gid \<Rightarrow> gid \<Rightarrow> (db, offer \<times> plan) prog" where
  "get_plan_offer_by_plan_cluster tenant pid cluster =
     get_offer_where (\<lambda>f. off_tenant f = tenant \<and> off_plan f = pid \<and> off_cluster f = cluster)"

definition resolve_plan_due_day ::
  "(string \<Rightarrow> bool) \<Rightarrow> gid \<Rightarrow> gid \<Rightarrow> gid option \<Rightarrow> int option \<Rightarrow> (db, int) prog" where
  "resolve_plan_due_day known tenant pid cluster plan_day =
     bind (invoice_due_day known tenant) (\<lambda>def.
     let from_plan = ret (case plan_day of Some d \<Rightarrow> clamp_due_day d def | None \<Rightarrow> def) in
     case cluster of
       None \<Rightarrow> from_plan
     | Some c \<Rightarrow>
         if c = nil_id then from_plan
         else bind (attempt (get_plan_offer_by_plan_cluster tenant pid c)) (\<lambda>r.
           case r of
             Inr (f, _) \<Rightarrow>
               (case off_due_day f of
                  Some d \<Rightarrow> if off_active f then ret (clamp_due_day d def) else from_plan
                | None \<Rightarrow> from_plan)
           | Inl _ \<Rightarrow> from_plan))"

definition offer_ok :: "offer \<Rightarrow> bool" where
  "offer_ok f \<longleftrightarrow> 0 \<le> off_price f \<and> int64_ok (off_price f)"

definition upsert_offer :: "offer \<Rightarrow> db \<Rightarrow> (gid \<times> db) option" where
  "upsert_offer f s =
     (if \<not> offer_ok f \<or> \<not> list_ex (\<lambda>p. plan_id p = off_plan f) (plans s) then None
      else let same = (\<lambda>g. off_plan g = off_plan f \<and> off_cluster g = off_cluster f) in
        case first_row same (offers s) of
          Some g \<Rightarrow> Some (off_id g, s\<lparr>offers := update_rows same
             (\<lambda>g. g\<lparr>off_price := off_price f, off_active := off_active f, off_pool := off_pool f, off_due_day := off_due_day f\<rparr>) (offers s)\<rparr>)
        | None \<Rightarrow> Some (next_id s, s\<lparr>next_id := Suc (next_id s), offers := offers s @ [f\<lparr>off_id := next_id s\<rparr>]\<rparr>))"

definition upsert_plan_offer :: "offer \<Rightarrow> (db, gid) prog" where
  "upsert_plan_offer f = bind set_tenant (\<lambda>_. auto (exec (upsert_offer f)))"

definition is_offer :: "gid \<Rightarrow> gid \<Rightarrow> offer \<Rightarrow> bool" where
  "is_offer tenant fid f \<longleftrightarrow> off_tenant f = tenant \<and> off_id f = fid"

definition update_plan_offer :: "offer \<Rightarrow> (db, unit) prog" where
  "update_plan_offer f =
     bind set_tenant (\<lambda>_.
     bind (auto (exec (\<lambda>s. let q = is_offer (off_tenant f) (off_id f) in
        if offer_ok f \<or> affected q (offers s) = 0
        then Some (affected q (offers s), s\<lparr>offers := update_rows q
          (\<lambda>g. g\<lparr>off_price := off_price f, off_active := off_active f, off_pool := off_pool f, off_due_day := off_due_day f\<rparr>) (offers s)\<rparr>)
        else None))) (\<lambda>n.
     if n = 0 then raise Not_found else ret ()))"

definition delete_plan_offer :: "gid \<Rightarrow> gid \<Rightarrow> (db, unit) prog" where
  "delete_plan_offer tenant fid =
     bind set_tenant (\<lambda>_.
     bind (auto (exec (\<lambda>s. Some (affected (is_offer tenant fid) (offers s),
        s\<lparr>offers := filter (\<lambda>f. \<not> is_offer tenant fid f) (offers s)\<rparr>)))) (\<lambda>n.
     if n = 0 then raise Not_found else ret ()))"

definition resolve_plan_price :: "gid \<Rightarrow> gid \<Rightarrow> gid option \<Rightarrow> (db, int) prog" where
  "resolve_plan_price tenant pid cluster =
     bind (get_plan tenant pid) (\<lambda>p.
     case cluster of
       None \<Rightarrow> ret (plan_price p)
     | Some c \<Rightarrow>
         bind (attempt (get_plan_offer_by_plan_cluster tenant pid c)) (\<lambda>r.
         case r of
           Inl e \<Rightarrow> if e = Not_found then ret (plan_price p) else raise e
         | Inr (f, _) \<Rightarrow> ret (if off_active f then off_price f else plan_price p)))"

section \<open>Discounts\<close>

definition normalize_plan_discount :: "discount \<Rightarrow> gid list \<Rightarrow> discount \<times> gid list" where
  "normalize_plan_discount d ids =
     (let kind = to_lower (trim_space (disc_kind d));
          kind = (if kind \<noteq> ''amount'' then ''percent'' else kind);
          audience = to_lower (trim_space (disc_audience d));
          audience = (if audience \<noteq> ''selected'' then ''all'' else audience);
          v = (if kind = ''percent'' \<and> 100 < disc_value d then 100 else disc_value d);
          v = (if v < 0 then 0 else v)
      in (d\<lparr>disc_name := trim_space (disc_name d), disc_kind := kind, disc_audience := audience, disc_value := v\<rparr>,
          if audience = ''all'' then [] else ids))"

definition apply_plan_discount :: "int \<Rightarrow> discount option \<Rightarrow> int" where
  "apply_plan_discount base od =
     (case od of
        None \<Rightarrow> base
      | Some d \<Rightarrow>
          if base \<le> 0 \<or> disc_value d \<le> 0 then base
          else let off = (if disc_kind d = ''percent'' then percent_of base (f_of_int (disc_value d)) else disc_value d);
                   off = (if base < off then base else off);
                   off = (if off < 0 then 0 else off)
               in base - off)"

text \<open>The sign in the label is U+2212, three bytes in UTF-8.\<close>

definition discount_label :: "discount option \<Rightarrow> string" where
  "discount_label od =
     (case od of
        None \<Rightarrow> []
      | Some d \<Rightarrow>
          if disc_kind d = ''percent''
          then disc_name d @ '' '' @ [CHR 0xE2, CHR 0x88, CHR 0x92] @ format_int (disc_value d) @ ''%''
          else disc_name d)"

definition discount_specificity :: "discount option \<Rightarrow> int" where
  "discount_specificity od =
     (case od of
        None \<Rightarrow> 0
      | Some d \<Rightarrow> (case disc_plan d of None \<Rightarrow> 0 | Some p \<Rightarrow> if p = nil_id then 0 else 2)
                 + (if disc_audience d = ''selected'' then 1 else 0))"

text \<open>A row of the queries: the discount, the name of its plan and the number of its customers.\<close>

type_synonym discount_view = "discount \<times> string \<times> int"

definition discount_plan_name :: "db \<Rightarrow> discount \<Rightarrow> string" where
  "discount_plan_name s d =
     (case disc_plan d of
        None \<Rightarrow> []
      | Some p \<Rightarrow> (case first_row (\<lambda>r. plan_id r = p) (plans s) of None \<Rightarrow> [] | Some r \<Rightarrow> plan_name r))"

definition discount_row :: "db \<Rightarrow> discount \<Rightarrow> discount_view" where
  "discount_row s d = (d, discount_plan_name s d, int (affected (\<lambda>(x, _). x = disc_id d) (discount_customers s)))"

definition list_plan_discounts :: "gid \<Rightarrow> (db, discount_view list) prog" where
  "list_plan_discounts tenant =
     bind set_tenant (\<lambda>_.
     auto (query (\<lambda>s. map (discount_row s) (order_by
       (\<lambda>a b. disc_starts b < disc_starts a \<or> (disc_starts a = disc_starts b \<and> disc_created b \<le> disc_created a))
       (filter (\<lambda>d. disc_tenant d = tenant) (discounts s))))))"

definition is_discount :: "gid \<Rightarrow> gid \<Rightarrow> discount \<Rightarrow> bool" where
  "is_discount tenant did d \<longleftrightarrow> disc_tenant d = tenant \<and> disc_id d = did"

definition list_plan_discount_customers :: "gid \<Rightarrow> (db, gid list) prog" where
  "list_plan_discount_customers did =
     auto (query (\<lambda>s. map snd (filter (\<lambda>(d, _). d = did) (discount_customers s))))"

definition get_plan_discount :: "gid \<Rightarrow> gid \<Rightarrow> (db, discount_view \<times> gid list) prog" where
  "get_plan_discount tenant did =
     bind set_tenant (\<lambda>_.
     bind (auto (query (\<lambda>s. map_option (discount_row s) (first_row (is_discount tenant did) (discounts s))))) (\<lambda>row.
     case row of
       None \<Rightarrow> raise Not_found
     | Some v \<Rightarrow> bind (list_plan_discount_customers did) (\<lambda>ids. ret (v, ids))))"

text \<open>The \<open>CHECK\<close> constraints of \<open>plan_discounts\<close>.\<close>

definition discount_ok :: "discount \<Rightarrow> bool" where
  "discount_ok d \<longleftrightarrow> 0 < disc_value d \<and> int64_ok (disc_value d) \<and> disc_kind d \<in> {''percent'', ''amount''}
     \<and> disc_audience d \<in> {''all'', ''selected''} \<and> disc_starts d \<le> disc_ends d
     \<and> (disc_kind d = ''percent'' \<longrightarrow> disc_value d \<le> 100)"

definition insert_discount :: "int \<Rightarrow> discount \<Rightarrow> db \<Rightarrow> (gid \<times> db) option" where
  "insert_discount now d s =
     (if discount_ok d \<and> (case disc_plan d of None \<Rightarrow> True | Some p \<Rightarrow> list_ex (\<lambda>r. plan_id r = p) (plans s))
      then Some (next_id s, s\<lparr>next_id := Suc (next_id s),
             discounts := discounts s @ [d\<lparr>disc_id := next_id s, disc_created := now\<rparr>]\<rparr>)
      else None)"

definition add_discount_customer :: "gid \<Rightarrow> gid \<Rightarrow> db \<Rightarrow> (unit \<times> db) option" where
  "add_discount_customer did c s =
     (if (did, c) \<in> set (discount_customers s) then Some ((), s)
      else if list_ex (\<lambda>d. disc_id d = did) (discounts s) \<and> list_ex (\<lambda>r. cust_id r = c) (customers s)
      then Some ((), s\<lparr>discount_customers := discount_customers s @ [(did, c)]\<rparr>)
      else None)"

definition replace_plan_discount_customers :: "gid \<Rightarrow> gid list \<Rightarrow> (db, unit) prog" where
  "replace_plan_discount_customers did ids =
     bind (auto (exec (\<lambda>s. Some ((), s\<lparr>discount_customers := filter (\<lambda>(d, _). d \<noteq> did) (discount_customers s)\<rparr>)))) (\<lambda>_.
     for_each ids (\<lambda>c. if c = nil_id then ret () else auto (exec (add_discount_customer did c))))"

definition create_plan_discount :: "int \<Rightarrow> discount \<Rightarrow> gid list \<Rightarrow> (db, discount_view \<times> gid list) prog" where
  "create_plan_discount now d ids =
     bind set_tenant (\<lambda>_.
     bind (auto (exec (insert_discount now d))) (\<lambda>did.
     bind (replace_plan_discount_customers did ids) (\<lambda>_.
     get_plan_discount (disc_tenant d) did)))"

definition update_plan_discount :: "discount \<Rightarrow> gid list \<Rightarrow> (db, discount_view \<times> gid list) prog" where
  "update_plan_discount d ids =
     bind set_tenant (\<lambda>_.
     bind (auto (exec (\<lambda>s. let q = is_discount (disc_tenant d) (disc_id d); n = affected q (discounts s) in
        if n = 0 \<or> (discount_ok d \<and> (case disc_plan d of None \<Rightarrow> True | Some p \<Rightarrow> list_ex (\<lambda>r. plan_id r = p) (plans s)))
        then Some (n, s\<lparr>discounts := update_rows q (\<lambda>r. d\<lparr>disc_created := disc_created r\<rparr>) (discounts s)\<rparr>)
        else None))) (\<lambda>n.
     if n = 0 then raise Not_found
     else bind (replace_plan_discount_customers (disc_id d) ids) (\<lambda>_.
          get_plan_discount (disc_tenant d) (disc_id d))))"

definition delete_plan_discount :: "gid \<Rightarrow> gid \<Rightarrow> (db, unit) prog" where
  "delete_plan_discount tenant did =
     bind set_tenant (\<lambda>_.
     bind (auto (exec (\<lambda>s. let n = affected (is_discount tenant did) (discounts s) in
        Some (n, s\<lparr>discounts := filter (\<lambda>d. \<not> is_discount tenant did d) (discounts s),
          discount_customers := filter (\<lambda>(d, _). \<not> (n \<noteq> 0 \<and> d = did)) (discount_customers s)\<rparr>)))) (\<lambda>n.
     if n = 0 then raise Not_found else ret ()))"

definition applies :: "gid \<Rightarrow> gid \<Rightarrow> gid \<Rightarrow> int \<Rightarrow> db \<Rightarrow> discount \<Rightarrow> bool" where
  "applies tenant pid customer on s d \<longleftrightarrow>
     disc_tenant d = tenant \<and> disc_active d \<and> disc_starts d \<le> on \<and> on \<le> disc_ends d
     \<and> (disc_plan d = None \<or> disc_plan d = Some pid)
     \<and> (disc_audience d = ''all'' \<or> (disc_id d, customer) \<in> set (discount_customers s))"

fun best_discount :: "int \<Rightarrow> (discount \<times> int) option \<Rightarrow> discount list \<Rightarrow> (discount \<times> int) option" where
  "best_discount base best [] = best"
| "best_discount base best (d # ds) =
     (let price = apply_plan_discount base (Some d);
          better = (case best of None \<Rightarrow> True
            | Some (b, best_price) \<Rightarrow> price < best_price
                \<or> (price = best_price \<and> discount_specificity (Some b) < discount_specificity (Some d)))
      in best_discount base (if better then Some (d, price) else best) ds)"

text \<open>\<open>on\<close> is the day asked for; \<open>None\<close> is the empty string.\<close>

definition find_best_plan_discount :: "int \<Rightarrow> gid \<Rightarrow> gid \<Rightarrow> gid \<Rightarrow> int option \<Rightarrow> int \<Rightarrow> (db, discount option) prog" where
  "find_best_plan_discount today tenant pid customer on base =
     (if customer = nil_id \<or> base \<le> 0 then ret None
      else let day = (case on of None \<Rightarrow> today | Some d \<Rightarrow> d) in
        bind set_tenant (\<lambda>_.
        bind (auto (query (\<lambda>s. filter (applies tenant pid customer day s) (discounts s)))) (\<lambda>ds.
        ret (map_option fst (best_discount base None ds)))))"

definition resolve_billed_plan_price ::
  "int \<Rightarrow> gid \<Rightarrow> gid \<Rightarrow> gid \<Rightarrow> gid option \<Rightarrow> int option \<Rightarrow> (db, int \<times> discount option) prog" where
  "resolve_billed_plan_price today tenant pid customer cluster at_day =
     bind (resolve_plan_price tenant pid cluster) (\<lambda>base.
     let day = (case at_day of None \<Rightarrow> today | Some d \<Rightarrow> d) in
     bind (attempt (find_best_plan_discount today tenant pid customer (Some day) base)) (\<lambda>r.
     case r of
       Inl _ \<Rightarrow> ret (base, None)
     | Inr d \<Rightarrow> ret (apply_plan_discount base d, d)))"

definition decorate_portal_plan_price :: "int \<Rightarrow> gid \<Rightarrow> gid \<Rightarrow> portal_plan \<Rightarrow> (db, portal_plan) prog" where
  "decorate_portal_plan_price today tenant customer p =
     (if customer = nil_id then ret p
      else bind (attempt (find_best_plan_discount today tenant (pp_id p) customer (Some today) (pp_price p))) (\<lambda>r.
        case r of
          Inr (Some d) \<Rightarrow>
            (let next = apply_plan_discount (pp_price p) (Some d) in
             if pp_price p \<le> next then ret p
             else ret (p\<lparr>pp_original := pp_price p, pp_price := next, pp_label := discount_label (Some d)\<rparr>))
        | _ \<Rightarrow> ret p))"

section \<open>The best discount\<close>

definition cheaper :: "int \<Rightarrow> discount \<Rightarrow> discount \<Rightarrow> bool" where
  "cheaper base d b \<longleftrightarrow> apply_plan_discount base (Some d) < apply_plan_discount base (Some b)
     \<or> (apply_plan_discount base (Some d) = apply_plan_discount base (Some b)
        \<and> discount_specificity (Some b) < discount_specificity (Some d))"

interpretation best_price: preference "cheaper base"
  by unfold_locales (auto simp: cheaper_def)

lemma best_discount_loop:
  "best_discount base (map_option (\<lambda>d. (d, apply_plan_discount base (Some d))) best) ds
   = map_option (\<lambda>d. (d, apply_plan_discount base (Some d)))
       (foldl (\<lambda>best x. case best of None \<Rightarrow> Some x | Some b \<Rightarrow> if cheaper base x b then Some x else best) best ds)"
proof (induction ds arbitrary: best)
  case (Cons d ds)
  have "best_discount base (map_option (\<lambda>d. (d, apply_plan_discount base (Some d))) best) (d # ds)
      = best_discount base (map_option (\<lambda>d. (d, apply_plan_discount base (Some d)))
          (case best of None \<Rightarrow> Some d | Some b \<Rightarrow> if cheaper base d b then Some d else best)) ds"
    by (cases best) (simp_all add: cheaper_def Let_def)
  then show ?case using Cons.IH by simp
qed simp

lemma best_discount_picks: "map_option fst (best_discount base None ds) = pick_best (cheaper base) ds"
  using best_discount_loop [of base None ds] by (simp add: pick_best_def option.map_comp comp_def option.map_ident)

lemma apply_plan_discount_bounds:
  "0 \<le> base \<Longrightarrow> 0 \<le> apply_plan_discount base od \<and> apply_plan_discount base od \<le> base"
  by (auto simp: apply_plan_discount_def Let_def split: option.split)

lemma find_best_run:
  assumes "find_best_plan_discount today t pid c on base s = (Inr r, s')" and "c \<noteq> nil_id" and "0 < base"
  shows "r = pick_best (cheaper base) (filter (applies t pid c (case on of None \<Rightarrow> today | Some d \<Rightarrow> d) s) (discounts s))"
proof -
  define day where "day = (case on of None \<Rightarrow> today | Some d \<Rightarrow> d)"
  have tables: "filter (applies t pid c day s1) (discounts s1) = filter (applies t pid c day s) (discounts s)"
    if "same_tables s s1" for s1
  proof -
    have "applies t pid c day s1 = applies t pid c day s"
      using same_tables_D [OF that] by (simp add: applies_def fun_eq_iff)
    then show ?thesis using same_tables_D [OF that] by simp
  qed
  have "gives (same_tables s) (bind set_tenant (\<lambda>_.
        bind (auto (query (\<lambda>s. filter (applies t pid c day s) (discounts s)))) (\<lambda>ds.
        ret (map_option fst (best_discount base None ds)))))
     (\<lambda>r _. r = pick_best (cheaper base) (filter (applies t pid c day s) (discounts s)))"
    by (rule gives_bind [OF gives_set_tenant [OF stable_same_tables]], rule gives_bind,
        rule gives_same_query [where g = "\<lambda>s1. filter (applies t pid c day s1) (discounts s1)"], erule tables)
      (auto simp: best_discount_picks intro: gives_ret)
  moreover have "bind set_tenant (\<lambda>_.
        bind (auto (query (\<lambda>s. filter (applies t pid c day s) (discounts s)))) (\<lambda>ds.
        ret (map_option fst (best_discount base None ds)))) s = (Inr r, s')"
    using assms by (simp add: find_best_plan_discount_def Let_def day_def)
  ultimately show ?thesis
    using same_tables_refl [of s] unfolding gives_def day_def by blast
qed

section \<open>The price before the discount\<close>

definition listed_price :: "gid \<Rightarrow> gid \<Rightarrow> gid option \<Rightarrow> db \<Rightarrow> int \<Rightarrow> bool" where
  "listed_price t pid cluster s base \<longleftrightarrow>
     (\<exists>p\<in>set (plans s). is_plan t pid p \<and> base = plan_price p) \<or>
     (\<exists>f\<in>set (offers s). off_active f \<and> off_plan f = pid \<and> cluster = Some (off_cluster f) \<and> base = off_price f)"

lemma get_plan_gives:
  "gives (same_tables s) (get_plan t pid) (\<lambda>p s1. same_tables s s1 \<and> p \<in> set (plans s) \<and> is_plan t pid p)"
  unfolding get_plan_def
proof (rule gives_bind [OF gives_set_tenant [OF stable_same_tables]], rule gives_bind)
  show "gives (same_tables s) (auto (query (\<lambda>s. first_row (is_plan t pid) (plans s))))
      (\<lambda>row s1. same_tables s s1 \<and> row = first_row (is_plan t pid) (plans s))"
    using same_tables_D(6) by (intro gives_same_query) metis
  show "gives (\<lambda>s1. same_tables s s1 \<and> row = first_row (is_plan t pid) (plans s))
      (case row of None \<Rightarrow> raise Not_found | Some p \<Rightarrow> ret p)
      (\<lambda>p s1. same_tables s s1 \<and> p \<in> set (plans s) \<and> is_plan t pid p)" for row
    by (cases row) (auto intro!: gives_ret dest: first_row_Some [OF sym])
qed

lemma offer_rowsD: "(f, p) \<in> set (offer_rows q s) \<Longrightarrow> f \<in> set (offers s) \<and> q f"
  by (auto simp: offer_rows_def)

lemma get_offer_gives:
  "gives (same_tables s) (get_offer_where q) (\<lambda>(f, _) s1. same_tables s s1 \<and> f \<in> set (offers s) \<and> q f)"
  unfolding get_offer_where_def
proof (rule gives_bind [OF gives_set_tenant [OF stable_same_tables]], rule gives_bind)
  have "offer_rows q s1 = offer_rows q s" if "same_tables s s1" for s1
    using same_tables_D [OF that] by (simp add: offer_rows_def)
  then show "gives (same_tables s) (auto (query (offer_rows q))) (\<lambda>rows s1. same_tables s s1 \<and> rows = offer_rows q s)"
    by (rule gives_same_query)
  show "gives (\<lambda>s1. same_tables s s1 \<and> rows = offer_rows q s) (case rows of [] \<Rightarrow> raise Not_found | r # _ \<Rightarrow> ret r)
      (\<lambda>(f, _) s1. same_tables s s1 \<and> f \<in> set (offers s) \<and> q f)" for rows
  proof (cases rows)
    case (Cons r rs)
    obtain f p where r: "r = (f, p)" by (cases r)
    have "rows = offer_rows q s \<Longrightarrow> f \<in> set (offers s) \<and> q f"
      using offer_rowsD [of f p q s] Cons r by (metis list.set_intros(1))
    then show ?thesis using Cons r by (auto intro!: gives_ret)
  qed simp
qed

lemma keeps_get_offer: "stable P \<Longrightarrow> keeps P (get_offer_where q)"
  unfolding get_offer_where_def
proof (intro keeps_intros; assumption?)
  show "keeps P (case rows of [] \<Rightarrow> raise Not_found | r # _ \<Rightarrow> ret r)" for rows :: "(offer \<times> plan) list"
    by (cases rows) (auto intro: keeps_intros)
qed

lemma gives_attempt:
  assumes "keeps P m" and "gives P m Q"
  shows "gives P (attempt m) (\<lambda>r s. case r of Inl e \<Rightarrow> P s | Inr x \<Rightarrow> Q x s)"
  unfolding gives_def
proof (intro allI impI)
  fix s x s' assume s: "P s" and r: "attempt m s = (Inr x, s')"
  then have m: "m s = (x, s')" by (auto simp: attempt_def split: prod.splits)
  show "case x of Inl e \<Rightarrow> P s' | Inr y \<Rightarrow> Q y s'"
  proof (cases x)
    case (Inl e)
    then show ?thesis using assms(1) s m unfolding keeps_def by (metis snd_conv sum.simps(5))
  next
    case (Inr y)
    then show ?thesis using assms(2) s m unfolding gives_def by simp
  qed
qed

lemma gives_pure: "gives P m Q \<Longrightarrow> gives (\<lambda>s. P s \<and> C) m (\<lambda>x s. Q x s \<and> C)"
  by (auto simp: gives_def)

lemma resolve_plan_price_gives:
  "gives (same_tables s) (resolve_plan_price t pid cluster) (\<lambda>base s1. same_tables s s1 \<and> listed_price t pid cluster s base)"
  unfolding resolve_plan_price_def
proof (rule gives_bind [OF get_plan_gives])
  fix p
  let ?P = "\<lambda>s1. same_tables s s1 \<and> p \<in> set (plans s) \<and> is_plan t pid p"
  let ?Q = "\<lambda>base s1. same_tables s s1 \<and> listed_price t pid cluster s base"
  have own: "gives ?P (ret (plan_price p)) ?Q" by (rule gives_ret) (auto simp: listed_price_def)
  have stP: "stable ?P" using stable_conj [OF stable_same_tables, of "\<lambda>_. p \<in> set (plans s) \<and> is_plan t pid p"] by (simp add: stable_def)
  show "gives ?P (case cluster of None \<Rightarrow> ret (plan_price p)
     | Some c \<Rightarrow> bind (attempt (get_plan_offer_by_plan_cluster t pid c)) (\<lambda>r. case r of
           Inl e \<Rightarrow> if e = Not_found then ret (plan_price p) else raise e
         | Inr (f, _) \<Rightarrow> ret (if off_active f then off_price f else plan_price p))) ?Q"
  proof (cases cluster)
    case None
    then show ?thesis using own by simp
  next
    case (Some c)
    let ?q = "\<lambda>f. off_tenant f = t \<and> off_plan f = pid \<and> off_cluster f = c"
    note g = gives_pure [OF get_offer_gives [of s ?q], of "p \<in> set (plans s) \<and> is_plan t pid p"]
    have "gives ?P (bind (attempt (get_plan_offer_by_plan_cluster t pid c)) (\<lambda>r. case r of
           Inl e \<Rightarrow> if e = Not_found then ret (plan_price p) else raise e
         | Inr (f, _) \<Rightarrow> ret (if off_active f then off_price f else plan_price p))) ?Q"
      unfolding get_plan_offer_by_plan_cluster_def
      by (rule gives_bind [OF gives_attempt [OF keeps_get_offer [OF stP] g]])
        (auto simp: listed_price_def Some intro!: gives_ret split: sum.split prod.split)
    then show ?thesis using Some by simp
  qed
qed

lemma keeps_find_best: "stable P \<Longrightarrow> keeps P (find_best_plan_discount today t pid c on base)"
  unfolding find_best_plan_discount_def Let_def by (intro keeps_intros)

lemma resolve_billed_gives:
  "gives (same_tables s) (resolve_billed_plan_price today t pid c cluster day)
     (\<lambda>(price, od) _. \<exists>base. listed_price t pid cluster s base \<and> price = apply_plan_discount base od)"
  unfolding resolve_billed_plan_price_def Let_def
proof (rule gives_bind [OF resolve_plan_price_gives])
  fix base
  let ?P = "\<lambda>s1. same_tables s s1 \<and> listed_price t pid cluster s base"
  have stP: "stable ?P" using stable_conj [OF stable_same_tables, of "\<lambda>_. listed_price t pid cluster s base"] by (simp add: stable_def)
  have "gives ?P (attempt (find_best_plan_discount today t pid c d base)) (\<lambda>_. ?P)" for d
    by (intro gives_keeps keeps_attempt keeps_find_best stP)
  then show "gives ?P (bind (attempt (find_best_plan_discount today t pid c
        (Some (case day of None \<Rightarrow> today | Some d \<Rightarrow> d)) base)) (\<lambda>r. case r of Inl _ \<Rightarrow> ret (base, None)
     | Inr d \<Rightarrow> ret (apply_plan_discount base d, d)))
     (\<lambda>(price, od) _. \<exists>base. listed_price t pid cluster s base \<and> price = apply_plan_discount base od)"
    by (rule gives_bind) (auto simp: apply_plan_discount_def [of _ None] intro!: gives_ret split: sum.split)
qed

section \<open>Properties\<close>

text \<open>C21: whenever \<open>FindBestPlanDiscount\<close> returns, the discount it found applies to the customer, plan and
  day, no applicable discount gives a lower price, and among the equally cheap it is a most specific
  one; it finds none exactly when none applies.\<close>

theorem find_best_plan_discount_cheapest:
  assumes "find_best_plan_discount today t pid c (Some day) base s = (Inr r, s')" and "c \<noteq> 0" and "0 < base"
  shows "case r of
      None \<Rightarrow> \<forall>d\<in>set (discounts s). \<not> applies t pid c day s d
    | Some d \<Rightarrow> d \<in> set (discounts s) \<and> applies t pid c day s d \<and>
        (\<forall>d'\<in>set (discounts s). applies t pid c day s d' \<longrightarrow>
           apply_plan_discount base (Some d) \<le> apply_plan_discount base (Some d') \<and>
           (apply_plan_discount base (Some d) = apply_plan_discount base (Some d') \<longrightarrow>
              discount_specificity (Some d') \<le> discount_specificity (Some d)))"
proof -
  let ?ds = "filter (applies t pid c day s) (discounts s)"
  have r: "r = pick_best (cheaper base) ?ds" using find_best_run [OF assms] by simp
  show ?thesis
  proof (cases r)
    case None
    then have "?ds = []" using r best_price.none [of base ?ds] by simp
    then show ?thesis using None by (simp add: filter_empty_conv)
  next
    case (Some d)
    then have "d \<in> set ?ds" "\<forall>y\<in>set ?ds. \<not> cheaper base y d" using r best_price.best [of base ?ds d] by simp_all
    then show ?thesis using Some by (auto simp: cheaper_def not_less)
  qed
qed

definition sample_discount :: "gid \<Rightarrow> string \<Rightarrow> int \<Rightarrow> discount" where
  "sample_discount n kind v = \<lparr>disc_id = n, disc_tenant = 1, disc_name = ''Promo'', disc_plan = None, disc_kind = kind,
     disc_value = v, disc_starts = 10, disc_ends = 20, disc_audience = ''all'', disc_active = True, disc_created = 0\<rparr>"

definition sample_promos :: db where
  "sample_promos = empty_db\<lparr>discounts := [sample_discount 1 ''percent'' 10, sample_discount 2 ''amount'' 20000,
     sample_discount 3 ''amount'' 500]\<rparr>"

lemma find_best_plan_discount_cheapest_witness:
  "case fst (find_best_plan_discount 5 1 9 7 (Some 15) 150000 sample_promos) of
     Inr (Some d) \<Rightarrow> disc_id d = 2 \<and> (\<forall>d'\<in>set (discounts sample_promos). applies 1 9 7 15 sample_promos d' \<longrightarrow>
           apply_plan_discount 150000 (Some d) \<le> apply_plan_discount 150000 (Some d'))
   | _ \<Rightarrow> False"
proof -
  obtain r s' where run: "find_best_plan_discount 5 1 9 7 (Some 15) 150000 sample_promos = (r, s')" by fastforce
  have "case fst (find_best_plan_discount 5 1 9 7 (Some 15) 150000 sample_promos) of Inr (Some d) \<Rightarrow> disc_id d = 2 | _ \<Rightarrow> False"
    by code_simp
  then obtain d where d: "r = Inr (Some d)" "disc_id d = 2" using run by (auto split: sum.splits option.splits)
  show ?thesis
    using find_best_plan_discount_cheapest [OF run [unfolded d(1)]] run d by auto
qed

text \<open>the price a customer is billed lies between nothing and the price before the discount, which is the
  price of an active offer for the plan in the cluster or the plan's own.\<close>

theorem billed_price_bounds:
  assumes "resolve_billed_plan_price today t pid c cluster day s = (Inr (price, od), s')"
    and "list_all (\<lambda>p. 0 \<le> plan_price p) (plans s)" and "list_all (\<lambda>f. 0 \<le> off_price f) (offers s)"
  shows "\<exists>base. 0 \<le> price \<and> price \<le> base \<and> price = apply_plan_discount base od \<and>
    ((\<exists>p\<in>set (plans s). is_plan t pid p \<and> base = plan_price p) \<or>
     (\<exists>f\<in>set (offers s). off_active f \<and> off_plan f = pid \<and> cluster = Some (off_cluster f) \<and> base = off_price f))"
proof -
  have "\<exists>base. listed_price t pid cluster s base \<and> price = apply_plan_discount base od"
    using resolve_billed_gives [of s today t pid c cluster day] assms(1) same_tables_refl [of s]
    unfolding gives_def by fastforce
  then obtain base where b: "listed_price t pid cluster s base" "price = apply_plan_discount base od" by blast
  then have "0 \<le> base" using assms(2,3) by (auto simp: listed_price_def list_all_iff)
  then show ?thesis using b apply_plan_discount_bounds [of base od] by (auto simp: listed_price_def)
qed

definition sample_plan :: "gid \<Rightarrow> string \<Rightarrow> int \<Rightarrow> plan" where
  "sample_plan n name price = \<lparr>plan_id = n, plan_tenant = 1, plan_name = name, plan_code = name, plan_service = ''pppoe'',
     plan_price = price, plan_cycle = ''monthly'', plan_down = 20000, plan_up = 10000, plan_quota = None,
     plan_limit_uptime = None, plan_shared_users = None, plan_profile = None, plan_isolir_profile = None,
     plan_due_day = None, plan_tax = 0, plan_active = True, plan_portal = True\<rparr>"

definition sample_offers_db :: db where
  "sample_offers_db = sample_promos\<lparr>plans := [sample_plan 9 ''Home 20'' 150000],
     offers := [\<lparr>off_id = 30, off_tenant = 1, off_plan = 9, off_cluster = 4, off_pool = None, off_price = 120000,
       off_active = True, off_due_day = None\<rparr>]\<rparr>"

lemma billed_price_bounds_witness:
  "\<exists>price od s'. resolve_billed_plan_price 5 1 9 7 (Some 4) (Some 15) sample_offers_db = (Inr (price, od), s') \<and>
     price = 100000 \<and> (\<exists>base. price \<le> base \<and> price = apply_plan_discount base od)"
proof -
  have "case fst (resolve_billed_plan_price 5 1 9 7 (Some 4) (Some 15) sample_offers_db) of
      Inr (price, od) \<Rightarrow> price = 100000 | _ \<Rightarrow> False"
    by code_simp
  then obtain od s' where run: "resolve_billed_plan_price 5 1 9 7 (Some 4) (Some 15) sample_offers_db = (Inr (100000, od), s')"
    by (cases "resolve_billed_plan_price 5 1 9 7 (Some 4) (Some 15) sample_offers_db") (auto split: sum.splits)
  have "list_all (\<lambda>p. 0 \<le> plan_price p) (plans sample_offers_db)" "list_all (\<lambda>f. 0 \<le> off_price f) (offers sample_offers_db)"
    by code_simp+
  then show ?thesis using billed_price_bounds [OF run] run by blast
qed

end
