(* ===== verification/Codes.thy ===== *)
theory Codes
  imports Tenant_Settings GoFmt
begin

text \<open>
  Numbers and codes that must be unused: the search that all generators of the program
  share (a locale), and the invoice numbers of \<open>internal/store/invoice_number.go\<close>.
  The bytes that \<open>rand.Read\<close> gives the i-th try are \<open>draw i\<close> (\<open>None\<close>: it fails, and the clock is
  used instead).
\<close>

section \<open>Searching an unused code\<close>

fun try_codes :: "err \<Rightarrow> (nat \<Rightarrow> ('s, string) prog) \<Rightarrow> (string \<Rightarrow> ('s, bool) prog) \<Rightarrow> nat list \<Rightarrow> ('s, string) prog" where
  "try_codes e cand taken [] = raise e"
| "try_codes e cand taken (i # is) =
     bind (cand i) (\<lambda>c. bind (taken c) (\<lambda>t. if t then try_codes e cand taken is else ret c))"

locale code_search =
  fixes used :: "db \<Rightarrow> string \<Rightarrow> bool"
    and cand :: "nat \<Rightarrow> (db, string) prog"
    and taken :: "string \<Rightarrow> (db, bool) prog"
    and code :: "db \<Rightarrow> nat \<Rightarrow> string"
  assumes cand_reads: "stable P \<Longrightarrow> keeps P (cand i)"
    and taken_reads: "stable P \<Longrightarrow> keeps P (taken c)"
    and taken_tells: "taken c s = (Inr b, s') \<Longrightarrow> b = used s c"
    and used_tables: "used (s\<lparr>faults := fs, aborted := a\<rparr>) = used s"
    and calm_cand: "calm s \<Longrightarrow> cand i s = (Inr (code s i), s)"
    and calm_taken: "calm s \<Longrightarrow> taken c s = (Inr (used s c), s)"
begin

lemma search_reads: "stable P \<Longrightarrow> keeps P (try_codes e cand taken is)"
  by (induction "is") (auto intro!: keeps_intros cand_reads taken_reads)

lemma found_unused:
  assumes "try_codes e cand taken is s = (Inr c, s')"
  shows "\<not> used s c"
proof -
  have st: "stable (\<lambda>s1. used s1 = used s)" by (simp add: stable_def used_tables)
  have g: "gives (\<lambda>s1. used s1 = used s) (try_codes e cand taken is) (\<lambda>c _. \<not> used s c)"
  proof (induction "is")
    case (Cons i "is")
    have t: "gives (\<lambda>s1. used s1 = used s) (taken c) (\<lambda>b s1. used s1 = used s \<and> (b \<longleftrightarrow> used s c))" for c
      using gives_keeps [OF taken_reads [OF st]] taken_tells unfolding gives_def by (metis (mono_tags, lifting))
    show ?case
      unfolding try_codes.simps
    proof (rule gives_bind [OF gives_keeps [OF cand_reads [OF st]]], rule gives_bind [OF t])
      fix c b
      show "gives (\<lambda>s1. used s1 = used s \<and> (b \<longleftrightarrow> used s c)) (if b then try_codes e cand taken is else ret c) (\<lambda>c _. \<not> used s c)"
        using Cons.IH by (cases b) (auto simp: gives_def ret_def)
    qed
  qed simp
  then show ?thesis using assms unfolding gives_def by blast
qed

text \<open>Without failures the search gives the first unused candidate, and fails exactly when
  every candidate is used.\<close>

lemma calm_search:
  "calm s \<Longrightarrow> try_codes e cand taken is s =
     (case find (\<lambda>i. \<not> used s (code s i)) is of None \<Rightarrow> Inl e | Some i \<Rightarrow> Inr (code s i), s)"
  by (induction "is") (simp_all add: raise_def ret_def bind_def calm_cand calm_taken)

lemma calm_search_finds:
  "calm s \<Longrightarrow> i \<in> set is \<Longrightarrow> \<not> used s (code s i) \<Longrightarrow> \<exists>c. try_codes e cand taken is s = (Inr c, s) \<and> \<not> used s c"
proof -
  assume c: "calm s" and i: "i \<in> set is" "\<not> used s (code s i)"
  obtain j where "find (\<lambda>i. \<not> used s (code s i)) is = Some j"
    using i by (cases "find (\<lambda>i. \<not> used s (code s i)) is") (auto simp: find_None_iff)
  moreover from this have "\<not> used s (code s j)" by (auto simp: find_Some_iff)
  ultimately show ?thesis using c by (simp add: calm_search)
qed

end

section \<open>Invoice numbers\<close>

definition invoice_number_alphabet :: string where
  "invoice_number_alphabet = ''ABCDEFGHJKLMNPQRSTUVWXYZ23456789''"

definition random_invoice_suffix :: "(nat \<Rightarrow> nat) option \<Rightarrow> int \<Rightarrow> nat \<Rightarrow> string" where
  "random_invoice_suffix bytes clock n =
     (case bytes of
        Some bs \<Rightarrow> map (\<lambda>i. invoice_number_alphabet ! (bs i mod 32)) [0..<n]
      | None \<Rightarrow> map (\<lambda>i. invoice_number_alphabet ! (nat (go_mod (clock div 2 ^ (i * 5)) 32))) [0..<n])"

definition is_letter :: "char \<Rightarrow> bool" where
  "is_letter c \<longleftrightarrow> is_upper c \<or> is_lower c"

fun sanitize_loop :: "string \<Rightarrow> bool \<Rightarrow> string \<Rightarrow> string" where
  "sanitize_loop b hyphen [] = b"
| "sanitize_loop b hyphen (c # cs) =
     (if is_letter c \<or> is_digit c then sanitize_loop (b @ [c]) False cs
      else if c = CHR ''-'' \<or> c = CHR ''_'' \<or> is_space c
        then (if b = [] \<or> hyphen then sanitize_loop b hyphen cs else sanitize_loop (b @ ''-'') True cs)
      else sanitize_loop b hyphen cs)"

definition sanitize_invoice_token :: "string \<Rightarrow> string" where
  "sanitize_invoice_token s = trim_by (\<lambda>c. c = CHR ''-'') (sanitize_loop [] False (trim_space s))"

text \<open>\<open>time.Format("012006")\<close>.\<close>

definition month_year :: "gtime \<Rightarrow> string" where
  "month_year t = zero_pad 2 (t_month t) @ zero_pad 4 (t_year t)"

definition format_with_suffix :: "string \<Rightarrow> gtime \<Rightarrow> string \<Rightarrow> string \<Rightarrow> string" where
  "format_with_suffix customer t suffix0 fresh =
     (let suffix1 = sanitize_invoice_token suffix0;
          suffix2 = (if suffix1 = [] then fresh else suffix1);
          suffix3 = take 6 suffix2;
          suffix = suffix3 @ replicate (6 - length suffix3) CHR ''X'';
          code0 = sanitize_invoice_token customer;
          code = (if code0 = [] then ''cust'' else code0)
      in ''INV-'' @ take 33 code @ ''-'' @ month_year t @ suffix)"

text \<open>\<open>fresh\<close>: the suffix drawn when the one given is empty after cleaning, which the suffixes
  of \<open>FormatInvoiceNumber\<close> never are.\<close>

definition zero_time :: gtime where
  "zero_time = \<lparr>t_year = 1, t_month = 1, t_day = 1, t_nanos = 0, t_zone = 0\<rparr>"

definition format_invoice_number :: "(nat \<Rightarrow> nat) option \<Rightarrow> gtime \<Rightarrow> string \<Rightarrow> gtime \<Rightarrow> string" where
  "format_invoice_number bytes now customer t0 =
     (let t = (if instant t0 = instant zero_time then now else t0);
          suffix = random_invoice_suffix bytes (instant now) 6
      in format_with_suffix customer t suffix suffix)"

text \<open>What the program reads of the world beside the database: the zones it can load, the
  process's zone and the clock, with the database's day and session zone.\<close>

record world =
  w_known :: "string \<Rightarrow> bool"
  w_offset :: "string \<Rightarrow> int \<Rightarrow> int"
  w_local :: string
  w_now :: int
  w_today :: int
  w_zone :: int

definition now_of :: "world \<Rightarrow> gid \<Rightarrow> (db, gtime) prog" where
  "now_of w tenant = tenant_now (w_known w) (w_offset w) (w_local w) (w_now w) tenant"

definition process_time :: "world \<Rightarrow> int \<Rightarrow> gtime" where
  "process_time w i = at_zone (w_offset w (w_local w) i) i"

definition invoice_candidate :: "world \<Rightarrow> (nat \<Rightarrow> (nat \<Rightarrow> nat) option) \<Rightarrow> gid \<Rightarrow> string \<Rightarrow> nat \<Rightarrow> (db, string) prog" where
  "invoice_candidate w draw tenant customer i =
     bind (now_of w tenant) (\<lambda>t. ret (format_invoice_number (draw i) (process_time w (w_now w)) customer t))"

definition number_used :: "gid \<Rightarrow> db \<Rightarrow> string \<Rightarrow> bool" where
  "number_used tenant s num \<longleftrightarrow> list_ex (\<lambda>i. inv_tenant i = tenant \<and> inv_number i = num) (invoices s)"

definition no_unique_number :: err where
  "no_unique_number = Rejected ''gagal membuat nomor invoice unik''"

definition next_invoice_number :: "world \<Rightarrow> (nat \<Rightarrow> (nat \<Rightarrow> nat) option) \<Rightarrow> gid \<Rightarrow> string \<Rightarrow> (db, string) prog" where
  "next_invoice_number w draw tenant customer =
     bind set_tenant (\<lambda>_.
     try_codes no_unique_number (invoice_candidate w draw tenant customer)
       (\<lambda>num. auto (query (\<lambda>s. number_used tenant s num))) [0..<12])"

section \<open>The search\<close>

lemma calm_now_of: "calm s \<Longrightarrow> \<exists>t. \<forall>s'. calm s' \<longrightarrow> general_rows s' = general_rows s \<longrightarrow> now_of w tenant s' = (Inr t, s')"
  unfolding now_of_def tenant_now_def tenant_location_def read_general_def get_general_settings_def or_default_row_def
    get_setting_def Let_def
  by (cases "map_of (general_rows s) tenant") (auto simp: bind_def attempt_def calm_simps raise_def ret_def)

definition now_value :: "world \<Rightarrow> gid \<Rightarrow> db \<Rightarrow> gtime" where
  "now_value w tenant s = (case fst (now_of w tenant s) of Inr t \<Rightarrow> t | Inl _ \<Rightarrow> zero_time)"

lemma calm_now_value: "calm s \<Longrightarrow> now_of w tenant s = (Inr (now_value w tenant s), s)"
proof -
  assume c: "calm s"
  obtain t where "now_of w tenant s = (Inr t, s)" using calm_now_of [OF c, of w tenant] c by blast
  then show ?thesis by (simp add: now_value_def)
qed

lemma keeps_now_of [keeps_intros]: "stable P \<Longrightarrow> keeps P (now_of w tenant)"
  unfolding now_of_def by (intro keeps_intros)

definition candidate_number :: "world \<Rightarrow> (nat \<Rightarrow> (nat \<Rightarrow> nat) option) \<Rightarrow> gid \<Rightarrow> string \<Rightarrow> db \<Rightarrow> nat \<Rightarrow> string" where
  "candidate_number w draw tenant customer s i =
     format_invoice_number (draw i) (process_time w (w_now w)) customer (now_value w tenant s)"

interpretation invoice_numbers: code_search "number_used tenant" "invoice_candidate w draw tenant customer"
    "\<lambda>num. auto (query (\<lambda>s. number_used tenant s num))" "candidate_number w draw tenant customer"
proof unfold_locales
  show "keeps P (invoice_candidate w draw tenant customer i)" if "stable P" for P i
    using that unfolding invoice_candidate_def by (intro keeps_intros)
  show "keeps P (auto (query (\<lambda>s. number_used tenant s c)))" if "stable P" for P c
    using that by (intro keeps_intros)
  show "b = number_used tenant s c" if "auto (query (\<lambda>s. number_used tenant s c)) s = (Inr b, s')" for c s b s'
    using that by (auto simp: auto_def number_used_def split: prod.splits dest!: query_Inr)
  show "number_used tenant (s\<lparr>faults := fs, aborted := a\<rparr>) = number_used tenant s" for s fs a
    by (simp add: number_used_def fun_eq_iff)
  show "invoice_candidate w draw tenant customer i s = (Inr (candidate_number w draw tenant customer s i), s)"
    if "calm s" for s i
    using that by (simp add: invoice_candidate_def candidate_number_def bind_def calm_now_value ret_def)
  show "auto (query (\<lambda>s. number_used tenant s c)) s = (Inr (number_used tenant s c), s)" if "calm s" for s c
    using that by (rule calm_auto_query)
qed

lemma keeps_next_invoice_number [keeps_intros]: "stable P \<Longrightarrow> keeps P (next_invoice_number w draw tenant customer)"
  unfolding next_invoice_number_def by (intro keeps_intros invoice_numbers.search_reads)

lemma next_invoice_number_unused:
  assumes "next_invoice_number w draw tenant customer s = (Inr num, s')"
  shows "\<not> number_used tenant s num"
proof -
  obtain s1 where s1: "set_tenant s = (Inr (), s1)" "try_codes no_unique_number (invoice_candidate w draw tenant customer)
       (\<lambda>num. auto (query (\<lambda>s. number_used tenant s num))) [0..<12] s1 = (Inr num, s')"
    using assms unfolding next_invoice_number_def by (elim bind_Inr) simp
  have "stable (\<lambda>s1. number_used tenant s1 = number_used tenant s)"
    unfolding stable_def by (simp only: invoice_numbers.used_tables simp_thms)
  then have "number_used tenant s1 = number_used tenant s"
    using gives_set_tenant s1(1) unfolding gives_def by blast
  then show ?thesis using invoice_numbers.found_unused [OF s1(2)] by simp
qed

section \<open>The shape of an invoice number\<close>

lemma sanitize_loop_chars:
  "set (sanitize_loop b h cs) \<subseteq> set b \<union> {c. is_letter c \<or> is_digit c \<or> c = CHR ''-''}"
  by (induction b h cs rule: sanitize_loop.induct) auto

lemma sanitize_chars: "c \<in> set (sanitize_invoice_token s) \<Longrightarrow> is_letter c \<or> is_digit c \<or> c = CHR ''-''"
  using sanitize_loop_chars [of "[]" False "trim_space s"] trim_by_set [of "\<lambda>c. c = CHR ''-''"]
  unfolding sanitize_invoice_token_def by fastforce

lemma format_with_suffix_length:
  assumes "valid_time t" and "0 \<le> t_year t" and "t_year t < 10000"
  shows "length (format_with_suffix customer t sx fresh) \<le> 50"
proof -
  have "0 \<le> t_month t \<and> t_month t < 10 ^ 2" using assms(1) by (auto simp: valid_time_def valid_date_def)
  then have "length (zero_pad 2 (t_month t)) = 2" by (intro zero_pad_length) auto
  moreover have "length (zero_pad 4 (t_year t)) = 4" using assms by (intro zero_pad_length) auto
  ultimately show ?thesis by (simp add: format_with_suffix_def Let_def month_year_def)
qed

lemma alphabet_chars: "c \<in> set invoice_number_alphabet \<Longrightarrow> is_letter c \<or> is_digit c"
proof -
  have "list_all (\<lambda>c. is_letter c \<or> is_digit c) invoice_number_alphabet" by code_simp
  then show "c \<in> set invoice_number_alphabet \<Longrightarrow> is_letter c \<or> is_digit c" by (simp add: list_all_iff)
qed

lemma random_suffix_chars: "c \<in> set (random_invoice_suffix bytes clock n) \<Longrightarrow> c \<in> set invoice_number_alphabet"
proof -
  have len: "length invoice_number_alphabet = 32" by (simp add: invoice_number_alphabet_def)
  have "nat (go_mod x 32) < 32" for x
  proof -
    have "\<bar>x\<bar> = 32 * (\<bar>x\<bar> div 32) + \<bar>x\<bar> mod 32" by simp
    then have "go_mod x 32 \<le> \<bar>x\<bar> mod 32" by (auto simp: go_mod_def go_div_def sgn_if minus_mult_div_eq_mod)
    moreover have "\<bar>x\<bar> mod 32 < 32" by simp
    ultimately show ?thesis by linarith
  qed
  then show "c \<in> set (random_invoice_suffix bytes clock n) \<Longrightarrow> c \<in> set invoice_number_alphabet"
    by (auto simp: random_invoice_suffix_def len split: option.splits)
qed

lemma sanitize_loop_plain: "list_all (\<lambda>c. is_letter c \<or> is_digit c) cs \<Longrightarrow> sanitize_loop b h cs = b @ cs"
  by (induction cs arbitrary: b h) auto

lemma sanitize_plain:
  assumes "list_all (\<lambda>c. is_letter c \<or> is_digit c) cs"
  shows "sanitize_invoice_token cs = cs"
proof -
  have no: "\<not> is_space c \<and> c \<noteq> CHR ''-''" if "is_letter c \<or> is_digit c" for c
    using that by (auto simp: is_letter_def is_upper_def is_lower_def is_digit_def is_space_def)
  have ends: "cs = [] \<or> (\<not> p (hd cs) \<and> \<not> p (last cs))" if "\<And>c. is_letter c \<or> is_digit c \<Longrightarrow> \<not> p c" for p
    using assms that by (auto simp: list_all_iff)
  have "trim_space cs = cs" using no by (intro trim_space_id ends) blast
  moreover have "trim_by (\<lambda>c. c = CHR ''-'') cs = cs" using no by (intro trim_by_id ends) blast
  ultimately show ?thesis using assms by (simp add: sanitize_invoice_token_def sanitize_loop_plain)
qed

lemma random_suffix_plain: "list_all (\<lambda>c. is_letter c \<or> is_digit c) (random_invoice_suffix bytes clock n)"
  using random_suffix_chars alphabet_chars by (auto simp: list_all_iff)

lemma random_suffix_length [simp]: "length (random_invoice_suffix bytes clock n) = n"
  by (simp add: random_invoice_suffix_def split: option.split)

definition invoice_code :: "string \<Rightarrow> string" where
  "invoice_code customer = take 33 (let c = sanitize_invoice_token customer in if c = [] then ''cust'' else c)"

lemma format_invoice_number_eq:
  assumes "instant t \<noteq> instant zero_time"
  shows "format_invoice_number bytes now customer t =
    ''INV-'' @ invoice_code customer @ ''-'' @ month_year t @ random_invoice_suffix bytes (instant now) 6"
proof -
  let ?r = "random_invoice_suffix bytes (instant now) 6"
  have "?r \<noteq> []" by (metis length_0_conv random_suffix_length zero_neq_numeral)
  then show ?thesis using assms
    by (simp add: format_invoice_number_def format_with_suffix_def Let_def invoice_code_def
        sanitize_plain [OF random_suffix_plain])
qed

lemma month_year_length:
  assumes "valid_time t" and "0 \<le> t_year t" and "t_year t < 10000"
  shows "length (zero_pad 2 (t_month t)) = 2" "length (zero_pad 4 (t_year t)) = 4" "length (month_year t) = 6"
proof -
  have "0 \<le> t_month t \<and> t_month t < 10 ^ 2" using assms(1) by (auto simp: valid_time_def valid_date_def)
  then show "length (zero_pad 2 (t_month t)) = 2" by (intro zero_pad_length) auto
  moreover show "length (zero_pad 4 (t_year t)) = 4" using assms by (intro zero_pad_length) auto
  ultimately show "length (month_year t) = 6" by (simp add: month_year_def)
qed

lemma invoice_code_chars: "c \<in> set (invoice_code customer) \<Longrightarrow> is_letter c \<or> is_digit c \<or> c = CHR ''-''"
  using sanitize_chars [of c customer] set_take_subset [of 33]
  by (fastforce simp: invoice_code_def Let_def is_letter_def is_lower_def split: if_splits dest: in_set_takeD)

definition dated :: "gtime \<Rightarrow> bool" where
  "dated t \<longleftrightarrow> valid_time t \<and> 0 \<le> t_year t \<and> t_year t < 10000 \<and> instant t \<noteq> instant zero_time"

lemma month_year_inject:
  assumes "dated t" and "dated t'" and "month_year t = month_year t'"
  shows "t_month t = t_month t' \<and> t_year t = t_year t'"
proof -
  have v: "valid_time t" "valid_time t'" "0 \<le> t_year t" "t_year t < 10000" "0 \<le> t_year t'" "t_year t' < 10000"
    using assms(1,2) by (simp_all add: dated_def)
  then have "zero_pad 2 (t_month t) = zero_pad 2 (t_month t') \<and> zero_pad 4 (t_year t) = zero_pad 4 (t_year t')"
    using assms(3) by (simp add: month_year_def month_year_length)
  moreover have "0 \<le> t_month t" "0 \<le> t_month t'" using v by (auto simp: valid_time_def valid_date_def)
  ultimately show ?thesis using v by (simp add: zero_pad_inject)
qed

lemma invoice_number_inject:
  assumes "dated t"
    and e: "dated t' \<and> format_invoice_number bytes now customer t = format_invoice_number bytes' now' customer' t'"
  shows "t_month t = t_month t' \<and> t_year t = t_year t' \<and> invoice_code customer = invoice_code customer' \<and>
    random_invoice_suffix bytes (instant now) 6 = random_invoice_suffix bytes' (instant now') 6"
proof -
  have t: "valid_time t" "0 \<le> t_year t" "t_year t < 10000" "instant t \<noteq> instant zero_time"
    using assms by (simp_all add: dated_def)
  have t': "valid_time t'" "0 \<le> t_year t'" "t_year t' < 10000" "instant t' \<noteq> instant zero_time"
    using e by (simp_all add: dated_def)
  let ?r = "random_invoice_suffix bytes (instant now) 6" and ?r' = "random_invoice_suffix bytes' (instant now') 6"
  note len = month_year_length(3) [OF t(1-3)] month_year_length(3) [OF t'(1-3)]
  have "invoice_code customer @ ''-'' @ month_year t @ ?r = invoice_code customer' @ ''-'' @ month_year t' @ ?r'"
    using e by (simp add: format_invoice_number_eq [OF t(4)] format_invoice_number_eq [OF t'(4)])
  moreover have "length (''-'' @ month_year t @ ?r) = length (''-'' @ month_year t' @ ?r')" using len by simp
  ultimately have code: "invoice_code customer = invoice_code customer'"
      and "month_year t @ ?r = month_year t' @ ?r'"
    using append_eq_append_conv by blast+
  then have "month_year t = month_year t'" "?r = ?r'" using len by simp_all
  then show ?thesis using code month_year_inject assms(1) e by blast
qed

section \<open>Properties\<close>

text \<open>an invoice number fits the 50 characters that a payment gateway accepts and consists of letters,
  digits and hyphens; it tells the month and year of issue, the customer's code (its first 33
  characters) and the random suffix apart.\<close>

theorem invoice_number_shape:
  assumes "dated t"
  shows "length (format_invoice_number bytes now customer t) \<le> 50 \<and>
    list_all (\<lambda>c. is_letter c \<or> is_digit c \<or> c = CHR ''-'') (format_invoice_number bytes now customer t) \<and>
    (dated t' \<and> format_invoice_number bytes now customer t = format_invoice_number bytes' now' customer' t' \<longrightarrow>
      t_month t = t_month t' \<and> t_year t = t_year t' \<and> invoice_code customer = invoice_code customer' \<and>
      random_invoice_suffix bytes (instant now) 6 = random_invoice_suffix bytes' (instant now') 6)"
proof (intro conjI impI)
  have t: "valid_time t" "0 \<le> t_year t" "t_year t < 10000" "instant t \<noteq> instant zero_time"
    using assms by (simp_all add: dated_def)
  note shape = format_invoice_number_eq [OF t(4)]
  have "length (invoice_code customer) \<le> 33" by (simp add: invoice_code_def Let_def)
  then show "length (format_invoice_number bytes now customer t) \<le> 50"
    by (simp add: shape month_year_length [OF t(1-3)])
  let ?ok = "\<lambda>c. is_letter c \<or> is_digit c \<or> c = CHR ''-''"
  have "0 \<le> t_month t" using t(1) by (auto simp: valid_time_def valid_date_def)
  then have "list_all ?ok (month_year t)"
    using zero_pad_is_digit t(2) by (auto simp: month_year_def list_all_iff)
  moreover have "list_all ?ok (invoice_code customer)"
    using invoice_code_chars unfolding list_all_iff by blast
  moreover have "list_all ?ok (random_invoice_suffix bytes (instant now) 6)"
    using random_suffix_plain [of bytes "instant now" 6] unfolding list_all_iff by blast
  moreover have "list_all ?ok ''INV-''" by code_simp
  moreover have "list_all ?ok ''-''" by simp
  ultimately show "list_all ?ok (format_invoice_number bytes now customer t)"
    unfolding shape list_all_append by blast
qed (use invoice_number_inject [OF assms] in blast)+

lemma invoice_number_shape_witness:
  "format_invoice_number (Some (\<lambda>i. 7 * i)) \<lparr>t_year = 2026, t_month = 7, t_day = 4, t_nanos = 0, t_zone = 0\<rparr> '' btc_01 ''
     \<lparr>t_year = 2026, t_month = 7, t_day = 4, t_nanos = 0, t_zone = 25200\<rparr> = ''INV-btc-01-072026AHQX6D''
   \<and> length (format_invoice_number (Some (\<lambda>i. 7 * i)) \<lparr>t_year = 2026, t_month = 7, t_day = 4, t_nanos = 0, t_zone = 0\<rparr> '' btc_01 ''
     \<lparr>t_year = 2026, t_month = 7, t_day = 4, t_nanos = 0, t_zone = 25200\<rparr>) \<le> 50"
proof
  have "dated \<lparr>t_year = 2026, t_month = 7, t_day = 4, t_nanos = 0, t_zone = 25200\<rparr>" by code_simp
  from invoice_number_shape [OF this] show "length (format_invoice_number (Some (\<lambda>i. 7 * i))
      \<lparr>t_year = 2026, t_month = 7, t_day = 4, t_nanos = 0, t_zone = 0\<rparr> '' btc_01 ''
      \<lparr>t_year = 2026, t_month = 7, t_day = 4, t_nanos = 0, t_zone = 25200\<rparr>) \<le> 50" by blast
qed code_simp

text \<open>C24: \<open>NextInvoiceNumber\<close> ends after at most twelve tries.  Whatever the failures, a number it returns is
  unused; without failures it returns one exactly when one of the twelve candidates is unused, and
  else the error that says so.\<close>

theorem next_invoice_number_search:
  "(\<forall>num s'. next_invoice_number w draw tenant customer s = (Inr num, s') \<longrightarrow>
      \<not> list_ex (\<lambda>i. inv_tenant i = tenant \<and> inv_number i = num) (invoices s)) \<and>
   (calm s \<longrightarrow>
      (if list_ex (\<lambda>i. \<not> number_used tenant s (candidate_number w draw tenant customer s i)) [0..<12]
       then \<exists>i<12. next_invoice_number w draw tenant customer s = (Inr (candidate_number w draw tenant customer s i), s)
       else next_invoice_number w draw tenant customer s = (Inl no_unique_number, s)))"
proof (intro conjI allI impI)
  show "\<not> list_ex (\<lambda>i. inv_tenant i = tenant \<and> inv_number i = num) (invoices s)"
    if "next_invoice_number w draw tenant customer s = (Inr num, s')" for num s'
    using next_invoice_number_unused [OF that] by (simp add: number_used_def)
  assume c: "calm s"
  let ?free = "\<lambda>i. \<not> number_used tenant s (candidate_number w draw tenant customer s i)"
  have run: "next_invoice_number w draw tenant customer s =
      (case find ?free [0..<12] of None \<Rightarrow> Inl no_unique_number
       | Some i \<Rightarrow> Inr (candidate_number w draw tenant customer s i), s)"
    using c by (simp add: next_invoice_number_def bind_def calm_set_tenant invoice_numbers.calm_search)
  show "if list_ex ?free [0..<12]
       then \<exists>i<12. next_invoice_number w draw tenant customer s = (Inr (candidate_number w draw tenant customer s i), s)
       else next_invoice_number w draw tenant customer s = (Inl no_unique_number, s)"
  proof (cases "find ?free [0..<12]")
    case None
    then have "\<not> list_ex ?free [0..<12]" by (auto simp: find_None_iff list_ex_iff)
    moreover have "next_invoice_number w draw tenant customer s = (Inl no_unique_number, s)"
      unfolding run None by simp
    ultimately show ?thesis by (simp only: if_False)
  next
    case (Some i)
    then have "i < 12" "?free i" by (auto simp: find_Some_iff)
    then have "list_ex ?free [0..<12]" by (auto simp: list_ex_iff)
    then show ?thesis using run Some \<open>i < 12\<close> by auto
  qed
qed

lemma next_invoice_number_search_witness:
  "fst (next_invoice_number \<lparr>w_known = \<lambda>_. True, w_offset = \<lambda>_ _. 25200, w_local = ''UTC'', w_now = 1783000000 * second,
      w_today = 20636, w_zone = 0\<rparr> (\<lambda>n. Some (\<lambda>i. n)) 1 ''C7'' sample_db) = Inr ''INV-C7-072026AAAAAA''
   \<and> \<not> list_ex (\<lambda>i. inv_tenant i = 1 \<and> inv_number i = ''INV-C7-072026AAAAAA'') (invoices sample_db)"
proof -
  let ?run = "next_invoice_number \<lparr>w_known = \<lambda>_. True, w_offset = \<lambda>_ _. 25200, w_local = ''UTC'', w_now = 1783000000 * second,
      w_today = 20636, w_zone = 0\<rparr> (\<lambda>n. Some (\<lambda>i. n)) 1 ''C7'' sample_db"
  have f: "fst ?run = Inr ''INV-C7-072026AAAAAA''" by code_simp
  then have "?run = (Inr ''INV-C7-072026AAAAAA'', snd ?run)" by (cases ?run) simp
  then show ?thesis using f next_invoice_number_search by blast
qed

end
