(* ===== verification/Customers.thy ===== *)
theory Customers
  imports Codes GoFloat
begin

text \<open>
  Customers (\<open>internal/store/customers.go\<close>), the clusters they live in
  (\<open>internal/store/clusters.go\<close>) and the codes they get: a counter per cluster and period, or
  the count of the tenant's customers, skipping the codes in use.  The rows that other
  tables hold for a deleted customer or cluster go the way their foreign keys say
  (\<open>ON DELETE CASCADE\<close>, \<open>SET NULL\<close>).
\<close>

section \<open>Cluster codes and customer codes\<close>

definition normalize_cluster_code :: "string \<Rightarrow> string" where
  "normalize_cluster_code s = filter (\<lambda>c. is_letter c \<or> is_digit c) (to_upper (trim_space s))"

definition default_code_pattern :: string where
  "default_code_pattern = ''{prefix}-{yyyymm}{seq}''"

definition default_code_prefix :: string where
  "default_code_prefix = ''D5N''"

text \<open>\<open>strings.NewReplacer(...).Replace\<close>: at each position the first pair that matches.\<close>

function replace_tokens :: "(string \<times> string) list \<Rightarrow> string \<Rightarrow> string" where
  "replace_tokens subs [] = []"
| "replace_tokens subs (c # cs) =
     (case find (\<lambda>(old, _). has_prefix (c # cs) old) subs of
        None \<Rightarrow> c # replace_tokens subs cs
      | Some (old, new) \<Rightarrow> new @ replace_tokens subs (drop (length old - 1) cs))"
  by pat_completeness auto
termination by (relation "measure (\<lambda>(_, s). length s)") auto

text \<open>\<open>fmt.Sprintf("%0*d", width, n)\<close>: a width over a million is reported instead.\<close>

definition padded_seq :: "int \<Rightarrow> int \<Rightarrow> string" where
  "padded_seq width n = (if 1000000 < width then ''%!(BADWIDTH)'' @ format_int n else zero_pad (nat width) n)"

definition year_month :: "gtime \<Rightarrow> string" where
  "year_month t = zero_pad 4 (t_year t) @ zero_pad 2 (t_month t)"

definition code_tokens :: "string \<Rightarrow> int \<Rightarrow> gtime \<Rightarrow> int \<Rightarrow> (string \<times> string) list" where
  "code_tokens pre width now n =
     [(''{prefix}'', pre), (''{yyyymm}'', year_month now), (''{yyyy}'', zero_pad 4 (t_year now)),
      (''{yy}'', zero_pad 2 (t_year now mod 100)), (''{mm}'', zero_pad 2 (t_month now)), (''{seq}'', padded_seq width n)]"

definition format_customer_code :: "string \<Rightarrow> string \<Rightarrow> int \<Rightarrow> gtime \<Rightarrow> int \<Rightarrow> string" where
  "format_customer_code pattern0 prefix0 width0 now n =
     (let pattern = (if trim_space pattern0 = [] then default_code_pattern else pattern0);
          pre = (if trim_space prefix0 = [] then default_code_prefix else prefix0);
          width = (if width0 \<le> 0 then 4 else width0)
      in replace_tokens (code_tokens pre width now n) pattern)"

definition sequence_period :: "string \<Rightarrow> gtime \<Rightarrow> string" where
  "sequence_period pattern now =
     (let p = (if trim_space pattern = [] then default_code_pattern else pattern)
      in if contains_sub p ''{yyyymm}'' \<or> contains_sub p ''{yyyy}'' \<or> contains_sub p ''{yy}'' \<or> contains_sub p ''{mm}''
         then year_month now else [])"

text \<open>\<open>NormalizeCoverageRadiusKm\<close> on finite numbers.\<close>

definition normalize_radius :: "rat option \<Rightarrow> rat option" where
  "normalize_radius v =
     (case v of None \<Rightarrow> None
      | Some r \<Rightarrow> if r \<le> 0 then None
          else let x = f_div (of_int (go_round (f_mul (min r 50) 1000))) 1000 in if x \<le> 0 then None else Some x)"

section \<open>Clusters\<close>

definition is_cluster :: "gid \<Rightarrow> gid \<Rightarrow> cluster \<Rightarrow> bool" where
  "is_cluster tenant cid c \<longleftrightarrow> cl_tenant c = tenant \<and> cl_id c = cid"

definition list_clusters :: "gid \<Rightarrow> (db, cluster list) prog" where
  "list_clusters tenant = with_tenant (query (\<lambda>s.
     order_by (\<lambda>a b. cl_name a \<le> cl_name b) (filter (\<lambda>c. cl_tenant c = tenant) (clusters s))))"

definition cluster_row :: "gid \<Rightarrow> gid \<Rightarrow> (db, cluster) prog" where
  "cluster_row tenant cid =
     bind (query (\<lambda>s. first_row (is_cluster tenant cid) (clusters s))) (\<lambda>row.
     case row of None \<Rightarrow> raise Not_found | Some c \<Rightarrow> ret c)"

definition get_cluster :: "gid \<Rightarrow> gid \<Rightarrow> (db, cluster) prog" where
  "get_cluster tenant cid = with_tenant (cluster_row tenant cid)"

definition cluster_code_required :: err where
  "cluster_code_required = Rejected ''cluster code required''"

text \<open>What \<open>CreateCluster\<close> and \<open>UpdateCluster\<close> make of their argument; \<open>None\<close>: refused.\<close>

definition tidy_cluster :: "cluster \<Rightarrow> cluster option" where
  "tidy_cluster c =
     (let code = normalize_cluster_code (cl_code c);
          pre = normalize_cluster_code (cl_prefix c)
      in if code = [] then None
         else Some (c\<lparr>cl_code := code, cl_prefix := (if pre = [] then code else pre),
           cl_pattern := (if trim_space (cl_pattern c) = [] then default_code_pattern else cl_pattern c),
           cl_seq_width := (if cl_seq_width c \<le> 0 then 4 else cl_seq_width c),
           cl_radius := normalize_radius (cl_radius c)\<rparr>))"

definition int32_ok :: "int \<Rightarrow> bool" where
  "int32_ok n \<longleftrightarrow> - (2 ^ 31) \<le> n \<and> n < 2 ^ 31"

definition insert_cluster :: "int \<Rightarrow> cluster \<Rightarrow> db \<Rightarrow> (cluster \<times> db) option" where
  "insert_cluster now c s =
     (if int32_ok (cl_seq_width c) \<and> \<not> list_ex (\<lambda>d. cl_tenant d = cl_tenant c \<and> cl_code d = cl_code c) (clusters s)
      then let new = c\<lparr>cl_id := next_id s, cl_created := now\<rparr>
        in Some (new, s\<lparr>next_id := Suc (next_id s), clusters := clusters s @ [new]\<rparr>)
      else None)"

definition create_cluster :: "int \<Rightarrow> cluster \<Rightarrow> (db, cluster) prog" where
  "create_cluster now c0 =
     (case tidy_cluster c0 of
        None \<Rightarrow> raise cluster_code_required
      | Some c \<Rightarrow> with_tenant (exec (insert_cluster now c)))"

definition change_cluster :: "cluster \<Rightarrow> db \<Rightarrow> (nat \<times> db) option" where
  "change_cluster c s =
     (let q = is_cluster (cl_tenant c) (cl_id c); n = affected q (clusters s) in
      if n = 0 \<or> (int32_ok (cl_seq_width c)
           \<and> \<not> list_ex (\<lambda>d. \<not> q d \<and> cl_tenant d = cl_tenant c \<and> cl_code d = cl_code c) (clusters s))
      then Some (n, s\<lparr>clusters := update_rows q (\<lambda>d. c\<lparr>cl_created := cl_created d\<rparr>) (clusters s)\<rparr>)
      else None)"

definition update_cluster :: "cluster \<Rightarrow> (db, unit) prog" where
  "update_cluster c0 =
     (case tidy_cluster c0 of
        None \<Rightarrow> raise cluster_code_required
      | Some c \<Rightarrow> with_tenant (bind (exec (change_cluster c)) (\<lambda>n. if n = 0 then raise Not_found else ret ())))"

definition update_cluster_coverage :: "gid \<Rightarrow> gid \<Rightarrow> rat option \<Rightarrow> (db, unit) prog" where
  "update_cluster_coverage tenant cid km =
     bind (get_cluster tenant cid) (\<lambda>c. update_cluster (c\<lparr>cl_radius := normalize_radius km\<rparr>))"

definition forget_cluster :: "gid \<Rightarrow> gid option \<Rightarrow> gid option" where
  "forget_cluster cid ref = (if ref = Some cid then None else ref)"

definition delete_cluster :: "gid \<Rightarrow> gid \<Rightarrow> (db, unit) prog" where
  "delete_cluster tenant cid =
     with_tenant (bind (exec (\<lambda>s. let n = affected (is_cluster tenant cid) (clusters s) in
       Some (n, if n = 0 then s else s\<lparr>clusters := filter (\<lambda>c. \<not> is_cluster tenant cid c) (clusters s),
         customers := map (\<lambda>c. c\<lparr>cust_cluster := forget_cluster cid (cust_cluster c)\<rparr>) (customers s),
         odps := map (\<lambda>x. x\<lparr>odp_cluster := forget_cluster cid (odp_cluster x)\<rparr>) (odps s),
         offers := filter (\<lambda>f. off_cluster f \<noteq> cid) (offers s),
         code_seqs := filter (\<lambda>((c, _), _). c \<noteq> cid) (code_seqs s)\<rparr>))) (\<lambda>n.
       if n = 0 then raise Not_found else ret ()))"

section \<open>Customers\<close>

definition fill_service_status :: "customer \<Rightarrow> string \<Rightarrow> string" where
  "fill_service_status c st =
     (if cust_dismantled c \<noteq> None then ''dismantled''
      else if \<not> cust_active c then ''inactive''
      else if st \<in> {''isolir'', ''overdue'', ''active''} then st
      else ''active'')"

text \<open>A row of \<open>customerSelect\<close>.\<close>

record customer_view =
  cv_row :: customer
  cv_cluster_name :: string
  cv_cluster_code :: string
  cv_reseller_name :: string
  cv_sales_name :: string
  cv_sub_status :: string
  cv_balance :: int
  cv_service_status :: string

definition joined :: "('r \<Rightarrow> gid) \<Rightarrow> ('r \<Rightarrow> string) \<Rightarrow> 'r list \<Rightarrow> gid option \<Rightarrow> string" where
  "joined key f rows ref =
     (case ref of None \<Rightarrow> [] | Some i \<Rightarrow> (case first_row (\<lambda>r. key r = i) rows of None \<Rightarrow> [] | Some r \<Rightarrow> f r))"

definition has_subscription :: "db \<Rightarrow> customer \<Rightarrow> string set \<Rightarrow> bool" where
  "has_subscription s c sts \<longleftrightarrow>
     list_ex (\<lambda>x. sub_tenant x = cust_tenant c \<and> sub_customer x = cust_id c \<and> sub_status x \<in> sts) (subscriptions s)"

definition customer_sub_status :: "db \<Rightarrow> customer \<Rightarrow> string" where
  "customer_sub_status s c =
     (if has_subscription s c {''suspended''} then ''isolir''
      else if has_subscription s c {''overdue''} then ''overdue''
      else if has_subscription s c {''active''} then ''active'' else [])"

definition wallet_balance_of :: "db \<Rightarrow> customer \<Rightarrow> int" where
  "wallet_balance_of s c =
     (case first_row (\<lambda>w. w_tenant w = cust_tenant c \<and> w_customer w = cust_id c) (wallets s) of
        None \<Rightarrow> 0 | Some w \<Rightarrow> w_balance w)"

definition view_customer :: "db \<Rightarrow> customer \<Rightarrow> customer_view" where
  "view_customer s c =
     \<lparr>cv_row = c\<lparr>cust_password := None\<rparr>,
      cv_cluster_name = joined cl_id cl_name (clusters s) (cust_cluster c),
      cv_cluster_code = joined cl_id cl_code (clusters s) (cust_cluster c),
      cv_reseller_name = joined rs_id rs_name (resellers s) (cust_reseller c),
      cv_sales_name = joined u_id u_name (users s) (cust_sales c),
      cv_sub_status = customer_sub_status s c,
      cv_balance = wallet_balance_of s c,
      cv_service_status = fill_service_status c (customer_sub_status s c)\<rparr>"

record customer_search =
  cf_tenant :: gid
  cf_cluster :: "gid option"
  cf_search :: string
  cf_active :: "bool option"
  cf_status :: string
  cf_limit :: int
  cf_offset :: int

definition status_matches :: "db \<Rightarrow> string \<Rightarrow> bool option \<Rightarrow> customer \<Rightarrow> bool" where
  "status_matches s status active c =
     (let st = to_lower (trim_space status); here = (cust_dismantled c = None) in
      if st \<in> {''dismantled'', ''cabut''} then \<not> here
      else if st \<in> {''isolir'', ''suspend'', ''suspended''} then here \<and> cust_active c \<and> has_subscription s c {''suspended''}
      else if st \<in> {''overdue'', ''tunggakan''} then here \<and> cust_active c \<and> has_subscription s c {''overdue''}
             \<and> \<not> has_subscription s c {''suspended''}
      else if st \<in> {''active'', ''aktif''} then here \<and> cust_active c \<and> \<not> has_subscription s c {''suspended'', ''overdue''}
      else if st \<in> {''inactive'', ''nonaktif''} then here \<and> \<not> cust_active c
      else (case active of None \<Rightarrow> True | Some True \<Rightarrow> cust_active c \<and> here | Some False \<Rightarrow> \<not> cust_active c))"

definition search_matches :: "string \<Rightarrow> customer \<Rightarrow> bool" where
  "search_matches q c \<longleftrightarrow> q = [] \<or> (let pat = ''%'' @ q @ ''%'' in
     ilike (cust_name c) pat \<or> ilike (cust_phone c) pat \<or> ilike (cust_code c) pat
     \<or> ilike (case cust_email c of None \<Rightarrow> [] | Some e \<Rightarrow> e) pat)"

definition customer_filter :: "customer_search \<Rightarrow> db \<Rightarrow> customer \<Rightarrow> bool" where
  "customer_filter f s c \<longleftrightarrow> cust_tenant c = cf_tenant f
     \<and> (case cf_cluster f of None \<Rightarrow> True | Some k \<Rightarrow> cust_cluster c = Some k)
     \<and> status_matches s (cf_status f) (cf_active f) c \<and> search_matches (cf_search f) c"

definition list_customers :: "customer_search \<Rightarrow> (db, customer_view list \<times> int) prog" where
  "list_customers f =
     bind set_tenant (\<lambda>_.
     bind (auto (query (\<lambda>s. int (length (filter (customer_filter f s) (customers s)))))) (\<lambda>n.
     let limit = (if cf_limit f \<le> 0 then 20 else cf_limit f) in
     bind (auto (page_query limit (cf_offset f) (\<lambda>s. map (view_customer s)
       (order_by (\<lambda>a b. cust_created b \<le> cust_created a) (filter (customer_filter f s) (customers s)))))) (\<lambda>list.
     ret (list, n))))"

definition find_customer :: "(customer \<Rightarrow> bool) \<Rightarrow> (db, customer_view) prog" where
  "find_customer q =
     bind set_tenant (\<lambda>_.
     bind (auto (query (\<lambda>s. map_option (view_customer s) (first_row q (customers s))))) (\<lambda>row.
     case row of None \<Rightarrow> raise Not_found | Some v \<Rightarrow> ret v))"

definition is_customer :: "gid \<Rightarrow> gid \<Rightarrow> customer \<Rightarrow> bool" where
  "is_customer tenant cid c \<longleftrightarrow> cust_tenant c = tenant \<and> cust_id c = cid"

definition get_customer :: "gid \<Rightarrow> gid \<Rightarrow> (db, customer_view) prog" where
  "get_customer tenant cid = find_customer (is_customer tenant cid)"

definition get_customer_by_code :: "gid \<Rightarrow> string \<Rightarrow> (db, customer_view) prog" where
  "get_customer_by_code tenant code = find_customer (\<lambda>c. cust_tenant c = tenant \<and> cust_code c = code)"

definition get_customer_by_phone :: "gid \<Rightarrow> string \<Rightarrow> (db, customer_view) prog" where
  "get_customer_by_phone tenant phone = find_customer (\<lambda>c. cust_tenant c = tenant \<and> cust_phone c = phone)"

definition list_customers_by_phone :: "gid \<Rightarrow> string \<Rightarrow> (db, customer_view list) prog" where
  "list_customers_by_phone tenant phone =
     bind set_tenant (\<lambda>_.
     auto (query (\<lambda>s. map (view_customer s) (order_by (\<lambda>a b. cust_created a \<le> cust_created b)
       (filter (\<lambda>c. cust_tenant c = tenant \<and> cust_phone c = phone) (customers s))))))"

definition list_customers_with_coords :: "gid \<Rightarrow> (db, customer_view list) prog" where
  "list_customers_with_coords tenant =
     bind set_tenant (\<lambda>_.
     auto (query (\<lambda>s. map (view_customer s) (order_by (\<lambda>a b. cust_name a \<le> cust_name b)
       (filter (\<lambda>c. cust_tenant c = tenant \<and> cust_lat c \<noteq> None \<and> cust_lng c \<noteq> None) (customers s))))))"

definition format_site_label :: "string \<Rightarrow> string \<Rightarrow> string" where
  "format_site_label name0 code0 =
     (let name = trim_space name0; code = trim_space code0 in
      if name \<noteq> [] \<and> code \<noteq> [] \<and> \<not> equal_fold name code then name @ '' ('' @ code @ '')''
      else if name \<noteq> [] then name else code)"

text \<open>\<open>NormalizeAttribution\<close> (commission.go): a reseller goes before a member of the staff.\<close>

definition normalize_attribution :: "gid option \<Rightarrow> gid option \<Rightarrow> gid option \<times> gid option" where
  "normalize_attribution reseller sales =
     (if reseller \<noteq> None \<and> reseller \<noteq> Some nil_id then (reseller, None)
      else if sales \<noteq> None \<and> sales \<noteq> Some nil_id then (None, sales)
      else (None, None))"

definition refers :: "('r \<Rightarrow> gid) \<Rightarrow> 'r list \<Rightarrow> gid option \<Rightarrow> bool" where
  "refers key rows ref \<longleftrightarrow> (case ref of None \<Rightarrow> True | Some i \<Rightarrow> list_ex (\<lambda>r. key r = i) rows)"

definition customer_refs_ok :: "db \<Rightarrow> customer \<Rightarrow> bool" where
  "customer_refs_ok s c \<longleftrightarrow> refers cl_id (clusters s) (cust_cluster c)
     \<and> refers rs_id (resellers s) (cust_reseller c) \<and> refers u_id (users s) (cust_sales c)"

definition attributed :: "customer \<Rightarrow> customer" where
  "attributed c = (let (r, u) = normalize_attribution (cust_reseller c) (cust_sales c) in c\<lparr>cust_reseller := r, cust_sales := u\<rparr>)"

text \<open>A blank password hash is no password.\<close>

definition password_given :: "customer \<Rightarrow> string option" where
  "password_given c = (case cust_password c of None \<Rightarrow> None | Some p \<Rightarrow> if trim_space p = [] then None else Some p)"

definition insert_customer :: "int \<Rightarrow> customer \<Rightarrow> db \<Rightarrow> (gid \<times> db) option" where
  "insert_customer now c s =
     (if customer_refs_ok s c
        \<and> \<not> list_ex (\<lambda>d. cust_tenant d = cust_tenant c \<and> cust_code d = cust_code c) (customers s)
      then Some (next_id s, s\<lparr>next_id := Suc (next_id s), customers := customers s @
             [c\<lparr>cust_id := next_id s, cust_photo := None, cust_dismantled := None, cust_password := password_given c,
                cust_created := now\<rparr>]\<rparr>)
      else None)"

definition create_customer :: "int \<Rightarrow> customer \<Rightarrow> (db, gid) prog" where
  "create_customer now c = bind set_tenant (\<lambda>_. auto (exec (insert_customer now (attributed c))))"

definition change_customer :: "customer \<Rightarrow> db \<Rightarrow> (nat \<times> db) option" where
  "change_customer c s =
     (let q = is_customer (cust_tenant c) (cust_id c); n = affected q (customers s) in
      if n = 0 \<or> (customer_refs_ok s c
           \<and> \<not> list_ex (\<lambda>d. \<not> q d \<and> cust_tenant d = cust_tenant c \<and> cust_code d = cust_code c) (customers s))
      then Some (n, s\<lparr>customers := update_rows q (\<lambda>d. c\<lparr>cust_photo := cust_photo d, cust_dismantled := cust_dismantled d,
             cust_created := cust_created d,
             cust_password := (case password_given c of None \<Rightarrow> cust_password d | Some p \<Rightarrow> Some p)\<rparr>) (customers s)\<rparr>)
      else None)"

definition update_customer :: "customer \<Rightarrow> (db, unit) prog" where
  "update_customer c =
     bind set_tenant (\<lambda>_.
     bind (auto (exec (change_customer (attributed c)))) (\<lambda>n. if n = 0 then raise Not_found else ret ()))"

text \<open>The rows that go with a customer: its subscriptions (whose ports and invoices lose the
  reference), invoices with their items, payments, intents, wallet, commissions and discounts.\<close>

definition cascade_customer :: "gid \<Rightarrow> db \<Rightarrow> db" where
  "cascade_customer cid s =
     (let gone_subs = map sub_id (filter (\<lambda>x. sub_customer x = cid) (subscriptions s));
          gone_invoices = map inv_id (filter (\<lambda>i. inv_customer i = cid) (invoices s));
          gone_wallets = map w_id (filter (\<lambda>w. w_customer w = cid) (wallets s));
          lose = (\<lambda>r. case r of None \<Rightarrow> None | Some i \<Rightarrow> if i \<in> set gone_subs then None else r)
      in s\<lparr>customers := filter (\<lambda>c. cust_id c \<noteq> cid) (customers s),
           subscriptions := filter (\<lambda>x. sub_customer x \<noteq> cid) (subscriptions s),
           invoices := map (\<lambda>i. i\<lparr>inv_subscription := lose (inv_subscription i), inv_isolir_sub := lose (inv_isolir_sub i)\<rparr>)
             (filter (\<lambda>i. inv_customer i \<noteq> cid) (invoices s)),
           invoice_items := filter (\<lambda>it. item_invoice it \<notin> set gone_invoices) (invoice_items s),
           payments := map (\<lambda>p. p\<lparr>pay_invoice := (case pay_invoice p of None \<Rightarrow> None
               | Some i \<Rightarrow> if i \<in> set gone_invoices then None else Some i)\<rparr>)
             (filter (\<lambda>p. pay_customer p \<noteq> cid) (payments s)),
           intents := map (\<lambda>p. p\<lparr>pi_invoice := (case pi_invoice p of None \<Rightarrow> None
               | Some i \<Rightarrow> if i \<in> set gone_invoices then None else Some i)\<rparr>)
             (filter (\<lambda>p. pi_customer p \<noteq> cid) (intents s)),
           wallets := filter (\<lambda>w. w_customer w \<noteq> cid) (wallets s),
           wallet_txns := filter (\<lambda>x. wt_wallet x \<notin> set gone_wallets) (wallet_txns s),
           commissions := filter (\<lambda>e. cm_customer e \<noteq> cid) (commissions s),
           discount_customers := filter (\<lambda>(_, c). c \<noteq> cid) (discount_customers s),
           odp_ports := map (\<lambda>p. p\<lparr>port_customer := (if port_customer p = Some cid then None else port_customer p),
               port_subscription := lose (port_subscription p)\<rparr>) (odp_ports s),
           leads := map (\<lambda>l. l\<lparr>ld_customer := (if ld_customer l = Some cid then None else ld_customer l)\<rparr>) (leads s)\<rparr>)"

definition delete_customer :: "gid \<Rightarrow> gid \<Rightarrow> (db, unit) prog" where
  "delete_customer tenant cid =
     bind set_tenant (\<lambda>_.
     bind (auto (exec (\<lambda>s. let n = affected (is_customer tenant cid) (customers s) in
        Some (n, if n = 0 then s else cascade_customer cid s)))) (\<lambda>n.
     if n = 0 then raise Not_found else ret ()))"

definition dismantle_customer :: "int \<Rightarrow> gid \<Rightarrow> gid \<Rightarrow> (db, unit) prog" where
  "dismantle_customer now tenant cid =
     bind set_tenant (\<lambda>_.
     bind (auto (exec (\<lambda>s. let q = (\<lambda>c. is_customer tenant cid c \<and> cust_dismantled c = None) in
        Some (affected q (customers s), s\<lparr>customers := update_rows q
          (\<lambda>c. c\<lparr>cust_active := False, cust_portal := False, cust_dismantled := Some now\<rparr>) (customers s)\<rparr>)))) (\<lambda>n.
     if n = 0 then raise Not_found else ret ()))"

section \<open>Handing out customer codes\<close>

definition code_taken :: "gid \<Rightarrow> db \<Rightarrow> string \<Rightarrow> bool" where
  "code_taken tenant s code \<longleftrightarrow> list_ex (\<lambda>c. cust_tenant c = tenant \<and> cust_code c = code) (customers s)"

definition customer_code_taken :: "gid \<Rightarrow> string \<Rightarrow> (db, bool) prog" where
  "customer_code_taken tenant code = auto (query (\<lambda>s. code_taken tenant s code))"

definition no_unique_code :: err where
  "no_unique_code = Rejected ''gagal membuat kode pelanggan unik''"

definition tenant_code :: "gtime \<Rightarrow> int \<Rightarrow> string" where
  "tenant_code now n = default_code_prefix @ ''-'' @ year_month now @ zero_pad 4 n"

definition counted_code :: "gtime \<Rightarrow> gid \<Rightarrow> nat \<Rightarrow> (db, string) prog" where
  "counted_code now tenant i =
     bind (auto (query (\<lambda>s. int (length (filter (\<lambda>c. cust_tenant c = tenant) (customers s)))))) (\<lambda>n.
     ret (tenant_code now (n + 1 + int i)))"

definition next_customer_code :: "world \<Rightarrow> gid \<Rightarrow> (db, string) prog" where
  "next_customer_code w tenant =
     bind (now_of w tenant) (\<lambda>now.
     try_codes no_unique_code (counted_code now tenant) (customer_code_taken tenant) [0..<100])"

text \<open>The upsert of \<open>customer_code_sequences\<close>; the counter is an \<open>INT\<close>.\<close>

definition advance_sequence :: "gid \<Rightarrow> string \<Rightarrow> db \<Rightarrow> (int \<times> db) option" where
  "advance_sequence cid period s =
     (let n = alist_get 0 (code_seqs s) (cid, period) + 1 in
      if int32_ok n then Some (n, s\<lparr>code_seqs := AList.update (cid, period) n (code_seqs s)\<rparr>) else None)"

definition alloc_cluster_code :: "world \<Rightarrow> gid \<Rightarrow> gid \<Rightarrow> (db, string) prog" where
  "alloc_cluster_code w tenant cid =
     with_tenant (bind (cluster_row tenant cid) (\<lambda>c.
       bind (now_of w tenant) (\<lambda>now.
       bind (exec (advance_sequence cid (sequence_period (cl_pattern c) now))) (\<lambda>n.
       ret (format_customer_code (cl_pattern c) (cl_prefix c) (cl_seq_width c) now n)))))"

fun cluster_code_tries :: "world \<Rightarrow> gid \<Rightarrow> gid \<Rightarrow> nat \<Rightarrow> (db, string) prog" where
  "cluster_code_tries w tenant cid 0 = raise no_unique_code"
| "cluster_code_tries w tenant cid (Suc k) =
     bind (alloc_cluster_code w tenant cid) (\<lambda>code.
     bind (customer_code_taken tenant code) (\<lambda>t. if t then cluster_code_tries w tenant cid k else ret code))"

definition next_customer_code_for_cluster :: "world \<Rightarrow> gid \<Rightarrow> gid \<Rightarrow> (db, string) prog" where
  "next_customer_code_for_cluster w tenant cid = cluster_code_tries w tenant cid 100"

definition preview_customer_code :: "world \<Rightarrow> gid \<Rightarrow> gid \<Rightarrow> (db, string) prog" where
  "preview_customer_code w tenant cid =
     bind (get_cluster tenant cid) (\<lambda>c.
     bind (now_of w tenant) (\<lambda>now.
     bind (with_tenant (query (\<lambda>s. alist_get 0 (code_seqs s) (cid, sequence_period (cl_pattern c) now)))) (\<lambda>last.
     ret (format_customer_code (cl_pattern c) (cl_prefix c) (cl_seq_width c) now (last + 1)))))"

section \<open>Runs without failures\<close>

lemma calm_with_tenant: "calm s \<Longrightarrow> m s = (Inr x, s') \<Longrightarrow> calm s' \<Longrightarrow> with_tenant m s = (Inr x, s')"
  unfolding with_tenant_def by (rule calm_tx) (simp_all add: bind_def calm_round_trip)

lemma calm_customer_code_taken: "calm s \<Longrightarrow> customer_code_taken tenant code s = (Inr (code_taken tenant s code), s)"
  unfolding customer_code_taken_def by (rule calm_auto_query)

definition code_at :: "world \<Rightarrow> gid \<Rightarrow> cluster \<Rightarrow> db \<Rightarrow> int \<Rightarrow> string" where
  "code_at w tenant c s n = format_customer_code (cl_pattern c) (cl_prefix c) (cl_seq_width c) (now_value w tenant s) n"

definition counter_key :: "world \<Rightarrow> gid \<Rightarrow> cluster \<Rightarrow> db \<Rightarrow> gid \<times> string" where
  "counter_key w tenant c s = (cl_id c, sequence_period (cl_pattern c) (now_value w tenant s))"

lemma calm_alloc:
  assumes "calm s" and "first_row (is_cluster tenant cid) (clusters s) = Some c"
    and "int32_ok (alist_get 0 (code_seqs s) (counter_key w tenant c s) + 1)"
  shows "alloc_cluster_code w tenant cid s =
    (let n = alist_get 0 (code_seqs s) (counter_key w tenant c s) + 1
     in (Inr (code_at w tenant c s n), s\<lparr>code_seqs := AList.update (counter_key w tenant c s) n (code_seqs s)\<rparr>))"
proof -
  have cid: "cl_id c = cid" using first_row_Some [OF assms(2)] by (simp add: is_cluster_def)
  show ?thesis
    unfolding alloc_cluster_code_def Let_def
    by (rule calm_with_tenant)
      (use assms in \<open>simp_all add: cluster_row_def bind_def calm_query calm_now_value ret_def exec_def calm_round_trip
         advance_sequence_def Let_def counter_key_def code_at_def cid calm_def\<close>)
qed

lemma now_value_cong:
  assumes "calm s" and "calm s'" and "general_rows s' = general_rows s"
  shows "now_value w tenant s' = now_value w tenant s"
  using calm_now_of [OF assms(1), of w tenant] assms by (auto simp: now_value_def)

definition at_counter :: "world \<Rightarrow> gid \<Rightarrow> cluster \<Rightarrow> db \<Rightarrow> int \<Rightarrow> db" where
  "at_counter w tenant c s n = s\<lparr>code_seqs := AList.update (counter_key w tenant c s) n (code_seqs s)\<rparr>"

lemma at_counter:
  assumes "calm s"
  shows "calm (at_counter w tenant c s n)"
    and "now_value w tenant (at_counter w tenant c s n) = now_value w tenant s"
    and "counter_key w tenant d (at_counter w tenant c s n) = counter_key w tenant d s"
    and "code_at w tenant d (at_counter w tenant c s n) = code_at w tenant d s"
    and "at_counter w tenant c (at_counter w tenant c s n) m = at_counter w tenant c s m"
    and "alist_get 0 (code_seqs (at_counter w tenant c s n)) (counter_key w tenant c s) = n"
    and "code_taken tenant (at_counter w tenant c s n) = code_taken tenant s"
    and "clusters (at_counter w tenant c s n) = clusters s"
proof -
  show c: "calm (at_counter w tenant c s n)" using assms by (simp add: at_counter_def calm_def)
  show now: "now_value w tenant (at_counter w tenant c s n) = now_value w tenant s"
    by (rule now_value_cong [OF assms c]) (simp add: at_counter_def)
  show key: "counter_key w tenant d (at_counter w tenant c s n) = counter_key w tenant d s" for d
    by (simp add: counter_key_def now)
  show "code_at w tenant d (at_counter w tenant c s n) = code_at w tenant d s"
    by (simp add: code_at_def now fun_eq_iff)
  show "at_counter w tenant c (at_counter w tenant c s n) m = at_counter w tenant c s m"
    unfolding at_counter_def [of _ _ _ _ m] key by (simp add: at_counter_def)
  show "code_taken tenant (at_counter w tenant c s n) = code_taken tenant s"
    by (simp add: code_taken_def at_counter_def fun_eq_iff)
  show "alist_get 0 (code_seqs (at_counter w tenant c s n)) (counter_key w tenant c s) = n"
    "clusters (at_counter w tenant c s n) = clusters s"
    by (simp_all add: at_counter_def alist_simps)
qed

lemma calm_tries:
  assumes "calm s" and "first_row (is_cluster tenant cid) (clusters s) = Some c"
    and "alist_get 0 (code_seqs s) (counter_key w tenant c s) = n" and "0 \<le> n" and "n + int k < 2 ^ 31"
  shows "cluster_code_tries w tenant cid k s =
    (case find (\<lambda>i. \<not> code_taken tenant s (code_at w tenant c s (n + 1 + int i))) [0..<k] of
       None \<Rightarrow> (Inl no_unique_code, if k = 0 then s else at_counter w tenant c s (n + int k))
     | Some i \<Rightarrow> (Inr (code_at w tenant c s (n + 1 + int i)), at_counter w tenant c s (n + 1 + int i)))"
  using assms
proof (induction k arbitrary: s n)
  case (Suc k)
  let ?s = "at_counter w tenant c s (n + 1)"
  have alloc: "alloc_cluster_code w tenant cid s = (Inr (code_at w tenant c s (n + 1)), ?s)"
    using calm_alloc [OF Suc.prems(1,2), of w] Suc.prems(3-5) by (simp add: at_counter_def Let_def int32_ok_def)
  note ac = at_counter [OF Suc.prems(1), where w = w and tenant = tenant]
  have taken: "customer_code_taken tenant code ?s = (Inr (code_taken tenant s code), ?s)" for code
    using calm_customer_code_taken [OF ac(1)] by (simp add: ac(7))
  let ?P = "\<lambda>i. \<not> code_taken tenant s (code_at w tenant c s (n + 1 + int i))"
  have succ: "n + 1 + 1 + int i = n + 1 + int (Suc i)" for i by simp
  have IH: "cluster_code_tries w tenant cid k ?s =
    (case find (\<lambda>i. ?P (Suc i)) [0..<k] of
       None \<Rightarrow> (Inl no_unique_code, if k = 0 then ?s else at_counter w tenant c s (n + 1 + int k))
     | Some i \<Rightarrow> (Inr (code_at w tenant c s (n + 1 + int (Suc i))), at_counter w tenant c s (n + 1 + int (Suc i))))"
    unfolding succ [symmetric]
    by (rule Suc.IH [OF ac(1), of c "n + 1", unfolded ac]) (use Suc.prems in simp_all)
  have find_shift: "find Q [0..<Suc m] = (if Q 0 then Some 0 else map_option Suc (find (\<lambda>i. Q (Suc i)) [0..<m]))" for Q m
  proof -
    have "[0..<Suc m] = 0 # map Suc [0..<m]" by (metis map_Suc_upt upt_conv_Cons zero_less_Suc)
    moreover have "find Q (map Suc xs) = map_option Suc (find (\<lambda>i. Q (Suc i)) xs)" for xs by (induction xs) auto
    ultimately show ?thesis by simp
  qed
  show ?case
  proof (cases "code_taken tenant s (code_at w tenant c s (n + 1))")
    case True
    then have "cluster_code_tries w tenant cid (Suc k) s = cluster_code_tries w tenant cid k ?s"
      using alloc taken by (simp add: bind_def)
    moreover have "n + int (Suc k) = n + 1 + int k" by simp
    ultimately show ?thesis
      unfolding find_shift [of ?P] IH using True by (simp only: of_nat_0 add_0_right) (simp split: option.split)
  next
    case False
    then show ?thesis unfolding find_shift [of ?P] using alloc taken by (simp add: bind_def ret_def)
  qed
qed (simp add: raise_def)

section \<open>Codes with a counter are distinct\<close>

text \<open>What a pattern becomes, with holes where the counter goes.\<close>

definition fill :: "string \<Rightarrow> string option list \<Rightarrow> string" where
  "fill x ps = concat (map (case_option x (\<lambda>t. t)) ps)"

lemma fill_simps [simp]: "fill x [] = []" "fill x (None # ps) = x @ fill x ps" "fill x (Some t # ps) = t @ fill x ps"
  by (simp_all add: fill_def)

lemma fill_length: "length (fill x ps) + length (fill [] ps) = 2 * length (fill [] ps) + count_list ps None * length x"
proof (induction ps)
  case (Cons p ps)
  then show ?case by (cases p) (simp_all add: algebra_simps)
qed simp

lemma fill_inject:
  assumes "None \<in> set ps" and e: "fill x ps = fill y ps"
  shows "x = y"
proof -
  have "0 < count_list ps None" using assms(1) by (metis count_list_0_iff gr0I)
  moreover have "count_list ps None * length x = count_list ps None * length y"
    using fill_length [of x ps] fill_length [of y ps] e by auto
  ultimately have l: "length x = length y" by simp
  show ?thesis using assms
  proof (induction ps)
    case (Cons p ps)
    then show ?case using l by (cases p) auto
  qed simp
qed

definition bracketed :: "string \<Rightarrow> bool" where
  "bracketed t \<longleftrightarrow> t \<noteq> [] \<and> hd t = CHR ''{'' \<and> CHR ''{'' \<notin> set (tl t)"

lemma contains_after_tail:
  "CHR ''{'' \<notin> set ys \<Longrightarrow> bracketed p \<Longrightarrow> contains_sub (ys @ r) p = contains_sub r p"
proof (induction ys)
  case (Cons y ys)
  then have "\<not> has_prefix ((y # ys) @ r) p"
    by (auto simp: bracketed_def has_prefix_iff neq_Nil_conv)
  then show ?case using Cons by simp
qed simp

lemma find_append: "find P (xs @ ys) = (case find P xs of None \<Rightarrow> find P ys | Some r \<Rightarrow> Some r)"
  by (induction xs) auto

lemma replace_template:
  assumes "\<forall>t\<in>set (map fst subs). bracketed t" and "bracketed tok"
    and "tok \<notin> set (map fst subs)" and "\<forall>t\<in>set (map fst subs). \<forall>r. \<not> has_prefix (tok @ r) t"
  shows "\<exists>ps. (\<forall>x. replace_tokens (subs @ [(tok, x)]) p = fill x ps) \<and> (contains_sub p tok \<longrightarrow> None \<in> set ps)"
proof (induction p rule: length_induct)
  case (1 p)
  show ?case
  proof (cases p)
    case Nil
    then show ?thesis using assms(2) by (intro exI [of _ "[]"]) (simp add: bracketed_def)
  next
    case (Cons c cs)
    have tl: "contains_sub p tok = contains_sub (drop (length t - 1) cs) tok"
      if "has_prefix p t" "bracketed t" "\<not> has_prefix p tok" for t
    proof -
      from that(1) have "\<exists>r. p = t @ r" by (simp add: has_prefix_iff)
      then obtain r where r: "p = t @ r" ..
      from that(2) have "\<exists>ys. t = CHR ''{'' # ys \<and> CHR ''{'' \<notin> set ys" by (cases t) (auto simp: bracketed_def)
      then obtain ys where t: "t = CHR ''{'' # ys" "CHR ''{'' \<notin> set ys" by blast
      have "contains_sub p tok = contains_sub (ys @ r) tok" using that(3) r t by simp
      then show ?thesis using contains_after_tail [OF t(2) assms(2)] r t Cons by simp
    qed
    consider (fixed) t new where "find (\<lambda>(old, _). has_prefix p old) subs = Some (t, new)"
      | (token) "find (\<lambda>(old, _). has_prefix p old) subs = None" "has_prefix p tok"
      | (plain) "find (\<lambda>(old, _). has_prefix p old) subs = None" "\<not> has_prefix p tok"
      by (cases "find (\<lambda>(old, _). has_prefix p old) subs") (auto simp: prod_eq_iff)
    then show ?thesis
    proof cases
      case fixed
      then obtain i where "i < length subs" "subs ! i = (t, new)" and t: "has_prefix p t" by (auto simp: find_Some_iff)
      then have "(t, new) \<in> set subs" by (metis nth_mem)
      then have "t \<in> set (map fst subs)" by force
      then have nt: "\<not> has_prefix p tok" and b: "bracketed t" using assms(1,4) t by (metis has_prefix_iff)+
      have "length (drop (length t - 1) cs) < length p" using Cons by simp
      then obtain ps where ps: "\<forall>x. replace_tokens (subs @ [(tok, x)]) (drop (length t - 1) cs) = fill x ps"
        "contains_sub (drop (length t - 1) cs) tok \<longrightarrow> None \<in> set ps" using 1 by blast
      have "find (\<lambda>(old, _). has_prefix p old) (subs @ [(tok, x)]) = Some (t, new)" for x
        using fixed by (simp add: find_append)
      then have "replace_tokens (subs @ [(tok, x)]) p = fill x (Some new # ps)" for x using ps(1) Cons by simp
      then show ?thesis using tl [OF t b nt] ps(2) by (intro exI [of _ "Some new # ps"]) simp
    next
      case token
      have "length (drop (length tok - 1) cs) < length p" using Cons by simp
      then obtain ps where ps: "\<forall>x. replace_tokens (subs @ [(tok, x)]) (drop (length tok - 1) cs) = fill x ps" using 1 by blast
      have "find (\<lambda>(old, _). has_prefix p old) (subs @ [(tok, x)]) = Some (tok, x)" for x
        using token by (simp add: find_append)
      then have "replace_tokens (subs @ [(tok, x)]) p = fill x (None # ps)" for x using ps Cons by simp
      then show ?thesis by (intro exI [of _ "None # ps"]) simp
    next
      case plain
      have "length cs < length p" using Cons by simp
      then obtain ps where ps: "\<forall>x. replace_tokens (subs @ [(tok, x)]) cs = fill x ps" "contains_sub cs tok \<longrightarrow> None \<in> set ps"
        using 1 by blast
      have "find (\<lambda>(old, _). has_prefix p old) (subs @ [(tok, x)]) = None" for x
        using plain by (simp add: find_append)
      then have "replace_tokens (subs @ [(tok, x)]) p = fill x (Some [c] # ps)" for x using ps(1) Cons by simp
      then show ?thesis using ps(2) plain(2) Cons by (intro exI [of _ "Some [c] # ps"]) simp
    qed
  qed
qed

lemma padded_seq_inject: "0 \<le> m \<Longrightarrow> 0 \<le> n \<Longrightarrow> padded_seq width m = padded_seq width n \<longleftrightarrow> m = n"
  by (auto simp: padded_seq_def zero_pad_inject format_int_def eq_nat_nat_iff)

definition counted_at :: "gtime \<Rightarrow> gid \<Rightarrow> db \<Rightarrow> nat \<Rightarrow> string" where
  "counted_at now tenant s i = tenant_code now (int (length (filter (\<lambda>c. cust_tenant c = tenant) (customers s))) + 1 + int i)"

interpretation customer_codes: code_search "code_taken tenant" "counted_code now tenant" "customer_code_taken tenant"
    "counted_at now tenant"
proof unfold_locales
  show "keeps P (counted_code now tenant i)" if "stable P" for P i
    using that unfolding counted_code_def by (intro keeps_intros)
  show "keeps P (customer_code_taken tenant c)" if "stable P" for P c
    using that unfolding customer_code_taken_def by (intro keeps_intros)
  show "b = code_taken tenant s c" if "customer_code_taken tenant c s = (Inr b, s')" for c s b s'
    using that by (auto simp: customer_code_taken_def auto_def code_taken_def split: prod.splits dest!: query_Inr)
  show "code_taken tenant (s\<lparr>faults := fs, aborted := a\<rparr>) = code_taken tenant s" for s fs a
    by (simp add: code_taken_def fun_eq_iff)
  show "counted_code now tenant i s = (Inr (counted_at now tenant s i), s)" if "calm s" for s i
    using that by (simp add: counted_code_def counted_at_def bind_def calm_auto_query ret_def)
  show "customer_code_taken tenant c s = (Inr (code_taken tenant s c), s)" if "calm s" for s c
    using that by (rule calm_customer_code_taken)
qed

lemma stable_code_taken: "stable (\<lambda>s1. code_taken t s1 = u)"
  unfolding stable_def by (simp only: customer_codes.used_tables simp_thms)

lemma keeps_code_taken: "keeps (\<lambda>s1. code_taken t s1 = u) (alloc_cluster_code w tenant cid)"
proof -
  have "gives (\<lambda>s1. code_taken t s1 = u) (exec (advance_sequence cid p)) (\<lambda>_ s1. code_taken t s1 = u)" for p
    by (rule gives_exec [OF stable_code_taken])
      (auto simp: advance_sequence_def Let_def code_taken_def fun_eq_iff split: if_splits)
  moreover have "gives (\<lambda>s1. code_taken t s1 = u) (cluster_row tenant cid) (\<lambda>_ s1. code_taken t s1 = u)"
    unfolding cluster_row_def by (intro gives_keeps keeps_intros stable_code_taken)
  moreover have "gives (\<lambda>s1. code_taken t s1 = u) (now_of w tenant) (\<lambda>_ s1. code_taken t s1 = u)"
    by (intro gives_keeps keeps_intros stable_code_taken)
  ultimately show ?thesis
    unfolding alloc_cluster_code_def by (intro keeps_with_tenant stable_code_taken) (rule gives_bind | assumption | rule gives_ret)+
qed

lemma cluster_code_unused: "cluster_code_tries w tenant cid k s = (Inr code, s') \<Longrightarrow> \<not> code_taken tenant s code"
proof (induction k arbitrary: s)
  case (Suc k)
  obtain code1 s1 b s2 where r: "alloc_cluster_code w tenant cid s = (Inr code1, s1)"
    "customer_code_taken tenant code1 s1 = (Inr b, s2)"
    "(if b then cluster_code_tries w tenant cid k else ret code1) s2 = (Inr code, s')"
    using Suc.prems by (auto elim!: bind_Inr)
  have k1: "code_taken tenant s1 = code_taken tenant s"
    using gives_keeps [OF keeps_code_taken, of tenant "code_taken tenant s"] r(1) unfolding gives_def by blast
  have k2: "code_taken tenant s2 = code_taken tenant s"
    using gives_keeps [OF customer_codes.taken_reads [OF stable_code_taken], of tenant "code_taken tenant s"] r(2) k1
    unfolding gives_def by blast
  show ?case
  proof (cases b)
    case True
    then have "\<not> code_taken tenant s2 code" using Suc.IH r(3) by simp
    then show ?thesis using k2 by simp
  next
    case False
    then show ?thesis using customer_codes.taken_tells [OF r(2)] r(3) k1 by (simp add: ret_Inr)
  qed
qed simp

section \<open>Properties\<close>

text \<open>C26: two customer codes of one cluster and instant are equal exactly when their counters are, for every
  pattern that mentions the counter.\<close>

theorem customer_codes_distinct:
  assumes "contains_sub (if trim_space pattern = [] then default_code_pattern else pattern) ''{seq}''"
    and "0 \<le> m" and "0 \<le> n"
  shows "format_customer_code pattern pre width now m = format_customer_code pattern pre width now n \<longleftrightarrow> m = n"
proof
  let ?p = "if trim_space pattern = [] then default_code_pattern else pattern"
  let ?w = "if width \<le> 0 then 4 else width"
  define subs where "subs = butlast (code_tokens (if trim_space pre = [] then default_code_prefix else pre) ?w now 0)"
  have tokens: "code_tokens (if trim_space pre = [] then default_code_prefix else pre) ?w now k
      = subs @ [(''{seq}'', padded_seq ?w k)]" for k
    by (simp add: subs_def code_tokens_def)
  have keys: "map fst subs = [''{prefix}'', ''{yyyymm}'', ''{yyyy}'', ''{yy}'', ''{mm}'']"
    by (simp add: subs_def code_tokens_def)
  obtain ps where ps: "\<forall>x. replace_tokens (subs @ [(''{seq}'', x)]) ?p = fill x ps"
    "contains_sub ?p ''{seq}'' \<longrightarrow> None \<in> set ps"
    using replace_template [of subs "''{seq}''" ?p] unfolding keys by (force simp: bracketed_def has_prefix_def)
  assume "format_customer_code pattern pre width now m = format_customer_code pattern pre width now n"
  then have "fill (padded_seq ?w m) ps = fill (padded_seq ?w n) ps"
    unfolding format_customer_code_def Let_def tokens using ps(1) by simp
  then have "padded_seq ?w m = padded_seq ?w n" using fill_inject ps(2) assms(1) by blast
  then show "m = n" using padded_seq_inject assms by blast
qed simp

lemma customer_codes_distinct_witness:
  "format_customer_code [] ''BTC'' 4 \<lparr>t_year = 2026, t_month = 9, t_day = 1, t_nanos = 0, t_zone = 0\<rparr> 1 = ''BTC-2026090001'' \<and>
   format_customer_code [] ''BTC'' 4 \<lparr>t_year = 2026, t_month = 9, t_day = 1, t_nanos = 0, t_zone = 0\<rparr> 1
     \<noteq> format_customer_code [] ''BTC'' 4 \<lparr>t_year = 2026, t_month = 9, t_day = 1, t_nanos = 0, t_zone = 0\<rparr> 12"
proof
  have "contains_sub (if trim_space [] = [] then default_code_pattern else []) ''{seq}''" by code_simp
  from customer_codes_distinct [OF this, of 1 12]
  show "format_customer_code [] ''BTC'' 4 \<lparr>t_year = 2026, t_month = 9, t_day = 1, t_nanos = 0, t_zone = 0\<rparr> 1
     \<noteq> format_customer_code [] ''BTC'' 4 \<lparr>t_year = 2026, t_month = 9, t_day = 1, t_nanos = 0, t_zone = 0\<rparr> 12" by simp
qed code_simp

text \<open>C25: without failures \<open>NextCustomerCodeForCluster\<close> gives the first of the next hundred codes that no
  customer of the tenant has, and moves the counter to it; when all hundred are taken it fails
  and the counter has moved on by a hundred.  The preview shows the code of the next counter.\<close>

theorem cluster_code_search:
  assumes "calm s" and "first_row (is_cluster tenant cid) (clusters s) = Some c"
    and "alist_get 0 (code_seqs s) (counter_key w tenant c s) = n" and "0 \<le> n" and "n + 100 < 2 ^ 31"
  shows "preview_customer_code w tenant cid s = (Inr (code_at w tenant c s (n + 1)), s) \<and>
    next_customer_code_for_cluster w tenant cid s =
      (case find (\<lambda>i. \<not> code_taken tenant s (code_at w tenant c s (n + 1 + int i))) [0..<100] of
         None \<Rightarrow> (Inl no_unique_code, at_counter w tenant c s (n + 100))
       | Some i \<Rightarrow> (Inr (code_at w tenant c s (n + 1 + int i)), at_counter w tenant c s (n + 1 + int i)))"
proof
  have "get_cluster tenant cid s = (Inr c, s)"
    unfolding get_cluster_def by (rule calm_with_tenant) (use assms in \<open>simp_all add: cluster_row_def bind_def calm_query ret_def\<close>)
  moreover have "with_tenant (query (\<lambda>s. alist_get 0 (code_seqs s) k)) s = (Inr (alist_get 0 (code_seqs s) k), s)" for k
    by (rule calm_with_tenant) (use assms in \<open>simp_all add: calm_query\<close>)
  moreover have "cl_id c = cid" using first_row_Some [OF assms(2)] by (simp add: is_cluster_def)
  ultimately show "preview_customer_code w tenant cid s = (Inr (code_at w tenant c s (n + 1)), s)"
    using assms by (simp add: preview_customer_code_def bind_def calm_now_value ret_def code_at_def counter_key_def)
qed (use calm_tries [OF assms(1-4), of 100] assms(5) in \<open>simp add: next_customer_code_for_cluster_def split: option.split\<close>)

definition sample_world :: world where
  "sample_world = \<lparr>w_known = \<lambda>_. True, w_offset = \<lambda>_ _. 25200, w_local = ''UTC'', w_now = 1783000000 * second,
     w_today = 20636, w_zone = 0\<rparr>"

definition sample_cluster :: cluster where
  "sample_cluster = \<lparr>cl_id = 4, cl_tenant = 1, cl_name = ''Batam'', cl_code = ''BTC'', cl_prefix = ''BTC'', cl_pattern = ''{yy}-{seq}'',
     cl_seq_width = 3, cl_address = None, cl_lat = None, cl_lng = None, cl_radius = None, cl_notes = None, cl_active = True,
     cl_created = 0\<rparr>"

definition sample_cluster_db :: db where
  "sample_cluster_db = empty_db\<lparr>clusters := [sample_cluster], customers := [sample_customer\<lparr>cust_code := ''26-001''\<rparr>]\<rparr>"

text \<open>The counter of this pattern starts anew each month but the code shows only the year: the codes of
  the months before are taken.\<close>

lemma cluster_code_search_witness:
  "fst (preview_customer_code sample_world 1 4 sample_cluster_db) = Inr ''26-001'' \<and>
   fst (next_customer_code_for_cluster sample_world 1 4 sample_cluster_db) = Inr ''26-002''"
proof -
  have "calm sample_cluster_db" by (simp add: sample_cluster_db_def empty_db_def calm_def)
  moreover have "first_row (is_cluster 1 4) (clusters sample_cluster_db) = Some sample_cluster" by code_simp
  moreover have "alist_get 0 (code_seqs sample_cluster_db) (counter_key sample_world 1 sample_cluster sample_cluster_db) = 0"
    by (simp add: sample_cluster_db_def empty_db_def)
  ultimately have r: "preview_customer_code sample_world 1 4 sample_cluster_db
        = (Inr (code_at sample_world 1 sample_cluster sample_cluster_db 1), sample_cluster_db)"
      "next_customer_code_for_cluster sample_world 1 4 sample_cluster_db =
      (case find (\<lambda>i. \<not> code_taken 1 sample_cluster_db (code_at sample_world 1 sample_cluster sample_cluster_db (0 + 1 + int i))) [0..<100] of
         None \<Rightarrow> (Inl no_unique_code, at_counter sample_world 1 sample_cluster sample_cluster_db (0 + 100))
       | Some i \<Rightarrow> (Inr (code_at sample_world 1 sample_cluster sample_cluster_db (0 + 1 + int i)),
           at_counter sample_world 1 sample_cluster sample_cluster_db (0 + 1 + int i)))"
    using cluster_code_search [of sample_cluster_db 1 4 sample_cluster sample_world 0] by simp_all
  have "code_at sample_world 1 sample_cluster sample_cluster_db 1 = ''26-001''" by code_simp
  moreover have "find (\<lambda>i. \<not> code_taken 1 sample_cluster_db (code_at sample_world 1 sample_cluster sample_cluster_db (0 + 1 + int i))) [0..<100]
      = Some 1" by code_simp
  moreover have "code_at sample_world 1 sample_cluster sample_cluster_db (0 + 1 + int 1) = ''26-002''" by code_simp
  ultimately show ?thesis using r by (simp only: fst_conv option.case)
qed

text \<open>under any failures, a code that \<open>NextCustomerCode\<close> or \<open>NextCustomerCodeForCluster\<close> returns is
  unused in the tenant, so that without failures a customer can be created with it.\<close>

theorem customer_code_unused:
  assumes "next_customer_code w tenant s = (Inr code, s') \<or> next_customer_code_for_cluster w tenant cid s = (Inr code, s')"
  shows "\<not> list_ex (\<lambda>c. cust_tenant c = tenant \<and> cust_code c = code) (customers s) \<and>
    (calm s1 \<and> customers s1 = customers s \<and> customer_refs_ok s1 (attributed c) \<and> cust_tenant c = tenant \<and> cust_code c = code
      \<longrightarrow> (\<exists>s2. create_customer now c s1 = (Inr (next_id s1), s2) \<and> length (customers s2) = Suc (length (customers s))))"
proof (intro conjI impI)
  have unused: "\<not> code_taken tenant s code"
    using assms
  proof
    assume "next_customer_code w tenant s = (Inr code, s')"
    then obtain t s1 where r: "now_of w tenant s = (Inr t, s1)"
      "try_codes no_unique_code (counted_code t tenant) (customer_code_taken tenant) [0..<100] s1 = (Inr code, s')"
      unfolding next_customer_code_def by (elim bind_Inr)
    have "code_taken tenant s1 = code_taken tenant s"
      using gives_keeps [OF keeps_now_of [OF stable_code_taken], of tenant "code_taken tenant s"] r(1)
      unfolding gives_def by blast
    then show ?thesis using customer_codes.found_unused [OF r(2)] by simp
  qed (auto simp: next_customer_code_for_cluster_def dest: cluster_code_unused)
  then show free: "\<not> list_ex (\<lambda>c. cust_tenant c = tenant \<and> cust_code c = code) (customers s)"
    by (simp add: code_taken_def)
  assume c: "calm s1 \<and> customers s1 = customers s \<and> customer_refs_ok s1 (attributed c) \<and> cust_tenant c = tenant \<and> cust_code c = code"
  have a: "cust_tenant (attributed c) = cust_tenant c" "cust_code (attributed c) = cust_code c"
    by (simp_all add: attributed_def split: prod.split)
  let ?x = "snd (the (insert_customer now (attributed c) s1))"
  have "calm s1" using c by blast
  have x: "insert_customer now (attributed c) s1 = Some (next_id s1, ?x)" "length (customers ?x) = Suc (length (customers s))" "calm ?x"
    using c free a by (simp_all add: insert_customer_def calm_def)
  then have "auto (exec (insert_customer now (attributed c))) s1 = (Inr (next_id s1), ?x)"
    using \<open>calm s1\<close> by (intro calm_auto calm_exec)
  then have "create_customer now c s1 = (Inr (next_id s1), ?x)"
    using \<open>calm s1\<close> by (simp add: create_customer_def bind_def calm_set_tenant)
  then show "\<exists>s2. create_customer now c s1 = (Inr (next_id s1), s2) \<and> length (customers s2) = Suc (length (customers s))"
    using x by blast
qed

lemma sample_cluster_run:
  "next_customer_code_for_cluster sample_world 1 4 sample_cluster_db =
     (Inr ''26-002'', at_counter sample_world 1 sample_cluster sample_cluster_db 2)"
proof -
  let ?s = sample_cluster_db
  have "calm ?s" by (simp add: sample_cluster_db_def empty_db_def calm_def)
  moreover have "first_row (is_cluster 1 4) (clusters ?s) = Some sample_cluster" by code_simp
  moreover have "alist_get 0 (code_seqs ?s) (counter_key sample_world 1 sample_cluster ?s) = 0"
    by (simp add: sample_cluster_db_def empty_db_def)
  moreover have "find (\<lambda>i. \<not> code_taken 1 ?s (code_at sample_world 1 sample_cluster ?s (0 + 1 + int i))) [0..<100] = Some 1"
    by code_simp
  moreover have "code_at sample_world 1 sample_cluster ?s (0 + 1 + int 1) = ''26-002''" by code_simp
  ultimately show ?thesis
    using calm_tries [of ?s 1 4 sample_cluster sample_world 0 100] by (simp add: next_customer_code_for_cluster_def)
qed

lemma customer_code_unused_witness:
  "\<exists>s'. next_customer_code_for_cluster sample_world 1 4 sample_cluster_db = (Inr ''26-002'', s') \<and>
    \<not> list_ex (\<lambda>c. cust_tenant c = 1 \<and> cust_code c = ''26-002'') (customers sample_cluster_db)"
  using customer_code_unused [OF disjI2 [OF sample_cluster_run]] sample_cluster_run by blast

end
