(* ===== verification/Subscriptions.thy ===== *)
theory Subscriptions
  imports Customers Plans Invoices
begin

text \<open>
  Subscriptions (\<open>internal/store/plans.go\<close>), the pending change of plan kept in their
  metadata (\<open>internal/store/subscription_pending.go\<close>) and the ports of the distribution
  points they are plugged into (\<open>internal/store/operations.go\<close>).  Routers are not
  modelled: a subscription's router is an identifier.
\<close>

section \<open>Ports of distribution points\<close>

definition update_ports :: "(odp_port \<Rightarrow> bool) \<Rightarrow> (odp_port \<Rightarrow> odp_port) \<Rightarrow> db \<Rightarrow> (nat \<times> db) option" where
  "update_ports q f s = Some (affected q (odp_ports s), s\<lparr>odp_ports := update_rows q f (odp_ports s)\<rparr>)"

definition plug :: "gid option \<Rightarrow> gid option \<Rightarrow> odp_port \<Rightarrow> odp_port" where
  "plug customer sub p = p\<lparr>port_status := ''used'', port_customer := customer, port_subscription := sub\<rparr>"

definition assign_odp_port :: "gid \<Rightarrow> gid \<Rightarrow> int \<Rightarrow> gid option \<Rightarrow> gid option \<Rightarrow> (db, unit) prog" where
  "assign_odp_port tenant odp num customer sub =
     bind (auto (exec (update_ports (\<lambda>p. port_tenant p = tenant \<and> port_odp p = odp \<and> port_number p = num
        \<and> port_status p = ''available'') (plug customer sub)))) (\<lambda>n.
     if n = 0 then raise Not_found else ret ())"

definition free_ports :: "gid \<Rightarrow> gid \<Rightarrow> db \<Rightarrow> odp_port list" where
  "free_ports tenant odp s = order_by (\<lambda>a b. port_number a \<le> port_number b)
     (filter (\<lambda>p. port_tenant p = tenant \<and> port_odp p = odp \<and> port_status p = ''available'') (odp_ports s))"

text \<open>The lowest free port; \<open>FOR UPDATE SKIP LOCKED\<close> passes over ports another transaction holds,
  which the sequential model does not have.\<close>

definition assign_next_available_odp_port :: "gid \<Rightarrow> gid \<Rightarrow> gid \<Rightarrow> gid \<Rightarrow> (db, odp_port) prog" where
  "assign_next_available_odp_port tenant odp customer sub =
     bind (auto (exec (\<lambda>s. case free_ports tenant odp s of
        [] \<Rightarrow> Some (None, s)
      | p # _ \<Rightarrow> Some (Some (plug (Some customer) (Some sub) p),
          s\<lparr>odp_ports := update_rows (\<lambda>r. port_id r = port_id p) (plug (Some customer) (Some sub)) (odp_ports s)\<rparr>)))) (\<lambda>row.
     case row of None \<Rightarrow> raise Not_found | Some p \<Rightarrow> ret p)"

definition unplug :: "odp_port \<Rightarrow> odp_port" where
  "unplug p = p\<lparr>port_status := ''available'', port_customer := None, port_subscription := None\<rparr>"

definition release_odp_port_by_subscription :: "gid \<Rightarrow> gid \<Rightarrow> (db, unit) prog" where
  "release_odp_port_by_subscription tenant sub =
     bind (auto (exec (update_ports (\<lambda>p. port_tenant p = tenant \<and> port_subscription p = Some sub) unplug))) (\<lambda>_. ret ())"

definition list_odp_ports :: "gid \<Rightarrow> gid \<Rightarrow> (db, (odp_port \<times> string \<times> string) list) prog" where
  "list_odp_ports tenant odp = auto (query (\<lambda>s.
     map (\<lambda>p. (p, joined cust_id cust_name (customers s) (port_customer p), joined sub_id sub_username (subscriptions s) (port_subscription p)))
       (order_by (\<lambda>a b. port_number a \<le> port_number b)
         (filter (\<lambda>p. port_tenant p = tenant \<and> port_odp p = odp) (odp_ports s)))))"

section \<open>Reading subscriptions\<close>

text \<open>A row of the joined queries: the subscription with its customer, plan and port.  The queries
  that leave out some of the columns return them empty.\<close>

record sub_view =
  sv_row :: subscription
  sv_customer_name :: string
  sv_customer_code :: string
  sv_plan_name :: string
  sv_odp :: "gid option"
  sv_odp_code :: string
  sv_odp_name :: string
  sv_port :: "int option"
  sv_free :: bool

definition active_offer_price :: "db \<Rightarrow> subscription \<Rightarrow> customer \<Rightarrow> int option" where
  "active_offer_price s x c = map_option off_price (first_row (\<lambda>f. off_tenant f = sub_tenant x \<and> off_plan f = sub_plan x
     \<and> Some (off_cluster f) = cust_cluster c \<and> off_active f) (offers s))"

definition is_free :: "db \<Rightarrow> subscription \<Rightarrow> customer \<Rightarrow> plan \<Rightarrow> bool" where
  "is_free s x c p \<longleftrightarrow> (case active_offer_price s x c of None \<Rightarrow> plan_price p | Some n \<Rightarrow> n) = 0"

definition sub_row :: "db \<Rightarrow> subscription \<Rightarrow> customer \<Rightarrow> plan \<Rightarrow> odp_port option \<Rightarrow> sub_view" where
  "sub_row s x c p port =
     (let o' = (case port of None \<Rightarrow> None | Some q \<Rightarrow> first_row (\<lambda>o'. odp_id o' = port_odp q) (odps s)) in
      \<lparr>sv_row = x, sv_customer_name = cust_name c, sv_customer_code = cust_code c, sv_plan_name = plan_name p,
       sv_odp = map_option port_odp port,
       sv_odp_code = (case o' of None \<Rightarrow> [] | Some d \<Rightarrow> odp_code d),
       sv_odp_name = (case o' of None \<Rightarrow> [] | Some d \<Rightarrow> odp_name d),
       sv_port = map_option port_number port, sv_free = is_free s x c p\<rparr>)"

text \<open>\<open>JOIN customers JOIN plans LEFT JOIN odp_ports\<close>.\<close>

definition sub_rows_of :: "db \<Rightarrow> subscription \<Rightarrow> sub_view list" where
  "sub_rows_of s x =
     (case (first_row (\<lambda>c. cust_id c = sub_customer x) (customers s), first_row (\<lambda>p. plan_id p = sub_plan x) (plans s)) of
        (Some c, Some p) \<Rightarrow>
          (case filter (\<lambda>q. port_subscription q = Some (sub_id x)) (odp_ports s) of
             [] \<Rightarrow> [sub_row s x c p None]
           | qs \<Rightarrow> map (\<lambda>q. sub_row s x c p (Some q)) qs)
      | _ \<Rightarrow> [])"

definition sub_rows :: "(subscription \<Rightarrow> bool) \<Rightarrow> (subscription \<Rightarrow> subscription \<Rightarrow> bool) \<Rightarrow> db \<Rightarrow> sub_view list" where
  "sub_rows q le s = concat (map (sub_rows_of s) (order_by le (filter q (subscriptions s))))"

definition is_subscription :: "gid \<Rightarrow> gid \<Rightarrow> subscription \<Rightarrow> bool" where
  "is_subscription tenant sid x \<longleftrightarrow> sub_tenant x = tenant \<and> sub_id x = sid"

definition without_free :: "sub_view \<Rightarrow> sub_view" where
  "without_free v = v\<lparr>sv_free := False\<rparr>"

definition get_subscription :: "gid \<Rightarrow> gid \<Rightarrow> (db, sub_view) prog" where
  "get_subscription tenant sid =
     bind set_tenant (\<lambda>_.
     bind (auto (query (sub_rows (is_subscription tenant sid) (\<lambda>_ _. True)))) (\<lambda>rows.
     case rows of [] \<Rightarrow> raise Not_found | v # _ \<Rightarrow> ret (without_free v)))"

definition list_subscriptions :: "gid \<Rightarrow> string \<Rightarrow> gid option \<Rightarrow> int \<Rightarrow> int \<Rightarrow> (db, sub_view list \<times> int) prog" where
  "list_subscriptions tenant status customer limit0 offset =
     (let q = (\<lambda>x. sub_tenant x = tenant \<and> (status = [] \<or> sub_status x = status)
                 \<and> (case customer of None \<Rightarrow> True | Some c \<Rightarrow> sub_customer x = c)) in
      bind set_tenant (\<lambda>_.
      bind (auto (query (\<lambda>s. int (length (filter q (subscriptions s)))))) (\<lambda>n.
      let limit = (if limit0 \<le> 0 then 20 else limit0) in
      bind (auto (page_query limit offset (sub_rows q (\<lambda>a b. sub_id b \<le> sub_id a)))) (\<lambda>list. ret (list, n)))))"

definition plan_name_for_subscription :: "gid \<Rightarrow> gid option \<Rightarrow> (db, string) prog" where
  "plan_name_for_subscription tenant sub =
     (if sub = None \<or> sub = Some nil_id then ret []
      else bind (attempt (auto (query (\<lambda>s.
             case first_row (is_subscription tenant (the sub)) (subscriptions s) of
               None \<Rightarrow> [] | Some x \<Rightarrow> joined plan_id plan_name (plans s) (Some (sub_plan x)))))) (\<lambda>r.
           ret (case r of Inl _ \<Rightarrow> [] | Inr n \<Rightarrow> n)))"

definition is_free_subscription :: "gid \<Rightarrow> gid \<Rightarrow> (db, bool) prog" where
  "is_free_subscription tenant sid =
     bind (auto (query (\<lambda>s. case first_row (is_subscription tenant sid) (subscriptions s) of
         None \<Rightarrow> None
       | Some x \<Rightarrow> (case (first_row (\<lambda>c. cust_id c = sub_customer x) (customers s), first_row (\<lambda>p. plan_id p = sub_plan x) (plans s)) of
           (Some c, Some p) \<Rightarrow> Some (is_free s x c p) | _ \<Rightarrow> None)))) (\<lambda>row.
     case row of None \<Rightarrow> raise Not_found | Some b \<Rightarrow> ret b)"

definition live_status :: "string \<Rightarrow> bool" where
  "live_status st \<longleftrightarrow> st \<in> {''active'', ''suspended'', ''overdue''}"

definition status_rank :: "string \<Rightarrow> nat" where
  "status_rank st = (if st = ''active'' then 0 else if st = ''overdue'' then 1 else 2)"

definition best_first :: "subscription \<Rightarrow> subscription \<Rightarrow> bool" where
  "best_first a b \<longleftrightarrow> status_rank (sub_status a) < status_rank (sub_status b)
     \<or> (status_rank (sub_status a) = status_rank (sub_status b) \<and> sub_id b \<le> sub_id a)"

definition find_provisionable_subscription :: "gid \<Rightarrow> gid \<Rightarrow> gid option \<Rightarrow> (db, sub_view) prog" where
  "find_provisionable_subscription tenant customer router =
     bind set_tenant (\<lambda>_.
     bind (auto (query (sub_rows (\<lambda>x. sub_tenant x = tenant \<and> sub_customer x = customer \<and> sub_router x \<noteq> None
        \<and> live_status (sub_status x) \<and> (router = None \<or> sub_router x = router)) best_first))) (\<lambda>rows.
     case rows of [] \<Rightarrow> raise Not_found | v # _ \<Rightarrow> ret (without_free v)))"

text \<open>The listings below return the subscription with few of the joined columns, and no password.\<close>

definition plain_row :: "subscription \<Rightarrow> subscription" where
  "plain_row x = x\<lparr>sub_password := None\<rparr>"

definition list_provisionable_by_router :: "gid \<Rightarrow> gid \<Rightarrow> (db, (subscription \<times> string \<times> string \<times> string) list) prog" where
  "list_provisionable_by_router tenant router =
     bind set_tenant (\<lambda>_.
     auto (query (\<lambda>s. concat (map (\<lambda>x.
        case (first_row (\<lambda>c. cust_id c = sub_customer x) (customers s), first_row (\<lambda>p. plan_id p = sub_plan x) (plans s)) of
          (Some c, Some p) \<Rightarrow> [(plain_row x, cust_name c, cust_code c, plan_name p)] | _ \<Rightarrow> [])
        (filter (\<lambda>x. sub_tenant x = tenant \<and> sub_router x = Some router \<and> live_status (sub_status x)) (subscriptions s))))))"

definition list_due_subscriptions :: "int \<Rightarrow> gid \<Rightarrow> (db, subscription list) prog" where
  "list_due_subscriptions now tenant =
     bind set_tenant (\<lambda>_.
     auto (query (\<lambda>s. map plain_row (filter (\<lambda>x. sub_tenant x = tenant \<and> sub_status x = ''active''
        \<and> (case sub_next_bill x of None \<Rightarrow> False | Some t \<Rightarrow> t \<le> now)) (subscriptions s)))))"

text \<open>An unpaid invoice that isolates the subscription and is past its due date and the grace days.\<close>

definition isolating :: "world \<Rightarrow> int \<Rightarrow> db \<Rightarrow> subscription \<Rightarrow> bool" where
  "isolating w grace s x \<longleftrightarrow> list_ex (\<lambda>i. inv_tenant i = sub_tenant x \<and> inv_isolir i
     \<and> (inv_subscription i = Some (sub_id x) \<or> inv_isolir_sub i = Some (sub_id x))
     \<and> past_due (w_zone w) (w_now w) grace i) (invoices s)"

definition grace_days :: "world \<Rightarrow> gid \<Rightarrow> (db, int) prog" where
  "grace_days w tenant = isolir_grace_days (w_known w) tenant"

definition list_overdue_subscriptions :: "world \<Rightarrow> gid \<Rightarrow> (db, subscription list) prog" where
  "list_overdue_subscriptions w tenant =
     bind set_tenant (\<lambda>_.
     bind (grace_days w tenant) (\<lambda>grace.
     auto (query (\<lambda>s. map plain_row (filter (\<lambda>x. sub_tenant x = tenant \<and> live_status (sub_status x)
        \<and> isolating w grace s x) (subscriptions s))))))"

definition list_subscriptions_needing_resume :: "world \<Rightarrow> gid \<Rightarrow> (db, gid list) prog" where
  "list_subscriptions_needing_resume w tenant =
     bind set_tenant (\<lambda>_.
     bind (grace_days w tenant) (\<lambda>grace.
     auto (query (\<lambda>s. map sub_id (filter (\<lambda>x. sub_tenant x = tenant \<and> sub_router x \<noteq> None \<and> live_status (sub_status x)
        \<and> sub_suspended x \<noteq> None \<and> \<not> isolating w grace s x) (subscriptions s))))))"

section \<open>Changing subscriptions\<close>

definition username_taken :: "db \<Rightarrow> (subscription \<Rightarrow> bool) \<Rightarrow> gid \<Rightarrow> string \<Rightarrow> bool" where
  "username_taken s q tenant name \<longleftrightarrow>
     list_ex (\<lambda>y. \<not> q y \<and> sub_tenant y = tenant \<and> sub_username y = name) (subscriptions s)"

definition insert_subscription :: "subscription \<Rightarrow> db \<Rightarrow> (gid \<times> db) option" where
  "insert_subscription x s =
     (if list_ex (\<lambda>c. cust_id c = sub_customer x) (customers s) \<and> list_ex (\<lambda>p. plan_id p = sub_plan x) (plans s)
        \<and> \<not> username_taken s (\<lambda>_. False) (sub_tenant x) (sub_username x)
      then Some (next_id s, s\<lparr>next_id := Suc (next_id s), subscriptions := subscriptions s @
             [x\<lparr>sub_id := next_id s, sub_suspended := None, sub_pending := None\<rparr>]\<rparr>)
      else None)"

definition create_subscription :: "subscription \<Rightarrow> (db, gid) prog" where
  "create_subscription x = bind set_tenant (\<lambda>_. auto (exec (insert_subscription x)))"

definition update_subs :: "(subscription \<Rightarrow> bool) \<Rightarrow> (subscription \<Rightarrow> subscription) \<Rightarrow> db \<Rightarrow> (nat \<times> db) option" where
  "update_subs q f s = Some (affected q (subscriptions s), s\<lparr>subscriptions := update_rows q f (subscriptions s)\<rparr>)"

text \<open>\<open>UpdateSubscription\<close> does not report a missing row.\<close>

definition update_subscription :: "gid \<Rightarrow> subscription \<Rightarrow> bool \<Rightarrow> (db, unit) prog" where
  "update_subscription tenant x update_password =
     bind set_tenant (\<lambda>_.
     bind (auto (exec (\<lambda>s. let q = is_subscription tenant (sub_id x) in
        if affected q (subscriptions s) = 0
           \<or> (list_ex (\<lambda>p. plan_id p = sub_plan x) (plans s) \<and> \<not> username_taken s q tenant (sub_username x))
        then update_subs q (\<lambda>r. r\<lparr>sub_plan := sub_plan x, sub_router := sub_router x, sub_username := sub_username x,
               sub_password := (if update_password then sub_password x else sub_password r), sub_service := sub_service x\<rparr>) s
        else None))) (\<lambda>_. ret ()))"

definition lose_subscription :: "gid \<Rightarrow> gid option \<Rightarrow> gid option" where
  "lose_subscription sid ref = (if ref = Some sid then None else ref)"

definition delete_subscription_row :: "gid \<Rightarrow> gid \<Rightarrow> db \<Rightarrow> (nat \<times> db) option" where
  "delete_subscription_row tenant sid s =
     (let n = affected (is_subscription tenant sid) (subscriptions s) in
      Some (n, if n = 0 then s else s\<lparr>subscriptions := filter (\<lambda>x. \<not> is_subscription tenant sid x) (subscriptions s),
        invoices := map (\<lambda>i. i\<lparr>inv_subscription := lose_subscription sid (inv_subscription i),
            inv_isolir_sub := lose_subscription sid (inv_isolir_sub i)\<rparr>) (invoices s),
        odp_ports := map (\<lambda>p. p\<lparr>port_subscription := lose_subscription sid (port_subscription p)\<rparr>) (odp_ports s)\<rparr>))"

definition delete_subscription :: "gid \<Rightarrow> gid \<Rightarrow> (db, unit) prog" where
  "delete_subscription tenant sid =
     bind set_tenant (\<lambda>_.
     bind (attempt (release_odp_port_by_subscription tenant sid)) (\<lambda>_.
     bind (auto (exec (delete_subscription_row tenant sid))) (\<lambda>n.
     if n = 0 then raise Not_found else ret ())))"

definition with_status :: "int \<Rightarrow> string \<Rightarrow> subscription \<Rightarrow> subscription" where
  "with_status now status x = x\<lparr>sub_status := status,
     sub_suspended := (if status = ''suspended'' then coalesce (sub_suspended x) (Some now)
       else if status \<in> {''active'', ''overdue''} then sub_suspended x else None)\<rparr>"

definition update_subscription_status :: "int \<Rightarrow> gid \<Rightarrow> gid \<Rightarrow> string \<Rightarrow> (db, unit) prog" where
  "update_subscription_status now tenant sid status =
     bind set_tenant (\<lambda>_.
     bind (auto (exec (update_subs (is_subscription tenant sid) (with_status now status)))) (\<lambda>_. ret ()))"

definition clear_subscription_suspended_at :: "gid \<Rightarrow> gid \<Rightarrow> (db, unit) prog" where
  "clear_subscription_suspended_at tenant sid =
     bind set_tenant (\<lambda>_.
     bind (auto (exec (update_subs (is_subscription tenant sid) (\<lambda>x. x\<lparr>sub_suspended := None\<rparr>)))) (\<lambda>_. ret ()))"

definition cancel_customer_subscriptions :: "gid \<Rightarrow> gid \<Rightarrow> (db, unit) prog" where
  "cancel_customer_subscriptions tenant customer =
     bind set_tenant (\<lambda>_.
     bind (auto (exec (update_subs (\<lambda>x. sub_tenant x = tenant \<and> sub_customer x = customer
          \<and> sub_status x \<notin> {''cancelled'', ''canceled''})
        (\<lambda>x. x\<lparr>sub_status := ''cancelled'', sub_suspended := None\<rparr>)))) (\<lambda>_. ret ()))"

text \<open>The last statement of \<open>GenerateInvoiceForSubscription\<close> (engine.go), whose error is ignored.\<close>

definition set_next_bill :: "gid \<Rightarrow> gid \<Rightarrow> int \<Rightarrow> (db, unit) prog" where
  "set_next_bill tenant sid next_at =
     bind (attempt (auto (exec (update_subs (is_subscription tenant sid) (\<lambda>x. x\<lparr>sub_next_bill := Some next_at\<rparr>))))) (\<lambda>_. ret ())"

section \<open>The pending change of plan\<close>

definition no_rows :: err where
  "no_rows = Rejected ''no rows in result set''"

definition get_subscription_pending_plan :: "gid \<Rightarrow> gid \<Rightarrow> (db, pending_plan option) prog" where
  "get_subscription_pending_plan tenant sid =
     bind set_tenant (\<lambda>_.
     bind (auto (query (\<lambda>s. first_row (is_subscription tenant sid) (subscriptions s)))) (\<lambda>row.
     case row of
       None \<Rightarrow> raise no_rows
     | Some x \<Rightarrow> ret (case sub_pending x of None \<Rightarrow> None | Some p \<Rightarrow> if pend_new p = nil_id then None else Some p)))"

definition set_subscription_pending_plan :: "int \<Rightarrow> gid \<Rightarrow> gid \<Rightarrow> pending_plan \<Rightarrow> (db, unit) prog" where
  "set_subscription_pending_plan now tenant sid p =
     bind set_tenant (\<lambda>_.
     bind (auto (exec (update_subs (is_subscription tenant sid) (\<lambda>x. x\<lparr>sub_pending :=
        Some (if pend_created p = instant zero_time then p\<lparr>pend_created := now\<rparr> else p)\<rparr>)))) (\<lambda>_. ret ()))"

definition clear_subscription_pending_plan :: "gid \<Rightarrow> gid \<Rightarrow> (db, unit) prog" where
  "clear_subscription_pending_plan tenant sid =
     bind set_tenant (\<lambda>_.
     bind (auto (exec (update_subs (is_subscription tenant sid) (\<lambda>x. x\<lparr>sub_pending := None\<rparr>)))) (\<lambda>_. ret ()))"

definition pending_plan_invoice_paid :: "gid \<Rightarrow> pending_plan option \<Rightarrow> (db, bool) prog" where
  "pending_plan_invoice_paid tenant pending =
     (case pending of
        None \<Rightarrow> ret False
      | Some p \<Rightarrow> if pend_invoice p = nil_id then ret False
          else bind (get_invoice tenant (pend_invoice p)) (\<lambda>(i, _).
            ret ((inv_total i \<le> inv_paid i \<and> 0 < inv_total i) \<or> inv_status i = ''paid'')))"

section \<open>Reading changes nothing\<close>

lemma keeps_subscription_reads [keeps_intros]:
  assumes "stable P"
  shows "keeps P (is_free_subscription t sid)" "keeps P (grace_days w t)"
    "keeps P (list_due_subscriptions now t)" "keeps P (list_overdue_subscriptions w t)"
    "keeps P (list_subscriptions_needing_resume w t)" "keeps P (get_subscription_pending_plan t sid)"
  unfolding is_free_subscription_def grace_days_def list_due_subscriptions_def list_overdue_subscriptions_def
    list_subscriptions_needing_resume_def get_subscription_pending_plan_def
  by (intro keeps_intros assms)+

lemma keeps_get_subscription [keeps_intros]: "stable P \<Longrightarrow> keeps P (get_subscription t sid)"
  unfolding get_subscription_def
proof (intro keeps_intros; assumption?)
  show "keeps P (case rows of [] \<Rightarrow> raise Not_found | v # _ \<Rightarrow> ret (without_free v))" for rows
    by (cases rows) (auto intro: keeps_intros)
qed

section \<open>Who is suspended and who is resumed\<close>

definition settings_of :: "(string \<Rightarrow> bool) \<Rightarrow> gid \<Rightarrow> db \<Rightarrow> general_settings" where
  "settings_of known t s = (case map_of (general_rows s) t of
     None \<Rightarrow> default_general_settings | Some x \<Rightarrow> normalize_general_settings known x)"

lemma calm_get_general_settings: "calm s \<Longrightarrow> get_general_settings known t s = (Inr (settings_of known t s), s)"
  unfolding get_general_settings_def or_default_row_def get_setting_def settings_of_def
  by (simp add: bind_def attempt_def calm_simps raise_def ret_def split: option.split)

lemma calm_read_general: "calm s \<Longrightarrow> read_general known t d f s = (Inr (f (settings_of known t s)), s)"
  by (simp add: read_general_def bind_def attempt_def calm_get_general_settings ret_def)

lemma calm_grace_days: "calm s \<Longrightarrow> grace_days w t s = (Inr (gs_grace (settings_of (w_known w) t s)), s)"
  by (simp add: grace_days_def isolir_grace_days_def calm_read_general)

abbreviation (input) grace_of :: "world \<Rightarrow> gid \<Rightarrow> db \<Rightarrow> int" where
  "grace_of w t s \<equiv> gs_grace (settings_of (w_known w) t s)"

lemma calm_overdue:
  "calm s \<Longrightarrow> list_overdue_subscriptions w t s = (Inr (map plain_row (filter (\<lambda>x. sub_tenant x = t \<and> live_status (sub_status x)
     \<and> isolating w (grace_of w t s) s x) (subscriptions s))), s)"
  by (simp add: list_overdue_subscriptions_def bind_def calm_set_tenant calm_grace_days calm_auto_query)

lemma calm_needing_resume:
  "calm s \<Longrightarrow> list_subscriptions_needing_resume w t s = (Inr (map sub_id (filter (\<lambda>x. sub_tenant x = t \<and> sub_router x \<noteq> None
     \<and> live_status (sub_status x) \<and> sub_suspended x \<noteq> None \<and> \<not> isolating w (grace_of w t s) s x) (subscriptions s))), s)"
  by (simp add: list_subscriptions_needing_resume_def bind_def calm_set_tenant calm_grace_days calm_auto_query)

section \<open>Runs of the ports\<close>

lemma calm_release:
  "calm s \<Longrightarrow> release_odp_port_by_subscription t sid s
     = (Inr (), s\<lparr>odp_ports := update_rows (\<lambda>p. port_tenant p = t \<and> port_subscription p = Some sid) unplug (odp_ports s)\<rparr>)"
proof -
  assume c: "calm s"
  have "auto (exec (update_ports q f)) s = (Inr (affected q (odp_ports s)), s\<lparr>odp_ports := update_rows q f (odp_ports s)\<rparr>)" for q f
    by (intro calm_auto [OF c] calm_exec [OF c]) (use c in \<open>simp_all add: update_ports_def calm_def\<close>)
  then show ?thesis by (simp add: release_odp_port_by_subscription_def bind_def ret_def)
qed

lemma failing_release:
  "faults s = True # fs \<Longrightarrow> \<not> aborted s \<Longrightarrow>
     release_odp_port_by_subscription t sid s = (Inl Db_error, s\<lparr>faults := fs\<rparr>)"
  by (cases s) (simp add: release_odp_port_by_subscription_def bind_def auto_def exec_def round_trip_def)

lemma calm_delete_row:
  assumes "calm s"
  shows "auto (exec (delete_subscription_row t sid)) s
    = (Inr (affected (is_subscription t sid) (subscriptions s)), snd (the (delete_subscription_row t sid s)))"
  by (intro calm_auto [OF assms] calm_exec [OF assms])
    (use assms in \<open>auto simp: delete_subscription_row_def Let_def calm_def\<close>)

section \<open>Properties\<close>

text \<open>without failures a subscription is never due for suspension and for resumption at once: each
  live subscription that is marked suspended and has a router is on exactly one of the two lists.\<close>

theorem suspended_or_resumed:
  assumes "calm s" and "distinct (map sub_id (subscriptions s))"
  shows "\<exists>overdue resume. list_overdue_subscriptions w t s = (Inr overdue, s) \<and>
    list_subscriptions_needing_resume w t s = (Inr resume, s) \<and>
    sub_id ` set overdue \<inter> set resume = {} \<and>
    (\<forall>x\<in>set (subscriptions s). sub_tenant x = t \<and> live_status (sub_status x) \<and> sub_router x \<noteq> None \<and> sub_suspended x \<noteq> None \<longrightarrow>
       (sub_id x \<in> sub_id ` set overdue) = (sub_id x \<notin> set resume))"
proof (intro exI conjI)
  let ?i = "isolating w (grace_of w t s) s"
  have same: "x = y" if "x \<in> set (subscriptions s)" "y \<in> set (subscriptions s)" "sub_id x = sub_id y" for x y
    using assms(2) that by (meson distinct_map inj_onD)
  have ids: "sub_id (plain_row x) = sub_id x" for x by (simp add: plain_row_def)
  show "sub_id ` set (map plain_row (filter (\<lambda>x. sub_tenant x = t \<and> live_status (sub_status x) \<and> ?i x) (subscriptions s)))
      \<inter> set (map sub_id (filter (\<lambda>x. sub_tenant x = t \<and> sub_router x \<noteq> None \<and> live_status (sub_status x)
         \<and> sub_suspended x \<noteq> None \<and> \<not> ?i x) (subscriptions s))) = {}"
    by (auto simp: ids dest: same)
  show "\<forall>x\<in>set (subscriptions s). sub_tenant x = t \<and> live_status (sub_status x) \<and> sub_router x \<noteq> None \<and> sub_suspended x \<noteq> None \<longrightarrow>
     (sub_id x \<in> sub_id ` set (map plain_row (filter (\<lambda>x. sub_tenant x = t \<and> live_status (sub_status x) \<and> ?i x) (subscriptions s))))
     = (sub_id x \<notin> set (map sub_id (filter (\<lambda>x. sub_tenant x = t \<and> sub_router x \<noteq> None \<and> live_status (sub_status x)
         \<and> sub_suspended x \<noteq> None \<and> \<not> ?i x) (subscriptions s))))"
    by (auto simp: ids image_iff dest: same)
qed (simp_all only: calm_overdue [OF assms(1)] calm_needing_resume [OF assms(1)])

definition sample_sub :: subscription where
  "sample_sub = \<lparr>sub_id = 40, sub_tenant = 1, sub_customer = 7, sub_plan = 9, sub_router = Some 60, sub_username = ''ana'',
     sub_password = None, sub_service = ''pppoe'', sub_status = ''active'', sub_started = Some 0, sub_expires = None,
     sub_next_bill = Some (1782900000 * second), sub_suspended = None, sub_pending = None\<rparr>"

definition sample_subs_db :: db where
  "sample_subs_db = sample_db\<lparr>plans := [sample_plan 9 ''Home 20'' 150000],
     subscriptions := [sample_sub, sample_sub\<lparr>sub_id := 41, sub_username := ''ben'', sub_status := ''suspended'', sub_suspended := Some 5\<rparr>],
     invoices := map (\<lambda>i. i\<lparr>inv_subscription := Some 40, inv_isolir := True\<rparr>) (invoices sample_db)\<rparr>"

lemma suspended_or_resumed_witness:
  "\<exists>overdue resume. list_overdue_subscriptions sample_world 1 sample_subs_db = (Inr overdue, sample_subs_db) \<and>
    list_subscriptions_needing_resume sample_world 1 sample_subs_db = (Inr resume, sample_subs_db) \<and>
    map sub_id overdue = [40] \<and> resume = [41] \<and> sub_id ` set overdue \<inter> set resume = {}"
proof -
  have "calm sample_subs_db \<and> distinct (map sub_id (subscriptions sample_subs_db))" by code_simp
  then obtain overdue resume where r: "list_overdue_subscriptions sample_world 1 sample_subs_db = (Inr overdue, sample_subs_db)"
      "list_subscriptions_needing_resume sample_world 1 sample_subs_db = (Inr resume, sample_subs_db)"
      "sub_id ` set overdue \<inter> set resume = {}"
    using suspended_or_resumed [of sample_subs_db sample_world 1] by blast
  have "case fst (list_overdue_subscriptions sample_world 1 sample_subs_db) of Inr o' \<Rightarrow> map sub_id o' = [40] | _ \<Rightarrow> False" by code_simp
  moreover have "fst (list_subscriptions_needing_resume sample_world 1 sample_subs_db) = Inr [41]" by code_simp
  ultimately show ?thesis using r by simp
qed

text \<open>\<open>DeleteSubscription\<close> ignores an error of releasing the port: the port then stays used by nobody, and
  no later release finds it.  Without the failure the port is free again.\<close>

theorem port_leaks_with_failed_release:
  assumes "calm s" and "x \<in> set (subscriptions s)" and "is_subscription t sid x"
    and "p \<in> set (odp_ports s)" and "port_subscription p = Some sid" and "port_tenant p = t"
  shows "\<exists>s'. delete_subscription t sid (s\<lparr>faults := [False, True]\<rparr>) = (Inr (), s') \<and>
      p\<lparr>port_subscription := None\<rparr> \<in> set (odp_ports s') \<and>
      (\<forall>t' sid'. keeps (\<lambda>s. p\<lparr>port_subscription := None\<rparr> \<in> set (odp_ports s)) (release_odp_port_by_subscription t' sid')) \<and>
      (\<exists>s''. delete_subscription t sid s = (Inr (), s'') \<and> unplug p \<in> set (odp_ports s''))"
proof -
  let ?row = "\<lambda>s. snd (the (delete_subscription_row t sid s))"
  have n: "affected (is_subscription t sid) (subscriptions s) \<noteq> 0" using assms(2,3) by (auto simp: affected_0)
  have fails: "delete_subscription t sid (s\<lparr>faults := [False, True]\<rparr>) = (Inr (), ?row s)"
  proof -
    have "set_tenant (s\<lparr>faults := [False, True]\<rparr>) = (Inr (), s\<lparr>faults := [True]\<rparr>)"
      using assms(1) by (simp add: set_tenant_def auto_def round_trip_def calm_def)
    moreover have "release_odp_port_by_subscription t sid (s\<lparr>faults := [True]\<rparr>) = (Inl Db_error, s)"
      using failing_release [of "s\<lparr>faults := [True]\<rparr>" "[]"] assms(1) by (simp add: calm_def)
    ultimately show ?thesis
      using n calm_delete_row [OF assms(1), of t sid] by (simp add: delete_subscription_def bind_def attempt_def ret_def)
  qed
  have lost: "p\<lparr>port_subscription := None\<rparr> \<in> set (odp_ports (?row s))"
    using assms(4,5) n by (force simp: delete_subscription_row_def Let_def lose_subscription_def image_iff)
  have stuck: "keeps (\<lambda>s. p\<lparr>port_subscription := None\<rparr> \<in> set (odp_ports s)) (release_odp_port_by_subscription t' sid')" for t' sid'
  proof -
    have st: "stable (\<lambda>s :: db. p\<lparr>port_subscription := None\<rparr> \<in> set (odp_ports s))" by (simp add: stable_def)
    show ?thesis
      unfolding release_odp_port_by_subscription_def
      by (intro keeps_intros keeps_exec st) (auto simp: update_ports_def set_update_rows intro!: bexI [of _ "p\<lparr>port_subscription := None\<rparr>"])
  qed
  let ?s = "s\<lparr>odp_ports := update_rows (\<lambda>p. port_tenant p = t \<and> port_subscription p = Some sid) unplug (odp_ports s)\<rparr>"
  have c: "calm ?s" using assms(1) by (simp add: calm_def)
  have "delete_subscription t sid s = (Inr (), ?row ?s)"
    using n calm_delete_row [OF c, of t sid]
    by (simp add: delete_subscription_def bind_def attempt_def ret_def calm_set_tenant [OF assms(1)] calm_release [OF assms(1)])
  moreover have "unplug p \<in> set (odp_ports (?row ?s))"
  proof -
    have "unplug p \<in> set (odp_ports ?s)"
      using assms(4-6) by (auto simp: set_update_rows intro!: bexI [of _ p])
    moreover have "(unplug p)\<lparr>port_subscription := lose_subscription sid (port_subscription (unplug p))\<rparr> = unplug p"
      by (simp add: unplug_def lose_subscription_def)
    ultimately show ?thesis using n unfolding delete_subscription_row_def Let_def by (simp add: image_iff) metis
  qed
  ultimately show ?thesis using fails lost stuck by blast
qed

definition sample_port :: odp_port where
  "sample_port = \<lparr>port_id = 70, port_tenant = 1, port_odp = 50, port_number = 3, port_status = ''used'', port_customer = Some 7,
     port_subscription = Some 40\<rparr>"

lemma port_leaks_with_failed_release_witness:
  "\<exists>s'. delete_subscription 1 40 (sample_subs_db\<lparr>odp_ports := [sample_port], faults := [False, True]\<rparr>) = (Inr (), s') \<and>
     sample_port\<lparr>port_subscription := None\<rparr> \<in> set (odp_ports s')"
proof -
  let ?s = "sample_subs_db\<lparr>odp_ports := [sample_port]\<rparr>"
  have "calm ?s \<and> sample_sub \<in> set (subscriptions ?s) \<and> is_subscription 1 40 sample_sub"
    by (simp add: sample_subs_db_def is_subscription_def) code_simp
  then show ?thesis
    using port_leaks_with_failed_release [of ?s sample_sub 1 40 sample_port] by (auto simp: sample_port_def)
qed

end
