(* ===== verification/Engine.thy ===== *)
theory Engine
  imports Subscriptions Money
begin

text \<open>
  The billing engine (\<open>internal/billing/engine.go\<close>, \<open>internal/billing/wallet.go\<close>): issuing the
  invoice of a subscription and moving its billing clock, the billing run over all due
  subscriptions, late fees on manual invoices, the quote and the application of a change
  of plan, and settling invoices from the customer's balance.  \<open>draw\<close> gives the random
  bytes of invoice numbers, per subscription and try.
\<close>

type_synonym dice = "gid \<Rightarrow> nat \<Rightarrow> (nat \<Rightarrow> nat) option"

section \<open>Texts on the invoice\<close>

text \<open>\<open>strconv.FormatFloat(x, 'f', -1, 64)\<close> of a number that is not negative: the fewest decimals that
  read back as \<open>x\<close>.  A float64 has at most 1074.\<close>

definition decimals_read_back :: "rat \<Rightarrow> nat \<Rightarrow> bool" where
  "decimals_read_back x k \<longleftrightarrow> fl64 (of_int (round_even (x * 10 ^ k)) / 10 ^ k) = x"

definition format_float :: "rat \<Rightarrow> string" where
  "format_float x =
     (let k = (case find (decimals_read_back x) [0..<1075] of None \<Rightarrow> 1075 | Some k \<Rightarrow> k);
          n = round_even (x * 10 ^ k)
      in format_int (n div 10 ^ k) @ (if k = 0 then [] else ''.'' @ zero_pad k (n mod 10 ^ k)))"

fun replace_first :: "char \<Rightarrow> char \<Rightarrow> string \<Rightarrow> string" where
  "replace_first a b [] = []"
| "replace_first a b (c # cs) = (if c = a then b # cs else c # replace_first a b cs)"

definition format_late_fee_percent :: "rat \<Rightarrow> string" where
  "format_late_fee_percent pct =
     (if pct = of_int (go_trunc pct) then format_int (go_trunc pct) @ ''%''
      else replace_first CHR ''.'' CHR '','' (format_float pct) @ ''%'')"

definition late_fee_text :: "rat \<Rightarrow> string" where
  "late_fee_text pct = ''Denda keterlambatan '' @ format_late_fee_percent pct"

definition one_item :: "string \<Rightarrow> int \<Rightarrow> invoice_item" where
  "one_item text amount = \<lparr>item_id = 0, item_tenant = 0, item_invoice = 0, item_desc = text, item_qty = 1,
     item_price = amount, item_amount = amount\<rparr>"

section \<open>The invoice of a subscription\<close>

definition new_invoice :: "gid \<Rightarrow> gid \<Rightarrow> gid \<Rightarrow> string \<Rightarrow> int \<Rightarrow> int \<Rightarrow> int \<Rightarrow> int \<Rightarrow> invoice" where
  "new_invoice tenant customer sid num subtotal tax amount due =
     \<lparr>inv_id = 0, inv_tenant = tenant, inv_customer = customer, inv_subscription = Some sid, inv_isolir_sub = None,
      inv_isolir = True, inv_number = num, inv_subtotal = subtotal, inv_tax = tax, inv_discount = 0, inv_total = amount,
      inv_paid = 0, inv_status = ''issued'', inv_due = due, inv_issued = None, inv_paid_at = None, inv_deleted = None,
      inv_late_fee = None\<rparr>"

text \<open>The clock after a billing: \<open>NextBillDate\<close> from the last date, or from now.\<close>

definition next_from :: "world \<Rightarrow> gtime \<Rightarrow> subscription \<Rightarrow> string \<Rightarrow> gtime" where
  "next_from w now sub cycle =
     (case sub_next_bill sub of Some t \<Rightarrow> next_bill_date (process_time w t) cycle | None \<Rightarrow> next_bill_date now cycle)"

text \<open>The days charged on the first invoice and the days of the period; (0, 0) is the full price.\<close>

definition prorate_days :: "world \<Rightarrow> int \<Rightarrow> subscription \<Rightarrow> string \<Rightarrow> int \<times> int" where
  "prorate_days w prior sub cycle =
     (case sub_started sub of
        None \<Rightarrow> (0, 0)
      | Some t \<Rightarrow>
          if prior = 0
          then (let started = process_time w t;
                    until_t = (case sub_next_bill sub of Some u \<Rightarrow> process_time w u | None \<Rightarrow> next_bill_date started cycle)
                in (first_prorate_days started until_t (days_in_billing_cycle cycle), days_in_billing_cycle cycle))
          else (0, 0))"

definition prior_invoices :: "gid \<Rightarrow> gid \<Rightarrow> db \<Rightarrow> int" where
  "prior_invoices tenant sid s =
     int (length (filter (\<lambda>i. inv_tenant i = tenant \<and> inv_subscription i = Some sid \<and> live i) (invoices s)))"

definition or_else :: "'a \<Rightarrow> (db, 'a) prog \<Rightarrow> (db, 'a) prog" where
  "or_else d m = bind (attempt m) (\<lambda>r. ret (case r of Inl _ \<Rightarrow> d | Inr x \<Rightarrow> x))"

definition invoice_lines :: "plan \<Rightarrow> subscription \<Rightarrow> int \<Rightarrow> int \<Rightarrow> int \<Rightarrow> int \<Rightarrow> discount option \<Rightarrow> int \<Rightarrow> rat \<Rightarrow> invoice_item list" where
  "invoice_lines plan sub prior days period subtotal disc late_fee pct =
     (let text = ''Langganan '' @ plan_name plan @ '' - '' @ sub_username sub
            @ (if prior = 0 \<and> 0 < days \<and> 0 < period \<and> days < period
               then '' (prorata '' @ format_int days @ ''/'' @ format_int period @ '' hari)'' else [])
            @ (if disc \<noteq> None then '' ('' @ discount_label disc @ '')'' else [])
      in one_item text subtotal # (if 0 < late_fee then [one_item (late_fee_text pct) late_fee] else []))"

text \<open>From the plan with its price and tax to the invoice and the clock.\<close>

definition issue_invoice ::
  "world \<Rightarrow> dice \<Rightarrow> gid \<Rightarrow> gtime \<Rightarrow> subscription \<Rightarrow> plan \<Rightarrow> customer \<Rightarrow> int \<Rightarrow> discount option \<Rightarrow> rat \<Rightarrow> (db, invoice option) prog" where
  "issue_invoice w draw tenant now sub plan cust price disc tax_pct =
     (let sid = sub_id sub; cycle = plan_cycle plan in
      bind (next_invoice_number w (draw sid) tenant (cust_code cust)) (\<lambda>num.
      bind (or_else 0 (auto (query (prior_invoices tenant sid)))) (\<lambda>prior.
      let (days, period) = prorate_days w prior sub cycle;
          (subtotal, tax) = calculate_invoice_amount price tax_pct days period in
      bind (late_fee_percent (w_known w) tenant) (\<lambda>fee_pct.
      let late_pct = (if 0 \<le> fee_pct then fee_pct else default_late_fee_percent) in
      bind (or_else 0 (sum_overdue_unpaid_for_subscription (w_today w) tenant sid)) (\<lambda>overdue.
      let late_fee = (if 0 < overdue then apply_late_fee overdue late_pct else 0) in
      bind (resolve_plan_due_day (w_known w) tenant (plan_id plan) (cust_cluster cust) (plan_due_day plan)) (\<lambda>due_day.
      let due = (if prior = 0 then day_of now else day_of (next_due_date now due_day));
          i = new_invoice tenant (sub_customer sub) sid num (wrap64 (subtotal + late_fee)) tax
                (wrap64 (subtotal + tax + late_fee)) due in
      bind (create_invoice (w_now w) i (invoice_lines plan sub prior days period subtotal disc late_fee late_pct)) (\<lambda>made.
      bind (set_next_bill tenant sid (if prior = 0 \<and> sub_next_bill sub \<noteq> None then the (sub_next_bill sub)
              else instant (next_from w now sub cycle))) (\<lambda>_.
      ret (Some made)))))))))"

definition generate_invoice :: "world \<Rightarrow> dice \<Rightarrow> gid \<Rightarrow> gid \<Rightarrow> (db, invoice option) prog" where
  "generate_invoice w draw tenant sid =
     bind (now_of w tenant) (\<lambda>now.
     bind (get_subscription tenant sid) (\<lambda>v. let sub = sv_row v in
     bind (get_plan tenant (sub_plan sub)) (\<lambda>plan.
     bind (get_customer tenant (sub_customer sub)) (\<lambda>cv. let cust = cv_row cv in
     bind (attempt (resolve_plan_price tenant (plan_id plan) (cust_cluster cust))) (\<lambda>base.
     if base = Inr 0
     then bind (when_do (case sub_next_bill sub of None \<Rightarrow> True | Some t \<Rightarrow> t \<le> instant now)
                 (set_next_bill tenant sid (instant (next_from w now sub (plan_cycle plan))))) (\<lambda>_. ret None)
     else
       bind (or_else (plan_price plan, None) (resolve_billed_plan_price (w_today w) tenant (plan_id plan) (cust_id cust)
               (cust_cluster cust) (Some (day_of now)))) (\<lambda>(price, disc).
       bind (or_else (plan_tax plan) (effective_tax_percent (w_known w) tenant)) (\<lambda>tax_pct.
       issue_invoice w draw tenant now sub plan cust price disc tax_pct)))))))"

section \<open>Runs over many\<close>

fun collect :: "('a \<Rightarrow> (db, 'b option) prog) \<Rightarrow> 'a list \<Rightarrow> (db, 'b list) prog" where
  "collect f [] = ret []"
| "collect f (x # xs) = bind (or_else None (f x)) (\<lambda>y. bind (collect f xs) (\<lambda>ys.
     ret (case y of None \<Rightarrow> ys | Some z \<Rightarrow> z # ys)))"

definition process_due_billing :: "world \<Rightarrow> dice \<Rightarrow> gid \<Rightarrow> (db, invoice list) prog" where
  "process_due_billing w draw tenant =
     bind (list_due_subscriptions (w_now w) tenant) (\<lambda>subs.
     collect (generate_invoice w draw tenant) (map sub_id subs))"

definition process_overdue_suspensions :: "world \<Rightarrow> gid \<Rightarrow> (db, gid list) prog" where
  "process_overdue_suspensions w tenant =
     bind (list_overdue_subscriptions w tenant) (\<lambda>subs.
     collect (\<lambda>x. bind (or_else False (is_free_subscription tenant (sub_id x))) (\<lambda>free.
       ret (if free then None else Some (sub_id x)))) subs)"

definition process_manual_late_fees :: "world \<Rightarrow> gid \<Rightarrow> (db, int) prog" where
  "process_manual_late_fees w tenant =
     bind (late_fee_percent (w_known w) tenant) (\<lambda>pct.
     if pct \<le> 0 then ret 0
     else bind (list_manual_overdue_invoices_for_late_fee (w_today w) tenant) (\<lambda>invs.
       bind (collect (\<lambda>i. let fee = apply_late_fee (wrap64 (inv_total i - inv_paid i)) pct in
           if fee \<le> 0 then ret None
           else bind (apply_invoice_late_fee (w_now w) tenant (inv_id i) fee (late_fee_text pct)) (\<lambda>_. ret (Some ()))) invs)
       (\<lambda>done. ret (int (length done)))))"

section \<open>Changing the plan\<close>

record quote =
  q_old_plan :: gid
  q_old_name :: string
  q_old_price :: int
  q_new_plan :: gid
  q_new_name :: string
  q_new_price :: int
  q_old_down :: int
  q_old_up :: int
  q_new_down :: int
  q_new_up :: int
  q_remaining :: int
  q_period :: int
  q_credit :: int
  q_charge :: int
  q_delta :: int
  q_tax :: int
  q_total :: int
  q_direction :: string
  q_next_bill :: gtime
  q_requires :: bool

text \<open>\<open>q_next_bill\<close> is printed in RFC 3339 by the program.  The end of the period: the next bill, or a
  cycle after the start, or a month from now.\<close>

definition period_end :: "world \<Rightarrow> gtime \<Rightarrow> subscription \<Rightarrow> string \<Rightarrow> gtime" where
  "period_end w now sub cycle =
     (case sub_next_bill sub of
        Some t \<Rightarrow> process_time w t
      | None \<Rightarrow> (case sub_started sub of
            Some t \<Rightarrow> next_bill_date (process_time w t) cycle
          | None \<Rightarrow> add_date now 0 1 0))"

definition make_quote :: "gtime \<Rightarrow> gtime \<Rightarrow> plan \<Rightarrow> plan \<Rightarrow> int \<Rightarrow> int \<Rightarrow> int \<Rightarrow> rat \<Rightarrow> quote" where
  "make_quote now until_t old new old_price new_price period tax_pct =
     (let remaining = remaining_days_until now until_t period;
          credit0 = prorate_amount old_price remaining period;
          charge0 = prorate_amount new_price remaining period;
          credit = (if remaining \<le> 0 then 0 else credit0);
          charge = (if remaining \<le> 0 then 0 else charge0);
          delta = (if remaining \<le> 0 then 0 else wrap64 (charge0 - credit0));
          tax = (if 0 < delta then percent_of delta tax_pct else 0)
      in \<lparr>q_old_plan = plan_id old, q_old_name = plan_name old, q_old_price = old_price, q_new_plan = plan_id new,
          q_new_name = plan_name new, q_new_price = new_price, q_old_down = plan_down old, q_old_up = plan_up old,
          q_new_down = plan_down new, q_new_up = plan_up new, q_remaining = remaining, q_period = period, q_credit = credit,
          q_charge = charge, q_delta = delta, q_tax = tax, q_total = (if 0 < delta then wrap64 (delta + tax) else 0),
          q_direction = plan_change_direction (plan_down old) (plan_up old) (plan_down new) (plan_up new),
          q_next_bill = until_t, q_requires = (0 < delta)\<rparr>)"

definition billed_price :: "world \<Rightarrow> gid \<Rightarrow> gtime \<Rightarrow> customer \<Rightarrow> plan \<Rightarrow> (db, int) prog" where
  "billed_price w tenant now cust p =
     bind (or_else (plan_price p, None) (resolve_billed_plan_price (w_today w) tenant (plan_id p) (cust_id cust)
       (cust_cluster cust) (Some (day_of now)))) (\<lambda>(price, _). ret price)"

text \<open>The tenant's tax is only asked for when there is something to charge.\<close>

definition quote_plan_change ::
  "world \<Rightarrow> gid \<Rightarrow> gid \<Rightarrow> gid \<Rightarrow> gtime \<Rightarrow> (db, quote \<times> subscription \<times> plan \<times> plan) prog" where
  "quote_plan_change w tenant sid new_plan now =
     bind (get_subscription tenant sid) (\<lambda>v. let sub = sv_row v in
     bind (get_plan tenant (sub_plan sub)) (\<lambda>old.
     bind (get_plan tenant new_plan) (\<lambda>new.
     bind (get_customer tenant (sub_customer sub)) (\<lambda>cv. let cust = cv_row cv in
     bind (billed_price w tenant now cust old) (\<lambda>old_price.
     bind (billed_price w tenant now cust new) (\<lambda>new_price.
     let cycle = (if plan_cycle old = [] then plan_cycle new else plan_cycle old);
         draft = make_quote now (period_end w now sub cycle) old new old_price new_price (days_in_billing_cycle cycle) in
     if 0 < q_delta (draft 0)
     then bind (or_else (plan_tax new) (effective_tax_percent (w_known w) tenant)) (\<lambda>tax_pct.
       ret (draft tax_pct, sub, old, new))
     else ret (draft 0, sub, old, new)))))))"

definition same_plan_refused :: err where
  "same_plan_refused = Rejected ''paket sama dengan paket saat ini''"

definition status_refused :: "string \<Rightarrow> err" where
  "status_refused st = Rejected (''Upgrade/Downgrade hanya untuk langganan active/suspended/overdue (status: '' @ st @ '')'')"

definition pending_refused :: err where
  "pending_refused = Rejected (''masih ada tagihan Upgrade yang belum lunas '' @ [CHR 0xE2, CHR 0x80, CHR 0x94]
     @ '' lunasi dulu baru ganti paket lagi'')"

definition change_text :: "quote \<Rightarrow> string" where
  "change_text q = plan_change_label (q_direction q) @ '' '' @ q_old_name q @ '' '' @ [CHR 0xE2, CHR 0x86, CHR 0x92] @ '' ''
     @ q_new_name q @ '' (selisih prorata '' @ format_int (q_remaining q) @ ''/'' @ format_int (q_period q) @ '' hari)''"

text \<open>The invoice of the difference, which both branches of \<open>ApplyPlanChange\<close> write out.\<close>

definition charge_change :: "world \<Rightarrow> dice \<Rightarrow> gid \<Rightarrow> gtime \<Rightarrow> subscription \<Rightarrow> plan \<Rightarrow> quote \<Rightarrow> (db, invoice) prog" where
  "charge_change w draw tenant now sub new q =
     bind (attempt (get_customer tenant (sub_customer sub))) (\<lambda>r1.
     let code = (case r1 of Inl _ \<Rightarrow> [] | Inr cv \<Rightarrow> cust_code (cv_row cv)) in
     bind (next_invoice_number w (draw (sub_id sub)) tenant code) (\<lambda>num.
     bind (invoice_due_day (w_known w) tenant) (\<lambda>day0.
     bind (attempt (get_customer tenant (sub_customer sub))) (\<lambda>r2.
     bind (case r2 of Inl _ \<Rightarrow> ret day0
           | Inr cv \<Rightarrow> resolve_plan_due_day (w_known w) tenant (plan_id new) (cust_cluster (cv_row cv)) (plan_due_day new)) (\<lambda>due_day.
     create_invoice (w_now w)
       (new_invoice tenant (sub_customer sub) (sub_id sub) num (q_delta q) (q_tax q) (q_total q) (day_of (next_due_date now due_day)))
       [one_item (change_text q) (q_delta q)])))))"

definition blocked_by_pending :: "gid \<Rightarrow> gid \<Rightarrow> (db, bool) prog" where
  "blocked_by_pending tenant sid =
     bind (attempt (get_subscription_pending_plan tenant sid)) (\<lambda>r.
     case r of
       Inr (Some p) \<Rightarrow>
         bind (or_else False (pending_plan_invoice_paid tenant (Some p))) (\<lambda>paid.
         if \<not> paid then ret True
         else bind (attempt (clear_subscription_pending_plan tenant sid)) (\<lambda>_. ret False))
     | _ \<Rightarrow> ret False)"

definition apply_plan_change :: "world \<Rightarrow> dice \<Rightarrow> gid \<Rightarrow> gid \<Rightarrow> gid \<Rightarrow> (db, quote \<times> invoice option) prog" where
  "apply_plan_change w draw tenant sid new_plan =
     bind (now_of w tenant) (\<lambda>now.
     bind (quote_plan_change w tenant sid new_plan now) (\<lambda>(q, sub, _, new).
     if sub_plan sub = new_plan then raise same_plan_refused
     else if \<not> live_status (sub_status sub) then raise (status_refused (sub_status sub))
     else
       bind (blocked_by_pending tenant sid) (\<lambda>blocked.
       if blocked then raise pending_refused
       else
         let svc = (if plan_service new = [] then sub_service sub else plan_service new);
             charged = (q_requires q \<and> 0 < q_delta q) in
         if q_direction q = ''upgrade'' \<and> charged
         then
           bind (charge_change w draw tenant now sub new q) (\<lambda>i.
           bind (attempt (set_subscription_pending_plan (w_now w) tenant sid
             \<lparr>pend_old = sub_plan sub, pend_new = new_plan, pend_invoice = inv_id i, pend_direction = q_direction q,
              pend_service = svc, pend_created = instant zero_time\<rparr>)) (\<lambda>_.
           ret (q, Some i)))
         else
           bind (update_subscription tenant (sub\<lparr>sub_plan := new_plan, sub_service := svc\<rparr>) False) (\<lambda>_.
           if charged then bind (charge_change w draw tenant now sub new q) (\<lambda>i. ret (q, Some i))
           else ret (q, None)))))"

section \<open>Settling from the balance\<close>

record auto_pay =
  ap_enabled :: bool
  ap_paid :: bool
  ap_balance :: int
  ap_invoice :: "(invoice \<times> invoice_item list) option"
  ap_customer :: "customer_view option"
  ap_payment :: "payment option"

definition no_auto_pay :: auto_pay where
  "no_auto_pay = \<lparr>ap_enabled = False, ap_paid = False, ap_balance = 0, ap_invoice = None, ap_customer = None, ap_payment = None\<rparr>"

definition try_auto_pay_invoice :: "world \<Rightarrow> gid \<Rightarrow> gid \<Rightarrow> (db, auto_pay) prog" where
  "try_auto_pay_invoice w tenant iid =
     bind (wallet_enabled (w_known w) tenant) (\<lambda>on.
     if \<not> on then ret no_auto_pay
     else
       bind (get_invoice tenant iid) (\<lambda>(i, items).
       bind (or_else None (bind (get_customer tenant (inv_customer i)) (\<lambda>c. ret (Some c)))) (\<lambda>cust.
       let res = no_auto_pay\<lparr>ap_enabled := True, ap_invoice := Some (i, items), ap_customer := cust\<rparr>;
           balance = or_else 0 (get_wallet tenant (inv_customer i)) in
       if inv_subscription i = None \<or> inv_subscription i = Some nil_id
       then bind balance (\<lambda>b. ret (res\<lparr>ap_balance := b\<rparr>))
       else
         bind (pay_invoice_from_wallet (w_now w) (w_today w) tenant (inv_customer i) iid) (\<lambda>p.
         bind balance (\<lambda>b. ret (res\<lparr>ap_paid := (p \<noteq> None), ap_payment := p, ap_balance := b\<rparr>))))))"

fun settle_in_order :: "world \<Rightarrow> gid \<Rightarrow> gid list \<Rightarrow> (db, auto_pay list) prog" where
  "settle_in_order w tenant [] = ret []"
| "settle_in_order w tenant (i # is) =
     bind (try_auto_pay_invoice w tenant i) (\<lambda>r.
     if \<not> ap_paid r then ret [] else bind (settle_in_order w tenant is) (\<lambda>rs. ret (r # rs)))"

text \<open>The results found so far, which \<open>AutoSettleCustomer\<close> also returns with an error, are dropped
  with it here.\<close>

definition auto_settle_customer :: "world \<Rightarrow> gid \<Rightarrow> gid \<Rightarrow> (db, auto_pay list) prog" where
  "auto_settle_customer w tenant customer =
     bind (wallet_enabled (w_known w) tenant) (\<lambda>on.
     if \<not> on then ret []
     else bind (outstanding_subscription_invoice_ids tenant customer) (settle_in_order w tenant))"

end
