(* ===== verification/Billing_Clock.thy ===== *)
theory Billing_Clock
  imports Engine
begin

text \<open>
  The billing clock of a subscription moves forward: reading an instant in a zone loses
  nothing, and each billing moves \<open>next_bill_at\<close> by at least a day, so that a subscription
  that fell behind catches up.
\<close>

section \<open>Days and dates\<close>

lemma days_before_month_cover:
  assumes "0 \<le> r" and "r < (if l then 366 else 365)"
  shows "1 \<le> month_of_yday l r \<and> month_of_yday l r \<le> 12
    \<and> days_before_month l (month_of_yday l r) \<le> r \<and> r < days_before_month l (month_of_yday l r + 1)"
  using assms by (cases l) (auto simp: month_of_yday_def days_before_month_def)

lemma date_of_day_valid:
  assumes "date_of_day n = (y, m, d)"
  shows "valid_date y m d" "day_number y m d = n"
proof -
  let ?l = "leap_year (year_of_day n)" and ?r = "n + epoch_offset - days_before_year (year_of_day n)"
  have y: "y = year_of_day n" "m = month_of_yday ?l ?r" "d = ?r - days_before_month ?l m + 1"
    using assms by (auto simp: date_of_day_def Let_def)
  have "0 \<le> ?r" "?r < (if ?l then 366 else 365)"
    using year_of_day_bounds [of n] by (auto simp: days_before_year_step)
  note b = days_before_month_cover [OF this, folded y(2)]
  then show "valid_date y m d" using y(1,3) by (simp add: valid_date_def month_days_def)
  show "day_number y m d = n" using y(1,3) by (simp add: day_number_def)
qed

lemma at_zone_valid: "valid_time (at_zone z i)" "instant (at_zone z i) = i" "t_zone (at_zone z i) = z"
proof -
  let ?u = "i + z * second"
  obtain y m d where e: "date_of_day (?u div day_ns) = (y, m, d)" by (metis prod_cases3)
  have a: "at_zone z i = \<lparr>t_year = y, t_month = m, t_day = d, t_nanos = ?u mod day_ns, t_zone = z\<rparr>"
    using e by (simp add: at_zone_def Let_def)
  note v = date_of_day_valid [OF e]
  show "valid_time (at_zone z i)" using v(1) by (simp add: a valid_time_def)
  show "instant (at_zone z i) = i" using v(2) by (simp add: a instant_def day_of_def)
  show "t_zone (at_zone z i) = z" by (simp add: a)
qed

lemma instant_go_date:
  "instant (go_date y m d ns z)
     = (day_number (y + (m - 1) div 12) ((m - 1) mod 12 + 1) 1 + (d - 1)) * day_ns + ns - z * second"
proof -
  let ?n = "day_number (y + (m - 1) div 12) ((m - 1) mod 12 + 1) 1 + (d - 1) + ns div day_ns"
  obtain yy mm dd where e: "date_of_day ?n = (yy, mm, dd)" by (metis prod_cases3)
  have "instant (go_date y m d ns z) = day_number yy mm dd * day_ns + ns mod day_ns - z * second"
    using e by (simp add: go_date_def Let_def instant_def day_of_def)
  then show ?thesis using date_of_day_valid(2) [OF e] by (simp add: algebra_simps)
qed

lemma instant_add_days: "valid_time t \<Longrightarrow> instant (add_date t 0 0 k) = instant t + k * day_ns"
proof -
  assume v: "valid_time t"
  then have "1 \<le> t_month t" "t_month t \<le> 12" by (simp_all add: valid_time_def valid_date_def)
  then have "(t_month t - 1) div 12 = 0" "(t_month t - 1) mod 12 = t_month t - 1" by (simp_all add: div_pos_pos_trivial)
  note e = this
  have "add_date t 0 0 k = go_date (t_year t) (t_month t) (t_day t + k) (t_nanos t) (t_zone t)" by (simp add: add_date_def)
  then show ?thesis
    unfolding instant_go_date e by (simp add: instant_go_date e instant_def [of t] day_of_def day_number_def algebra_simps)
qed

lemma month_cases: "1 \<le> (m :: int) \<Longrightarrow> m \<le> 12 \<Longrightarrow>
    m = 1 \<or> m = 2 \<or> m = 3 \<or> m = 4 \<or> m = 5 \<or> m = 6 \<or> m = 7 \<or> m = 8 \<or> m = 9 \<or> m = 10 \<or> m = 11 \<or> m = 12"
  by presburger

lemma instant_add_month:
  assumes "valid_time t"
  shows "instant (add_date t 0 1 0) = instant t + month_days (leap_year (t_year t)) (t_month t) * day_ns"
proof -
  have m: "1 \<le> t_month t" "t_month t \<le> 12" using assms by (simp_all add: valid_time_def valid_date_def)
  then have e: "t_month t div 12 = (if t_month t = 12 then 1 else 0)" "t_month t mod 12 = (if t_month t = 12 then 0 else t_month t)"
    by (simp_all add: div_pos_pos_trivial)
  have "instant (add_date t 0 1 0)
      = (day_number (if t_month t = 12 then t_year t + 1 else t_year t) (if t_month t = 12 then 1 else t_month t + 1) 1 + (t_day t - 1)) * day_ns
        + t_nanos t - t_zone t * second"
    by (simp add: add_date_def instant_go_date e)
  also have "\<dots> = instant t + month_days (leap_year (t_year t)) (t_month t) * day_ns"
    unfolding day_number_next_month [OF m] instant_def day_of_def by (simp add: day_number_def algebra_simps)
  finally show ?thesis .
qed

lemma instant_add_year:
  assumes "valid_time t"
  shows "instant t + 365 * day_ns \<le> instant (add_date t 1 0 0) \<and> instant (add_date t 1 0 0) \<le> instant t + 366 * day_ns"
proof -
  have m: "1 \<le> t_month t" "t_month t \<le> 12" using assms by (simp_all add: valid_time_def valid_date_def)
  then have e: "(t_month t - 1) div 12 = 0" "(t_month t - 1) mod 12 = t_month t - 1" by (simp_all add: div_pos_pos_trivial)
  let ?a = "leap_year (t_year t)" and ?b = "leap_year (t_year t + 1)"
  define delta where "delta = (if ?a then 366 else 365) + days_before_month ?b (t_month t) - days_before_month ?a (t_month t)"
  have "instant (add_date t 1 0 0) = instant t + delta * day_ns"
    using days_before_year_step [of "t_year t"]
    by (simp add: add_date_def instant_go_date e instant_def [of t] day_of_def day_number_def delta_def algebra_simps)
  moreover have "\<not> (?a \<and> ?b)"
  proof
    assume h: "?a \<and> ?b"
    then have "4 dvd t_year t" "4 dvd t_year t + 1" by (auto simp: leap_year_def)
    then have "4 dvd (1 :: int)" by (simp only: dvd_add_right_iff)
    then show False by simp
  qed
  then have "365 \<le> delta \<and> delta \<le> 366"
    using month_cases [OF m] unfolding delta_def by (elim disjE) (auto simp: days_before_month_def)
  ultimately show ?thesis by auto
qed

section \<open>The clock\<close>

lemma next_bill_date_step:
  assumes "valid_time t"
  shows "instant t + day_ns \<le> instant (next_bill_date t cycle) \<and> instant (next_bill_date t cycle) \<le> instant t + 366 * day_ns"
proof -
  have m: "1 \<le> t_month t" "t_month t \<le> 12" using assms by (simp_all add: valid_time_def valid_date_def)
  show ?thesis
    using instant_add_days [OF assms, of 1] instant_add_days [OF assms, of 7] instant_add_month [OF assms]
      instant_add_year [OF assms] month_days_28 [OF m, of "leap_year (t_year t)"]
    by (auto simp: next_bill_date_def)
qed

text \<open>The next date \<open>GenerateInvoiceForSubscription\<close> stores for the stored date \<open>u\<close>.\<close>

definition clock_step :: "world \<Rightarrow> string \<Rightarrow> int \<Rightarrow> int" where
  "clock_step w cycle u = instant (next_bill_date (process_time w u) cycle)"

lemma clock_step_bounds: "u + day_ns \<le> clock_step w cycle u \<and> clock_step w cycle u \<le> u + 366 * day_ns"
  using next_bill_date_step [OF at_zone_valid(1)] unfolding clock_step_def process_time_def by (metis at_zone_valid(2))

lemma clock_steps: "u + int n * day_ns \<le> (clock_step w cycle ^^ n) u"
proof (induction n)
  case (Suc n)
  then show ?case using clock_step_bounds [of "(clock_step w cycle ^^ n) u" w cycle] by (simp add: algebra_simps)
qed simp



end
