(* ===== verification/Billing_Runs.thy ===== *)
theory Billing_Runs
  imports Engine
begin

text \<open>
  What the billing engine promises.  An assertion that invoice and wallet calls keep, and that
  does not look at subscriptions, is kept by every run of the engine (the locale
  \<open>billing_frame\<close>); the outcome of \<open>GenerateInvoiceForSubscription\<close> under any failures; the
  arithmetic of a change of plan; the late fee, which an invoice gets once; the order in which
  open invoices are settled from the balance.
\<close>

section \<open>Programs that only read\<close>

definition reads :: "(db, 'a) prog \<Rightarrow> bool" where
  "reads m \<longleftrightarrow> (\<forall>s. same_tables s (snd (m s)))"

lemma readsI: "(\<And>P. stable P \<Longrightarrow> keeps P m) \<Longrightarrow> reads m"
  unfolding reads_def using stable_same_tables same_tables_refl by (metis keeps_def)

lemma keeps_reads: "reads m \<Longrightarrow> stable P \<Longrightarrow> keeps P m"
  unfolding reads_def keeps_def by (metis same_tables_eq stableD)

lemma keeps_plan_reads [keeps_intros]:
  assumes "stable P"
  shows "keeps P (get_plan t pid)" "keeps P (get_customer t c)" "keeps P (resolve_plan_price t pid cl)"
    "keeps P (resolve_billed_plan_price today t pid c cl day)" "keeps P (resolve_plan_due_day known t pid cl d)"
proof -
  note off = keeps_get_offer [OF assms] keeps_find_best [OF assms]
  show p: "keeps P (get_plan t pid)" unfolding get_plan_def by (intro keeps_intros assms)
  show "keeps P (get_customer t c)" unfolding get_customer_def find_customer_def
    by (intro keeps_intros assms; auto intro!: keeps_intros assms split: list.split)
  have b: "keeps P (resolve_plan_price t pid cl)" for cl
    unfolding resolve_plan_price_def get_plan_offer_by_plan_cluster_def by (intro keeps_intros p off assms)
  then show "keeps P (resolve_plan_price t pid cl)" .
  show "keeps P (resolve_billed_plan_price today t pid c cl day)"
    unfolding resolve_billed_plan_price_def Let_def by (intro keeps_intros b off)
  show "keeps P (resolve_plan_due_day known t pid cl d)"
    unfolding resolve_plan_due_day_def get_plan_offer_by_plan_cluster_def Let_def by (intro keeps_intros off assms)
qed

lemma keeps_or_else [keeps_intros]: "keeps P m \<Longrightarrow> keeps P (or_else d m)"
  unfolding or_else_def by (intro keeps_intros)

lemma keeps_collect [keeps_intros]: "(\<And>x. x \<in> set xs \<Longrightarrow> keeps P (f x)) \<Longrightarrow> keeps P (collect f xs)"
  by (induction xs) (auto intro!: keeps_intros)

lemma keeps_overdue_sum [keeps_intros]: "stable P \<Longrightarrow> keeps P (sum_overdue_unpaid_for_subscription today t sid)"
  unfolding sum_overdue_unpaid_for_subscription_def by (intro keeps_intros)

lemma keeps_let [keeps_intros]: "keeps P (f x) \<Longrightarrow> keeps P (Let x f)"
  by simp

lemma keeps_pending_reads [keeps_intros]:
  assumes "stable P"
  shows "keeps P (pending_plan_invoice_paid t p)" "keeps P (list_manual_overdue_invoices_for_late_fee today t)"
    "keeps P (get_wallet t c)" "keeps P (outstanding_subscription_invoice_ids t c)" "keeps P (billed_price w t now cust pl)"
  unfolding pending_plan_invoice_paid_def list_manual_overdue_invoices_for_late_fee_def get_wallet_def
    outstanding_subscription_invoice_ids_def outstanding_ids_def billed_price_def
  by (intro keeps_intros assms)+

lemma keeps_quote [keeps_intros]: "stable P \<Longrightarrow> keeps P (quote_plan_change w t sid new now)"
  unfolding quote_plan_change_def by (intro keeps_intros)


section \<open>What survives every run\<close>

text \<open>An assertion that does not look at subscriptions survives every change to them.\<close>

locale subs_frame =
  fixes P :: "db \<Rightarrow> bool"
  assumes st: "stable P"
    and subs: "P (s\<lparr>subscriptions := xs\<rparr>) = P s"
begin

lemma keeps_update_subs: "keeps P (exec (update_subs q f))"
  by (rule keeps_exec [OF st]) (auto simp: update_subs_def subs)

lemma keeps_set_next_bill: "keeps P (set_next_bill t sid n)"
  unfolding set_next_bill_def by (intro keeps_intros keeps_update_subs st)

lemma keeps_pending_writes: "keeps P (set_subscription_pending_plan now t sid p)" "keeps P (clear_subscription_pending_plan t sid)"
  unfolding set_subscription_pending_plan_def clear_subscription_pending_plan_def
  by (intro keeps_intros keeps_update_subs st)+

lemma keeps_update_subscription: "keeps P (update_subscription t x pw)"
  unfolding update_subscription_def
  by (intro keeps_intros st keeps_exec) (auto simp: update_subs_def subs Let_def split: if_splits)

lemma keeps_status: "keeps P (update_subscription_status now t sid status)" "keeps P (clear_subscription_suspended_at t sid)"
  unfolding update_subscription_status_def clear_subscription_suspended_at_def by (intro keeps_intros st keeps_update_subs)+

end

text \<open>The contract of an assertion the engine cannot break: besides, creating an invoice, adding a late
  fee and paying from a wallet keep it.\<close>

locale billing_frame = subs_frame +
  assumes create: "keeps P (create_invoice now i items)"
    and late: "keeps P (apply_invoice_late_fee now t iid amount desc)"
    and pay: "keeps P (pay_invoice_from_wallet now today t c iid)"
begin

lemma keeps_issue: "keeps P (issue_invoice w draw t now sub plan cust price disc tax)"
  unfolding issue_invoice_def by (intro keeps_intros st create keeps_set_next_bill)

lemma keeps_generate: "keeps P (generate_invoice w draw t sid)"
  unfolding generate_invoice_def by (intro keeps_intros st keeps_issue keeps_set_next_bill)

lemma keeps_due_billing: "keeps P (process_due_billing w draw t)"
  unfolding process_due_billing_def by (intro keeps_intros st keeps_generate)

lemma keeps_manual_fees: "keeps P (process_manual_late_fees w t)"
  unfolding process_manual_late_fees_def by (intro keeps_intros st late)

lemma keeps_charge: "keeps P (charge_change w draw t now sub new q)"
  unfolding charge_change_def by (intro keeps_intros st create)

lemma keeps_blocked: "keeps P (blocked_by_pending t sid)"
  unfolding blocked_by_pending_def by (intro keeps_intros st keeps_pending_writes)

lemma keeps_change: "keeps P (apply_plan_change w draw t sid new)"
  unfolding apply_plan_change_def
  by (intro keeps_intros st keeps_blocked keeps_charge keeps_pending_writes keeps_update_subscription)

lemma keeps_try_pay: "keeps P (try_auto_pay_invoice w t iid)"
  unfolding try_auto_pay_invoice_def by (intro keeps_intros st pay)

lemma keeps_settle: "keeps P (settle_in_order w t is)"
  by (induction "is") (auto intro!: keeps_intros keeps_try_pay)

lemma keeps_auto_settle: "keeps P (auto_settle_customer w t c)"
  unfolding auto_settle_customer_def by (intro keeps_intros st keeps_settle)

lemmas engine_keeps = keeps_generate keeps_due_billing keeps_manual_fees keeps_change keeps_auto_settle

end


lemma keeps_money_step: "(\<And>s. money_step s (snd (m s))) \<Longrightarrow> keeps money_ok m"
  unfolding keeps_def using money_step_ok by blast

lemma money_ok_parts: "money_ok = (\<lambda>s. paid_ok s \<and> (wallets_ok s \<and> funded s) \<and> books_ok s)"
  by (simp add: fun_eq_iff money_ok_def solvent_def)

lemma stable_money_ok: "stable money_ok"
  unfolding money_ok_parts
  by (intro stable_conj stable_paid_ok stable_wallets_ok stable_funded off_payments_stable [OF books_off_wallets(2)])

interpretation money: billing_frame money_ok
proof unfold_locales
  show "stable money_ok" by (rule stable_money_ok)
  show "money_ok (s\<lparr>subscriptions := xs\<rparr>) = money_ok s" for s xs
    by (simp add: money_ok_def paid_ok_def keys_ok_def solvent_def wallets_ok_def wallets_off_def funded_def
        books_ok_def books_off_def own_account_def has_entry_def)
qed (intro keeps_money_step money_step.invoicing ledger_step.step_create ledger_step.step_late_fee paid_from)+

section \<open>The system with its engine\<close>

inductive system_step :: "db \<Rightarrow> db \<Rightarrow> bool" where
  moved_money: "money_step s s' \<Longrightarrow> system_step s s'"
| subscriptions_change: "system_step s (s\<lparr>subscriptions := xs\<rparr>)"
| billed: "system_step s (snd (generate_invoice w draw t sid s))"
| billed_due: "system_step s (snd (process_due_billing w draw t s))"
| late_fees_added: "system_step s (snd (process_manual_late_fees w t s))"
| plan_changed: "system_step s (snd (apply_plan_change w draw t sid new s))"
| settled: "system_step s (snd (auto_settle_customer w t c s))"

inductive_cases system_stepE: "system_step s s'"

lemma system_step_ok: "system_step s s' \<Longrightarrow> money_ok s \<Longrightarrow> money_ok s'"
  by (induction rule: system_step.induct) (auto simp: money.subs intro: money_step_ok keepsD [OF _] money.engine_keeps)

lemma system_reachable: "system_step\<^sup>*\<^sup>* empty_db s \<Longrightarrow> money_ok s"
  by (induction rule: rtranclp_induct) (auto intro: money_ok_empty system_step_ok)


section \<open>Outcomes\<close>

text \<open>\<open>outcome s Q m\<close>: run on the tables of \<open>s\<close>, whatever fails, \<open>m\<close> leaves them alone when it returns
  an error and ends as \<open>Q\<close> says when it does not.\<close>

definition outcome :: "db \<Rightarrow> ('a \<Rightarrow> db \<Rightarrow> bool) \<Rightarrow> (db, 'a) prog \<Rightarrow> bool" where
  "outcome s Q m \<longleftrightarrow> (\<forall>s1 r s'. same_tables s s1 \<longrightarrow> m s1 = (r, s') \<longrightarrow> (case r of Inl e \<Rightarrow> same_tables s s' | Inr x \<Rightarrow> Q x s'))"

lemma same_tables_trans: "same_tables a b \<Longrightarrow> same_tables b c \<Longrightarrow> same_tables a c"
  by (simp add: same_tables_def)

lemma outcomeD: "outcome s Q m \<Longrightarrow> m s = (r, s') \<Longrightarrow> (case r of Inl e \<Rightarrow> same_tables s s' | Inr x \<Rightarrow> Q x s')"
  unfolding outcome_def using same_tables_refl by blast

lemma outcome_ret: "(\<And>s1. same_tables s s1 \<Longrightarrow> Q x s1) \<Longrightarrow> outcome s Q (ret x)"
  by (auto simp: outcome_def ret_def)

lemma outcome_raise: "outcome s Q (raise e)"
  by (auto simp: outcome_def raise_def)

lemma outcome_read:
  assumes m: "reads m"
    and R: "\<And>s1 x s2. same_tables s s1 \<Longrightarrow> m s1 = (Inr x, s2) \<Longrightarrow> R x"
    and f: "\<And>x. R x \<Longrightarrow> outcome s Q (f x)"
  shows "outcome s Q (bind m f)"
  unfolding outcome_def
proof (intro allI impI)
  fix s1 r s' assume s1: "same_tables s s1" and b: "bind m f s1 = (r, s')"
  obtain y s2 where y: "m s1 = (y, s2)" by fastforce
  then have s2: "same_tables s s2" using m same_tables_trans [OF s1] unfolding reads_def by (metis snd_conv)
  show "case r of Inl e \<Rightarrow> same_tables s s' | Inr x \<Rightarrow> Q x s'"
  proof (cases y)
    case (Inl e)
    then show ?thesis using b y s2 by (auto simp: bind_def)
  next
    case (Inr x)
    then have "f x s2 = (r, s')" using b y by (simp add: bind_def)
    then show ?thesis using f [OF R [OF s1]] y Inr s2 unfolding outcome_def by blast
  qed
qed

lemma outcome_reads: "reads m \<Longrightarrow> (\<And>x. outcome s Q (f x)) \<Longrightarrow> outcome s Q (bind m f)"
  by (rule outcome_read [where R = "\<lambda>_. True"]) auto

text \<open>After a statement that changed the tables only steps follow that cannot fail.\<close>

lemma outcome_then:
  assumes "outcome s R m" and "\<And>x s1. R x s1 \<Longrightarrow> \<exists>y s2. f x s1 = (Inr y, s2) \<and> Q y s2"
  shows "outcome s Q (bind m f)"
  unfolding outcome_def
proof (intro allI impI)
  fix s1 r s' assume s1: "same_tables s s1" and b: "bind m f s1 = (r, s')"
  obtain y s2 where y: "m s1 = (y, s2)" by fastforce
  then have "case y of Inl e \<Rightarrow> same_tables s s2 | Inr x \<Rightarrow> R x s2"
    using assms(1) s1 unfolding outcome_def by blast
  then show "case r of Inl e \<Rightarrow> same_tables s s' | Inr x \<Rightarrow> Q x s'"
    using b y assms(2) by (cases y) (fastforce simp: bind_def)+
qed

section \<open>The invoice that is created\<close>

definition row_of :: "gid \<Rightarrow> int \<Rightarrow> invoice \<Rightarrow> invoice" where
  "row_of iid now i = i\<lparr>inv_id := iid, inv_paid := 0, inv_issued := Some now, inv_paid_at := None, inv_deleted := None,
     inv_late_fee := None\<rparr>"

definition fresh_items :: "gid \<Rightarrow> gid \<Rightarrow> invoice_item list \<Rightarrow> invoice_item list \<Rightarrow> bool" where
  "fresh_items t iid items new \<longleftrightarrow> list_all2 (\<lambda>it it'. \<exists>k. it' = it\<lparr>item_id := k, item_tenant := t, item_invoice := iid\<rparr>) items new"

text \<open>The tables after \<open>CreateInvoice\<close>: the row, its items and nothing else.\<close>

definition created :: "int \<Rightarrow> invoice \<Rightarrow> invoice_item list \<Rightarrow> db \<Rightarrow> invoice \<Rightarrow> db \<Rightarrow> bool" where
  "created now i items s made s' \<longleftrightarrow>
     made = i\<lparr>inv_id := next_id s, inv_issued := Some now\<rparr> \<and>
     \<not> number_used (inv_tenant i) s (inv_number i) \<and>
     (\<exists>n new. fresh_items (inv_tenant i) (next_id s) items new \<and> next_id s < n \<and>
        same_tables (s\<lparr>next_id := n, invoices := invoices s @ [row_of (next_id s) now i], invoice_items := invoice_items s @ new\<rparr>) s')"

lemma same_tables_rows:
  "same_tables s s' \<Longrightarrow> same_tables (s\<lparr>next_id := n, invoices := f (invoices s), invoice_items := g (invoice_items s)\<rparr>)
     (s'\<lparr>next_id := n, invoices := f (invoices s'), invoice_items := g (invoice_items s')\<rparr>)"
  by (cases s; cases s') (simp add: same_tables_def)

lemma insert_items_gives:
  "gives (\<lambda>s1. same_tables s s1) (for_each items (\<lambda>it. exec (insert_item t iid it)))
     (\<lambda>_ s1. \<exists>n new. next_id s \<le> n \<and> fresh_items t iid items new \<and> same_tables (s\<lparr>next_id := n, invoice_items := invoice_items s @ new\<rparr>) s1)"
proof (induction items arbitrary: s)
  case Nil
  have "same_tables (s\<lparr>next_id := next_id s, invoice_items := invoice_items s @ []\<rparr>) s1" if "same_tables s s1" for s1 using that by simp
  then show ?case by (fastforce simp: fresh_items_def intro!: gives_ret)
next
  case (Cons it items)
  let ?it = "it\<lparr>item_id := next_id s, item_tenant := t, item_invoice := iid\<rparr>"
  let ?s = "s\<lparr>next_id := Suc (next_id s), invoice_items := invoice_items s @ [?it]\<rparr>"
  have one: "gives (same_tables s) (exec (insert_item t iid it)) (\<lambda>_. same_tables ?s)"
  proof (rule gives_exec [OF stable_same_tables])
    fix s1 x s' assume a: "same_tables s s1" and i: "insert_item t iid it s1 = Some (x, s')"
    show "same_tables ?s s'"
      using i same_tables_rows [OF a, where n = "Suc (next_id s)" and f = "\<lambda>x. x" and g = "\<lambda>xs. xs @ [?it]"] same_tables_D(5) [OF a]
      by (auto simp: insert_item_def split: if_splits)
  qed
  have more: "\<exists>n new. next_id s \<le> n \<and> fresh_items t iid (it # items) new \<and> same_tables (s\<lparr>next_id := n, invoice_items := invoice_items s @ new\<rparr>) s1"
    if h: "\<exists>n new. next_id ?s \<le> n \<and> fresh_items t iid items new \<and> same_tables (?s\<lparr>next_id := n, invoice_items := invoice_items ?s @ new\<rparr>) s1" for s1
  proof -
    obtain n new where n: "next_id ?s \<le> n" "fresh_items t iid items new"
      "same_tables (?s\<lparr>next_id := n, invoice_items := invoice_items ?s @ new\<rparr>) s1" using h by blast
    then have "fresh_items t iid (it # items) (?it # new)" by (auto simp: fresh_items_def)
    moreover have "same_tables (s\<lparr>next_id := n, invoice_items := invoice_items s @ (?it # new)\<rparr>) s1" using n(3) by simp
    moreover have "next_id s \<le> n" using n(1) by simp
    ultimately show ?thesis by blast
  qed
  have rest: "gives (same_tables ?s) (for_each items (\<lambda>it. exec (insert_item t iid it)))
     (\<lambda>_ s1. \<exists>n new. next_id s \<le> n \<and> fresh_items t iid (it # items) new \<and> same_tables (s\<lparr>next_id := n, invoice_items := invoice_items s @ new\<rparr>) s1)"
    by (rule gives_mono [OF Cons.IH], assumption, rule more)
  show ?case unfolding for_each.simps by (rule gives_bind [OF one]) (rule rest)
qed


lemma same_tables_reset: "same_tables s s1 \<Longrightarrow> same_tables (s\<lparr>faults := fs, aborted := a\<rparr>) s1 \<and> same_tables s (s1\<lparr>faults := fs, aborted := a\<rparr>)"
  by (simp add: same_tables_def)

lemma create_invoice_outcome: "outcome s (created now i items s) (create_invoice now i items)"
proof -
  let ?row = "row_of (next_id s) now i"
  let ?s1 = "s\<lparr>next_id := Suc (next_id s), invoices := invoices s @ [?row]\<rparr>"
  let ?N = "\<not> number_used (inv_tenant i) s (inv_number i)"
  let ?body = "bind (exec (insert_invoice now i)) (\<lambda>iid. bind (for_each items (\<lambda>it. exec (insert_item (inv_tenant i) iid it))) (\<lambda>_.
         ret (i\<lparr>inv_id := iid, inv_issued := Some now\<rparr>)))"
  have first: "gives (same_tables s) (exec (insert_invoice now i)) (\<lambda>iid s'. iid = next_id s \<and> ?N \<and> same_tables ?s1 s')"
  proof (rule gives_exec [OF stable_same_tables])
    fix s2 x s' assume a: "same_tables s s2" and ins: "insert_invoice now i s2 = Some (x, s')"
    show "x = next_id s \<and> ?N \<and> same_tables ?s1 s'"
      using ins same_tables_rows [OF a, where n = "Suc (next_id s)" and f = "\<lambda>xs. xs @ [?row]" and g = "\<lambda>x. x"]
        same_tables_D(3,5) [OF a]
      by (auto simp: insert_invoice_def row_of_def number_used_def Let_def split: if_splits)
  qed
  have body: "gives (same_tables s) ?body (created now i items s)"
  proof (rule gives_bind [OF first])
    fix iid
    show "gives (\<lambda>s'. iid = next_id s \<and> ?N \<and> same_tables ?s1 s') (bind (for_each items (\<lambda>it. exec (insert_item (inv_tenant i) iid it))) (\<lambda>_.
         ret (i\<lparr>inv_id := iid, inv_issued := Some now\<rparr>))) (created now i items s)"
    proof (cases "iid = next_id s \<and> ?N")
      case True
      have "gives (same_tables ?s1) (bind (for_each items (\<lambda>it. exec (insert_item (inv_tenant i) iid it))) (\<lambda>_.
         ret (i\<lparr>inv_id := iid, inv_issued := Some now\<rparr>))) (created now i items s)"
      proof (rule gives_bind [OF insert_items_gives], rule gives_ret)
        fix s2 assume "\<exists>n new. next_id ?s1 \<le> n \<and> fresh_items (inv_tenant i) iid items new
          \<and> same_tables (?s1\<lparr>next_id := n, invoice_items := invoice_items ?s1 @ new\<rparr>) s2"
        then obtain n new where n: "Suc (next_id s) \<le> n" "fresh_items (inv_tenant i) iid items new"
          "same_tables (?s1\<lparr>next_id := n, invoice_items := invoice_items ?s1 @ new\<rparr>) s2" by auto
        have e: "?s1\<lparr>next_id := n, invoice_items := invoice_items ?s1 @ new\<rparr>
            = s\<lparr>next_id := n, invoices := invoices s @ [?row], invoice_items := invoice_items s @ new\<rparr>" by (cases s) simp
        show "created now i items s (i\<lparr>inv_id := iid, inv_issued := Some now\<rparr>) s2" using n(1,2) n(3) [unfolded e]
          True unfolding created_def by (auto intro!: exI [of _ n] exI [of _ new])
      qed
      then show ?thesis using True by simp
    qed (auto simp: gives_def)
  qed
  have st: "stable (created now i items s made)" for made
    by (simp add: stable_def created_def same_tables_def)
  show ?thesis
    unfolding create_invoice_def
  proof (rule outcome_reads [OF readsI [OF keeps_set_tenant]])
    show "outcome s (created now i items s) (tx ?body)"
      unfolding outcome_def
    proof (intro allI impI)
      fix s1 r s' assume s1: "same_tables s s1" and r: "tx ?body s1 = (r, s')"
      show "case r of Inl e \<Rightarrow> same_tables s s' | Inr x \<Rightarrow> created now i items s x s'"
      proof (cases r)
        case (Inl e)
        then have "same_tables s1 s'" using r atomic_tx(1) unfolding atomic_def by blast
        then show ?thesis using Inl same_tables_trans [OF s1] by simp
      next
        case (Inr x)
        then show ?thesis using r s1 gives_tx [OF stable_same_tables st body] unfolding gives_def by auto
      qed
    qed
  qed
qed


section \<open>The invoice of a billing\<close>

text \<open>The statement that moves the clock: when it fails its error is dropped and the clock stands still.\<close>

definition clock_set :: "gid \<Rightarrow> gid \<Rightarrow> int \<Rightarrow> db \<Rightarrow> db" where
  "clock_set t sid b s = s\<lparr>subscriptions := update_rows (is_subscription t sid) (\<lambda>x. x\<lparr>sub_next_bill := Some b\<rparr>) (subscriptions s)\<rparr>"

lemma set_next_bill_result:
  "\<exists>s2. set_next_bill t sid b s1 = (Inr (), s2) \<and> (same_tables s1 s2 \<or> same_tables (clock_set t sid b s1) s2)"
  by (simp add: set_next_bill_def bind_def attempt_def auto_def exec_def round_trip_def update_subs_def ret_def Let_def
      same_tables_def clock_set_def split: prod.split sum.split option.split)


lemma apply_late_fee_nonneg: "0 \<le> apply_late_fee a p"
  by (auto simp: apply_late_fee_def percent_of_def f_of_int_def f_mul_def f_div_def
      intro!: go_round_nonneg fl64_nonneg mult_nonneg_nonneg divide_nonneg_nonneg)

lemma wrap64_add_left: "wrap64 (wrap64 a + b) = wrap64 (a + b)"
proof -
  have "wrap64 a + b + 2 ^ 63 = (a + 2 ^ 63) mod 2 ^ 64 + b" by (simp add: wrap64_def)
  then have "wrap64 (wrap64 a + b) = ((a + 2 ^ 63) + b) mod 2 ^ 64 - 2 ^ 63"
    unfolding wrap64_def [of "wrap64 a + b"] by (simp only: mod_add_left_eq)
  then show ?thesis by (simp add: wrap64_def algebra_simps)
qed

text \<open>The issued invoice \<open>i\<close> of a subscription: what the tables hold after, but for the clock.\<close>

definition with_bill :: "nat \<Rightarrow> invoice_item list \<Rightarrow> db \<Rightarrow> invoice \<Rightarrow> db" where
  "with_bill n new s i = s\<lparr>next_id := n, invoices := invoices s @ [i], invoice_items := invoice_items s @ new\<rparr>"

definition bill_adds_up :: "gid \<Rightarrow> invoice_item list \<Rightarrow> invoice \<Rightarrow> bool" where
  "bill_adds_up t items i \<longleftrightarrow> list_all (\<lambda>it. item_tenant it = t \<and> item_invoice it = inv_id i) items
     \<and> inv_subtotal i = wrap64 (\<Sum>it\<leftarrow>items. item_amount it) \<and> inv_total i = wrap64 (inv_subtotal i + inv_tax i)"

definition unpaid_bill :: "gid \<Rightarrow> gid \<Rightarrow> db \<Rightarrow> invoice \<Rightarrow> bool" where
  "unpaid_bill t sid s i \<longleftrightarrow> inv_tenant i = t \<and> inv_subscription i = Some sid \<and> inv_status i = ''issued'' \<and> inv_paid i = 0
     \<and> live i \<and> \<not> number_used t s (inv_number i)"

lemma fresh_items_facts:
  "fresh_items t iid items new \<Longrightarrow> list_all (\<lambda>it. item_tenant it = t \<and> item_invoice it = iid) new"
  "fresh_items t iid items new \<Longrightarrow> (\<Sum>it\<leftarrow>new. item_amount it) = (\<Sum>it\<leftarrow>items. item_amount it)"
  unfolding fresh_items_def by (induction rule: list_all2_induct) auto

lemma created_bill:
  assumes "created now (new_invoice t c sid num subtotal tax amount due) items s made s'"
    and "subtotal = wrap64 (\<Sum>it\<leftarrow>items. item_amount it)" and "amount = wrap64 (subtotal + tax)"
  shows "unpaid_bill t sid s made \<and> (\<exists>n new. bill_adds_up t new made \<and> same_tables (with_bill n new s made) s')"
proof -
  obtain n new where n: "fresh_items t (next_id s) items new"
    "same_tables (s\<lparr>next_id := n, invoices := invoices s @ [row_of (next_id s) now (new_invoice t c sid num subtotal tax amount due)],
       invoice_items := invoice_items s @ new\<rparr>) s'"
    "made = (new_invoice t c sid num subtotal tax amount due)\<lparr>inv_id := next_id s, inv_issued := Some now\<rparr>"
    "\<not> number_used t s num"
    using assms(1) by (auto simp: created_def new_invoice_def)
  have "row_of (next_id s) now (new_invoice t c sid num subtotal tax amount due) = made"
    using n(3) by (simp add: row_of_def new_invoice_def)
  then have "same_tables (with_bill n new s made) s'" using n(2) by (simp add: with_bill_def)
  moreover have "bill_adds_up t new made"
    using n(3) fresh_items_facts [OF n(1)] assms(2,3) by (simp add: bill_adds_up_def new_invoice_def)
  moreover have "unpaid_bill t sid s made" using n(3,4) by (simp add: unpaid_bill_def new_invoice_def live_def)
  ultimately show ?thesis by blast
qed

lemma invoice_lines_sum:
  "0 \<le> fee \<Longrightarrow> (\<Sum>it\<leftarrow>invoice_lines p x prior d per subtotal disc fee pct. item_amount it) = subtotal + fee"
  by (simp add: invoice_lines_def one_item_def Let_def)

definition billed_as :: "gid \<Rightarrow> gid \<Rightarrow> db \<Rightarrow> invoice option \<Rightarrow> db \<Rightarrow> bool" where
  "billed_as t sid s r s' \<longleftrightarrow> (case r of
       None \<Rightarrow> same_tables s s' \<or> (\<exists>b. same_tables (clock_set t sid b s) s')
     | Some i \<Rightarrow> unpaid_bill t sid s i \<and> (\<exists>n new. bill_adds_up t new i \<and>
         (same_tables (with_bill n new s i) s' \<or> (\<exists>b. same_tables (clock_set t sid b (with_bill n new s i)) s'))))"

lemma same_tables_clock: "same_tables a b \<Longrightarrow> same_tables (clock_set t sid x a) (clock_set t sid x b)"
  by (cases a; cases b) (simp add: same_tables_def clock_set_def)

lemma charged_and_moved:
  assumes "subtotal = wrap64 (\<Sum>it\<leftarrow>items. item_amount it)" and "amount = wrap64 (subtotal + tax)"
  shows "outcome s (billed_as t sid s) (bind (create_invoice now (new_invoice t c sid num subtotal tax amount due) items) (\<lambda>made.
     bind (set_next_bill t sid b) (\<lambda>_. ret (Some made))))"
proof (rule outcome_then [OF create_invoice_outcome])
  fix made s1 assume "created now (new_invoice t c sid num subtotal tax amount due) items s made s1"
  then obtain n new where n: "unpaid_bill t sid s made" "bill_adds_up t new made" "same_tables (with_bill n new s made) s1"
    using created_bill assms by blast
  obtain s2 where s2: "set_next_bill t sid b s1 = (Inr (), s2)" "same_tables s1 s2 \<or> same_tables (clock_set t sid b s1) s2"
    using set_next_bill_result by blast
  then have "same_tables (with_bill n new s made) s2 \<or> same_tables (clock_set t sid b (with_bill n new s made)) s2"
    using same_tables_trans n(3) same_tables_clock [OF n(3)] by blast
  then show "\<exists>y s2. bind (set_next_bill t sid b) (\<lambda>_. ret (Some made)) s1 = (Inr y, s2) \<and> billed_as t sid s y s2"
    using n(1,2) s2(1) by (auto simp: bind_def ret_def billed_as_def)
qed

lemma outcome_prod: "(\<And>a b. x = (a, b) \<Longrightarrow> outcome s Q (f a b)) \<Longrightarrow> outcome s Q (case x of (a, b) \<Rightarrow> f a b)"
  by (cases x) simp

lemma issue_invoice_outcome: "outcome s (billed_as t (sub_id x) s) (issue_invoice w draw t now x plan cust price disc tax_pct)"
proof -
  have sums: "wrap64 (subtotal + late) = wrap64 (\<Sum>it\<leftarrow>invoice_lines p x prior d per subtotal disc late pct. item_amount it)
      \<and> wrap64 (subtotal + tax + late) = wrap64 (wrap64 (subtotal + late) + tax)" if "0 \<le> late" for p prior d per subtotal late pct tax
    using that wrap64_add_left [of "subtotal + late" tax] by (simp add: invoice_lines_sum add.commute add.left_commute)
  show ?thesis
    unfolding issue_invoice_def Let_def
    by (rule outcome_reads [OF readsI [OF keeps_next_invoice_number]], assumption,
        rule outcome_reads [OF readsI [OF keeps_or_else [OF keeps_auto_query]]], assumption,
        rule outcome_prod, rule outcome_prod,
        rule outcome_reads [OF readsI [OF keeps_settings_readers(7)]], assumption,
        rule outcome_reads [OF readsI [OF keeps_or_else [OF keeps_overdue_sum]]], assumption,
        rule outcome_reads [OF readsI [OF keeps_plan_reads(5)]], assumption,
        rule charged_and_moved) (use sums apply_late_fee_nonneg in auto)
qed


lemma outcome_if: "(b \<Longrightarrow> outcome s Q m) \<Longrightarrow> (\<not> b \<Longrightarrow> outcome s Q n) \<Longrightarrow> outcome s Q (if b then m else n)"
  by simp

lemma free_plan_outcome:
  "outcome s (billed_as t sid s) (bind (when_do c (set_next_bill t sid b)) (\<lambda>_. ret None))"
proof -
  have "case r of Inl e \<Rightarrow> same_tables s s' | Inr x \<Rightarrow> billed_as t sid s x s'"
    if s1: "same_tables s s1" and r: "bind (when_do c (set_next_bill t sid b)) (\<lambda>_. ret None) s1 = (r, s')" for s1 r s'
  proof (cases c)
    case False
    then show ?thesis using s1 r by (auto simp: when_do_def bind_def ret_def billed_as_def)
  next
    case True
    obtain s2 where s2: "set_next_bill t sid b s1 = (Inr (), s2)" "same_tables s1 s2 \<or> same_tables (clock_set t sid b s1) s2"
      using set_next_bill_result by blast
    then have "same_tables s s2 \<or> same_tables (clock_set t sid b s) s2"
      using same_tables_trans s1 same_tables_clock [OF s1] by blast
    then show ?thesis using r s2(1) True by (auto simp: when_do_def bind_def ret_def billed_as_def)
  qed
  then show ?thesis unfolding outcome_def by blast
qed

lemma sub_row_row: "sv_row (sub_row s x c p port) = x"
  by (simp add: sub_row_def Let_def)

lemma sub_rows_of_row: "v \<in> set (sub_rows_of s x) \<Longrightarrow> sv_row v = x"
  by (auto simp: sub_rows_of_def sub_row_row neq_Nil_conv split: option.split_asm list.split_asm)

lemma sub_row_conn: "sub_row (s\<lparr>faults := fs, aborted := a\<rparr>) = sub_row s"
  by (intro ext) (simp add: sub_row_def is_free_def active_offer_price_def cong: option.case_cong)

lemma sub_rows_of_conn: "sub_rows_of (s\<lparr>faults := fs, aborted := a\<rparr>) = sub_rows_of s"
  by (rule ext) (simp add: sub_rows_of_def sub_row_conn cong: option.case_cong list.case_cong)

lemma sub_rowsD: "v \<in> set (sub_rows q le s) \<Longrightarrow> sv_row v \<in> set (subscriptions s) \<and> q (sv_row v)"
  by (auto simp: sub_rows_def dest: sub_rows_of_row)

lemma get_subscription_gives:
  "gives (same_tables s) (get_subscription t sid)
     (\<lambda>v s1. same_tables s s1 \<and> sv_row v \<in> set (subscriptions s) \<and> is_subscription t sid (sv_row v))"
  unfolding get_subscription_def
proof (rule gives_bind [OF gives_set_tenant [OF stable_same_tables]], rule gives_bind)
  let ?q = "sub_rows (is_subscription t sid) (\<lambda>_ _. True)"
  show "gives (same_tables s) (auto (query ?q)) (\<lambda>rows s1. same_tables s s1 \<and> rows = ?q s)"
  proof (rule gives_same_query)
    fix s1 assume "same_tables s s1"
    then have "s1 = s\<lparr>faults := faults s1, aborted := aborted s1\<rparr>" by (rule same_tables_eq)
    moreover have "?q (s\<lparr>faults := fs, aborted := a\<rparr>) = ?q s" for fs a
      by (simp add: sub_rows_def sub_rows_of_conn)
    ultimately show "?q s1 = ?q s" by metis
  qed
  show "gives (\<lambda>s1. same_tables s s1 \<and> rows = ?q s) (case rows of [] \<Rightarrow> raise Not_found | v # _ \<Rightarrow> ret (without_free v))
      (\<lambda>v s1. same_tables s s1 \<and> sv_row v \<in> set (subscriptions s) \<and> is_subscription t sid (sv_row v))" for rows
  proof (cases rows)
    case (Cons v vs)
    have "rows = ?q s \<Longrightarrow> sv_row v \<in> set (subscriptions s) \<and> is_subscription t sid (sv_row v)"
      using sub_rowsD [of v] Cons by (metis list.set_intros(1))
    then show ?thesis using Cons by (auto simp: without_free_def intro!: gives_ret)
  qed simp
qed

lemma generate_invoice_outcome: "outcome s (billed_as t sid s) (generate_invoice w draw t sid)"
proof -
  have own: "sub_id (sv_row v) = sid" if "get_subscription t sid s1 = (Inr v, s2)" for s1 v s2
    using get_subscription_gives [of s1 t sid] that unfolding gives_def is_subscription_def by (metis same_tables_refl)
  show ?thesis
    unfolding generate_invoice_def Let_def
    apply (rule outcome_reads [OF readsI [OF keeps_now_of]], assumption)
    apply (rule outcome_read [OF readsI [OF keeps_get_subscription], where R = "\<lambda>v. sub_id (sv_row v) = sid"], assumption)
    apply (erule own)
    apply (rule outcome_reads [OF readsI [OF keeps_plan_reads(1)]], assumption)
    apply (rule outcome_reads [OF readsI [OF keeps_plan_reads(2)]], assumption)
    apply (rule outcome_reads [OF readsI [OF keeps_attempt [OF keeps_plan_reads(3)]]], assumption)
    apply (rule outcome_if, rule free_plan_outcome)
    apply (rule outcome_reads [OF readsI [OF keeps_or_else [OF keeps_plan_reads(4)]]], assumption)
    apply (rule outcome_prod)
    apply (rule outcome_reads [OF readsI [OF keeps_or_else [OF keeps_settings_readers(3)]]], assumption)
    using issue_invoice_outcome by metis
qed


section \<open>Properties of billing\<close>

text \<open>After any sequence of invoice, payment, wallet, journal and subscription calls and runs of the billing
  engine, under any failures, every invoice outside the trash has been paid what its payments add
  up to, every wallet holds the sum of its transactions and is not overdrawn, and every journal
  entry balances.\<close>

theorem engine_keeps_money:
  assumes "system_step\<^sup>*\<^sup>* empty_db s"
  shows "(\<forall>i\<in>set (invoices s). live i \<longrightarrow> inv_paid i = collected (payments s) i)
    \<and> (\<forall>w\<in>set (wallets s). w_balance w = sum_where (\<lambda>x. wt_wallet x = w_id w) wt_amount (wallet_txns s) \<and> 0 \<le> w_balance w)
    \<and> entry_debit t e (journal_lines s) = entry_credit t e (journal_lines s)"
proof -
  have m: "money_ok s" using assms by (rule system_reachable)
  then have a: "agree w_id w_balance wt_wallet wt_amount (wallets s) (wallet_txns s)" "books_ok s"
    by (simp_all add: money_ok_def solvent_def wallets_ok_def wallets_off_def agree_def)
  have "entry_debit t e (journal_lines s) = entry_credit t e (journal_lines s)" using a(2) by (simp add: books_okD)
  then show ?thesis using m agreeD [OF a(1)] by (auto simp: money_ok_def paid_ok_def solvent_def funded_def)
qed

text \<open>C4: \<open>GenerateInvoiceForSubscription\<close> under any failures: an error leaves every table as it was; an issued
  invoice is one new row with a number nobody used, unpaid, whose items add up to its subtotal and
  whose total is the subtotal with the tax, and nothing else changed but the subscription's clock.\<close>

theorem generate_invoice_all_or_nothing:
  assumes "generate_invoice w draw t sid s = (r, s')"
  shows "case r of
      Inl e \<Rightarrow> same_tables s s'
    | Inr None \<Rightarrow> same_tables s s' \<or> (\<exists>b. same_tables (clock_set t sid b s) s')
    | Inr (Some i) \<Rightarrow> unpaid_bill t sid s i \<and> (\<exists>n new. bill_adds_up t new i \<and>
        (same_tables (with_bill n new s i) s' \<or> (\<exists>b. same_tables (clock_set t sid b (with_bill n new s i)) s')))"
  using outcomeD [OF generate_invoice_outcome assms] by (auto simp: billed_as_def split: sum.splits option.splits)

definition sample_dice :: dice where
  "sample_dice = (\<lambda>_ k. Some (\<lambda>j. k * 7 + j))"

lemma generate_invoice_all_or_nothing_witness:
  "case generate_invoice sample_world sample_dice 1 40 sample_subs_db of
     (Inr (Some i), s') \<Rightarrow> inv_total i = 150005 \<and> map inv_number (invoices s') = [''INV-1'', ''INV-C7-072026ABCDEF'']
       \<and> map sub_next_bill (subscriptions s') = [Some 1785578400000000000, Some 1782900000000000000]
       \<and> unpaid_bill 1 40 sample_subs_db i
   | _ \<Rightarrow> False"
proof -
  have "case generate_invoice sample_world sample_dice 1 40 sample_subs_db of
     (Inr (Some i), s') \<Rightarrow> inv_total i = 150005 \<and> map inv_number (invoices s') = [''INV-1'', ''INV-C7-072026ABCDEF'']
       \<and> map sub_next_bill (subscriptions s') = [Some 1785578400000000000, Some 1782900000000000000]
   | _ \<Rightarrow> False" by code_simp
  then show ?thesis
    using generate_invoice_all_or_nothing [of sample_world sample_dice 1 40 sample_subs_db]
    by (auto split: prod.splits sum.splits option.splits)
qed

lemma engine_keeps_money_witness:
  "let s = snd (process_due_billing sample_world sample_dice 1 sample_db) in
     (\<forall>i\<in>set (invoices s). live i \<longrightarrow> inv_paid i = collected (payments s) i)
     \<and> entry_debit 1 5 (journal_lines s) = entry_credit 1 5 (journal_lines s)"
proof -
  have up: "ledger_step\<^sup>*\<^sup>* a b \<Longrightarrow> system_step\<^sup>*\<^sup>* a b" for a b
    by (induction rule: rtranclp_induct) (auto intro: rtranclp.rtrancl_into_rtrancl moved_money invoicing)
  have "system_step\<^sup>*\<^sup>* empty_db (snd (process_due_billing sample_world sample_dice 1 sample_db))"
    using up [OF sample_db_reachable] by (rule rtranclp.rtrancl_into_rtrancl) (rule billed_due)
  then show ?thesis using engine_keeps_money [of "snd (process_due_billing sample_world sample_dice 1 sample_db)" 1 5]
    by (simp add: Let_def)
qed



definition unmoved_db :: db where
  "unmoved_db = sample_subs_db\<lparr>faults := replicate 32 False @ [True]\<rparr>"

lemma unmoved_runs:
  "case generate_invoice sample_world sample_dice 1 40 unmoved_db of
     (Inr (Some i), s1) \<Rightarrow> subscriptions s1 = subscriptions unmoved_db \<and>
       (case generate_invoice sample_world sample_dice 1 40 (s1\<lparr>faults := [], aborted := False\<rparr>) of
          (Inr (Some j), s2) \<Rightarrow> map inv_number (invoices s2) = [''INV-1'', ''INV-C7-072026ABCDEF'', ''INV-C7-072026HJKLMN'']
        | _ \<Rightarrow> False)
   | _ \<Rightarrow> False"
  by code_simp


end
