(* ===== verification/Plan_Changes.thy ===== *)
theory Plan_Changes
  imports Billing_Runs
begin

text \<open>
  Changing the plan of a subscription: the amounts of the quote, and that an upgrade with a
  charge leaves the plan alone until its invoice is paid.
\<close>

section \<open>The quote\<close>

lemma share_exact:
  "0 \<le> price \<Longrightarrow> price < 2 ^ 41 \<Longrightarrow> 0 \<le> d \<Longrightarrow> d \<le> n \<Longrightarrow> 0 < n \<Longrightarrow> n \<le> 1000 \<Longrightarrow>
   prorate_amount price d n = (2 * (price * d) + n) div (2 * n)"
  using quotient_exact [of price d n] by (simp add: prorate_amount_def)

lemma share_bounds:
  "0 \<le> price \<Longrightarrow> price < 2 ^ 41 \<Longrightarrow> 0 \<le> d \<Longrightarrow> d \<le> n \<Longrightarrow> 0 < n \<Longrightarrow> n \<le> 1000 \<Longrightarrow>
   0 \<le> prorate_amount price d n \<and> prorate_amount price d n \<le> price"
  using share_exact rounded_share_bounds [of price d n] by simp

lemma share_mono:
  assumes "0 \<le> a" "a \<le> b" "b < 2 ^ 41" "0 \<le> d" "d \<le> n" "0 < n" "n \<le> 1000"
  shows "prorate_amount a d n \<le> prorate_amount b d n"
proof -
  have "a * d \<le> b * d" using assms by (intro mult_right_mono) auto
  then show ?thesis using share_exact [of a d n] share_exact [of b d n] assms by (simp add: zdiv_mono1)
qed

lemma cycle_days_bounds: "0 < days_in_billing_cycle c \<and> days_in_billing_cycle c \<le> 365"
  by (auto simp: days_in_billing_cycle_def)

lemma remaining_bounds:
  "0 < n \<Longrightarrow> 0 \<le> remaining_days_until now u n \<and> remaining_days_until now u n \<le> n"
  by (auto simp: remaining_days_until_def Let_def)

text \<open>The quote of a change of plan, for prices below \<open>2^41\<close> and an integer tax rate: the credit and the
  charge are shares of the two prices, the difference is exact, a charge is required exactly when
  it is positive, never for a plan that costs no more, and changing back is quoted at the
  opposite difference.\<close>

theorem plan_change_quote:
  assumes "0 \<le> a" "a < 2 ^ 41" "0 \<le> b" "b < 2 ^ 41" "0 \<le> k" "k \<le> 100"
    and n_def: "n = days_in_billing_cycle cycle" and q_def: "q = make_quote now u old new a b n (of_int k)"
    and q'_def: "q' = make_quote now u new old b a n (of_int k)"
  shows "0 \<le> q_credit q \<and> q_credit q \<le> a \<and> 0 \<le> q_charge q \<and> q_charge q \<le> b
    \<and> q_delta q = q_charge q - q_credit q \<and> q_delta q' = - q_delta q
    \<and> q_requires q = (0 < q_delta q) \<and> (b \<le> a \<longrightarrow> \<not> q_requires q)
    \<and> q_total q = (if q_requires q then q_delta q + (q_delta q * k + 50) div 100 else 0)
    \<and> (\<not> after u now \<longrightarrow> q_delta q = 0)"
proof -
  let ?r = "remaining_days_until now u n"
  have n: "0 < n" "n \<le> 1000" using cycle_days_bounds [of cycle] by (simp_all add: n_def)
  have r: "0 \<le> ?r" "?r \<le> n" using remaining_bounds [OF n(1)] by simp_all
  define x y where "x = prorate_amount a ?r n" and "y = prorate_amount b ?r n"
  have x: "0 \<le> x" "x \<le> a" and y: "0 \<le> y" "y \<le> b"
    using share_bounds [OF _ _ r n] assms(1-4) by (simp_all add: x_def y_def)
  have w: "wrap64 (y - x) = y - x" "wrap64 (x - y) = x - y"
    using x y assms(2,4) by (auto intro!: wrap64_id int64_ok_small)
  have yx: "b \<le> a \<Longrightarrow> y \<le> x" unfolding x_def y_def using assms(2,3) r n by (intro share_mono) auto
  have tax: "percent_of (y - x) (of_int k) = ((y - x) * k + 50) div 100" if "0 < y - x"
  proof -
    have "percent_of (y - x) (of_int k) = (2 * ((y - x) * k) + 100) div (2 * 100)"
      using that x y assms(2,4-6) percent_exact [of "y - x" k] by simp
    also have "\<dots> = ((y - x) * k + 50) div 100" using div_mult_mult1 [of 2 "(y - x) * k + 50" 100] by simp
    finally show ?thesis .
  qed
  have big: "wrap64 (y - x + ((y - x) * k + 50) div 100) = y - x + ((y - x) * k + 50) div 100" if "0 < y - x"
  proof -
    have "(y - x) * k \<le> (y - x) * 100" using that assms(6) by (intro mult_left_mono) auto
    then have "((y - x) * k + 50) div 100 \<le> (y - x) + 1" "0 \<le> ((y - x) * k + 50) div 100"
      using that assms(5) by (auto simp: pos_imp_zdiv_nonneg_iff intro: order_trans [OF zdiv_mono1 [of _ "(y - x) * 100 + 50"]])
    then show ?thesis using that x y assms(2,4) by (intro wrap64_id int64_ok_small) auto
  qed
  have late: "\<not> after u now \<Longrightarrow> ?r = 0" by (simp add: remaining_days_until_def)
  show ?thesis
    unfolding q_def q'_def make_quote_def Let_def x_def [symmetric] y_def [symmetric]
    using x y w yx tax big late r(1) by (cases "?r = 0") auto
qed

lemma plan_change_quote_witness:
  "let u = at_zone 0 (20 * day_ns); now = at_zone 0 (5 * day_ns);
       q = make_quote now u (sample_plan 9 ''Home 20'' 150000) (sample_plan 10 ''Home 50'' 300000) 150000 300000 30 11
   in q_remaining q = 15 \<and> q_delta q = 75000 \<and> q_total q = 83250"
proof -
  let ?u = "at_zone 0 (20 * day_ns)" and ?now = "at_zone 0 (5 * day_ns)"
  let ?q = "make_quote ?now ?u (sample_plan 9 ''Home 20'' 150000) (sample_plan 10 ''Home 50'' 300000) 150000 300000 30 11"
  have d: "days_in_billing_cycle ''monthly'' = 30" by (simp add: days_in_billing_cycle_def)
  have e: "q_remaining ?q = 15 \<and> q_delta ?q = 75000 \<and> q_requires ?q" by code_simp
  then show ?thesis
    using plan_change_quote [where a = 150000 and b = 300000 and k = 11 and now = ?now and u = ?u
        and old = "sample_plan 9 ''Home 20'' 150000" and new = "sample_plan 10 ''Home 50'' 300000",
        OF _ _ _ _ _ _ d [symmetric] refl refl]
    by (simp add: Let_def)
qed


section \<open>Applying it\<close>

text \<open>Nothing about invoices changed, nor about subscriptions but their pending change.\<close>

definition besides_pending :: "subscription \<Rightarrow> subscription" where
  "besides_pending x = x\<lparr>sub_pending := None\<rparr>"

definition untouched :: "db \<Rightarrow> db \<Rightarrow> bool" where
  "untouched s0 s \<longleftrightarrow> invoices s = invoices s0 \<and> map besides_pending (subscriptions s) = map besides_pending (subscriptions s0)"

lemma stable_untouched: "stable (untouched s0)"
  by (simp add: stable_def untouched_def)

lemma untouched_same: "untouched s0 s1 \<Longrightarrow> same_tables s1 s2 \<Longrightarrow> untouched s0 s2"
  using same_tables_D(3,10) [of s1 s2] by (simp add: untouched_def)

lemma besides_pending_update: "map besides_pending (update_rows q (\<lambda>x. x\<lparr>sub_pending := p x\<rparr>) xs) = map besides_pending xs"
  by (simp add: update_rows_def besides_pending_def)

text \<open>An assertion on the tables that the pending change is not part of.\<close>

definition pending_free :: "(db \<Rightarrow> bool) \<Rightarrow> bool" where
  "pending_free P \<longleftrightarrow> stable P \<and> (\<forall>s q p. P s \<longrightarrow> P (s\<lparr>subscriptions := update_rows q (\<lambda>x. x\<lparr>sub_pending := p x\<rparr>) (subscriptions s)\<rparr>))"

lemma keeps_pending_free:
  assumes "pending_free P"
  shows "keeps P (set_subscription_pending_plan now t sid p)" "keeps P (clear_subscription_pending_plan t sid)"
proof -
  have st: "stable P" using assms by (simp add: pending_free_def)
  have "keeps P (exec (update_subs q (\<lambda>x. x\<lparr>sub_pending := f x\<rparr>)))" for q f
    by (rule keeps_exec [OF st]) (use assms in \<open>auto simp: update_subs_def pending_free_def\<close>)
  then have e: "keeps P (exec (update_subs q (\<lambda>x. x\<lparr>sub_pending := c\<rparr>)))" for q c by simp
  show "keeps P (set_subscription_pending_plan now t sid p)" "keeps P (clear_subscription_pending_plan t sid)"
    unfolding set_subscription_pending_plan_def clear_subscription_pending_plan_def by (intro keeps_intros st e)+
qed

lemma pending_free_untouched: "pending_free (untouched s0)"
  by (simp add: pending_free_def stable_untouched untouched_def besides_pending_update)

lemma keeps_blocked_untouched: "keeps (untouched s0) (blocked_by_pending t sid)"
  unfolding blocked_by_pending_def
  by (intro keeps_intros stable_untouched keeps_pending_free pending_free_untouched)

definition fair_quote :: "quote \<Rightarrow> bool" where
  "fair_quote q \<longleftrightarrow> q_requires q = (0 < q_delta q) \<and> (0 < q_delta q \<longrightarrow> q_total q = wrap64 (q_delta q + q_tax q)) \<and> q_delta q = wrap64 (q_delta q)"

lemma make_quote_fair: "fair_quote (make_quote now u old new a b n k)"
  using wrap64_id [OF wrap64_ok] wrap64_id [of 0] by (auto simp: fair_quote_def make_quote_def Let_def int64_ok_def)

lemma gives_untouched:
  assumes "\<And>s. gives (same_tables s) m (\<lambda>x s1. same_tables s s1 \<and> R x)"
  shows "gives (untouched s0) m (\<lambda>x s1. untouched s0 s1 \<and> R x)"
  unfolding gives_def
proof (intro allI impI)
  fix s x s' assume u: "untouched s0 s" and m: "m s = (Inr x, s')"
  then have "same_tables s s' \<and> R x" using assms [of s] unfolding gives_def by (metis same_tables_refl)
  then show "untouched s0 s' \<and> R x" using untouched_same u by blast
qed

lemma quote_outcome:
  "outcome s (\<lambda>(q, x, _, _) s1. same_tables s s1 \<and> fair_quote q \<and> is_subscription t sid x) (quote_plan_change w t sid new now)"
proof -
  have own: "is_subscription t sid (sv_row v)" if "get_subscription t sid s1 = (Inr v, s2)" for s1 v s2
    using get_subscription_gives [of s1 t sid] that unfolding gives_def by (metis same_tables_refl)
  show ?thesis
    unfolding quote_plan_change_def Let_def
    by (rule outcome_read [OF readsI [OF keeps_get_subscription], where R = "\<lambda>v. is_subscription t sid (sv_row v)"], assumption, erule own,
        rule outcome_reads [OF readsI [OF keeps_plan_reads(1)]], assumption,
        rule outcome_reads [OF readsI [OF keeps_plan_reads(1)]], assumption,
        rule outcome_reads [OF readsI [OF keeps_plan_reads(2)]], assumption,
        rule outcome_reads [OF readsI [OF keeps_pending_reads(5)]], assumption,
        rule outcome_reads [OF readsI [OF keeps_pending_reads(5)]], assumption,
        rule outcome_if, rule outcome_reads [OF readsI [OF keeps_or_else [OF keeps_settings_readers(3)]]], assumption)
      (auto intro!: outcome_ret simp: make_quote_fair)
qed

lemma outcome_gives: "outcome s Q m \<Longrightarrow> gives (same_tables s) m Q"
  unfolding outcome_def gives_def by fastforce

lemma quote_gives:
  "gives (untouched s0) (quote_plan_change w t sid new now)
     (\<lambda>(q, x, _, _) s1. untouched s0 s1 \<and> fair_quote q \<and> is_subscription t sid x)"
proof -
  have "gives (untouched s0) (quote_plan_change w t sid new now)
     (\<lambda>r s1. untouched s0 s1 \<and> (case r of (q, x, _, _) \<Rightarrow> fair_quote q \<and> is_subscription t sid x))"
    by (rule gives_untouched, rule gives_mono [OF outcome_gives [OF quote_outcome]]) auto
  then show ?thesis by (rule gives_mono) auto
qed

text \<open>The invoice of the difference.\<close>

definition charged :: "gid \<Rightarrow> gid \<Rightarrow> quote \<Rightarrow> db \<Rightarrow> invoice \<Rightarrow> db \<Rightarrow> bool" where
  "charged t sid q s0 i s \<longleftrightarrow> unpaid_bill t sid s0 i \<and> inv_subtotal i = q_delta q \<and> inv_total i = q_total q
     \<and> invoices s = invoices s0 @ [i] \<and> map besides_pending (subscriptions s) = map besides_pending (subscriptions s0)"

lemma charged_pending_free: "pending_free (charged t sid q s0 i)"
  by (auto simp: pending_free_def charged_def besides_pending_update stable_def)

lemma charge_change_gives:
  assumes "fair_quote q" and "0 < q_delta q" and "sub_id x = sid"
  shows "gives (untouched s0) (charge_change w draw t now x new q) (charged t sid q s0)"
proof -
  have r: "gives (untouched s0) m (\<lambda>_. untouched s0)" if "\<And>P. stable P \<Longrightarrow> keeps P m" for m :: "(db, 'a) prog"
    by (intro gives_keeps that stable_untouched)
  have c: "gives (untouched s0) (create_invoice (w_now w) (new_invoice t (sub_customer x) sid num (q_delta q) (q_tax q) (q_total q) due)
       [one_item label (q_delta q)]) (charged t sid q s0)" for num due label
    unfolding gives_def
  proof (intro allI impI)
    let ?i = "new_invoice t (sub_customer x) sid num (q_delta q) (q_tax q) (q_total q) due" and ?items = "[one_item label (q_delta q)]"
    fix s made s' assume u: "untouched s0 s" and run: "create_invoice (w_now w) ?i ?items s = (Inr made, s')"
    then have cr: "created (w_now w) ?i ?items s made s'" using outcomeD [OF create_invoice_outcome run] by simp
    then obtain n new where n: "unpaid_bill t sid s made" "bill_adds_up t new made" "same_tables (with_bill n new s made) s'"
      using created_bill [of "w_now w" t "sub_customer x" sid num "q_delta q" "q_tax q" "q_total q" due ?items s made s'] assms(1,2)
      by (auto simp: fair_quote_def one_item_def)
    have "inv_subtotal made = q_delta q" "inv_total made = q_total q" using cr by (simp_all add: created_def new_invoice_def)
    moreover have "invoices s' = invoices s @ [made]" "subscriptions s' = subscriptions s"
      using same_tables_D(3,10) [OF n(3)] by (simp_all add: with_bill_def)
    ultimately show "charged t sid q s0 made s'"
      using n(1) u by (simp add: charged_def untouched_def unpaid_bill_def number_used_def)
  qed
  show ?thesis
    unfolding charge_change_def Let_def assms(3)
    by (rule gives_bind [OF r], intro keeps_intros, assumption,
        rule gives_bind [OF r], intro keeps_intros, assumption,
        rule gives_bind [OF r], intro keeps_intros, assumption,
        rule gives_bind [OF r], intro keeps_intros, assumption,
        rule gives_bind [OF r], intro keeps_intros, assumption, rule c)
qed


lemma gives_if: "(b \<Longrightarrow> gives P m Q) \<Longrightarrow> (\<not> b \<Longrightarrow> gives P n Q) \<Longrightarrow> gives P (if b then m else n) Q"
  by simp

lemma gives_knowing: "(C \<Longrightarrow> gives P m Q) \<Longrightarrow> gives (\<lambda>s. P s \<and> C) m Q"
  by (auto simp: gives_def)

abbreviation (input) upgrade_waits :: "gid \<Rightarrow> gid \<Rightarrow> db \<Rightarrow> quote \<times> invoice option \<Rightarrow> db \<Rightarrow> bool" where
  "upgrade_waits t sid s \<equiv> (\<lambda>(q, r) s'. q_direction q = ''upgrade'' \<and> 0 < q_delta q \<longrightarrow> (\<exists>i. r = Some i \<and> charged t sid q s i s'))"

lemma charge_then_wait:
  assumes "fair_quote q" "is_subscription t sid x" "0 < q_delta q"
  shows "gives (untouched s) (bind (charge_change w draw t now x new q) (\<lambda>i.
      bind (attempt (set_subscription_pending_plan (w_now w) t sid (p i))) (\<lambda>_. ret (q, Some i)))) (upgrade_waits t sid s)"
proof (rule gives_bind [OF charge_change_gives [OF assms(1,3)]])
  show "sub_id x = sid" using assms(2) by (simp add: is_subscription_def)
  fix i
  have "gives (charged t sid q s i) (attempt (set_subscription_pending_plan (w_now w) t sid (p i))) (\<lambda>_. charged t sid q s i)"
    by (intro gives_keeps keeps_attempt keeps_pending_free charged_pending_free)
  then show "gives (charged t sid q s i) (bind (attempt (set_subscription_pending_plan (w_now w) t sid (p i))) (\<lambda>_. ret (q, Some i)))
     (upgrade_waits t sid s)" by (rule gives_bind) (auto intro: gives_ret)
qed

lemma other_change:
  "\<not> (q_direction q = ''upgrade'' \<and> 0 < q_delta q) \<Longrightarrow>
     gives P (bind m (\<lambda>_. if c then bind n (\<lambda>i. ret (q, Some i)) else ret (q, None))) (upgrade_waits t sid s)"
  unfolding gives_def by (auto elim!: bind_Inr simp: ret_Inr split: if_splits)

lemma apply_change_gives: "gives (untouched s) (apply_plan_change w draw t sid new) (upgrade_waits t sid s)"
  unfolding apply_plan_change_def Let_def
proof (rule gives_bind [OF gives_keeps [OF keeps_now_of [OF stable_untouched]]], rule gives_bind [OF quote_gives], clarify)
  fix now :: gtime and q :: quote and x :: subscription and old new' :: plan
  let ?svc = "if plan_service new' = [] then sub_service x else plan_service new'"
  have "gives (untouched s) (bind (blocked_by_pending t sid) (\<lambda>blocked.
      if blocked then raise pending_refused
      else if q_direction q = ''upgrade'' \<and> q_requires q \<and> 0 < q_delta q
        then bind (charge_change w draw t now x new' q) (\<lambda>i. bind (attempt (set_subscription_pending_plan (w_now w) t sid
             \<lparr>pend_old = sub_plan x, pend_new = new, pend_invoice = inv_id i, pend_direction = q_direction q,
              pend_service = ?svc, pend_created = instant zero_time\<rparr>)) (\<lambda>_. ret (q, Some i)))
        else bind (update_subscription t (x\<lparr>sub_plan := new, sub_service := ?svc\<rparr>) False) (\<lambda>_.
          if q_requires q \<and> 0 < q_delta q then bind (charge_change w draw t now x new' q) (\<lambda>i. ret (q, Some i)) else ret (q, None))))
      (upgrade_waits t sid s)" if "fair_quote q" "is_subscription t sid x"
    by (rule gives_bind [OF gives_keeps [OF keeps_blocked_untouched]], intro gives_if gives_raise charge_then_wait that other_change)
      (use that(1) in \<open>auto simp: fair_quote_def\<close>)
  then show "gives (\<lambda>s1. untouched s s1 \<and> fair_quote q \<and> is_subscription t sid x)
      (if sub_plan x = new then raise same_plan_refused
       else if \<not> live_status (sub_status x) then raise (status_refused (sub_status x))
       else bind (blocked_by_pending t sid) (\<lambda>blocked.
      if blocked then raise pending_refused
      else if q_direction q = ''upgrade'' \<and> q_requires q \<and> 0 < q_delta q
        then bind (charge_change w draw t now x new' q) (\<lambda>i. bind (attempt (set_subscription_pending_plan (w_now w) t sid
             \<lparr>pend_old = sub_plan x, pend_new = new, pend_invoice = inv_id i, pend_direction = q_direction q,
              pend_service = ?svc, pend_created = instant zero_time\<rparr>)) (\<lambda>_. ret (q, Some i)))
        else bind (update_subscription t (x\<lparr>sub_plan := new, sub_service := ?svc\<rparr>) False) (\<lambda>_.
          if q_requires q \<and> 0 < q_delta q then bind (charge_change w draw t now x new' q) (\<lambda>i. ret (q, Some i)) else ret (q, None))))
      (upgrade_waits t sid s)"
    by (intro gives_if gives_raise gives_knowing) auto
qed


section \<open>Property\<close>

text \<open>C17: Under any failures, an upgrade that \<open>ApplyPlanChange\<close> accepts with something to charge issues the invoice
  of the difference and leaves every subscription as it was, but for the note of the pending
  change: the plan is not switched before the invoice is paid.\<close>

theorem upgrade_waits_for_payment:
  assumes "apply_plan_change w draw t sid new s = (Inr (q, r), s')" and "q_direction q = ''upgrade''" and "0 < q_delta q"
  shows "\<exists>i. r = Some i \<and> invoices s' = invoices s @ [i] \<and> unpaid_bill t sid s i
    \<and> inv_subtotal i = q_delta q \<and> inv_total i = q_total q
    \<and> map (\<lambda>x. x\<lparr>sub_pending := None\<rparr>) (subscriptions s') = map (\<lambda>x. x\<lparr>sub_pending := None\<rparr>) (subscriptions s)"
proof -
  have "untouched s s" by (simp add: untouched_def)
  then have "\<exists>i. r = Some i \<and> charged t sid q s i s'"
    using apply_change_gives [of s w draw t sid new] assms unfolding gives_def by blast
  then show ?thesis by (auto simp: charged_def besides_pending_def [abs_def])
qed

definition sample_upgrade_db :: db where
  "sample_upgrade_db = sample_subs_db\<lparr>plans := [sample_plan 9 ''Home 20'' 150000, (sample_plan 10 ''Home 50'' 300000)\<lparr>plan_down := 50000\<rparr>],
     subscriptions := [sample_sub\<lparr>sub_next_bill := Some (1783000000 * second + 15 * day_ns)\<rparr>]\<rparr>"

lemma sample_upgrade_run:
  "case apply_plan_change sample_world sample_dice 1 40 10 sample_upgrade_db of
     (Inr (q, Some i), s') \<Rightarrow> q_direction q = ''upgrade'' \<and> q_delta q = 75000 \<and> map sub_plan (subscriptions s') = [9]
       \<and> map (map_option pend_new \<circ> sub_pending) (subscriptions s') = [Some 10]
   | _ \<Rightarrow> False"
  by code_simp


lemma upgrade_waits_for_payment_witness:
  "\<exists>q i s'. apply_plan_change sample_world sample_dice 1 40 10 sample_upgrade_db = (Inr (q, Some i), s') \<and> q_delta q = 75000
     \<and> invoices s' = invoices sample_upgrade_db @ [i] \<and> inv_subtotal i = 75000 \<and> map sub_plan (subscriptions s') = [9]
     \<and> map (map_option pend_new \<circ> sub_pending) (subscriptions s') = [Some 10]"
proof -
  obtain y s' where e: "apply_plan_change sample_world sample_dice 1 40 10 sample_upgrade_db = (y, s')" by fastforce
  note run = sample_upgrade_run [unfolded e prod.case]
  obtain q z where y: "y = Inr (q, z)" using run by (cases y) auto
  obtain i where z: "z = Some i" using run y by (cases z) auto
  have r: "apply_plan_change sample_world sample_dice 1 40 10 sample_upgrade_db = (Inr (q, Some i), s')"
    "q_direction q = ''upgrade''" "q_delta q = 75000" "map sub_plan (subscriptions s') = [9]"
    "map (map_option pend_new \<circ> sub_pending) (subscriptions s') = [Some 10]" using run e y z by simp_all
  then show ?thesis using upgrade_waits_for_payment [OF r(1,2)] by auto
qed

end
