(* ===== verification/Settling.thy ===== *)
theory Settling
  imports Billing_Runs
begin

text \<open>
  Runs over the open invoices of a tenant or a customer: the late fee of manual invoices,
  which an invoice gets at most once, and the settling of invoices from the balance, oldest
  first.
\<close>

section \<open>Late fees\<close>

definition with_fee :: "int \<Rightarrow> int \<Rightarrow> invoice \<Rightarrow> invoice" where
  "with_fee now fee i = i\<lparr>inv_subtotal := inv_subtotal i + fee, inv_total := inv_total i + fee, inv_late_fee := Some now\<rparr>"

definition fee_once :: "(invoice \<Rightarrow> bool) \<Rightarrow> int \<Rightarrow> invoice \<Rightarrow> invoice \<Rightarrow> bool" where
  "fee_once q now i j \<longleftrightarrow> j = i \<or> (q i \<and> live i \<and> inv_late_fee i = None \<and> (\<exists>fee>0. j = with_fee now fee i))"

definition fees_since :: "(invoice \<Rightarrow> bool) \<Rightarrow> int \<Rightarrow> db \<Rightarrow> db \<Rightarrow> bool" where
  "fees_since q now s0 s \<longleftrightarrow> distinct (map inv_id (invoices s0)) \<and> list_all2 (fee_once q now) (invoices s0) (invoices s)"

lemma stable_fees_since: "stable (fees_since q now s0)"
  by (simp add: stable_def fees_since_def)

lemma fee_once_id: "fee_once q now i j \<Longrightarrow> inv_id j = inv_id i"
  by (auto simp: fee_once_def with_fee_def)

lemma fees_since_ids: "fees_since q now s0 s \<Longrightarrow> map inv_id (invoices s) = map inv_id (invoices s0)"
  unfolding fees_since_def
  by (auto simp: list_all2_conv_all_nth intro!: nth_equalityI fee_once_id)

definition unfeed :: "gid \<Rightarrow> gid \<Rightarrow> invoice \<Rightarrow> db \<Rightarrow> bool" where
  "unfeed t iid i s \<longleftrightarrow> i \<in> set (invoices s) \<and> is_invoice t iid i \<and> live i \<and> inv_late_fee i = None"

lemma fees_since_update:
  assumes f: "fees_since q now s0 s" and i: "unfeed t iid i s" and q: "\<And>j. j \<in> set (invoices s0) \<Longrightarrow> inv_id j = iid \<Longrightarrow> q j"
    and fee: "0 < fee"
  shows "list_all2 (fee_once q now) (invoices s0) (update_rows (is_invoice t iid) (with_fee now fee) (invoices s))"
proof -
  have d: "distinct (map inv_id (invoices s))" using f fees_since_ids [OF f] by (simp add: fees_since_def)
  have l: "list_all2 (fee_once q now) (invoices s0) (invoices s)" using f by (simp add: fees_since_def)
  show ?thesis
    unfolding list_all2_conv_all_nth
  proof (intro conjI allI impI)
    show "length (invoices s0) = length (update_rows (is_invoice t iid) (with_fee now fee) (invoices s))"
      using list_all2_lengthD [OF l] by (simp add: update_rows_def)
    fix k assume k: "k < length (invoices s0)"
    then have k': "k < length (invoices s)" using list_all2_lengthD [OF l] by simp
    have o: "fee_once q now (invoices s0 ! k) (invoices s ! k)" using l k by (simp add: list_all2_conv_all_nth)
    show "fee_once q now (invoices s0 ! k) (update_rows (is_invoice t iid) (with_fee now fee) (invoices s) ! k)"
    proof (cases "is_invoice t iid (invoices s ! k)")
      case False
      then show ?thesis using o k' by (simp add: update_rows_def)
    next
      case True
      have "invoices s ! k = i"
        using unique_row [OF d, of "invoices s ! k" i] True i k' by (simp add: unfeed_def is_invoice_def)
      then have j: "inv_late_fee (invoices s ! k) = None" "live (invoices s ! k)" "inv_id (invoices s ! k) = iid"
        using i by (auto simp: unfeed_def is_invoice_def)
      then have e: "invoices s ! k = invoices s0 ! k" using o by (auto simp: fee_once_def with_fee_def)
      have "q (invoices s0 ! k)" using q [of "invoices s0 ! k"] k j(3) e by simp
      then show ?thesis using True k' j e fee by (auto simp: update_rows_def fee_once_def)
    qed
  qed
qed

lemma keeps_late_fee_once:
  assumes q: "\<And>j. j \<in> set (invoices s0) \<Longrightarrow> inv_id j = iid \<Longrightarrow> q j"
  shows "keeps (fees_since q now s0) (apply_invoice_late_fee now t iid amount desc)"
proof (cases "amount \<le> 0")
  case True
  then show ?thesis by (simp add: apply_invoice_late_fee_def keeps_ret)
next
  case False
  let ?K = "fees_since q now s0"
  have un: "stable (\<lambda>s. ?K s \<and> unfeed t iid i s)" for i
    by (intro stable_conj stable_fees_since) (auto simp: stable_def unfeed_def)
  have item: "gives (\<lambda>s. ?K s \<and> unfeed t iid i s) (exec (insert_item t iid it)) (\<lambda>_ s. ?K s \<and> unfeed t iid i s)" for it i
    by (rule gives_exec [OF un]) (auto simp: insert_item_def fees_since_def unfeed_def split: if_splits)
  have upd: "gives (\<lambda>s. ?K s \<and> unfeed t iid i s) (exec (update_invoices (is_invoice t iid)
      (\<lambda>i. i\<lparr>inv_subtotal := inv_subtotal i + amount, inv_total := inv_total i + amount, inv_late_fee := Some now\<rparr>))) (\<lambda>_. ?K)" for i
  proof (rule gives_exec [OF un])
    fix s x s' assume k: "?K s \<and> unfeed t iid i s" and u: "update_invoices (is_invoice t iid)
      (\<lambda>i. i\<lparr>inv_subtotal := inv_subtotal i + amount, inv_total := inv_total i + amount, inv_late_fee := Some now\<rparr>) s = Some (x, s')"
    have "invoices s' = update_rows (is_invoice t iid) (with_fee now amount) (invoices s)"
      using u by (auto simp: update_invoices_def with_fee_def [abs_def] split: if_splits)
    moreover have "list_all2 (fee_once q now) (invoices s0) (update_rows (is_invoice t iid) (with_fee now amount) (invoices s))"
      by (rule fees_since_update [where iid = iid and i = i, OF _ _ q]) (use k False in simp_all)
    ultimately show "?K s'" using k unfolding fees_since_def by simp
  qed
  have row: "gives ?K (query (\<lambda>s. first_row (\<lambda>i. is_invoice t iid i \<and> live i) (invoices s)))
      (\<lambda>row s. ?K s \<and> (\<forall>i. row = Some i \<longrightarrow> i \<in> set (invoices s) \<and> is_invoice t iid i \<and> live i))"
    by (rule gives_query [OF stable_fees_since]) (auto dest: first_row_Some)
  show ?thesis
    unfolding apply_invoice_late_fee_def if_not_P [OF False]
  proof (rule keeps_bind [OF keeps_set_tenant [OF stable_fees_since]], rule keeps_tx [OF stable_fees_since], rule gives_bind [OF row])
    fix row
    show "gives (\<lambda>s. ?K s \<and> (\<forall>i. row = Some i \<longrightarrow> i \<in> set (invoices s) \<and> is_invoice t iid i \<and> live i))
       (case row of None \<Rightarrow> raise Not_found | Some i \<Rightarrow> if inv_late_fee i \<noteq> None then ret ()
          else bind (exec (insert_item t iid \<lparr>item_id = 0, item_tenant = t, item_invoice = iid, item_desc = desc,
                  item_qty = 1, item_price = amount, item_amount = amount\<rparr>)) (\<lambda>_.
               bind (exec (update_invoices (is_invoice t iid)
                  (\<lambda>i. i\<lparr>inv_subtotal := inv_subtotal i + amount, inv_total := inv_total i + amount, inv_late_fee := Some now\<rparr>))) (\<lambda>_. ret ())))
       (\<lambda>_. ?K)"
    proof (cases row)
      case (Some i)
      have "gives (\<lambda>s. ?K s \<and> unfeed t iid i s) (bind (exec (insert_item t iid \<lparr>item_id = 0, item_tenant = t, item_invoice = iid, item_desc = desc,
                  item_qty = 1, item_price = amount, item_amount = amount\<rparr>)) (\<lambda>_.
               bind (exec (update_invoices (is_invoice t iid)
                  (\<lambda>i. i\<lparr>inv_subtotal := inv_subtotal i + amount, inv_total := inv_total i + amount, inv_late_fee := Some now\<rparr>))) (\<lambda>_. ret ()))) (\<lambda>_. ?K)"
        by (rule gives_bind [OF item], rule gives_bind [OF upd], rule gives_ret)
      then show ?thesis using Some by (auto simp: gives_def unfeed_def ret_def)
    qed simp
  qed
qed


definition manual_overdue :: "int \<Rightarrow> gid \<Rightarrow> invoice \<Rightarrow> bool" where
  "manual_overdue today t i \<longleftrightarrow> inv_tenant i = t \<and> inv_subscription i = None \<and> outstanding i \<and> inv_due i < today
     \<and> inv_late_fee i = None"

lemma manual_list_gives:
  "gives (same_tables s) (list_manual_overdue_invoices_for_late_fee today t)
     (\<lambda>is s1. same_tables s s1 \<and> set is \<subseteq> {i\<in>set (invoices s). manual_overdue today t i})"
proof -
  let ?le = "\<lambda>a b. if inv_due a = inv_due b then inv_id a \<le> inv_id b else inv_due a < inv_due b"
  let ?g = "\<lambda>s. order_by ?le (filter (\<lambda>i. inv_tenant i = t \<and> inv_subscription i = None \<and> outstanding i
          \<and> inv_due i < today \<and> inv_late_fee i = None) (invoices s))"
  have "gives (same_tables s) (auto (query ?g)) (\<lambda>is s1. same_tables s s1 \<and> is = ?g s)"
    by (rule gives_same_query) (simp add: same_tables_D(3))
  then have "gives (same_tables s) (auto (query ?g)) (\<lambda>is s1. same_tables s s1 \<and> set is \<subseteq> {i\<in>set (invoices s). manual_overdue today t i})"
    by (rule gives_mono) (auto simp: manual_overdue_def)
  then show ?thesis
    unfolding list_manual_overdue_invoices_for_late_fee_def by (rule gives_bind [OF gives_set_tenant [OF stable_same_tables]])
qed

lemma manual_fees_once:
  assumes d: "distinct (map inv_id (invoices s))"
  shows "fees_since (manual_overdue (w_today w) t) (w_now w) s (snd (process_manual_late_fees w t s))"
proof -
  let ?q = "manual_overdue (w_today w) t"
  let ?K = "fees_since ?q (w_now w) s"
  let ?same = "same_tables s"
  have start: "?same s1 \<Longrightarrow> ?K s1" for s1
    using d by (simp add: fees_since_def same_tables_D(3) list_all2_same fee_once_def)
  have runs: "safe (\<lambda>s1. ?same s1 \<and> set is \<subseteq> {i\<in>set (invoices s). ?q i}) ?K (bind (collect (\<lambda>i. let fee = apply_late_fee (wrap64 (inv_total i - inv_paid i)) pct in
           if fee \<le> 0 then ret None
           else bind (apply_invoice_late_fee (w_now w) t (inv_id i) fee (late_fee_text pct)) (\<lambda>_. ret (Some ()))) is)
       (\<lambda>done. ret (int (length done))))" for "is" pct
  proof (cases "set is \<subseteq> {i\<in>set (invoices s). ?q i}")
    case True
    have "?q j" if "i \<in> set is" "j \<in> set (invoices s)" "inv_id j = inv_id i" for i j
      using unique_row [OF d that(2), of i] that True by auto
    then have "keeps ?K (bind (collect (\<lambda>i. let fee = apply_late_fee (wrap64 (inv_total i - inv_paid i)) pct in
           if fee \<le> 0 then ret None
           else bind (apply_invoice_late_fee (w_now w) t (inv_id i) fee (late_fee_text pct)) (\<lambda>_. ret (Some ()))) is)
       (\<lambda>done. ret (int (length done))))"
      by (intro keeps_intros keeps_late_fee_once) auto
    then show ?thesis using start unfolding keeps_def safe_def by blast
  qed (auto simp: safe_def)
  have "safe ?same ?K (process_manual_late_fees w t)"
    unfolding process_manual_late_fees_def
  proof (rule safe_bind)
    have k: "keeps ?same m \<Longrightarrow> safe ?same ?K m" for m :: "(db, 'a) prog" using start unfolding keeps_def safe_def by blast
    show "safe ?same ?K (late_fee_percent (w_known w) t)" by (intro k keeps_intros stable_same_tables)
    show "gives ?same (late_fee_percent (w_known w) t) (\<lambda>_. ?same)" by (intro gives_keeps keeps_intros stable_same_tables)
    have m: "safe ?same ?K (list_manual_overdue_invoices_for_late_fee (w_today w) t)" by (intro k keeps_intros stable_same_tables)
    show "safe ?same ?K (if pct \<le> 0 then ret 0 else bind (list_manual_overdue_invoices_for_late_fee (w_today w) t) (\<lambda>invs.
       bind (collect (\<lambda>i. let fee = apply_late_fee (wrap64 (inv_total i - inv_paid i)) pct in
           if fee \<le> 0 then ret None
           else bind (apply_invoice_late_fee (w_now w) t (inv_id i) fee (late_fee_text pct)) (\<lambda>_. ret (Some ()))) invs)
       (\<lambda>done. ret (int (length done)))))" for pct
      using safe_bind [OF m manual_list_gives runs] start by (auto simp: safe_def ret_def)
  qed
  then show ?thesis unfolding safe_def by simp
qed


section \<open>Oldest invoice first\<close>

lemma get_invoice_id: "get_invoice t iid s = (Inr (i, items), s') \<Longrightarrow> inv_id i = iid"
  unfolding get_invoice_def get_invoice_any_def get_invoice_rows_def
  by (auto elim!: bind_Inr split: option.splits prod.splits simp: auto_def ret_Inr dest!: query_Inr first_row_Some [OF sym])

definition invoice_of :: "auto_pay \<Rightarrow> gid" where
  "invoice_of r = (case ap_invoice r of None \<Rightarrow> nil_id | Some (i, _) \<Rightarrow> inv_id i)"

lemma try_auto_pay_invoice_of:
  "try_auto_pay_invoice w t iid s = (Inr r, s') \<Longrightarrow> ap_paid r \<Longrightarrow> invoice_of r = iid \<and> ap_payment r \<noteq> None"
  unfolding try_auto_pay_invoice_def Let_def
  by (auto elim!: bind_Inr split: if_splits prod.splits simp: ret_Inr no_auto_pay_def invoice_of_def dest!: get_invoice_id)

lemma settle_in_order_prefix:
  "settle_in_order w t ids s = (Inr rs, s') \<Longrightarrow>
     map invoice_of rs = take (length rs) ids \<and> list_all (\<lambda>r. ap_paid r \<and> ap_payment r \<noteq> None) rs"
proof (induction ids arbitrary: s rs s')
  case Nil
  then show ?case by (simp add: ret_Inr)
next
  case (Cons i ids)
  obtain r s1 where r: "try_auto_pay_invoice w t i s = (Inr r, s1)"
      "(if \<not> ap_paid r then ret [] else bind (settle_in_order w t ids) (\<lambda>rs. ret (r # rs))) s1 = (Inr rs, s')"
    using Cons.prems by (auto elim: bind_Inr)
  show ?case
  proof (cases "ap_paid r")
    case False
    then show ?thesis using r(2) by (simp add: ret_Inr)
  next
    case True
    then obtain rs' s2 where "settle_in_order w t ids s1 = (Inr rs', s2)" "rs = r # rs'"
      using r(2) by (auto elim!: bind_Inr simp: ret_Inr)
    then show ?thesis using Cons.IH try_auto_pay_invoice_of [OF r(1) True] True by simp
  qed
qed

definition open_bills :: "gid \<Rightarrow> gid \<Rightarrow> db \<Rightarrow> invoice list" where
  "open_bills t c s = order_by oldest_first (filter (\<lambda>i. inv_tenant i = t \<and> inv_customer i = c \<and> outstanding i
     \<and> inv_subscription i \<noteq> None) (invoices s))"

lemma outstanding_ids_gives:
  "gives (same_tables s) (outstanding_subscription_invoice_ids t c) (\<lambda>ids s1. same_tables s s1 \<and> ids = map inv_id (open_bills t c s))"
proof -
  have "outstanding_subscription_invoice_ids t c = bind set_tenant (\<lambda>_. auto (query (\<lambda>s. map inv_id (open_bills t c s))))"
    by (simp add: outstanding_subscription_invoice_ids_def outstanding_ids_def open_bills_def)
  moreover have "gives (same_tables s) (auto (query (\<lambda>s. map inv_id (open_bills t c s))))
      (\<lambda>ids s1. same_tables s s1 \<and> ids = map inv_id (open_bills t c s))"
    by (rule gives_same_query) (simp add: open_bills_def same_tables_D(3))
  ultimately show ?thesis using gives_bind [OF gives_set_tenant [OF stable_same_tables]] by simp
qed

lemma opt_desc_last_trans: "opt_desc_last x y \<Longrightarrow> opt_desc_last y z \<Longrightarrow> opt_desc_last x z"
  by (cases x; cases y; cases z) simp_all

lemma opt_desc_last_linear: "opt_desc_last x y \<or> opt_desc_last y x"
  by (cases x; cases y) auto

section \<open>Properties\<close>

text \<open>C19: Under any failures, a run of \<open>ProcessManualLateFees\<close> gives each manual invoice of the tenant that is
  overdue and has no late fee yet at most one positive fee, on subtotal and total alike, changes
  no other invoice, and no later run, for whatever tenant and at whatever time, charges an invoice
  a second fee.\<close>

theorem late_fee_once:
  assumes "distinct (map inv_id (invoices s))" and "process_manual_late_fees w t s = (r, s')"
  shows "list_all2 (\<lambda>i j. j = i \<or> (manual_overdue (w_today w) t i \<and> (\<exists>fee>0. j = with_fee (w_now w) fee i))) (invoices s) (invoices s')
    \<and> list_all2 (\<lambda>j k. inv_late_fee j \<noteq> None \<longrightarrow> k = j) (invoices s') (invoices (snd (process_manual_late_fees w2 t2 s')))"
proof
  have f: "fees_since (manual_overdue (w_today w) t) (w_now w) s s'" using manual_fees_once [OF assms(1), of w t] assms(2) by simp
  then show "list_all2 (\<lambda>i j. j = i \<or> (manual_overdue (w_today w) t i \<and> (\<exists>fee>0. j = with_fee (w_now w) fee i))) (invoices s) (invoices s')"
    by (auto simp: fees_since_def fee_once_def elim!: list_all2_mono)
  have "distinct (map inv_id (invoices s'))" using assms(1) fees_since_ids [OF f] by simp
  note manual_fees_once [OF this, of w2 t2]
  then show "list_all2 (\<lambda>j k. inv_late_fee j \<noteq> None \<longrightarrow> k = j) (invoices s') (invoices (snd (process_manual_late_fees w2 t2 s')))"
    by (auto simp: fees_since_def fee_once_def elim!: list_all2_mono)
qed

definition sample_manual_db :: db where
  "sample_manual_db = sample_db\<lparr>invoices := map (\<lambda>i. i\<lparr>inv_subscription := None\<rparr>) (invoices sample_db)\<rparr>"

lemma late_fee_once_witness:
  "let s' = snd (process_manual_late_fees sample_world 1 sample_manual_db) in
     map inv_total (invoices sample_manual_db) = [100] \<and> map inv_total (invoices s') = [105]
     \<and> list_all2 (\<lambda>j k. inv_late_fee j \<noteq> None \<longrightarrow> k = j) (invoices s') (invoices (snd (process_manual_late_fees sample_world 1 s')))"
proof -
  have e: "distinct (map inv_id (invoices sample_manual_db)) \<and> map inv_total (invoices sample_manual_db) = [100]
      \<and> map inv_total (invoices (snd (process_manual_late_fees sample_world 1 sample_manual_db))) = [105]" by code_simp
  obtain r s' where "process_manual_late_fees sample_world 1 sample_manual_db = (r, s')" by fastforce
  then show ?thesis using late_fee_once [of sample_manual_db sample_world 1 r s' sample_world 1] e by (simp add: Let_def)
qed

text \<open>C18: \<open>AutoSettleCustomer\<close> goes through the customer's open invoices of subscriptions, oldest due date first, and
  stops at the first it cannot pay: what it settled is an initial stretch of that list, each with
  its payment, whatever fails.\<close>

theorem settles_oldest_first:
  assumes "auto_settle_customer w t c s = (Inr rs, s')" and "rs \<noteq> []"
  shows "map invoice_of rs = take (length rs) (map inv_id (open_bills t c s)) \<and> sorted_wrt oldest_first (open_bills t c s)
    \<and> list_all (\<lambda>r. ap_paid r \<and> ap_payment r \<noteq> None) rs"
proof -
  obtain on s1 where on: "wallet_enabled (w_known w) t s = (Inr on, s1)"
      "(if \<not> on then ret [] else bind (outstanding_subscription_invoice_ids t c) (settle_in_order w t)) s1 = (Inr rs, s')"
    using assms(1) unfolding auto_settle_customer_def by (elim bind_Inr)
  have s1: "same_tables s s1"
    using gives_keeps [OF keeps_settings_readers(8) [OF stable_same_tables]] on(1) unfolding gives_def by (metis same_tables_refl)
  have "on" using on(2) assms(2) by (auto simp: ret_Inr split: if_splits)
  then obtain ids s2 where ids: "outstanding_subscription_invoice_ids t c s1 = (Inr ids, s2)" "settle_in_order w t ids s2 = (Inr rs, s')"
    using on(2) by (auto elim: bind_Inr)
  have "ids = map inv_id (open_bills t c s)" using outstanding_ids_gives [of s t c] s1 ids(1) unfolding gives_def by blast
  moreover have "sorted_wrt oldest_first (open_bills t c s)"
    unfolding open_bills_def by (rule sorted_order_by) (auto simp: oldest_first_def opt_desc_last_linear split: if_splits intro: opt_desc_last_trans)
  ultimately show ?thesis using settle_in_order_prefix [OF ids(2)] by simp
qed


definition sample_settle_db :: db where
  "sample_settle_db = sample_money_2\<lparr>invoices := map (\<lambda>i. i\<lparr>inv_subscription := Some 40\<rparr>) (invoices sample_money_2),
     general_rows := [(1, default_general_settings\<lparr>gs_wallet := True\<rparr>)]\<rparr>"

lemma sample_settle_run:
  "case auto_settle_customer sample_world 1 7 sample_settle_db of
     (Inr rs, s') \<Rightarrow> map invoice_of rs = [1] \<and> map inv_status (invoices s') = [''paid''] \<and> map w_balance (wallets s') = [50]
   | _ \<Rightarrow> False"
  by code_simp

lemma settles_oldest_first_witness:
  "\<exists>rs s'. auto_settle_customer sample_world 1 7 sample_settle_db = (Inr rs, s') \<and> map inv_status (invoices s') = [''paid'']
     \<and> map invoice_of rs = take (length rs) (map inv_id (open_bills 1 7 sample_settle_db)) \<and> list_all ap_paid rs \<and> length rs = 1"
proof -
  obtain y s' where e: "auto_settle_customer sample_world 1 7 sample_settle_db = (y, s')" by fastforce
  note run = sample_settle_run [unfolded e prod.case]
  obtain rs where y: "y = Inr rs" using run by (cases y) auto
  then have "rs \<noteq> []" "length rs = 1" using run by (auto simp flip: length_map [of invoice_of])
  then show ?thesis using settles_oldest_first [OF e [unfolded y]] run e y by (auto simp: list_all_iff)
qed

end
