(* ===== verification/Sales.thy ===== *)
theory Sales
  imports Customers Balances
begin

text \<open>
  Sales: commissions (\<open>internal/store/commission.go\<close>), leads and resellers
  (\<open>internal/store/extra_ops.go\<close>).  A reseller's balance is the sum of the commissions that
  are not void; the statements that move the two are followed with the locale of running
  balances.  Documents of leads and avatars are not modelled.
\<close>

section \<open>Commissions\<close>

definition basis_new_customer :: string where "basis_new_customer = ''new_customer_flat''"
definition basis_acquisition :: string where "basis_acquisition = ''acquisition_flat''"

definition normalize_commission_basis :: "string \<Rightarrow> string" where
  "normalize_commission_basis b =
     (if trim_space (to_lower b) \<in> {basis_acquisition, ''acquisition'', ''akuisisi''} then basis_acquisition else basis_new_customer)"

definition amount_for_basis :: "commission_settings \<Rightarrow> string \<Rightarrow> int" where
  "amount_for_basis cfg b =
     (if normalize_commission_basis b = basis_acquisition then cs_acquisition cfg else cs_new_customer cfg)"

definition get_commission_settings :: "gid \<Rightarrow> (db, commission_settings) prog" where
  "get_commission_settings tenant =
     or_default_row \<lparr>cs_new_customer = 0, cs_acquisition = 0\<rparr> (\<lambda>x. x) (get_setting commission_rows tenant)"

definition set_commission_settings :: "gid \<Rightarrow> commission_settings \<Rightarrow> (db, unit) prog" where
  "set_commission_settings tenant cfg =
     (if cs_new_customer cfg < 0 \<or> cs_acquisition cfg < 0 then raise (Rejected ''nominal komisi tidak boleh negatif'')
      else bind set_tenant (\<lambda>_.
        auto (exec (\<lambda>s. Some ((), s\<lparr>commission_rows := AList.update tenant cfg (commission_rows s)\<rparr>)))))"

text \<open>The constraints of \<open>commission_entries\<close>: its references, \<open>amount >= 0\<close>, one of the statuses, and
  exactly one payee.\<close>

definition commission_ok :: "db \<Rightarrow> commission \<Rightarrow> bool" where
  "commission_ok s e \<longleftrightarrow> list_ex (\<lambda>c. cust_id c = cm_customer e) (customers s) \<and> refers ld_id (leads s) (cm_lead e)
     \<and> refers rs_id (resellers s) (cm_reseller e) \<and> refers u_id (users s) (cm_sales e) \<and> 0 \<le> cm_amount e \<and> int64_ok (cm_amount e)
     \<and> cm_status e \<in> {''pending'', ''paid'', ''void''} \<and> (cm_reseller e = None) = (cm_sales e \<noteq> None)"

definition insert_commission :: "commission \<Rightarrow> db \<Rightarrow> (gid \<times> db) option" where
  "insert_commission e s =
     (if commission_ok s e
      then Some (next_id s, s\<lparr>next_id := Suc (next_id s), commissions := commissions s @ [e\<lparr>cm_id := next_id s\<rparr>]\<rparr>)
      else None)"

definition is_reseller :: "gid \<Rightarrow> gid \<Rightarrow> reseller \<Rightarrow> bool" where
  "is_reseller tenant rid r \<longleftrightarrow> rs_tenant r = tenant \<and> rs_id r = rid"

definition update_resellers :: "(reseller \<Rightarrow> bool) \<Rightarrow> (reseller \<Rightarrow> reseller) \<Rightarrow> db \<Rightarrow> (nat \<times> db) option" where
  "update_resellers q f s =
     (if list_all (\<lambda>r. q r \<longrightarrow> int64_ok (rs_balance (f r))) (resellers s)
      then Some (affected q (resellers s), s\<lparr>resellers := update_rows q f (resellers s)\<rparr>)
      else None)"

definition credit_commission ::
  "int \<Rightarrow> gid \<Rightarrow> gid \<Rightarrow> gid option \<Rightarrow> gid option \<Rightarrow> gid option \<Rightarrow> string \<Rightarrow> (db, commission option) prog" where
  "credit_commission now tenant customer lead reseller sales basis0 =
     (let (r, u) = normalize_attribution reseller sales; basis = normalize_commission_basis basis0 in
      if r = None \<and> u = None then ret None
      else bind (get_commission_settings tenant) (\<lambda>cfg.
        let amount = amount_for_basis cfg basis;
            e = \<lparr>cm_id = 0, cm_tenant = tenant, cm_customer = customer, cm_lead = lead, cm_reseller = r, cm_sales = u,
                 cm_amount = amount, cm_basis = basis, cm_status = ''pending'', cm_note = None, cm_created = now, cm_paid_at = None\<rparr>
        in if amount \<le> 0 then ret None
           else tx (bind (exec (insert_commission e)) (\<lambda>eid.
                    bind (case r of None \<Rightarrow> ret ()
                      | Some rid \<Rightarrow> bind (exec (update_resellers (is_reseller tenant rid) (\<lambda>x. x\<lparr>rs_balance := rs_balance x + amount\<rparr>))) (\<lambda>n.
                          if n = 0 then raise (Rejected ''reseller tidak ditemukan'') else ret ())) (\<lambda>_.
                    ret (Some (e\<lparr>cm_id := eid\<rparr>)))))))"

definition credit_commission_for_new_customer ::
  "int \<Rightarrow> gid \<Rightarrow> gid \<Rightarrow> gid option \<Rightarrow> gid option \<Rightarrow> gid option \<Rightarrow> (db, commission option) prog" where
  "credit_commission_for_new_customer now tenant customer lead reseller sales =
     credit_commission now tenant customer lead reseller sales basis_new_customer"

text \<open>An entry as the queries return it, with the names it refers to.\<close>

record commission_view =
  cmv_row :: commission
  cmv_customer_name :: string
  cmv_customer_code :: string
  cmv_reseller_name :: string
  cmv_sales_name :: string

definition view_commission :: "db \<Rightarrow> commission \<Rightarrow> commission_view" where
  "view_commission s e = \<lparr>cmv_row = e, cmv_customer_name = joined cust_id cust_name (customers s) (Some (cm_customer e)),
     cmv_customer_code = joined cust_id cust_code (customers s) (Some (cm_customer e)),
     cmv_reseller_name = joined rs_id rs_name (resellers s) (cm_reseller e), cmv_sales_name = joined u_id u_name (users s) (cm_sales e)\<rparr>"

definition known_status :: "string \<Rightarrow> commission \<Rightarrow> bool" where
  "known_status status e \<longleftrightarrow> (status \<in> {''pending'', ''paid'', ''void''} \<longrightarrow> cm_status e = status)"

definition list_commission_entries :: "gid \<Rightarrow> string \<Rightarrow> int \<Rightarrow> int \<Rightarrow> (db, commission_view list \<times> int) prog" where
  "list_commission_entries tenant status limit0 offset =
     (let q = (\<lambda>e. cm_tenant e = tenant \<and> known_status status e); limit = (if limit0 \<le> 0 then 50 else limit0) in
      bind (auto (query (\<lambda>s. int (length (filter q (commissions s)))))) (\<lambda>n.
      bind (auto (page_query limit offset (\<lambda>s. map (view_commission s)
        (order_by (\<lambda>a b. cm_created b \<le> cm_created a) (filter q (commissions s)))))) (\<lambda>rows. ret (rows, n))))"

definition list_commission_entries_for_export ::
  "gid \<Rightarrow> int option \<Rightarrow> int option \<Rightarrow> string \<Rightarrow> (db, commission_view list) prog" where
  "list_commission_entries_for_export tenant from_t to_t status =
     auto (query (\<lambda>s. map (view_commission s) (order_by (\<lambda>a b. cm_created a \<le> cm_created b)
       (filter (\<lambda>e. cm_tenant e = tenant \<and> known_status status e
          \<and> (case from_t of None \<Rightarrow> True | Some a \<Rightarrow> a \<le> cm_created e)
          \<and> (case to_t of None \<Rightarrow> True | Some b \<Rightarrow> cm_created e < b)) (commissions s)))))"

definition is_commission :: "gid \<Rightarrow> gid \<Rightarrow> commission \<Rightarrow> bool" where
  "is_commission tenant eid e \<longleftrightarrow> cm_tenant e = tenant \<and> cm_id e = eid"

definition get_commission_entry :: "gid \<Rightarrow> gid \<Rightarrow> (db, commission_view) prog" where
  "get_commission_entry tenant eid =
     bind (auto (query (\<lambda>s. map_option (view_commission s) (first_row (is_commission tenant eid) (commissions s))))) (\<lambda>row.
     case row of None \<Rightarrow> raise Not_found | Some v \<Rightarrow> ret v)"

definition update_commissions :: "(commission \<Rightarrow> bool) \<Rightarrow> (commission \<Rightarrow> commission) \<Rightarrow> db \<Rightarrow> (nat \<times> db) option" where
  "update_commissions q f s = Some (affected q (commissions s), s\<lparr>commissions := update_rows q f (commissions s)\<rparr>)"

definition mark_commission_paid :: "int \<Rightarrow> gid \<Rightarrow> gid \<Rightarrow> (db, unit) prog" where
  "mark_commission_paid now tenant eid =
     bind (auto (exec (update_commissions (\<lambda>e. is_commission tenant eid e \<and> cm_status e = ''pending'')
        (\<lambda>e. e\<lparr>cm_status := ''paid'', cm_paid_at := Some now\<rparr>)))) (\<lambda>n.
     if n = 0 then raise Not_found else ret ())"

definition void_commission_entry :: "gid \<Rightarrow> gid \<Rightarrow> (db, unit) prog" where
  "void_commission_entry tenant eid =
     bind (get_commission_entry tenant eid) (\<lambda>v. let e = cmv_row v in
     if cm_status e = ''void'' then ret ()
     else tx (bind (exec (update_commissions (\<lambda>x. is_commission tenant eid x \<and> cm_status x \<in> {''pending'', ''paid''})
                (\<lambda>x. x\<lparr>cm_status := ''void''\<rparr>))) (\<lambda>n.
              if n = 0 then raise Not_found
              else case cm_reseller e of None \<Rightarrow> ret ()
                | Some rid \<Rightarrow> bind (exec (update_resellers (is_reseller tenant rid)
                    (\<lambda>x. x\<lparr>rs_balance := max 0 (rs_balance x - cm_amount e)\<rparr>))) (\<lambda>_. ret ()))))"

section \<open>Resellers\<close>

text \<open>\<open>NUMERIC(5,2)\<close>.\<close>

definition numeric_5_2 :: "rat \<Rightarrow> rat option" where
  "numeric_5_2 x = (let n = go_round (x * 100) in if \<bar>n\<bar> < 100000 then Some (of_int n / 100) else None)"

definition list_resellers :: "gid \<Rightarrow> (db, reseller list) prog" where
  "list_resellers tenant = auto (query (\<lambda>s. order_by (\<lambda>a b. rs_name a \<le> rs_name b) (filter (\<lambda>r. rs_tenant r = tenant) (resellers s))))"

definition insert_reseller :: "int \<Rightarrow> reseller \<Rightarrow> db \<Rightarrow> (reseller \<times> db) option" where
  "insert_reseller now r s =
     (case numeric_5_2 (rs_percent r) of None \<Rightarrow> None
      | Some pct \<Rightarrow>
          let new = r\<lparr>rs_id := next_id s, rs_user := None, rs_percent := pct, rs_balance := 0, rs_active := True, rs_created := now\<rparr>
          in Some (new, s\<lparr>next_id := Suc (next_id s), resellers := resellers s @ [new]\<rparr>))"

definition create_reseller_full :: "int \<Rightarrow> reseller \<Rightarrow> (db, reseller) prog" where
  "create_reseller_full now r =
     bind (auto (exec (insert_reseller now r))) (\<lambda>new.
     ret (r\<lparr>rs_active := True, rs_id := rs_id new, rs_balance := rs_balance new, rs_created := rs_created new\<rparr>))"

definition get_reseller :: "gid \<Rightarrow> gid \<Rightarrow> (db, reseller) prog" where
  "get_reseller tenant rid =
     bind (auto (query (\<lambda>s. first_row (is_reseller tenant rid) (resellers s)))) (\<lambda>row.
     case row of None \<Rightarrow> raise Not_found | Some r \<Rightarrow> ret r)"

definition update_reseller :: "reseller \<Rightarrow> (db, unit) prog" where
  "update_reseller r =
     bind (auto (exec (\<lambda>s. let q = is_reseller (rs_tenant r) (rs_id r) in
        if affected q (resellers s) = 0 then Some (0, s)
        else case numeric_5_2 (rs_percent r) of None \<Rightarrow> None
          | Some pct \<Rightarrow> Some (affected q (resellers s), s\<lparr>resellers := update_rows q
              (\<lambda>x. x\<lparr>rs_name := rs_name r, rs_phone := rs_phone r, rs_percent := pct, rs_active := rs_active r\<rparr>) (resellers s)\<rparr>)))) (\<lambda>n.
     if n = 0 then raise Not_found else ret ())"

text \<open>\<open>DELETE FROM resellers\<close>: \<open>ON DELETE SET NULL\<close> everywhere, which the payee constraint of the
  commissions refuses.\<close>

definition lose_reseller :: "gid \<Rightarrow> gid option \<Rightarrow> gid option" where
  "lose_reseller rid ref = (if ref = Some rid then None else ref)"

definition delete_reseller_row :: "gid \<Rightarrow> gid \<Rightarrow> db \<Rightarrow> (nat \<times> db) option" where
  "delete_reseller_row tenant rid s =
     (let n = affected (is_reseller tenant rid) (resellers s) in
      if n = 0 then Some (0, s)
      else if list_ex (\<lambda>e. cm_reseller e = Some rid) (commissions s) then None
      else Some (n, s\<lparr>resellers := filter (\<lambda>r. \<not> is_reseller tenant rid r) (resellers s),
        customers := map (\<lambda>c. c\<lparr>cust_reseller := lose_reseller rid (cust_reseller c)\<rparr>) (customers s),
        leads := map (\<lambda>l. l\<lparr>ld_reseller := lose_reseller rid (ld_reseller l)\<rparr>) (leads s)\<rparr>))"

definition delete_reseller :: "gid \<Rightarrow> gid \<Rightarrow> (db, unit) prog" where
  "delete_reseller tenant rid =
     bind (auto (exec (delete_reseller_row tenant rid))) (\<lambda>n. if n = 0 then raise Not_found else ret ())"


section \<open>Leads\<close>

definition normalize_lead_status :: "string \<Rightarrow> string" where
  "normalize_lead_status st = (let x = trim_space (to_lower st) in if x = [] then ''new'' else x)"

definition lead_statuses :: "string list" where
  "lead_statuses = [''new'', ''contacted'', ''survey'', ''qualified'', ''converted'', ''lost'']"

definition lead_status_needs_assignee :: "string \<Rightarrow> bool" where
  "lead_status_needs_assignee st \<longleftrightarrow> normalize_lead_status st \<in> {''contacted'', ''survey'', ''qualified''}"

definition lead_status_label :: "string \<Rightarrow> string" where
  "lead_status_label st =
     (let x = normalize_lead_status st in
      if x = ''new'' then ''Baru'' else if x = ''contacted'' then ''Dihubungi'' else if x = ''survey'' then ''Survey''
      else if x = ''qualified'' then ''Proses pasang'' else if x = ''converted'' then ''Converted'' else if x = ''lost'' then ''Lost''
      else st)"

definition assignee_required :: err where
  "assignee_required = Rejected ''teknisi wajib di-assign mulai status dihubungi''"

definition invalid_lead_status :: err where
  "invalid_lead_status = Rejected ''status lead tidak valid''"

definition given :: "gid option \<Rightarrow> bool" where
  "given r \<longleftrightarrow> r \<noteq> None \<and> r \<noteq> Some nil_id"

definition lead_refs_ok :: "db \<Rightarrow> lead \<Rightarrow> bool" where
  "lead_refs_ok s l \<longleftrightarrow> refers odp_id (odps s) (ld_odp l) \<and> refers rs_id (resellers s) (ld_reseller l)
     \<and> refers u_id (users s) (ld_sales l) \<and> refers u_id (users s) (ld_assigned l)"

definition attributed_lead :: "lead \<Rightarrow> lead" where
  "attributed_lead l = (let (r, u) = normalize_attribution (ld_reseller l) (ld_sales l) in l\<lparr>ld_reseller := r, ld_sales := u\<rparr>)"

definition insert_lead :: "int \<Rightarrow> lead \<Rightarrow> db \<Rightarrow> (lead \<times> db) option" where
  "insert_lead now l s =
     (if lead_refs_ok s l
      then let new = l\<lparr>ld_id := next_id s, ld_customer := None, ld_converted_at := None, ld_created := now\<rparr>
           in Some (new, s\<lparr>next_id := Suc (next_id s), leads := leads s @ [new]\<rparr>)
      else None)"

definition create_lead :: "int \<Rightarrow> lead \<Rightarrow> (db, lead) prog" where
  "create_lead now l0 =
     (let st0 = normalize_lead_status (ld_status l0);
          st = (if st0 \<in> set lead_statuses then st0 else ''new'')
      in if lead_status_needs_assignee st \<and> \<not> given (ld_assigned l0) then raise assignee_required
         else let l = attributed_lead (l0\<lparr>ld_status := st,
                ld_assigned := (if lead_status_needs_assignee st then ld_assigned l0 else None)\<rparr>)
           in bind (auto (exec (insert_lead now l))) (\<lambda>new. ret (l\<lparr>ld_id := ld_id new, ld_created := ld_created new\<rparr>)))"

record lead_view =
  ldv_row :: lead
  ldv_odp_code :: string
  ldv_odp_name :: string
  ldv_reseller_name :: string
  ldv_sales_name :: string
  ldv_assigned_name :: string

definition view_lead :: "db \<Rightarrow> lead \<Rightarrow> lead_view" where
  "view_lead s l = \<lparr>ldv_row = l, ldv_odp_code = joined odp_id odp_code (odps s) (ld_odp l),
     ldv_odp_name = joined odp_id odp_name (odps s) (ld_odp l), ldv_reseller_name = joined rs_id rs_name (resellers s) (ld_reseller l),
     ldv_sales_name = joined u_id u_name (users s) (ld_sales l), ldv_assigned_name = joined u_id u_name (users s) (ld_assigned l)\<rparr>"

definition week_ns :: int where "week_ns = 7 * day_ns"

definition lead_filter :: "int \<Rightarrow> gid \<Rightarrow> string \<Rightarrow> gid option \<Rightarrow> bool \<Rightarrow> lead \<Rightarrow> bool" where
  "lead_filter now tenant status assigned hide l \<longleftrightarrow> ld_tenant l = tenant
     \<and> (status \<noteq> [] \<and> normalize_lead_status status \<in> set lead_statuses \<longrightarrow> ld_status l = normalize_lead_status status)
     \<and> (given assigned \<longrightarrow> ld_assigned l = assigned)
     \<and> (hide \<longrightarrow> \<not> (ld_status l = ''converted'' \<and> (case ld_converted_at l of None \<Rightarrow> True | Some t \<Rightarrow> t < now - week_ns)))"

definition list_leads :: "int \<Rightarrow> gid \<Rightarrow> string \<Rightarrow> gid option \<Rightarrow> bool \<Rightarrow> int \<Rightarrow> int \<Rightarrow> (db, lead_view list \<times> int) prog" where
  "list_leads now tenant status assigned hide limit0 offset =
     (let q = lead_filter now tenant status assigned hide; limit = (if limit0 \<le> 0 then 50 else limit0) in
      bind (auto (query (\<lambda>s. int (length (filter q (leads s)))))) (\<lambda>n.
      bind (auto (page_query limit offset (\<lambda>s. map (view_lead s) (order_by (\<lambda>a b. ld_id b \<le> ld_id a) (filter q (leads s)))))) (\<lambda>rows.
      ret (rows, n))))"

definition is_lead :: "gid \<Rightarrow> gid \<Rightarrow> lead \<Rightarrow> bool" where
  "is_lead tenant lid l \<longleftrightarrow> ld_tenant l = tenant \<and> ld_id l = lid"

definition get_lead :: "gid \<Rightarrow> gid \<Rightarrow> (db, lead_view) prog" where
  "get_lead tenant lid =
     bind (auto (query (\<lambda>s. map_option (view_lead s) (first_row (is_lead tenant lid) (leads s))))) (\<lambda>row.
     case row of None \<Rightarrow> raise Not_found | Some v \<Rightarrow> ret v)"

section \<open>Comments on leads\<close>

definition list_lead_comments :: "gid \<Rightarrow> gid \<Rightarrow> (db, (lead_comment \<times> string) list) prog" where
  "list_lead_comments tenant lid =
     bind (get_lead tenant lid) (\<lambda>_.
     auto (query (\<lambda>s. map (\<lambda>c. (c\<lparr>lc_kind := (if lc_kind c = [] then ''comment'' else lc_kind c)\<rparr>, joined u_id u_name (users s) (lc_user c)))
       (order_by (\<lambda>a b. lc_created a \<le> lc_created b) (filter (\<lambda>c. lc_tenant c = tenant \<and> lc_lead c = lid) (lead_comments s))))))"

definition insert_lead_comment :: "lead_comment \<Rightarrow> db \<Rightarrow> (lead_comment \<times> db) option" where
  "insert_lead_comment c s =
     (if list_ex (\<lambda>l. ld_id l = lc_lead c) (leads s) \<and> refers u_id (users s) (lc_user c)
      then let new = c\<lparr>lc_id := next_id s\<rparr>
           in Some (new, s\<lparr>next_id := Suc (next_id s), lead_comments := lead_comments s @ [new]\<rparr>)
      else None)"

definition add_lead_activity ::
  "int \<Rightarrow> gid \<Rightarrow> gid \<Rightarrow> gid option \<Rightarrow> string \<Rightarrow> string \<Rightarrow> string list \<Rightarrow> (db, lead_comment \<times> string) prog" where
  "add_lead_activity now tenant lid user kind0 message0 images =
     bind (get_lead tenant lid) (\<lambda>_.
     let kind = (if trim_space (to_lower kind0) = ''status_change'' then ''status_change'' else ''comment'');
         message = trim_space message0 in
     if kind = ''comment'' \<and> message = [] \<and> images = [] then raise (Rejected ''pesan atau gambar wajib'')
     else if kind = ''status_change'' \<and> message = [] then raise (Rejected ''pesan status wajib'')
     else bind (auto (exec (insert_lead_comment \<lparr>lc_id = 0, lc_tenant = tenant, lc_lead = lid, lc_user = user, lc_kind = kind,
              lc_message = message, lc_images = images, lc_created = now\<rparr>))) (\<lambda>c.
       if user = None then ret (c, [])
       else bind (attempt (auto (query (\<lambda>s. joined u_id u_name (users s) user)))) (\<lambda>r.
         ret (c, case r of Inl _ \<Rightarrow> [] | Inr n \<Rightarrow> n))))"

definition add_lead_comment :: "int \<Rightarrow> gid \<Rightarrow> gid \<Rightarrow> gid option \<Rightarrow> string \<Rightarrow> string list \<Rightarrow> (db, lead_comment \<times> string) prog" where
  "add_lead_comment now tenant lid user message images = add_lead_activity now tenant lid user ''comment'' message images"

section \<open>Changing leads\<close>

definition open_lead :: "gid \<Rightarrow> gid \<Rightarrow> lead \<Rightarrow> bool" where
  "open_lead tenant lid l \<longleftrightarrow> is_lead tenant lid l \<and> ld_status l \<noteq> ''converted''"

text \<open>An \<open>UPDATE\<close> of leads: the references of the rows it writes must exist.\<close>

definition update_leads :: "(lead \<Rightarrow> bool) \<Rightarrow> (lead \<Rightarrow> lead) \<Rightarrow> db \<Rightarrow> (nat \<times> db) option" where
  "update_leads q f s =
     (if list_all (\<lambda>l. q l \<longrightarrow> lead_refs_ok s (f l)) (leads s)
      then Some (affected q (leads s), s\<lparr>leads := update_rows q f (leads s)\<rparr>)
      else None)"

definition changed_leads :: "(lead \<Rightarrow> bool) \<Rightarrow> (lead \<Rightarrow> lead) \<Rightarrow> (db, unit) prog" where
  "changed_leads q f = bind (auto (exec (update_leads q f))) (\<lambda>n. if n = 0 then raise Not_found else ret ())"

definition update_lead :: "lead \<Rightarrow> (db, unit) prog" where
  "update_lead l0 =
     (let st = normalize_lead_status (ld_status l0) in
      if st \<notin> set lead_statuses then raise invalid_lead_status
      else if lead_status_needs_assignee st \<and> \<not> given (ld_assigned l0) then raise assignee_required
      else let l = attributed_lead (l0\<lparr>ld_status := st, ld_assigned := (if lead_status_needs_assignee st then ld_assigned l0 else None)\<rparr>)
        in changed_leads (open_lead (ld_tenant l) (ld_id l))
             (\<lambda>x. l\<lparr>ld_customer := ld_customer x, ld_converted_at := ld_converted_at x, ld_created := ld_created x\<rparr>))"

definition update_lead_status :: "gid \<Rightarrow> gid \<Rightarrow> string \<Rightarrow> gid option \<Rightarrow> (db, unit) prog" where
  "update_lead_status tenant lid status assigned =
     (let st = normalize_lead_status status;
          write_to = (\<lambda>a. changed_leads (open_lead tenant lid) (\<lambda>x. x\<lparr>ld_status := st, ld_assigned := a\<rparr>)) in
      if st \<notin> set lead_statuses \<or> st = ''converted'' then raise invalid_lead_status
      else if \<not> lead_status_needs_assignee st then write_to None
      else if given assigned then write_to assigned
      else bind (get_lead tenant lid) (\<lambda>cur.
        if given (ld_assigned (ldv_row cur)) then write_to (ld_assigned (ldv_row cur)) else raise assignee_required))"

definition assign_lead :: "gid \<Rightarrow> gid \<Rightarrow> gid option \<Rightarrow> (db, unit) prog" where
  "assign_lead tenant lid assigned =
     (if \<not> given assigned then raise (Rejected ''teknisi wajib'')
      else changed_leads (\<lambda>l. is_lead tenant lid l \<and> ld_status l \<in> {''contacted'', ''survey'', ''qualified''}) (\<lambda>x. x\<lparr>ld_assigned := assigned\<rparr>))"

text \<open>\<open>DELETE FROM leads\<close>: comments go with it, commissions lose the reference.\<close>

definition delete_lead :: "gid \<Rightarrow> gid \<Rightarrow> (db, unit) prog" where
  "delete_lead tenant lid =
     bind (auto (exec (\<lambda>s. let q = is_lead tenant lid; n = affected q (leads s) in
        Some (n, if n = 0 then s else s\<lparr>leads := filter (\<lambda>l. \<not> q l) (leads s),
          lead_comments := filter (\<lambda>c. lc_lead c \<noteq> lid) (lead_comments s),
          commissions := map (\<lambda>e. e\<lparr>cm_lead := (if cm_lead e = Some lid then None else cm_lead e)\<rparr>) (commissions s)\<rparr>)))) (\<lambda>n.
     if n = 0 then raise Not_found else ret ())"

definition lead_customer :: "gid \<Rightarrow> gid option \<Rightarrow> string \<Rightarrow> lead \<Rightarrow> gid option \<Rightarrow> gid option \<Rightarrow> customer" where
  "lead_customer tenant cluster code l r u =
     \<lparr>cust_id = 0, cust_tenant = tenant, cust_cluster = cluster, cust_code = code, cust_name = ld_name l, cust_email = ld_email l,
      cust_phone = trim_space (ld_phone l), cust_address = ld_address l, cust_lat = ld_lat l, cust_lng = ld_lng l,
      cust_identity_type = ld_identity_type l, cust_identity_number = ld_identity_number l, cust_active = True, cust_portal = True,
      cust_photo = None, cust_dismantled = None, cust_password = None, cust_created = 0, cust_reseller = r, cust_sales = u\<rparr>"

text \<open>\<open>ConvertLeadToCustomer\<close>: several statements, each its own transaction.  Copying the documents, whose
  error is ignored, is left out.\<close>

definition convert_lead_to_customer ::
  "world \<Rightarrow> gid \<Rightarrow> gid \<Rightarrow> gid option \<Rightarrow> string \<Rightarrow> gid option \<Rightarrow> gid option \<Rightarrow> string \<Rightarrow> (db, gid \<times> lead) prog" where
  "convert_lead_to_customer w tenant lid cluster customer_code reseller sales basis =
     bind (get_lead tenant lid) (\<lambda>v. let l = ldv_row v in
     if ld_status l = ''converted'' \<or> ld_customer l \<noteq> None then raise (Rejected ''lead sudah dikonversi'')
     else if trim_space (ld_phone l) = [] then raise (Rejected ''telepon lead wajib untuk konversi'')
     else bind (if trim_space customer_code \<noteq> [] then ret (trim_space customer_code)
           else case cluster of Some c \<Rightarrow> next_customer_code_for_cluster w tenant c | None \<Rightarrow> next_customer_code w tenant) (\<lambda>code.
       let (r, u) = (case normalize_attribution reseller sales of (None, None) \<Rightarrow> normalize_attribution (ld_reseller l) (ld_sales l) | ru \<Rightarrow> ru) in
       bind (create_customer (w_now w) (lead_customer tenant cluster code l r u)) (\<lambda>cid.
       bind (auto (exec (update_leads (is_lead tenant lid) (\<lambda>x. x\<lparr>ld_status := ''converted'', ld_customer := Some cid,
           ld_converted_at := Some (w_now w), ld_reseller := r, ld_sales := u\<rparr>)))) (\<lambda>_.
       bind (attempt (credit_commission (w_now w) tenant cid (Some lid) r u basis)) (\<lambda>_.
       ret (cid, l\<lparr>ld_status := ''converted'', ld_customer := Some cid, ld_converted_at := Some (w_now w), ld_reseller := r, ld_sales := u\<rparr>))))))"


section \<open>Balances of resellers\<close>

definition commission_weight :: "commission \<Rightarrow> int" where
  "commission_weight e = (if cm_status e = ''void'' then 0 else cm_amount e)"

definition reseller_of :: "commission \<Rightarrow> gid" where
  "reseller_of e = (case cm_reseller e of None \<Rightarrow> nil_id | Some r \<Rightarrow> r)"

definition reseller_entries :: "db \<Rightarrow> commission list" where
  "reseller_entries s = filter (\<lambda>e. cm_reseller e \<noteq> None) (commissions s)"

interpretation reseller_balance: running_balance rs_id rs_balance "\<lambda>d r. r\<lparr>rs_balance := rs_balance r + d\<rparr>" reseller_of commission_weight
  by unfold_locales simp_all

end
