(* ===== verification/Sales_Facts.thy ===== *)
theory Sales_Facts
  imports Sales Plan_Changes
begin

text \<open>
  What the sales operations promise of commissions: a reseller's balance is the sum of the
  reseller's commissions that are not void, after any calls under any failures; and which
  deletions break or refuse it.
\<close>

section \<open>The invariant\<close>

text \<open>\<open>commissions_off k d X\<close>: the balance of reseller \<open>k\<close> is off by \<open>d\<close>; entries belong to the tenant of
  their reseller, but for the pairs in \<open>X\<close>.\<close>

definition commissions_off :: "gid \<Rightarrow> int \<Rightarrow> (gid \<Rightarrow> gid \<Rightarrow> bool) \<Rightarrow> db \<Rightarrow> bool" where
  "commissions_off k d X s \<longleftrightarrow>
     off_by rs_id rs_balance reseller_of commission_weight k d (resellers s) (reseller_entries s)
     \<and> fresh_keys cm_id (commissions s) (next_id s) \<and> fresh_keys rs_id (resellers s) (next_id s)
     \<and> (\<forall>e\<in>set (commissions s). 0 \<le> cm_amount e)
     \<and> (\<forall>e\<in>set (commissions s). \<forall>r\<in>set (resellers s). cm_reseller e = Some (rs_id r) \<longrightarrow>
          cm_tenant e = rs_tenant r \<or> X (rs_id r) (cm_tenant e))"

definition commissions_balance :: "db \<Rightarrow> bool" where
  "commissions_balance = commissions_off 0 0 (\<lambda>_ _. False)"

lemma stable_commissions: "stable (commissions_off k d X)" "stable commissions_balance"
  by (simp_all add: stable_def commissions_off_def commissions_balance_def reseller_entries_def)

lemma off_by_zero: "off_by hkey bal rkey w k 0 hs rs = off_by hkey bal rkey w j 0 hs rs"
  by (simp add: off_by_def)

lemma commissions_off_0: "commissions_off k 0 X = commissions_off 0 0 X"
  by (rule ext) (simp add: commissions_off_def off_by_def)

text \<open>An assertion about other tables does not see sales writes, and this one does not see others.\<close>

lemma commissions_frame:
  assumes "commissions s' = commissions s" "resellers s' = resellers s" "next_id s \<le> next_id s'" "commissions_off k d X s"
  shows "commissions_off k d X s'"
  using assms fresh_keys_mono [of cm_id "commissions s" "next_id s" "next_id s'"] fresh_keys_mono [of rs_id "resellers s" "next_id s" "next_id s'"]
  by (simp add: commissions_off_def reseller_entries_def)

lemma insert_commission_off:
  assumes u: "insert_commission e s = Some (x, s')" and ok: "commissions_balance s"
  shows "commissions_off (reseller_of e) (if cm_reseller e = None then 0 else - commission_weight e)
     (\<lambda>r t. Some r = cm_reseller e \<and> t = cm_tenant e) s' \<and> x = next_id s"
proof -
  let ?e = "e\<lparr>cm_id := next_id s\<rparr>"
  have s': "s' = s\<lparr>next_id := Suc (next_id s), commissions := commissions s @ [?e]\<rparr>" "x = next_id s" and c: "commission_ok s e"
    using u by (auto simp: insert_commission_def split: if_splits)
  have o: "off_by rs_id rs_balance reseller_of commission_weight (reseller_of e) 0 (resellers s) (reseller_entries s)"
    using ok off_by_zero unfolding commissions_balance_def commissions_off_def by metis
  have same: "reseller_of ?e = reseller_of e" "commission_weight ?e = commission_weight e"
    by (simp_all add: reseller_of_def commission_weight_def)
  have "off_by rs_id rs_balance reseller_of commission_weight (reseller_of e) (if cm_reseller e = None then 0 else - commission_weight e)
      (resellers s) (reseller_entries s')"
  proof (cases "cm_reseller e")
    case None
    then show ?thesis using o by (simp add: s' reseller_entries_def)
  next
    case (Some r)
    then have "reseller_of e \<in> rs_id ` set (resellers s)"
      using c by (auto simp: commission_ok_def refers_def reseller_of_def list_ex_iff)
    then show ?thesis using reseller_balance.append_row [OF o same(1)] Some same(2) by (simp add: s' reseller_entries_def)
  qed
  then show ?thesis
    using ok c fresh_keys_append [of cm_id "commissions s" "next_id s" ?e] fresh_keys_mono [of rs_id "resellers s" "next_id s" "Suc (next_id s)"]
    by (auto simp: s' commissions_off_def commissions_balance_def commission_ok_def)
qed

lemma reseller_shift:
  assumes off: "commissions_off k d X s" and u: "update_resellers (is_reseller t k) (\<lambda>x. x\<lparr>rs_balance := rs_balance x + a\<rparr>) s = Some (n, s')"
    and n: "n \<noteq> 0" and X: "\<And>r u. X r u \<Longrightarrow> r = k \<and> u = t"
  shows "commissions_off k (d + a) (\<lambda>_ _. False) s'"
proof -
  let ?f = "\<lambda>x. x\<lparr>rs_balance := rs_balance x + a\<rparr>"
  have s': "s' = s\<lparr>resellers := update_rows (is_reseller t k) ?f (resellers s)\<rparr>" "n = affected (is_reseller t k) (resellers s)"
    using u by (auto simp: update_resellers_def split: if_splits)
  obtain r0 where r0: "r0 \<in> set (resellers s)" "is_reseller t k r0" using n s'(2) by (auto simp: affected_0)
  have d: "distinct (map rs_id (resellers s))" using off by (simp add: commissions_off_def fresh_keys_def)
  have own: "is_reseller t k r \<longleftrightarrow> rs_id r = k" if "r \<in> set (resellers s)" for r
    using unique_row [OF d that r0(1)] r0(2) by (auto simp: is_reseller_def)
  have "off_by rs_id rs_balance reseller_of commission_weight k (d + a) (resellers s') (reseller_entries s')"
    using reseller_balance.shift [of k d "resellers s" "reseller_entries s" "is_reseller t k" a, OF _ own] off
    by (simp add: s' commissions_off_def reseller_entries_def)
  moreover have "fresh_keys rs_id (resellers s') (next_id s')"
    using off fresh_keys_update [of rs_id ?f "is_reseller t k" "resellers s" "next_id s"] by (simp add: s' commissions_off_def)
  moreover have "cm_tenant e = rs_tenant r" if h: "e \<in> set (commissions s)" "r \<in> set (resellers s')" "cm_reseller e = Some (rs_id r)" for e r
  proof -
    obtain r1 where r1: "r1 \<in> set (resellers s)" "r = (if is_reseller t k r1 then ?f r1 else r1)"
      using h(2) unfolding s'(1) by (auto simp: set_update_rows)
    then have "rs_id r = rs_id r1" "rs_tenant r = rs_tenant r1" by simp_all
    moreover have "cm_tenant e = rs_tenant r1 \<or> X (rs_id r1) (cm_tenant e)"
      using off h(1,3) r1(1) calculation by (simp add: commissions_off_def)
    ultimately show ?thesis using X own [OF r1(1)] by (auto simp: is_reseller_def)
  qed
  ultimately show ?thesis using off by (simp add: s'(1) commissions_off_def)
qed

section \<open>The operations keep it\<close>

lemma keeps_apart:
  assumes "\<And>s x s'. u s = Some (x, s') \<Longrightarrow> commissions s' = commissions s \<and> resellers s' = resellers s \<and> next_id s \<le> next_id s'"
  shows "keeps commissions_balance (exec u)"
  by (rule keeps_exec [OF stable_commissions(2)]) (use assms commissions_frame in \<open>unfold commissions_balance_def, blast\<close>)

lemmas commission_steps = keeps_auto [OF stable_commissions(2)] keeps_set_tenant [OF stable_commissions(2)] keeps_apart

lemma move_to_reseller:
  "gives (commissions_off rid (- a) (\<lambda>r0 t0. r0 = rid \<and> t0 = t))
     (bind (exec (update_resellers (is_reseller t rid) (\<lambda>x. x\<lparr>rs_balance := rs_balance x + a\<rparr>))) (\<lambda>n.
        if n = 0 then raise e else ret ())) (\<lambda>_. commissions_balance)"
proof (rule gives_bind)
  show "gives (commissions_off rid (- a) (\<lambda>r0 t0. r0 = rid \<and> t0 = t))
      (exec (update_resellers (is_reseller t rid) (\<lambda>x. x\<lparr>rs_balance := rs_balance x + a\<rparr>)))
      (\<lambda>n s. n \<noteq> 0 \<longrightarrow> commissions_balance s)"
  proof (rule gives_exec [OF stable_commissions(1)], intro impI)
    fix s n s' assume h: "commissions_off rid (- a) (\<lambda>r0 t0. r0 = rid \<and> t0 = t) s"
      "update_resellers (is_reseller t rid) (\<lambda>x. x\<lparr>rs_balance := rs_balance x + a\<rparr>) s = Some (n, s')" "n \<noteq> 0"
    have "commissions_off rid (- a + a) (\<lambda>_ _. False) s'" by (rule reseller_shift [OF h]) simp
    then show "commissions_balance s'" unfolding commissions_balance_def by (simp add: commissions_off_0 [of rid])
  qed
  show "gives (\<lambda>s. n \<noteq> 0 \<longrightarrow> commissions_balance s) (if n = 0 then raise e else ret ()) (\<lambda>_. commissions_balance)" for n
    by (simp add: gives_def ret_def)
qed

lemma credit_commission_balance: "keeps commissions_balance (credit_commission now t c l r0 u0 basis)"
proof -
  obtain r u where ru: "normalize_attribution r0 u0 = (r, u)" by fastforce
  define e where "e = (\<lambda>amount. \<lparr>cm_id = 0, cm_tenant = t, cm_customer = c, cm_lead = l, cm_reseller = r, cm_sales = u,
      cm_amount = amount, cm_basis = normalize_commission_basis basis, cm_status = ''pending'', cm_note = None, cm_created = now,
      cm_paid_at = None\<rparr>)"
  have fields: "cm_reseller (e a) = r" "cm_tenant (e a) = t" "commission_weight (e a) = a" for a
    by (simp_all add: e_def commission_weight_def)
  let ?off = "\<lambda>a. commissions_off (reseller_of (e a)) (if r = None then 0 else - a) (\<lambda>r0 t0. Some r0 = r \<and> t0 = t)"
  let ?credit = "\<lambda>a. case r of None \<Rightarrow> ret ()
        | Some rid \<Rightarrow> bind (exec (update_resellers (is_reseller t rid) (\<lambda>x. x\<lparr>rs_balance := rs_balance x + a\<rparr>))) (\<lambda>n.
            if n = 0 then raise (Rejected ''reseller tidak ditemukan'') else ret ())"
  have written: "gives commissions_balance (exec (insert_commission (e a))) (\<lambda>_. ?off a)" for a
    by (rule gives_exec [OF stable_commissions(2)], drule insert_commission_off, assumption) (simp only: fields)
  have moved: "gives (?off a) (?credit a) (\<lambda>_. commissions_balance)" for a
  proof (cases r)
    case None
    have "commissions_off (reseller_of (e a)) 0 (\<lambda>r0 t0. False) = commissions_balance"
      unfolding commissions_balance_def by (rule commissions_off_0)
    then show ?thesis by (simp add: None gives_ret)
  next
    case (Some rid)
    have "reseller_of (e a) = rid" using fields(1) [of a] by (simp add: Some reseller_of_def)
    then show ?thesis using move_to_reseller by (simp add: Some)
  qed
  have "keeps commissions_balance (tx (bind (exec (insert_commission (e a))) (\<lambda>eid.
      bind (?credit a) (\<lambda>_. ret (Some ((e a)\<lparr>cm_id := eid\<rparr>))))))" for a
    by (intro keeps_tx [OF stable_commissions(2)] gives_bind [OF written] gives_bind [OF moved] gives_ret)
  then show ?thesis
    unfolding credit_commission_def ru Let_def prod.case get_commission_settings_def or_default_row_def get_setting_def e_def
    by (intro keeps_intros stable_commissions)
qed

text \<open>Voiding an entry takes its amount off the balance, which holds at least that much.\<close>

definition own_entry :: "gid \<Rightarrow> gid \<Rightarrow> commission \<Rightarrow> db \<Rightarrow> bool" where
  "own_entry t eid e s \<longleftrightarrow> e \<in> set (commissions s) \<and> is_commission t eid e"

lemma balance_covers:
  assumes off: "commissions_off k d X s" and k: "r \<in> set (resellers s)" "rs_id r = k"
  shows "d \<le> rs_balance r"
proof -
  have "rs_balance r = sum_where (\<lambda>e. reseller_of e = k) commission_weight (reseller_entries s) + d"
    using off k by (simp add: commissions_off_def off_by_def)
  moreover have "0 \<le> sum_where (\<lambda>e. reseller_of e = k) commission_weight (reseller_entries s)"
    using off by (intro sum_where_nonneg) (auto simp: commissions_off_def reseller_entries_def commission_weight_def)
  ultimately show ?thesis by simp
qed

lemma void_entry_off:
  assumes ok: "commissions_balance s" and e: "own_entry t eid e s" and v: "cm_status e \<noteq> ''void''"
    and u: "update_commissions (\<lambda>x. is_commission t eid x \<and> cm_status x \<in> {''pending'', ''paid''}) (\<lambda>x. x\<lparr>cm_status := ''void''\<rparr>) s = Some (n, s')"
    and n: "n \<noteq> 0"
  shows "commissions_off (reseller_of e) (if cm_reseller e = None then 0 else cm_amount e) (\<lambda>_ _. False) s'
    \<and> (\<forall>rid. cm_reseller e = Some rid \<longrightarrow> (\<exists>r\<in>set (resellers s'). is_reseller t rid r))"
proof -
  let ?q = "\<lambda>x. is_commission t eid x \<and> cm_status x \<in> {''pending'', ''paid''}" and ?f = "\<lambda>x. x\<lparr>cm_status := ''void''\<rparr>"
  have s': "s' = s\<lparr>commissions := update_rows ?q ?f (commissions s)\<rparr>" "n = affected ?q (commissions s)"
    using u by (auto simp: update_commissions_def)
  have d: "distinct (map cm_id (commissions s))" using ok by (simp add: commissions_balance_def commissions_off_def fresh_keys_def)
  obtain x where x: "x \<in> set (commissions s)" "?q x" using n s'(2) by (auto simp: affected_0)
  have own: "?q y \<longleftrightarrow> cm_id y = cm_id e" if h: "y \<in> set (commissions s)" for y
  proof
    show "?q y \<Longrightarrow> cm_id y = cm_id e" using e by (simp add: own_entry_def is_commission_def)
    assume "cm_id y = cm_id e"
    then have "cm_id y = cm_id x" using e x(2) by (simp add: own_entry_def is_commission_def)
    then show "?q y" using unique_row [OF d h x(1)] x(2) by simp
  qed
  have entries: "reseller_entries s' = update_rows ?q ?f (reseller_entries s)"
    unfolding reseller_entries_def s'(1) by (simp add: update_rows_def filter_map comp_def if_distrib [of cm_reseller] cong: if_cong)
  have parts: "off_by rs_id rs_balance reseller_of commission_weight k 0 (resellers s) (reseller_entries s)"
      "\<And>y. y \<in> set (commissions s) \<Longrightarrow> 0 \<le> cm_amount y" "fresh_keys cm_id (commissions s) (next_id s)" "fresh_keys rs_id (resellers s) (next_id s)"
      "\<And>y r. y \<in> set (commissions s) \<Longrightarrow> r \<in> set (resellers s) \<Longrightarrow> cm_reseller y = Some (rs_id r) \<Longrightarrow> cm_tenant y = rs_tenant r" for k
    using ok unfolding commissions_balance_def commissions_off_def by (simp_all add: off_by_def)
  have mem: "e \<in> set (commissions s)" "cm_tenant e = t" using e by (simp_all add: own_entry_def is_commission_def)
  have moved: "off_by rs_id rs_balance reseller_of commission_weight (reseller_of e) (if cm_reseller e = None then 0 else cm_amount e)
      (resellers s) (update_rows ?q ?f (reseller_entries s))"
  proof (cases "cm_reseller e")
    case None
    have "\<not> ?q y" if h: "y \<in> set (reseller_entries s)" for y
    proof
      assume "?q y"
      then have "cm_id e = cm_id y" using own [of y] h by (simp add: reseller_entries_def)
      then have "e = y" using unique_row [OF d mem(1)] h by (simp add: reseller_entries_def)
      then show False using h None by (simp add: reseller_entries_def)
    qed
    then have "update_rows ?q ?f (reseller_entries s) = reseller_entries s" by (rule update_rows_none)
    then show ?thesis using parts(1) by (simp add: None)
  next
    case (Some rid)
    have in_e: "e \<in> set (reseller_entries s)" using mem(1) Some by (simp add: reseller_entries_def)
    have d_e: "distinct (map cm_id (reseller_entries s))" unfolding reseller_entries_def by (rule distinct_map_filter [OF d])
    have own_e: "?q y \<longleftrightarrow> cm_id y = cm_id e" if h: "y \<in> set (reseller_entries s)" for y
      using own [of y] h by (simp add: reseller_entries_def)
    have "off_by rs_id rs_balance reseller_of commission_weight (reseller_of e) (0 + commission_weight e - commission_weight (?f e))
       (resellers s) (update_rows ?q ?f (reseller_entries s))"
      by (rule reseller_balance.reweigh [OF parts(1) d_e in_e refl _ own_e]) (simp_all add: reseller_of_def)
    then show ?thesis using v by (simp add: Some commission_weight_def)
  qed
  have "commissions_off (reseller_of e) (if cm_reseller e = None then 0 else cm_amount e) (\<lambda>_ _. False) s'"
    using parts(2,3,4,5) fresh_keys_update [of cm_id ?f ?q "commissions s" "next_id s"] moved unfolding commissions_off_def entries
    by (auto simp: s'(1) set_update_rows)
  moreover have "\<exists>r\<in>set (resellers s'). is_reseller t rid r" if h: "cm_reseller e = Some rid" for rid
  proof -
    have "e \<in> set (reseller_entries s)" "reseller_of e = rid" using mem(1) h by (simp_all add: reseller_entries_def reseller_of_def)
    then have "rid \<in> rs_id ` set (resellers s)" using parts(1) unfolding off_by_def by metis
    then obtain r where "r \<in> set (resellers s)" "rs_id r = rid" by blast
    then show ?thesis using parts(5) [OF mem(1), of r] h mem(2) by (auto simp: s'(1) is_reseller_def)
  qed
  ultimately show ?thesis by blast
qed

lemma take_from_reseller:
  assumes off: "commissions_off rid a (\<lambda>_ _. False) s" and r: "\<exists>r\<in>set (resellers s). is_reseller t rid r"
    and u: "update_resellers (is_reseller t rid) (\<lambda>x. x\<lparr>rs_balance := max 0 (rs_balance x - a)\<rparr>) s = Some (n, s')"
  shows "commissions_balance s'"
proof -
  have same: "max 0 (rs_balance x - a) = rs_balance x + - a" if h: "x \<in> set (resellers s)" "is_reseller t rid x" for x
    using balance_covers [OF off h(1)] h(2) by (simp add: is_reseller_def)
  have upd: "update_rows (is_reseller t rid) (\<lambda>x. x\<lparr>rs_balance := max 0 (rs_balance x - a)\<rparr>) (resellers s)
      = update_rows (is_reseller t rid) (\<lambda>x. x\<lparr>rs_balance := rs_balance x + - a\<rparr>) (resellers s)"
    unfolding update_rows_def by (rule map_cong [OF refl]) (use same in auto)
  have "int64_ok (rs_balance x + - a)" if h: "x \<in> set (resellers s)" "is_reseller t rid x" for x
  proof -
    have "int64_ok (max 0 (rs_balance x - a))" using u h by (auto simp: update_resellers_def list_all_iff split: if_splits)
    then show ?thesis unfolding same [OF h] .
  qed
  then have "update_resellers (is_reseller t rid) (\<lambda>x. x\<lparr>rs_balance := rs_balance x + - a\<rparr>) s = Some (n, s')"
    using u upd by (auto simp: update_resellers_def list_all_iff split: if_splits)
  moreover have "n \<noteq> 0"
    using u r affected_0 [of "is_reseller t rid" "resellers s"] by (auto simp: update_resellers_def split: if_splits)
  ultimately have "commissions_off rid (a + - a) (\<lambda>_ _. False) s'" by (rule reseller_shift [OF off]) simp
  then show ?thesis unfolding commissions_balance_def by (simp add: commissions_off_0 [of rid])
qed

lemma safe_if: "(b \<Longrightarrow> safe R P m) \<Longrightarrow> (\<not> b \<Longrightarrow> safe R P n) \<Longrightarrow> safe R P (if b then m else n)"
  by simp

lemma void_commission_balance: "keeps commissions_balance (void_commission_entry t eid)"
proof -
  let ?P = "\<lambda>e s. commissions_balance s \<and> own_entry t eid e s"
  let ?void = "\<lambda>e. exec (update_commissions (\<lambda>x. is_commission t eid x \<and> cm_status x \<in> {''pending'', ''paid''}) (\<lambda>x. x\<lparr>cm_status := ''void''\<rparr>))"
  let ?R = "\<lambda>e n s. n \<noteq> 0 \<longrightarrow> commissions_off (reseller_of e) (if cm_reseller e = None then 0 else cm_amount e) (\<lambda>_ _. False) s
    \<and> (\<forall>rid. cm_reseller e = Some rid \<longrightarrow> (\<exists>r\<in>set (resellers s). is_reseller t rid r))"
  have stable: "stable (?P e)" "stable (\<lambda>s. \<forall>v. row = Some v \<longrightarrow> ?P (cmv_row v) s)" "stable (?R e n)" for e row n
    using stable_commissions by (simp_all add: stable_def own_entry_def)
  have found: "gives commissions_balance (get_commission_entry t eid) (\<lambda>v. ?P (cmv_row v))"
    unfolding get_commission_entry_def
  proof (rule gives_bind)
    show "gives commissions_balance (auto (query (\<lambda>s. map_option (view_commission s) (first_row (is_commission t eid) (commissions s)))))
        (\<lambda>row s. \<forall>v. row = Some v \<longrightarrow> ?P (cmv_row v) s)"
      by (rule gives_auto_query [OF stable_commissions(2) stable(2)]) (auto simp: own_entry_def view_commission_def dest!: first_row_Some)
    show "gives (\<lambda>s. \<forall>v. row = Some v \<longrightarrow> ?P (cmv_row v) s) (case row of None \<Rightarrow> raise Not_found | Some v \<Rightarrow> ret v) (\<lambda>v. ?P (cmv_row v))" for row
      by (cases row) (simp_all add: gives_ret)
  qed
  have voided: "gives (?P e) (?void e) (?R e)" if h: "cm_status e \<noteq> ''void''" for e
    by (rule gives_exec [OF stable(1)]) (use void_entry_off h in blast)
  have taken: "gives (?R e n)
      (if n = 0 then raise Not_found else case cm_reseller e of None \<Rightarrow> ret ()
       | Some rid \<Rightarrow> bind (exec (update_resellers (is_reseller t rid) (\<lambda>x. x\<lparr>rs_balance := max 0 (rs_balance x - cm_amount e)\<rparr>))) (\<lambda>_. ret ()))
      (\<lambda>_. commissions_balance)" for e n
  proof (cases "cm_reseller e")
    case None
    then show ?thesis
      using commissions_off_0 [of "reseller_of e" "\<lambda>_ _. False"]
      by (auto simp: commissions_balance_def intro!: gives_if gives_ret)
  next
    case (Some rid)
    then have k: "reseller_of e = rid" by (simp add: reseller_of_def)
    have "gives (?R e n) (exec (update_resellers (is_reseller t rid) (\<lambda>x. x\<lparr>rs_balance := max 0 (rs_balance x - cm_amount e)\<rparr>)))
        (\<lambda>_. commissions_balance)" if h: "n \<noteq> 0"
      by (rule gives_exec [OF stable(3)], rule take_from_reseller) (use h Some k in auto)
    then show ?thesis unfolding Some option.case by (intro gives_if gives_raise gives_bind gives_ret)
  qed
  have "safe (?P (cmv_row v)) commissions_balance (let e = cmv_row v in
     if cm_status e = ''void'' then ret ()
     else tx (bind (?void e) (\<lambda>n. if n = 0 then raise Not_found else case cm_reseller e of None \<Rightarrow> ret ()
       | Some rid \<Rightarrow> bind (exec (update_resellers (is_reseller t rid) (\<lambda>x. x\<lparr>rs_balance := max 0 (rs_balance x - cm_amount e)\<rparr>))) (\<lambda>_. ret ()))))" for v
    unfolding Let_def
    by (intro safe_if safe_ret safe_tx [OF stable(1) stable_commissions(2)] gives_bind [OF voided taken]; blast)
  moreover have "keeps commissions_balance (get_commission_entry t eid)"
    unfolding get_commission_entry_def by (intro keeps_intros stable_commissions)
  ultimately show ?thesis
    unfolding keeps_safe void_commission_entry_def by (rule safe_bind [OF _ found, rotated])
qed

text \<open>Rows that change nothing the invariant looks at.\<close>

lemma sum_where_map: "sum_where p g (map f xs) = sum_where (\<lambda>x. p (f x)) (\<lambda>x. g (f x)) xs"
  by (induction xs) auto

lemma commissions_retouched:
  assumes f: "\<And>r. rs_id (f r) = rs_id r \<and> rs_balance (f r) = rs_balance r \<and> rs_tenant (f r) = rs_tenant r"
    and g: "\<And>e. cm_id (g e) = cm_id e \<and> cm_reseller (g e) = cm_reseller e \<and> cm_tenant (g e) = cm_tenant e
        \<and> cm_amount (g e) = cm_amount e \<and> commission_weight (g e) = commission_weight e"
    and s': "resellers (s' :: db) = map f (resellers s)" "commissions s' = map g (commissions s)" "next_id s' = next_id s"
  shows "commissions_balance s' = commissions_balance s"
proof -
  have "reseller_of (g e) = reseller_of e" for e using g by (simp add: reseller_of_def)
  moreover have "reseller_entries s' = map g (reseller_entries s)" using g by (simp add: reseller_entries_def s' filter_map comp_def)
  ultimately show ?thesis
    using f g by (simp add: commissions_balance_def commissions_off_def off_by_def fresh_keys_def s' comp_def sum_where_map image_image)
qed

lemma keeps_retouched:
  fixes u :: "db \<Rightarrow> ('a \<times> db) option"
  assumes "\<And>s x s'. u s = Some (x, s') \<Longrightarrow> commissions_balance s' = commissions_balance s"
  shows "keeps commissions_balance (exec u)"
  by (rule keeps_exec [OF stable_commissions(2)]) (use assms in blast)

lemma mark_commission_paid_balance: "keeps commissions_balance (mark_commission_paid now t eid)"
proof -
  let ?q = "\<lambda>e. is_commission t eid e \<and> cm_status e = ''pending''" and ?f = "\<lambda>e. e\<lparr>cm_status := ''paid'', cm_paid_at := Some now\<rparr>"
  have "commissions_balance s' = commissions_balance s" if h: "update_commissions ?q ?f s = Some (x, s')" for s x s'
    by (rule commissions_retouched [where f = "\<lambda>r. r" and g = "\<lambda>e. if ?q e then ?f e else e"])
      (use h in \<open>auto simp: update_commissions_def update_rows_def commission_weight_def\<close>)
  then show ?thesis unfolding mark_commission_paid_def
    by (intro keeps_intros keeps_retouched stable_commissions)
qed

lemma update_reseller_balance: "keeps commissions_balance (update_reseller r)"
  unfolding update_reseller_def Let_def
proof (intro keeps_intros keeps_retouched stable_commissions)
  fix s s' :: db and x
  let ?q = "is_reseller (rs_tenant r) (rs_id r)"
  assume h: "(if affected ?q (resellers s) = 0 then Some (0, s)
    else case numeric_5_2 (rs_percent r) of None \<Rightarrow> None
      | Some pct \<Rightarrow> Some (affected ?q (resellers s), s\<lparr>resellers := update_rows ?q
          (\<lambda>x. x\<lparr>rs_name := rs_name r, rs_phone := rs_phone r, rs_percent := pct, rs_active := rs_active r\<rparr>) (resellers s)\<rparr>)) = Some (x, s')"
  show "commissions_balance s' = commissions_balance s"
  proof (cases "affected ?q (resellers s) = 0 \<or> numeric_5_2 (rs_percent r) = None")
    case True
    then show ?thesis using h by (auto split: if_splits)
  next
    case False
    then obtain pct where "s' = s\<lparr>resellers := update_rows ?q
          (\<lambda>x. x\<lparr>rs_name := rs_name r, rs_phone := rs_phone r, rs_percent := pct, rs_active := rs_active r\<rparr>) (resellers s)\<rparr>"
      using h by (auto split: if_splits)
    then show ?thesis
      by (intro commissions_retouched [where g = "\<lambda>e. e" and f = "\<lambda>x. if ?q x then
            x\<lparr>rs_name := rs_name r, rs_phone := rs_phone r, rs_percent := pct, rs_active := rs_active r\<rparr> else x"])
        (simp_all add: update_rows_def)
  qed
qed

lemma create_reseller_balance: "keeps commissions_balance (create_reseller_full now r)"
proof -
  have "commissions_balance s'" if ok: "commissions_balance s" and u: "insert_reseller now r s = Some (new, s')" for s new s'
  proof -
    have new: "rs_id new = next_id s" "rs_balance new = 0" and s': "s' = s\<lparr>next_id := Suc (next_id s), resellers := resellers s @ [new]\<rparr>"
      using u by (auto simp: insert_reseller_def Let_def split: option.splits)
    have fresh: "fresh_keys rs_id (resellers s) (next_id s)" "fresh_keys cm_id (commissions s) (next_id s)"
      "agree rs_id rs_balance reseller_of commission_weight (resellers s) (reseller_entries s)"
      using ok by (simp_all add: commissions_balance_def commissions_off_def off_by_0)
    then have "rs_id new \<notin> rs_id ` set (resellers s)" using new(1) by (auto simp: fresh_keys_def)
    then have "off_by rs_id rs_balance reseller_of commission_weight (rs_id new) 0 (resellers s') (reseller_entries s')"
      using reseller_balance.holder_new [OF fresh(3), of new] new(2) by (simp add: s' reseller_entries_def)
    moreover have apart: "reseller_of e \<noteq> rs_id new" if h: "e \<in> set (reseller_entries s)" for e
      using fresh(3) h \<open>rs_id new \<notin> _\<close> unfolding agree_def off_by_def by metis
    have "cm_reseller e \<noteq> Some (rs_id new)" if h: "e \<in> set (commissions s)" for e
      using h apart [of e] by (auto simp: reseller_entries_def reseller_of_def)
    ultimately show ?thesis
      using ok fresh_keys_append [OF fresh(1) new(1)] fresh_keys_mono [OF fresh(2), of "Suc (next_id s)"]
      by (simp add: s' commissions_balance_def commissions_off_def off_by_0)
  qed
  then show ?thesis unfolding create_reseller_full_def
    by (intro keeps_intros keeps_exec stable_commissions)
qed

text \<open>A reseller goes only when no commission refers to it.\<close>

lemma delete_reseller_balance: "keeps commissions_balance (delete_reseller t rid)"
proof -
  have "commissions_balance s'" if ok: "commissions_balance s" and u: "delete_reseller_row t rid s = Some (n, s')" for s n s'
  proof (cases "affected (is_reseller t rid) (resellers s) = 0")
    case True
    then show ?thesis using ok u by (simp add: delete_reseller_row_def)
  next
    case False
    then have free: "\<And>e. e \<in> set (commissions s) \<Longrightarrow> cm_reseller e \<noteq> Some rid"
      and s': "resellers s' = filter (\<lambda>r. \<not> is_reseller t rid r) (resellers s)" "commissions s' = commissions s" "next_id s' = next_id s"
      using u by (auto simp: delete_reseller_row_def Let_def list_ex_iff split: if_splits)
    have off: "off_by rs_id rs_balance reseller_of commission_weight 0 0 (resellers s) (reseller_entries s)"
      using ok by (simp add: commissions_balance_def commissions_off_def)
    have left: "reseller_of e \<in> rs_id ` set (resellers s')" if h: "e \<in> set (reseller_entries s)" for e
    proof -
      obtain r where r: "r \<in> set (resellers s)" "rs_id r = reseller_of e" using off h unfolding off_by_def by (metis imageE)
      have "reseller_of e \<noteq> rid" using h free [of e] by (auto simp: reseller_entries_def reseller_of_def)
      then have "r \<in> set (resellers s')" using r by (simp add: s' is_reseller_def)
      then show ?thesis using r(2) by (metis image_eqI)
    qed
    have "off_by rs_id rs_balance reseller_of commission_weight 0 0 (resellers s') (reseller_entries s)"
      using off left by (simp add: off_by_def s' distinct_map_filter)
    then show ?thesis
      using ok fresh_keys_filter [of rs_id "resellers s" "next_id s"]
      by (simp add: commissions_balance_def commissions_off_def s' reseller_entries_def)
  qed
  then show ?thesis unfolding delete_reseller_def by (intro keeps_intros keeps_exec stable_commissions)
qed

lemma delete_lead_balance: "keeps commissions_balance (delete_lead t lid)"
  unfolding delete_lead_def Let_def
proof (intro keeps_intros keeps_retouched stable_commissions)
  fix s s' :: db and x
  let ?q = "is_lead t lid" let ?n = "affected ?q (leads s)"
  let ?g = "\<lambda>e. e\<lparr>cm_lead := (if cm_lead e = Some lid then None else cm_lead e)\<rparr>"
  assume "Some (?n, if ?n = 0 then s else s\<lparr>leads := filter (\<lambda>l. \<not> ?q l) (leads s),
      lead_comments := filter (\<lambda>c. lc_lead c \<noteq> lid) (lead_comments s), commissions := map ?g (commissions s)\<rparr>) = Some (x, s')"
  then have "s' = s \<or> resellers s' = map (\<lambda>r. r) (resellers s) \<and> commissions s' = map ?g (commissions s) \<and> next_id s' = next_id s"
    by (auto split: if_splits)
  then show "commissions_balance s' = commissions_balance s"
    using commissions_retouched [of "\<lambda>r. r" ?g s' s] by (auto simp: commission_weight_def)
qed

text \<open>Leads, customers and codes are other tables.\<close>

lemma keeps_lead_writes:
  "keeps commissions_balance (create_lead now l)"
  "keeps commissions_balance (update_lead l)"
  "keeps commissions_balance (update_lead_status t lid st a)"
  "keeps commissions_balance (assign_lead t lid a)"
  "keeps commissions_balance (add_lead_activity now t lid u kind msg images)"
proof -
  have w: "keeps commissions_balance (changed_leads q f)" for q f
    unfolding changed_leads_def by (intro keeps_intros stable_commissions keeps_apart) (auto simp: update_leads_def split: if_splits)
  have g: "keeps commissions_balance (get_lead t lid)" for t lid
    unfolding get_lead_def by (intro keeps_intros stable_commissions)
  show "keeps commissions_balance (create_lead now l)" unfolding create_lead_def Let_def
    by (intro keeps_intros stable_commissions keeps_apart) (auto simp: insert_lead_def Let_def split: if_splits)
  show "keeps commissions_balance (update_lead l)" unfolding update_lead_def Let_def by (intro keeps_intros w)
  show "keeps commissions_balance (update_lead_status t lid st a)" unfolding update_lead_status_def Let_def by (intro keeps_intros w g)
  show "keeps commissions_balance (assign_lead t lid a)" unfolding assign_lead_def by (intro keeps_intros w)
  show "keeps commissions_balance (add_lead_activity now t lid u kind msg images)" unfolding add_lead_activity_def Let_def
    by (intro keeps_intros g stable_commissions keeps_apart) (auto simp: insert_lead_comment_def Let_def split: if_splits)
qed

lemma keeps_code_writes [keeps_intros]:
  assumes "stable P" and "\<And>s cs. P (s\<lparr>code_seqs := cs\<rparr>) = P s"
  shows "keeps P (next_customer_code_for_cluster w t cid)"
proof -
  have "keeps P (alloc_cluster_code w t cid)"
    unfolding alloc_cluster_code_def with_tenant_def cluster_row_def
    by (intro keeps_tx assms(1) gives_keeps keeps_intros keeps_exec)
      (use assms(2) in \<open>auto simp: advance_sequence_def Let_def split: if_splits\<close>)
  then have "keeps P (cluster_code_tries w t cid k)" for k
    by (induction k) (auto intro!: keeps_intros assms(1) simp: customer_code_taken_def)
  then show ?thesis by (simp add: next_customer_code_for_cluster_def)
qed

lemma keeps_try_codes: "stable P \<Longrightarrow> (\<And>i. keeps P (draw i)) \<Longrightarrow> (\<And>c. keeps P (taken c)) \<Longrightarrow> keeps P (try_codes e draw taken is)"
  by (induction "is") (auto intro!: keeps_intros)

lemma keeps_next_customer_code [keeps_intros]: "stable P \<Longrightarrow> keeps P (next_customer_code w t)"
  unfolding next_customer_code_def counted_code_def customer_code_taken_def by (intro keeps_intros keeps_try_codes)

lemma convert_lead_balance: "keeps commissions_balance (convert_lead_to_customer w t lid cluster code r u basis)"
proof -
  have c: "keeps commissions_balance (create_customer now c)" for now c
    unfolding create_customer_def
    by (intro keeps_intros stable_commissions keeps_apart) (auto simp: insert_customer_def split: if_splits)
  have n: "keeps commissions_balance (next_customer_code_for_cluster w t cid)" for cid
    by (intro keeps_code_writes stable_commissions) (simp add: commissions_balance_def commissions_off_def reseller_entries_def)
  have l: "keeps commissions_balance (exec (update_leads q f))" for q f
    by (rule keeps_apart) (auto simp: update_leads_def split: if_splits)
  show ?thesis unfolding convert_lead_to_customer_def Let_def get_lead_def
    by (intro keeps_intros stable_commissions c n l credit_commission_balance)
qed

section \<open>The system\<close>

text \<open>Every sales call, and any change that leaves commissions and resellers alone.\<close>

inductive sales_step :: "db \<Rightarrow> db \<Rightarrow> bool" where
  credited: "sales_step s (snd (credit_commission now t c l r u basis s))"
| paid: "sales_step s (snd (mark_commission_paid now t eid s))"
| voided: "sales_step s (snd (void_commission_entry t eid s))"
| reseller_created: "sales_step s (snd (create_reseller_full now r s))"
| reseller_updated: "sales_step s (snd (update_reseller r s))"
| reseller_deleted: "sales_step s (snd (delete_reseller t rid s))"
| lead_created: "sales_step s (snd (create_lead now l s))"
| lead_updated: "sales_step s (snd (update_lead l s))"
| lead_moved: "sales_step s (snd (update_lead_status t lid st a s))"
| lead_assigned: "sales_step s (snd (assign_lead t lid a s))"
| lead_commented: "sales_step s (snd (add_lead_activity now t lid u kind msg images s))"
| lead_deleted: "sales_step s (snd (delete_lead t lid s))"
| lead_converted: "sales_step s (snd (convert_lead_to_customer w t lid cluster code r u basis s))"
| elsewhere: "commissions s' = commissions s \<Longrightarrow> resellers s' = resellers s \<Longrightarrow> next_id s \<le> next_id s' \<Longrightarrow> sales_step s s'"

inductive_cases sales_stepE: "sales_step s s'"

lemmas sales_calls_keep = credit_commission_balance mark_commission_paid_balance void_commission_balance create_reseller_balance
  update_reseller_balance delete_reseller_balance keeps_lead_writes delete_lead_balance convert_lead_balance

lemma sales_step_ok: "sales_step s s' \<Longrightarrow> commissions_balance s \<Longrightarrow> commissions_balance s'"
proof (induction rule: sales_step.induct)
  case (elsewhere s' s)
  then show ?case using commissions_frame unfolding commissions_balance_def by blast
qed (blast intro: keepsD sales_calls_keep)+

lemma sales_reachable: "sales_step\<^sup>*\<^sup>* empty_db s \<Longrightarrow> commissions_balance s"
proof (induction rule: rtranclp_induct)
  case base
  then show ?case by (simp add: commissions_balance_def commissions_off_def off_by_def fresh_keys_def empty_db_def reseller_entries_def)
qed (rule sales_step_ok)

lemma reseller_sum:
  assumes "commissions_balance s" and "r \<in> set (resellers s)"
  shows "rs_balance r = sum_where (\<lambda>e. cm_reseller e = Some (rs_id r)) commission_weight (commissions s)"
proof -
  have "sum_where (\<lambda>e. reseller_of e = k) commission_weight (filter (\<lambda>e. cm_reseller e \<noteq> None) xs)
      = sum_where (\<lambda>e. cm_reseller e = Some k) commission_weight xs" for k xs
    by (induction xs) (auto simp: reseller_of_def)
  then show ?thesis using assms by (simp add: commissions_balance_def commissions_off_def off_by_def reseller_entries_def)
qed

section \<open>A sample\<close>

text \<open>A customer, two resellers, and a commission of 5000 for the first of them.\<close>

definition sample_reseller :: reseller where
  "sample_reseller = \<lparr>rs_id = 0, rs_tenant = 1, rs_user = None, rs_name = ''Ani'', rs_phone = None, rs_percent = 5, rs_balance = 0,
     rs_active = True, rs_created = 0\<rparr>"

definition sample_market :: db where
  "sample_market = empty_db\<lparr>customers := [sample_customer], commission_rows := [(1, \<lparr>cs_new_customer = 5000, cs_acquisition = 0\<rparr>)],
     next_id := 10\<rparr>"

definition sample_resellers_db :: db where
  "sample_resellers_db = snd (create_reseller_full 3 sample_reseller (snd (create_reseller_full 2 sample_reseller sample_market)))"

definition sample_commission_db :: db where
  "sample_commission_db = snd (credit_commission_for_new_customer 4 1 (cust_id sample_customer) None (Some 10) None sample_resellers_db)"

lemma sample_commission_steps: "sales_step\<^sup>*\<^sup>* empty_db sample_commission_db"
proof -
  have "sales_step empty_db sample_market" by (rule elsewhere) (simp_all add: sample_market_def empty_db_def)
  then show ?thesis
    unfolding sample_commission_db_def sample_resellers_db_def credit_commission_for_new_customer_def
    by (meson credited reseller_created r_into_rtranclp rtranclp.rtrancl_into_rtrancl)
qed

lemma sample_commission_values:
  "map rs_balance (resellers sample_commission_db) = [5000, 0]" "map cm_amount (commissions sample_commission_db) = [5000]"
  "map cm_reseller (commissions sample_commission_db) = [Some 10]" "map rs_id (resellers sample_commission_db) = [10, 11]"
  by code_simp+

section \<open>Properties\<close>

text \<open>C11: After any sequence of sales calls and of other changes that leave the two tables alone, under any failures, a reseller's balance
  is the sum of the reseller's commissions that are not void; it is never negative, so that the
  \<open>GREATEST(0, ...)\<close> of \<open>VoidCommissionEntry\<close> never cuts anything off; and entries are of the reseller's tenant.\<close>

theorem reseller_balance_adds_up:
  assumes "sales_step\<^sup>*\<^sup>* empty_db s" and "r \<in> set (resellers s)"
  shows "rs_balance r = sum_where (\<lambda>e. cm_reseller e = Some (rs_id r)) commission_weight (commissions s)
    \<and> 0 \<le> rs_balance r
    \<and> (\<forall>e\<in>set (commissions s). cm_reseller e = Some (rs_id r) \<longrightarrow> cm_tenant e = rs_tenant r)"
proof -
  have ok: "commissions_balance s" using assms(1) by (rule sales_reachable)
  have "rs_balance r = sum_where (\<lambda>e. cm_reseller e = Some (rs_id r)) commission_weight (commissions s)"
    using ok assms(2) by (rule reseller_sum)
  moreover have "0 \<le> rs_balance r"
    using balance_covers [of "rs_id r" 0 "\<lambda>_ _. False" s r] ok assms(2) by (simp add: commissions_balance_def commissions_off_0 [of "rs_id r"])
  ultimately show ?thesis using ok assms(2) by (simp add: commissions_balance_def commissions_off_def)
qed

lemma reseller_balance_adds_up_witness:
  "\<exists>r. r \<in> set (resellers sample_commission_db)
    \<and> rs_balance r = sum_where (\<lambda>e. cm_reseller e = Some (rs_id r)) commission_weight (commissions sample_commission_db)
    \<and> rs_balance r = 5000"
proof -
  have "5000 \<in> set (map rs_balance (resellers sample_commission_db))" by (simp add: sample_commission_values)
  then obtain r where "r \<in> set (resellers sample_commission_db)" "rs_balance r = 5000" by auto
  then show ?thesis using reseller_balance_adds_up [OF sample_commission_steps] by blast
qed

text \<open>A reseller with any commission, even a void one, cannot be deleted: the foreign key would clear the
  payee, which the payee constraint refuses.  Under any failures, the call is an error and keeps the reseller.\<close>

theorem reseller_with_commissions_stays:
  assumes "e \<in> set (commissions s)" and "cm_reseller e = Some rid" and "r \<in> set (resellers s)" and "is_reseller t rid r"
  shows "(\<exists>err. fst (delete_reseller t rid s) = Inl err) \<and> resellers (snd (delete_reseller t rid s)) = resellers s"
proof -
  let ?P = "\<lambda>s1. commissions s1 = commissions s \<and> resellers s1 = resellers s"
  have st: "stable ?P" by (simp add: stable_def)
  have refused: "delete_reseller_row t rid s1 = None" if h: "?P s1" for s1
    using assms h by (auto simp: delete_reseller_row_def Let_def affected_def filter_empty_conv list_ex_iff)
  have "keeps ?P (delete_reseller t rid)"
    unfolding delete_reseller_def by (intro keeps_intros st keeps_exec) (use refused in auto)
  moreover have "gives ?P (delete_reseller t rid) (\<lambda>_ _. False)"
    unfolding delete_reseller_def
    by (rule gives_bind [where R = "\<lambda>_ _. False"], intro gives_auto gives_exec st) (use refused in \<open>auto simp: stable_def gives_def\<close>)
  ultimately show ?thesis
    unfolding keeps_def gives_def by (metis prod.collapse sum.exhaust)
qed

lemma reseller_with_commissions_stays_witness:
  "\<exists>err. fst (delete_reseller 1 10 (sample_commission_db\<lparr>commissions := map (\<lambda>e. e\<lparr>cm_status := ''void''\<rparr>) (commissions sample_commission_db)\<rparr>)) = Inl err"
proof -
  obtain e where e: "e \<in> set (commissions sample_commission_db)" "cm_reseller e = Some 10"
    using sample_commission_values(3) by (auto simp: map_eq_Cons_conv)
  have "list_ex (is_reseller 1 10) (resellers sample_commission_db)" by code_simp
  then obtain r where r: "r \<in> set (resellers sample_commission_db)" "is_reseller 1 10 r" by (auto simp: list_ex_iff)
  show ?thesis
    by (rule reseller_with_commissions_stays [THEN conjunct1, of "e\<lparr>cm_status := ''void''\<rparr>"]) (use e r in \<open>auto intro!: image_eqI\<close>)
qed

text \<open>Deleting a customer takes the customer's commissions away but not what they credited: afterwards a reseller's
  balance exceeds the sum of the reseller's commissions by exactly those of the customer.\<close>

theorem deleted_customer_leaves_credit:
  assumes "sales_step\<^sup>*\<^sup>* empty_db s" and "r \<in> set (resellers s)" and "delete_customer t cid s = (Inr (), s')"
  shows "r \<in> set (resellers s')
    \<and> rs_balance r - sum_where (\<lambda>e. cm_reseller e = Some (rs_id r)) commission_weight (commissions s')
      = sum_where (\<lambda>e. cm_reseller e = Some (rs_id r) \<and> cm_customer e = cid) commission_weight (commissions s)"
proof -
  let ?P = "\<lambda>s1. commissions s1 = commissions s \<and> resellers s1 = resellers s"
  let ?Q = "\<lambda>s1. commissions s1 = filter (\<lambda>e. cm_customer e \<noteq> cid) (commissions s) \<and> resellers s1 = resellers s"
  have st: "stable ?P" "stable ?Q" "stable (\<lambda>s1. n \<noteq> 0 \<longrightarrow> ?Q s1)" for n :: nat by (simp_all add: stable_def)
  have "gives ?P (delete_customer t cid) (\<lambda>_. ?Q)"
    unfolding delete_customer_def
    by (rule gives_bind [OF gives_set_tenant [OF st(1)]], rule gives_bind [where R = "\<lambda>n s1. n \<noteq> 0 \<longrightarrow> ?Q s1"],
        intro gives_auto gives_exec st)
      (auto simp: Let_def cascade_customer_def gives_def raise_def ret_def)
  then have after: "commissions s' = filter (\<lambda>e. cm_customer e \<noteq> cid) (commissions s)" "resellers s' = resellers s"
    using assms(3) unfolding gives_def by blast+
  have "sum_where p commission_weight (filter (\<lambda>e. cm_customer e \<noteq> cid) xs) = sum_where (\<lambda>e. p e \<and> cm_customer e \<noteq> cid) commission_weight xs" for p xs
    by (induction xs) auto
  moreover have "rs_balance r = sum_where (\<lambda>e. cm_reseller e = Some (rs_id r)) commission_weight (commissions s)"
    using sales_reachable [OF assms(1)] assms(2) by (rule reseller_sum)
  ultimately show ?thesis
    using sum_where_split [of "\<lambda>e. cm_reseller e = Some (rs_id r)" commission_weight "commissions s" "\<lambda>e. cm_customer e = cid"] assms(2)
    by (simp add: after)
qed

lemma deleted_customer_leaves_credit_witness:
  "\<exists>r s'. delete_customer 1 7 sample_commission_db = (Inr (), s') \<and> r \<in> set (resellers s') \<and> rs_balance r = 5000
    \<and> rs_balance r - sum_where (\<lambda>e. cm_reseller e = Some (rs_id r)) commission_weight (commissions s')
      = sum_where (\<lambda>e. cm_reseller e = Some (rs_id r) \<and> cm_customer e = 7) commission_weight (commissions sample_commission_db)"
proof -
  have "5000 \<in> set (map rs_balance (resellers sample_commission_db))" by (simp add: sample_commission_values)
  then obtain r where r: "r \<in> set (resellers sample_commission_db)" "rs_balance r = 5000" by auto
  have "fst (delete_customer 1 7 sample_commission_db) = Inr ()" by code_simp
  then obtain s' where "delete_customer 1 7 sample_commission_db = (Inr (), s')" by (metis prod.collapse)
  then show ?thesis using deleted_customer_leaves_credit [OF sample_commission_steps r(1)] r(2) by blast
qed

end
