(* ===== verification/Lead_Facts.thy ===== *)
theory Lead_Facts
  imports Sales_Facts
begin

text \<open>
  What the operations on leads promise: known statuses, an assignee while a lead is worked on,
  and that a converted lead stays as it is; and what a failed conversion leaves behind.
\<close>

section \<open>The states of a lead\<close>

definition lead_sound :: "lead \<Rightarrow> bool" where
  "lead_sound l \<longleftrightarrow> ld_status l \<in> set lead_statuses \<and> (lead_status_needs_assignee (ld_status l) \<longrightarrow> given (ld_assigned l))"

text \<open>Leads are sound, and those of \<open>L\<close> that were converted are as they were.\<close>

definition leads_since :: "lead list \<Rightarrow> db \<Rightarrow> bool" where
  "leads_since L s \<longleftrightarrow> fresh_keys ld_id (leads s) (next_id s) \<and> (\<forall>l\<in>set (leads s). lead_sound l)
     \<and> (\<forall>l\<in>set L. ld_id l < next_id s)
     \<and> (\<forall>l\<in>set L. ld_status l = ''converted'' \<longrightarrow> (\<forall>x\<in>set (leads s). ld_id x = ld_id l \<longrightarrow> x = l))"

lemma stable_leads_since: "stable (leads_since L)"
  by (simp add: stable_def leads_since_def)

lemma leads_frame: "leads s' = leads s \<Longrightarrow> next_id s \<le> next_id s' \<Longrightarrow> leads_since L s \<Longrightarrow> leads_since L s'"
  using fresh_keys_mono [of ld_id "leads s" "next_id s" "next_id s'"] by (auto simp: leads_since_def)

lemma leads_updated:
  assumes ok: "leads_since L s" and u: "update_leads q f s = Some (n, s')"
    and f: "\<And>x. ld_id (f x) = ld_id x \<or> \<not> q x" "\<And>x. x \<in> set (leads s) \<Longrightarrow> q x \<Longrightarrow> lead_sound (f x)"
    and q: "\<And>x l. x \<in> set (leads s) \<Longrightarrow> q x \<Longrightarrow> l \<in> set L \<Longrightarrow> ld_status l = ''converted'' \<Longrightarrow> ld_id l \<noteq> ld_id x"
  shows "leads_since L s'"
proof -
  have s': "s' = s\<lparr>leads := update_rows q f (leads s)\<rparr>" using u by (auto simp: update_leads_def split: if_splits)
  have "map ld_id (update_rows q f (leads s)) = map ld_id (leads s)" using f(1) by (auto simp: update_rows_def)
  then have "distinct (map ld_id (update_rows q f (leads s)))" using ok by (simp add: leads_since_def fresh_keys_def)
  moreover have "ld_id x < next_id s \<and> lead_sound x \<and> (\<forall>l\<in>set L. ld_status l = ''converted'' \<longrightarrow> ld_id x = ld_id l \<longrightarrow> x = l)"
    if h: "x \<in> set (update_rows q f (leads s))" for x
  proof -
    obtain x0 where x0: "x0 \<in> set (leads s)" "x = (if q x0 then f x0 else x0)" using h unfolding set_update_rows by blast
    have key: "ld_id x = ld_id x0" using f(1) x0(2) by auto
    have "x = l" if l: "l \<in> set L" "ld_status l = ''converted''" "ld_id x = ld_id l" for l
    proof -
      have "x0 = l" using ok l x0(1) key by (simp add: leads_since_def)
      then show ?thesis using q [OF x0(1) _ l(1,2)] x0(2) by auto
    qed
    then show ?thesis using ok x0 f(2) [OF x0(1)] key by (auto simp: leads_since_def fresh_keys_def)
  qed
  ultimately show ?thesis using ok by (simp add: s' leads_since_def fresh_keys_def)
qed

lemma keeps_changed_leads:
  assumes "\<And>x. ld_id (f x) = ld_id x \<or> \<not> q x" "\<And>x. q x \<Longrightarrow> ld_status x \<noteq> ''converted''" "\<And>x. lead_sound x \<Longrightarrow> q x \<Longrightarrow> lead_sound (f x)"
  shows "keeps (leads_since L) (changed_leads q f)"
  unfolding changed_leads_def
proof (intro keeps_intros stable_leads_since keeps_exec)
  fix s n s' assume "leads_since L s" "update_leads q f s = Some (n, s')"
  then show "leads_since L s'"
  proof (rule leads_updated)
    fix x l assume "x \<in> set (leads s)" "q x" "l \<in> set L" "ld_status l = ''converted''"
    then show "ld_id l \<noteq> ld_id x" using assms(2) [of x] \<open>leads_since L s\<close> by (auto simp: leads_since_def)
  qed (use assms \<open>leads_since L s\<close> in \<open>auto simp: leads_since_def\<close>)
qed

lemma attributed_lead_fields [simp]:
  "ld_id (attributed_lead l) = ld_id l" "ld_tenant (attributed_lead l) = ld_tenant l" "ld_status (attributed_lead l) = ld_status l"
  "ld_assigned (attributed_lead l) = ld_assigned l" "ld_customer (attributed_lead l) = ld_customer l"
  by (simp_all add: attributed_lead_def split: prod.split)

lemma normalised_statuses: "st \<in> set lead_statuses \<Longrightarrow> normalize_lead_status st = st"
proof -
  have "\<forall>st\<in>set lead_statuses. normalize_lead_status st = st" by code_simp
  then show "st \<in> set lead_statuses \<Longrightarrow> normalize_lead_status st = st" by blast
qed

lemma needs_assignee_known:
  "st \<in> set lead_statuses \<Longrightarrow> lead_status_needs_assignee st \<longleftrightarrow> st \<in> {''contacted'', ''survey'', ''qualified''}"
  by (simp add: lead_status_needs_assignee_def normalised_statuses)

lemma keeps_get_lead [keeps_intros]: "stable P \<Longrightarrow> keeps P (get_lead t lid)"
  unfolding get_lead_def by (intro keeps_intros)

lemma lead_inserted:
  assumes ok: "leads_since L s" and l: "lead_sound l" and u: "insert_lead now l s = Some (new, s')"
  shows "leads_since L s'"
proof -
  have new: "ld_id new = next_id s" "lead_sound new" and s': "s' = s\<lparr>next_id := Suc (next_id s), leads := leads s @ [new]\<rparr>"
    using u l by (auto simp: insert_lead_def Let_def lead_sound_def split: if_splits)
  have "ld_id l \<noteq> ld_id new" if h: "l \<in> set L" for l using ok h new(1) by (auto simp: leads_since_def)
  then show ?thesis
    using ok new fresh_keys_append [of ld_id "leads s" "next_id s" new] by (auto simp: leads_since_def s' less_SucI)
qed

lemma lead_writes_since:
  "keeps (leads_since L) (create_lead now l)"
  "keeps (leads_since L) (update_lead l)"
  "keeps (leads_since L) (update_lead_status t lid st a)"
  "keeps (leads_since L) (assign_lead t lid a)"
proof -
  show "keeps (leads_since L) (update_lead l)" unfolding update_lead_def Let_def
    by (intro keeps_intros keeps_changed_leads)
      (auto simp: open_lead_def is_lead_def lead_sound_def needs_assignee_known)
  show "keeps (leads_since L) (update_lead_status t lid st a)" unfolding update_lead_status_def Let_def
    by (intro keeps_intros keeps_changed_leads stable_leads_since)
      (auto simp: open_lead_def is_lead_def lead_sound_def normalised_statuses)
  show "keeps (leads_since L) (assign_lead t lid a)" unfolding assign_lead_def
    by (intro keeps_intros keeps_changed_leads) (auto simp: lead_sound_def)
  let ?st0 = "normalize_lead_status (ld_status l)"
  let ?st = "if ?st0 \<in> set lead_statuses then ?st0 else ''new''"
  have "''new'' \<in> set lead_statuses" by (simp add: lead_statuses_def)
  then have known: "?st \<in> set lead_statuses" by simp
  have "lead_sound (attributed_lead (l\<lparr>ld_status := ?st, ld_assigned := (if lead_status_needs_assignee ?st then ld_assigned l else None)\<rparr>))"
    if h: "\<not> (lead_status_needs_assignee ?st \<and> \<not> given (ld_assigned l))"
    using h known by (simp add: lead_sound_def)
  then show "keeps (leads_since L) (create_lead now l)" unfolding create_lead_def Let_def
    by (intro keeps_intros stable_leads_since keeps_exec) (blast intro: lead_inserted)
qed

lemma delete_lead_since: "keeps (leads_since L) (delete_lead t lid)"
  unfolding delete_lead_def Let_def
  by (intro keeps_intros stable_leads_since keeps_exec) (auto simp: leads_since_def fresh_keys_filter split: if_splits)

lemma credit_commission_leads:
  assumes "stable P" and "\<And>s cs n. n \<ge> next_id s \<Longrightarrow> P s \<Longrightarrow> P (s\<lparr>next_id := n, commissions := cs\<rparr>)" and "\<And>s rs. P (s\<lparr>resellers := rs\<rparr>) = P s"
  shows "keeps P (credit_commission now t c l r u basis)"
proof -
  have i: "keeps P (exec (insert_commission e))" for e
    by (rule keeps_exec [OF assms(1)]) (use assms(2) in \<open>auto simp: insert_commission_def split: if_splits\<close>)
  have r: "keeps P (exec (update_resellers q f))" for q f
    by (rule keeps_exec [OF assms(1)]) (use assms(3) in \<open>auto simp: update_resellers_def split: if_splits\<close>)
  show ?thesis unfolding credit_commission_def Let_def get_commission_settings_def or_default_row_def get_setting_def
    by (intro keeps_intros assms(1) keeps_tx gives_keeps i r)
qed

text \<open>Converting: between the check and the update nothing changes the lead.\<close>

lemma convert_lead_since: "keeps (leads_since L) (convert_lead_to_customer w t lid cluster code r u basis)"
proof -
  let ?free = "\<lambda>v. ld_status (ldv_row v) \<noteq> ''converted'' \<longrightarrow> (\<forall>l\<in>set L. ld_status l = ''converted'' \<longrightarrow> ld_id l \<noteq> lid)"
  have st: "stable (\<lambda>s. leads_since L s \<and> (\<forall>v. row = Some v \<longrightarrow> ?free v))" for row
    using stable_leads_since by (simp add: stable_def)
  have unconverted: "?free (view_lead s l)" if h: "leads_since L s" "first_row (is_lead t lid) (leads s) = Some l" for s l
  proof -
    have l: "l \<in> set (leads s)" "ld_id l = lid" using first_row_Some [OF h(2)] by (simp_all add: is_lead_def)
    have "l = x" if x: "x \<in> set L" "ld_status x = ''converted''" "ld_id x = lid" for x
      using h(1) l x by (simp add: leads_since_def)
    then show ?thesis by (auto simp: view_lead_def)
  qed
  have found: "gives (leads_since L) (get_lead t lid) (\<lambda>v s. leads_since L s \<and> ?free v)"
    unfolding get_lead_def
  proof (rule gives_bind)
    show "gives (leads_since L) (auto (query (\<lambda>s. map_option (view_lead s) (first_row (is_lead t lid) (leads s)))))
        (\<lambda>row s. leads_since L s \<and> (\<forall>v. row = Some v \<longrightarrow> ?free v))"
      by (rule gives_auto_query [OF stable_leads_since st])
        (use unconverted in auto)
    show "gives (\<lambda>s. leads_since L s \<and> (\<forall>v. row = Some v \<longrightarrow> ?free v)) (case row of None \<Rightarrow> raise Not_found | Some v \<Rightarrow> ret v)
        (\<lambda>v s. leads_since L s \<and> ?free v)" for row
      by (cases row) (simp_all add: gives_ret)
  qed
  have apart: "keeps (leads_since L) (create_customer now c)" for now c
    unfolding create_customer_def
    by (intro keeps_intros stable_leads_since keeps_exec) (auto simp: insert_customer_def split: if_splits intro: leads_frame)
  have numbered: "keeps (leads_since L) (next_customer_code_for_cluster w t cid)" for cid
    by (rule keeps_code_writes [OF stable_leads_since]) (simp add: leads_since_def)
  have credited: "keeps (leads_since L) (credit_commission now t c l' r' u' b)" for now c l' r' u' b
    by (rule credit_commission_leads [OF stable_leads_since]) (auto simp: leads_since_def intro: fresh_keys_mono)
  have marked: "keeps (leads_since L) (exec (update_leads (is_lead t lid) (\<lambda>x. x\<lparr>ld_status := ''converted'', ld_customer := Some c,
           ld_converted_at := Some now, ld_reseller := r', ld_sales := u'\<rparr>)))"
    if h: "\<forall>l\<in>set L. ld_status l = ''converted'' \<longrightarrow> ld_id l \<noteq> lid" for c now r' u'
  proof (rule keeps_exec [OF stable_leads_since])
    fix s n s' assume "leads_since L s" "update_leads (is_lead t lid) (\<lambda>x. x\<lparr>ld_status := ''converted'', ld_customer := Some c,
           ld_converted_at := Some now, ld_reseller := r', ld_sales := u'\<rparr>) s = Some (n, s')"
    then show "leads_since L s'"
      by (rule leads_updated) (use h in \<open>auto simp: is_lead_def lead_sound_def needs_assignee_known lead_statuses_def\<close>)
  qed
  show ?thesis unfolding convert_lead_to_customer_def
  proof (rule keeps_bind_safe [OF keeps_get_lead [OF stable_leads_since] found])
    fix v
    let ?rest = "\<lambda>v. let l = ldv_row v in
     if ld_status l = ''converted'' \<or> ld_customer l \<noteq> None then raise (Rejected ''lead sudah dikonversi'')
     else if trim_space (ld_phone l) = [] then raise (Rejected ''telepon lead wajib untuk konversi'')
     else bind (if trim_space code \<noteq> [] then ret (trim_space code)
           else case cluster of Some c \<Rightarrow> next_customer_code_for_cluster w t c | None \<Rightarrow> next_customer_code w t) (\<lambda>code.
       let (r, u) = (case normalize_attribution r u of (None, None) \<Rightarrow> normalize_attribution (ld_reseller l) (ld_sales l) | ru \<Rightarrow> ru) in
       bind (create_customer (w_now w) (lead_customer t cluster code l r u)) (\<lambda>cid.
       bind (auto (exec (update_leads (is_lead t lid) (\<lambda>x. x\<lparr>ld_status := ''converted'', ld_customer := Some cid,
           ld_converted_at := Some (w_now w), ld_reseller := r, ld_sales := u\<rparr>)))) (\<lambda>_.
       bind (attempt (credit_commission (w_now w) t cid (Some lid) r u basis)) (\<lambda>_.
       ret (cid, l\<lparr>ld_status := ''converted'', ld_customer := Some cid, ld_converted_at := Some (w_now w), ld_reseller := r, ld_sales := u\<rparr>)))))"
    have "keeps (leads_since L) (?rest v)" if h: "?free v"
      unfolding Let_def using h
      by (intro keeps_intros stable_leads_since apart numbered credited marked) auto
    then show "safe (\<lambda>s. leads_since L s \<and> ?free v) (leads_since L) (?rest v)" by (auto simp: safe_def keeps_def)
  qed
qed

text \<open>The calls on leads; deletions of customers and resellers clear references of leads and are not among them.\<close>

inductive lead_step :: "db \<Rightarrow> db \<Rightarrow> bool" where
  created: "lead_step s (snd (create_lead now l s))"
| updated: "lead_step s (snd (update_lead l s))"
| moved: "lead_step s (snd (update_lead_status t lid st a s))"
| assigned: "lead_step s (snd (assign_lead t lid a s))"
| deleted: "lead_step s (snd (delete_lead t lid s))"
| converted: "lead_step s (snd (convert_lead_to_customer w t lid cluster code r u basis s))"
| others: "leads s' = leads s \<Longrightarrow> next_id s \<le> next_id s' \<Longrightarrow> lead_step s s'"

inductive_cases lead_stepE: "lead_step s s'"

lemma lead_step_since: "lead_step s s' \<Longrightarrow> leads_since L s \<Longrightarrow> leads_since L s'"
proof (induction rule: lead_step.induct)
  case (others s' s)
  then show ?case using leads_frame by blast
qed (blast intro: keepsD lead_writes_since delete_lead_since convert_lead_since)+

lemma lead_steps_since: "lead_step\<^sup>*\<^sup>* s s' \<Longrightarrow> leads_since L s \<Longrightarrow> leads_since L s'"
  by (induction rule: rtranclp_induct) (auto intro: lead_step_since)

section \<open>Properties\<close>

text \<open>C29: After any calls on leads, under any failures, every lead has a known status, and one being worked on
  (\<open>contacted\<close>, \<open>survey\<close>, \<open>qualified\<close>) an assignee; and whatever calls follow, a converted lead stays as it is
  or is deleted.\<close>

theorem leads_assigned_and_final:
  assumes "lead_step\<^sup>*\<^sup>* empty_db s" and "lead_step\<^sup>*\<^sup>* s s'"
  shows "(\<forall>l\<in>set (leads s). ld_status l \<in> set lead_statuses \<and> (lead_status_needs_assignee (ld_status l) \<longrightarrow> given (ld_assigned l)))
    \<and> (\<forall>l\<in>set (leads s). ld_status l = ''converted'' \<longrightarrow> (\<forall>x\<in>set (leads s'). ld_id x = ld_id l \<longrightarrow> x = l))"
proof -
  have "leads_since [] empty_db" by (simp add: leads_since_def empty_db_def fresh_keys_def)
  then have sound: "leads_since [] s" using assms(1) lead_steps_since by blast
  then have "leads_since (leads s) s"
    by (simp add: leads_since_def fresh_keys_def) (meson unique_row)
  then have "leads_since (leads s) s'" using assms(2) lead_steps_since by blast
  then show ?thesis using sound by (simp add: leads_since_def lead_sound_def)
qed

definition sample_lead :: lead where
  "sample_lead = \<lparr>ld_id = 0, ld_tenant = 1, ld_name = ''Budi'', ld_phone = ''0812'', ld_email = None, ld_address = None, ld_lat = None,
     ld_lng = None, ld_odp = None, ld_status = ''new'', ld_notes = None, ld_identity_type = None, ld_identity_number = None,
     ld_reseller = None, ld_sales = None, ld_assigned = None, ld_customer = None, ld_converted_at = None, ld_created = 0\<rparr>"

definition sample_leads_db :: db where
  "sample_leads_db = snd (create_lead 5 sample_lead empty_db)"

definition sample_converted_db :: db where
  "sample_converted_db = snd (convert_lead_to_customer sample_world 1 1 None ''C-1'' None None [] sample_leads_db)"

lemma leads_assigned_and_final_witness:
  "\<exists>l. l \<in> set (leads sample_converted_db) \<and> ld_status l = ''converted'' \<and> ld_customer l = Some 2
    \<and> (\<forall>x\<in>set (leads (snd (update_lead_status 1 1 ''lost'' None sample_converted_db))). ld_id x = ld_id l \<longrightarrow> x = l)"
proof -
  have up: "lead_step\<^sup>*\<^sup>* empty_db sample_converted_db"
    unfolding sample_converted_db_def sample_leads_db_def
    by (meson lead_step.created lead_step.converted r_into_rtranclp rtranclp.rtrancl_into_rtrancl)
  have "list_ex (\<lambda>l. ld_status l = ''converted'' \<and> ld_customer l = Some 2) (leads sample_converted_db)" by code_simp
  then obtain l where l: "l \<in> set (leads sample_converted_db)" "ld_status l = ''converted''" "ld_customer l = Some 2"
    by (auto simp: list_ex_iff)
  show ?thesis
    using leads_assigned_and_final [OF up r_into_rtranclp] lead_step.moved [of sample_converted_db 1 1 "''lost''" None] l by blast
qed

definition convert_again :: "bool list \<Rightarrow> (err + gid \<times> lead) \<times> db" where
  "convert_again fs = convert_lead_to_customer sample_world 1 1 None [] None None []
     (snd (convert_lead_to_customer sample_world 1 1 None [] None None [] (sample_leads_db\<lparr>faults := fs\<rparr>)))"

text \<open>\<open>ConvertLeadToCustomer\<close> is not one transaction: when the update of the lead fails, the customer stays, the
  lead is as it was, and converting it again makes a second customer.\<close>

theorem failed_conversion_leaves_customer:
  "\<exists>fs e s1. convert_lead_to_customer sample_world 1 1 None [] None None [] (sample_leads_db\<lparr>faults := fs\<rparr>) = (Inl e, s1)
     \<and> map ld_status (leads s1) = [''new''] \<and> map cust_name (customers s1) = [''Budi'']
     \<and> map cust_name (customers (snd (convert_again fs))) = [''Budi'', ''Budi'']
     \<and> map ld_status (leads (snd (convert_again fs))) = [''converted'']"
proof -
  let ?fs = "replicate 7 False @ [True]"
  let ?run = "convert_lead_to_customer sample_world 1 1 None [] None None [] (sample_leads_db\<lparr>faults := ?fs\<rparr>)"
  have "(case fst ?run of Inl e \<Rightarrow> True | Inr _ \<Rightarrow> False) \<and> map ld_status (leads (snd ?run)) = [''new'']
      \<and> map cust_name (customers (snd ?run)) = [''Budi'']" by code_simp
  moreover have "map cust_name (customers (snd (convert_again ?fs))) = [''Budi'', ''Budi'']
      \<and> map ld_status (leads (snd (convert_again ?fs))) = [''converted'']" by code_simp
  moreover obtain e s1 where "?run = (Inl e, s1)" using calculation(1) by (cases ?run; cases "fst ?run") auto
  ultimately show ?thesis by (metis snd_conv)
qed

end
