(* ===== verification/Payments.thy ===== *)
theory Payments
  imports Engine
begin

text \<open>
  Online payments.  Payment intents (\<open>internal/store/extra_ops.go\<close>, \<open>webhook_ops.go\<close>), and
  what a paid webhook sets off (\<open>completePaidWebhook\<close> and its helpers in
  \<open>internal/handlers\<close>): the payment is recorded, the intent marked, a pending change of plan
  applied, suspended services resumed, the payment posted, or a balance topped up and open
  invoices settled from it.

  The routers are behind \<open>router\<close>: whether finding and configuring the router of a
  subscription succeeds.  Go ranges over a map of subscriptions in any order, here given by
  \<open>order\<close>, per round.  Notifications and outbound webhooks, whose errors are ignored, and the
  \<open>qr_string\<close>-like extras of an intent's view are left out.
\<close>

section \<open>Intents\<close>

definition meta_int64 :: "json_map \<Rightarrow> string \<Rightarrow> int" where
  "meta_int64 m key =
     (case map_of m key of
        Some (JNum x) \<Rightarrow> int64_of_number x
      | Some (JStr s) \<Rightarrow> fst (parse_int (trim_space s))
      | _ \<Rightarrow> 0)"

definition meta_string :: "json_map \<Rightarrow> string \<Rightarrow> string" where
  "meta_string m key = (case map_of m key of Some (JStr s) \<Rightarrow> trim_space s | _ \<Rightarrow> [])"

definition intent_sandbox :: "json_map \<Rightarrow> bool" where
  "intent_sandbox m \<longleftrightarrow> list_ex (\<lambda>k. map_of m k = Some (JBool True)) [''sandbox_sim'', ''duitku_sandbox'', ''doku_sandbox'']"

definition invoice_remaining :: "invoice \<Rightarrow> int" where
  "invoice_remaining i = (let a = wrap64 (inv_total i - inv_paid i) in if a < 0 then 0 else a)"

definition newest_first :: "intent \<Rightarrow> intent \<Rightarrow> bool" where
  "newest_first a b \<longleftrightarrow> pi_created b \<le> pi_created a"

definition intent_status :: "string \<Rightarrow> string" where
  "intent_status st = to_lower (trim_space (if st = [] then ''pending'' else st))"

definition insert_intent :: "int \<Rightarrow> intent \<Rightarrow> db \<Rightarrow> (intent \<times> db) option" where
  "insert_intent now p s =
     (if list_ex (\<lambda>c. cust_id c = pi_customer p) (customers s)
        \<and> (case pi_invoice p of None \<Rightarrow> True | Some i \<Rightarrow> list_ex (\<lambda>r. inv_id r = i) (invoices s)) \<and> int64_ok (pi_amount p)
      then let new = p\<lparr>pi_id := next_id s, pi_created := now\<rparr>
           in Some (new, s\<lparr>next_id := Suc (next_id s), intents := intents s @ [new]\<rparr>)
      else None)"

definition insert_payment_intent :: "int \<Rightarrow> intent \<Rightarrow> (db, intent) prog" where
  "insert_payment_intent now p = auto (exec (insert_intent now (p\<lparr>pi_status := intent_status (pi_status p)\<rparr>)))"

definition latest_intent :: "(intent \<Rightarrow> bool) \<Rightarrow> (db, intent) prog" where
  "latest_intent q =
     bind (auto (query (\<lambda>s. order_by newest_first (filter q (intents s))))) (\<lambda>rows.
     case rows of [] \<Rightarrow> raise Not_found | p # _ \<Rightarrow> ret p)"

definition get_latest_payment_intent_for_invoice :: "gid \<Rightarrow> gid \<Rightarrow> string \<Rightarrow> (db, intent) prog" where
  "get_latest_payment_intent_for_invoice tenant iid provider =
     latest_intent (\<lambda>p. pi_tenant p = tenant \<and> pi_invoice p = Some iid \<and> pi_provider p = provider)"

definition get_latest_payment_intent_for_invoice_any :: "gid \<Rightarrow> gid \<Rightarrow> (db, intent) prog" where
  "get_latest_payment_intent_for_invoice_any tenant iid =
     latest_intent (\<lambda>p. pi_tenant p = tenant \<and> pi_invoice p = Some iid)"

definition get_latest_pending_payment_intent :: "int \<Rightarrow> gid \<Rightarrow> gid \<Rightarrow> string \<Rightarrow> (db, intent) prog" where
  "get_latest_pending_payment_intent now tenant iid provider =
     latest_intent (\<lambda>p. pi_tenant p = tenant \<and> pi_invoice p = Some iid \<and> pi_provider p = provider \<and> pi_status p = ''pending''
       \<and> (case pi_expires p of None \<Rightarrow> True | Some t \<Rightarrow> now < t))"

definition list_customer_open_payment_intents :: "gid \<Rightarrow> gid \<Rightarrow> int \<Rightarrow> (db, intent list) prog" where
  "list_customer_open_payment_intents tenant customer limit0 =
     auto (query (\<lambda>s. take (nat (if limit0 \<le> 0 then 20 else limit0)) (order_by newest_first
       (filter (\<lambda>p. pi_tenant p = tenant \<and> pi_customer p = customer \<and> to_lower (pi_status p) \<notin> {''paid'', ''success''}) (intents s)))))"

definition invoice_number_by_id :: "gid \<Rightarrow> gid \<Rightarrow> (db, string) prog" where
  "invoice_number_by_id tenant iid =
     bind (attempt (auto (query (\<lambda>s. invoice_number_of s tenant (Some iid))))) (\<lambda>r.
     ret (case r of Inl _ \<Rightarrow> [] | Inr n \<Rightarrow> n))"

text \<open>\<open>metadata->>'transaction_id'\<close>; gateways store strings under this key.\<close>

definition has_external_id :: "string \<Rightarrow> intent \<Rightarrow> bool" where
  "has_external_id ext p \<longleftrightarrow> pi_external p = ext \<or> map_of (pi_meta p) ''transaction_id'' = Some (JStr ext)"

definition get_payment_intent_by_external_id :: "string \<Rightarrow> (db, intent) prog" where
  "get_payment_intent_by_external_id ext = latest_intent (has_external_id ext)"

definition update_intents :: "(intent \<Rightarrow> bool) \<Rightarrow> (intent \<Rightarrow> intent) \<Rightarrow> db \<Rightarrow> (unit \<times> db) option" where
  "update_intents q f s = Some ((), s\<lparr>intents := update_rows q f (intents s)\<rparr>)"

definition update_payment_intent_status :: "string \<Rightarrow> string \<Rightarrow> (db, unit) prog" where
  "update_payment_intent_status ext status =
     auto (exec (update_intents (\<lambda>p. pi_external p = ext \<and> pi_status p \<noteq> ''paid'') (\<lambda>p. p\<lparr>pi_status := status\<rparr>)))"

definition cancel_pending_payment_intents_except :: "gid \<Rightarrow> gid \<Rightarrow> string \<Rightarrow> (db, unit) prog" where
  "cancel_pending_payment_intents_except tenant iid keep =
     auto (exec (update_intents (\<lambda>p. pi_tenant p = tenant \<and> pi_invoice p = Some iid \<and> pi_status p = ''pending'' \<and> pi_external p \<noteq> keep)
       (\<lambda>p. p\<lparr>pi_status := ''cancelled''\<rparr>)))"

definition cancel_pending_payment_intents_for_invoice :: "gid \<Rightarrow> gid \<Rightarrow> (db, unit) prog" where
  "cancel_pending_payment_intents_for_invoice tenant iid =
     auto (exec (update_intents (\<lambda>p. pi_tenant p = tenant \<and> pi_invoice p = Some iid
         \<and> to_lower (pi_status p) \<in> {''pending'', ''created'', ''unpaid''})
       (\<lambda>p. p\<lparr>pi_status := ''cancelled''\<rparr>)))"

section \<open>After an invoice is paid\<close>

text \<open>A call whose result and error are both ignored.\<close>

definition quietly :: "('s, 'a) prog \<Rightarrow> ('s, unit) prog" where
  "quietly m = bind (attempt m) (\<lambda>_. ret ())"

definition upgraded_service :: "pending_plan \<Rightarrow> plan \<Rightarrow> subscription \<Rightarrow> string" where
  "upgraded_service p new sub =
     (let svc = (if pend_service p = [] then plan_service new else pend_service p) in if svc = [] then sub_service sub else svc)"

definition apply_pending_upgrade_if_paid :: "gid \<Rightarrow> gid \<Rightarrow> (db, bool) prog" where
  "apply_pending_upgrade_if_paid tenant sid =
     or_else False
      (bind (get_subscription_pending_plan tenant sid) (\<lambda>pending.
       case pending of
         None \<Rightarrow> ret False
       | Some p \<Rightarrow>
           bind (pending_plan_invoice_paid tenant (Some p)) (\<lambda>paid.
           if \<not> paid then ret False
           else bind (get_subscription tenant sid) (\<lambda>v. let sub = sv_row v in
             if sub_plan sub = pend_new p
             then bind (quietly (clear_subscription_pending_plan tenant sid)) (\<lambda>_. ret True)
             else bind (get_plan tenant (pend_new p)) (\<lambda>new.
               bind (update_subscription tenant (sub\<lparr>sub_plan := pend_new p, sub_service := upgraded_service p new sub\<rparr>) False) (\<lambda>_.
               bind (quietly (clear_subscription_pending_plan tenant sid)) (\<lambda>_.
               bind (quietly (get_subscription tenant sid)) (\<lambda>_. ret True))))))))"

definition resume_subscription :: "(gid \<Rightarrow> bool) \<Rightarrow> gid \<Rightarrow> gid \<Rightarrow> (db, unit) prog" where
  "resume_subscription router tenant sid =
     quietly
      (bind (get_subscription tenant sid) (\<lambda>v.
       bind (get_plan tenant (sub_plan (sv_row v))) (\<lambda>_.
       if sub_router (sv_row v) = None \<or> \<not> router sid then ret ()
       else clear_subscription_suspended_at tenant sid)))"

definition still_due :: "world \<Rightarrow> gid \<Rightarrow> gid \<Rightarrow> (db, bool) prog" where
  "still_due w tenant sid =
     bind (isolir_grace_days (w_known w) tenant) (\<lambda>grace.
     subscription_has_past_due_unpaid (w_zone w) (w_now w) grace tenant sid)"

definition resume_if_settled :: "world \<Rightarrow> (gid \<Rightarrow> bool) \<Rightarrow> gid \<Rightarrow> gid \<Rightarrow> (db, unit) prog" where
  "resume_if_settled w router tenant sid =
     bind (or_else True (still_due w tenant sid)) (\<lambda>due.
     if due then ret ()
     else bind (quietly (update_subscription_status (w_now w) tenant sid ''active'')) (\<lambda>_.
          resume_subscription router tenant sid))"

definition resume_after_invoice_paid ::
  "world \<Rightarrow> (nat \<Rightarrow> gid list \<Rightarrow> gid list) \<Rightarrow> (gid \<Rightarrow> bool) \<Rightarrow> gid \<Rightarrow> invoice \<Rightarrow> (db, unit) prog" where
  "resume_after_invoice_paid w order router tenant i =
     bind (or_else [] (bind (list_subscriptions tenant [] (Some (inv_customer i)) 200 0) (\<lambda>(vs, _). ret (map (\<lambda>v. sub_id (sv_row v)) vs)))) (\<lambda>listed.
     let ids = remdups ((case inv_subscription i of None \<Rightarrow> [] | Some x \<Rightarrow> if x = nil_id then [] else [x]) @ listed) in
     bind (quietly (get_invoice tenant (inv_id i))) (\<lambda>_.
     bind (for_each (order 0 ids) (\<lambda>sid. bind (apply_pending_upgrade_if_paid tenant sid) (\<lambda>_. ret ()))) (\<lambda>_.
     for_each (order 1 ids) (resume_if_settled w router tenant))))"

section \<open>Completing a webhook\<close>

definition auto_settle_customer_wallet ::
  "world \<Rightarrow> (nat \<Rightarrow> gid list \<Rightarrow> gid list) \<Rightarrow> (gid \<Rightarrow> bool) \<Rightarrow> gid \<Rightarrow> gid \<Rightarrow> (db, auto_pay list) prog" where
  "auto_settle_customer_wallet w order router tenant customer =
     bind (or_else [] (auto_settle_customer w tenant customer)) (\<lambda>rs.
     bind (for_each rs (\<lambda>r. case ap_invoice r of
        None \<Rightarrow> ret ()
      | Some (i, _) \<Rightarrow> if ap_paid r then resume_after_invoice_paid w order router tenant i else ret ())) (\<lambda>_.
     ret rs))"

definition event_reference :: "webhook_event \<Rightarrow> string" where
  "event_reference ev = (if ev_reference ev = [] then ev_external ev else ev_reference ev)"

definition topup_amount :: "intent \<Rightarrow> webhook_event \<Rightarrow> int" where
  "topup_amount p ev =
     (if 0 < ev_amount ev then ev_amount ev
      else let a = meta_int64 (pi_meta p) ''topup_amount'' in if 0 < a then a else pi_amount p)"

definition complete_wallet_topup ::
  "world \<Rightarrow> (nat \<Rightarrow> gid list \<Rightarrow> gid list) \<Rightarrow> (gid \<Rightarrow> bool) \<Rightarrow> intent \<Rightarrow> webhook_event \<Rightarrow> (db, unit) prog" where
  "complete_wallet_topup w order router p ev =
     bind (topup_wallet (w_now w) (w_today w) (pi_tenant p) (pi_customer p) (topup_amount p ev) ''topup'' (event_reference ev)
       (''Topup saldo via '' @ pi_provider p)) (\<lambda>_.
     bind (quietly (get_customer (pi_tenant p) (pi_customer p))) (\<lambda>_.
     bind (auto_settle_customer_wallet w order router (pi_tenant p) (pi_customer p)) (\<lambda>_. ret ())))"

text \<open>The bill without the gateway's fee, and the part of the money received that pays it.\<close>

definition base_amount :: "intent \<Rightarrow> int" where
  "base_amount p = (let b = meta_int64 (pi_meta p) ''base_amount'' in if 0 < b then b else pi_amount p)"

definition paid_part :: "intent \<Rightarrow> webhook_event \<Rightarrow> int" where
  "paid_part p ev =
     (let base = base_amount p; amount = (if ev_amount ev \<le> 0 then base else ev_amount ev)
      in if 0 < base \<and> base < amount then base else amount)"

definition invoice_or_none :: "gid \<Rightarrow> gid option \<Rightarrow> (db, invoice option) prog" where
  "invoice_or_none tenant iid =
     (case iid of
        None \<Rightarrow> ret None
      | Some i \<Rightarrow> bind (attempt (get_invoice tenant i)) (\<lambda>r. case r of
            Inr (x, _) \<Rightarrow> ret (Some x)
          | Inl e \<Rightarrow> if e = Not_found then ret None else raise e))"

definition webhook_payment :: "string \<Rightarrow> intent \<Rightarrow> webhook_event \<Rightarrow> payment" where
  "webhook_payment provider p ev =
     \<lparr>pay_id = 0, pay_tenant = pi_tenant p, pay_customer = pi_customer p, pay_invoice = pi_invoice p, pay_amount = paid_part p ev,
      pay_method = method_from_provider provider, pay_reference = Some (event_reference ev), pay_status = ''paid'',
      pay_sandbox = intent_sandbox (pi_meta p), pay_paid_at = None, pay_created = 0, pay_deleted = None\<rparr>"

definition post_webhook_payment :: "world \<Rightarrow> intent \<Rightarrow> webhook_event \<Rightarrow> invoice option \<Rightarrow> (db, unit) prog" where
  "post_webhook_payment w p ev i =
     bind (find_cash_and_revenue_accounts (pi_tenant p)) (\<lambda>(cash, revenue).
     if cash = nil_id \<or> revenue = nil_id then ret ()
     else quietly (record_payment_journal (w_now w) (w_today w) (pi_tenant p) (paid_part p ev) cash revenue
            (case i of None \<Rightarrow> ev_external ev | Some x \<Rightarrow> inv_number x)))"

text \<open>\<open>tip\<close> is \<open>webhookTipAmount\<close> of the raw body.\<close>

definition complete_invoice_payment ::
  "world \<Rightarrow> (nat \<Rightarrow> gid list \<Rightarrow> gid list) \<Rightarrow> (gid \<Rightarrow> bool) \<Rightarrow> string \<Rightarrow> int \<Rightarrow> intent \<Rightarrow> webhook_event \<Rightarrow> (db, unit) prog" where
  "complete_invoice_payment w order router provider tip p ev =
     bind (invoice_or_none (pi_tenant p) (pi_invoice p)) (\<lambda>i.
     bind (record_payment (w_now w) (webhook_payment provider p ev)) (\<lambda>_.
     bind (quietly (update_payment_intent_status (pi_external p) ''paid'')) (\<lambda>_.
     bind (case pi_invoice p of None \<Rightarrow> ret ()
           | Some iid \<Rightarrow> quietly (cancel_pending_payment_intents_for_invoice (pi_tenant p) iid)) (\<lambda>_.
     bind (case i of None \<Rightarrow> ret () | Some x \<Rightarrow> resume_after_invoice_paid w order router (pi_tenant p) x) (\<lambda>_.
     bind (if 0 < tip then quietly (credit_wallet (w_now w) (pi_tenant p) (pi_customer p) tip ''tip'' (ev_external ev) ''payment tip'')
           else ret ()) (\<lambda>_.
     post_webhook_payment w p ev i))))))"

definition complete_paid_webhook ::
  "world \<Rightarrow> (nat \<Rightarrow> gid list \<Rightarrow> gid list) \<Rightarrow> (gid \<Rightarrow> bool) \<Rightarrow> string \<Rightarrow> int \<Rightarrow> webhook_event \<Rightarrow> (db, unit) prog" where
  "complete_paid_webhook w order router provider tip ev =
     bind (attempt (get_payment_intent_by_external_id (ev_external ev))) (\<lambda>r. case r of
       Inl e \<Rightarrow> if e = Not_found then ret () else raise e
     | Inr p \<Rightarrow>
         if pi_status p = ''paid'' then ret ()
         else if meta_string (pi_meta p) ''purpose'' = ''wallet_topup''
         then bind (complete_wallet_topup w order router p ev) (\<lambda>_.
              quietly (update_payment_intent_status (pi_external p) ''paid''))
         else complete_invoice_payment w order router provider tip p ev)"

end
