(* ===== verification/Checkout.thy ===== *)
theory Checkout
  imports Payments
begin

text \<open>
  The handlers around an intent (\<open>internal/handlers/checkout.go\<close>, \<open>handlers.go\<close>): starting a
  checkout for an invoice, polling the gateway for the state of an intent, the simulated
  payment of the sandbox, cancelling, and what a webhook does once its signature is verified.
  The gateways' answers are arguments.
\<close>

section \<open>Starting a checkout\<close>

text \<open>What \<open>CreateIntent\<close> of a gateway returns; the extras of QR codes are in the metadata.\<close>

record intent_result =
  ir_external :: string
  ir_transaction :: string
  ir_checkout :: string
  ir_status :: string
  ir_expires :: "int option"
  ir_meta :: json_map

definition number :: "int \<Rightarrow> json" where "number n = JNum (of_int n)"

definition with_keys :: "json_map \<Rightarrow> json_map \<Rightarrow> json_map" where
  "with_keys kvs m = foldl (\<lambda>acc (k, v). AList.update k v acc) m kvs"

definition checkout_meta :: "int \<Rightarrow> int \<Rightarrow> string \<Rightarrow> intent_result \<Rightarrow> json_map" where
  "checkout_meta base fee callback r =
     with_keys (ir_meta r)
       (with_keys ((if ir_transaction r \<noteq> [] then [(''transaction_id'', JStr (ir_transaction r))] else [])
          @ (if trim_space callback \<noteq> [] then [(''callback_url'', JStr (trim_space callback))] else [])
          @ [(''base_amount'', number base)] @ (if 0 < fee then [(''fee_amount'', number fee)] else [])) [])"

definition unpayable :: "string \<Rightarrow> bool" where
  "unpayable st \<longleftrightarrow> to_lower (trim_space st) \<in> {''paid'', ''void'', ''cancelled''}"

definition bad_request :: "string \<Rightarrow> err" where "bad_request msg = Rejected msg"

definition not_payable :: err where "not_payable = bad_request ''invoice sudah lunas / tidak bisa dibayar''"
definition nothing_left :: err where "nothing_left = bad_request ''tidak ada sisa tagihan''"

text \<open>An open intent that can be shown again: same charge and channel, something to pay with, and the
  callback it was made for.\<close>

definition same_charge :: "int \<Rightarrow> string \<Rightarrow> intent \<Rightarrow> bool" where
  "same_charge charge channel p \<longleftrightarrow> pi_amount p = charge \<and> equal_fold (meta_string (pi_meta p) ''doku_channel'') channel"

definition qr_string :: "json_map \<Rightarrow> string" where
  "qr_string m = (case map_of m ''qr_string'' of Some (JStr s) \<Rightarrow> s | _ \<Rightarrow> [])"

definition reusable :: "string \<Rightarrow> intent \<Rightarrow> bool" where
  "reusable callback p \<longleftrightarrow> (trim_space (pi_checkout p) \<noteq> [] \<or> trim_space (qr_string (pi_meta p)) \<noteq> [])
     \<and> (let stored = meta_string (pi_meta p) ''callback_url'' in callback = [] \<or> stored = [] \<or> stored = callback)"

text \<open>\<open>checkoutInvoice\<close>; \<open>fee\<close> is \<open>paymentCustomerFee\<close>, \<open>callback\<close> the wanted callback URL, \<open>ready\<close>
  whether the provider resolves, and \<open>gateway\<close> its \<open>CreateIntent\<close>, as a function of the order id and
  the amount.  The customer's name and addresses, which only the gateway sees, are left out.\<close>

definition new_checkout ::
  "world \<Rightarrow> int \<Rightarrow> string \<Rightarrow> string \<Rightarrow> (string \<Rightarrow> int \<Rightarrow> string + intent_result) \<Rightarrow> gid \<Rightarrow> invoice \<Rightarrow> (db, intent) prog" where
  "new_checkout w fee callback provider gateway tenant i =
     (let base = invoice_remaining i; charge = wrap64 (base + fee) in
      case gateway (trim_space (inv_number i)) charge of
        Inl msg \<Rightarrow> raise (bad_request msg)
      | Inr r \<Rightarrow>
          bind (insert_payment_intent (w_now w)
            \<lparr>pi_id = 0, pi_tenant = tenant, pi_customer = inv_customer i, pi_invoice = Some (inv_id i), pi_provider = provider,
             pi_external = ir_external r, pi_amount = charge, pi_status = ir_status r, pi_checkout = ir_checkout r,
             pi_expires = ir_expires r, pi_meta = checkout_meta base fee callback r, pi_created = 0\<rparr>) (\<lambda>p.
          bind (quietly (cancel_pending_payment_intents_except tenant (inv_id i) (pi_external p))) (\<lambda>_. ret p)))"

definition checkout_invoice ::
  "world \<Rightarrow> int \<Rightarrow> string \<Rightarrow> string option \<Rightarrow> (string \<Rightarrow> int \<Rightarrow> string + intent_result) \<Rightarrow> gid \<Rightarrow> invoice \<Rightarrow> string \<Rightarrow> string
     \<Rightarrow> (db, intent) prog" where
  "checkout_invoice w fee callback unresolved gateway tenant i provider0 channel0 =
     (let provider = normalize_payment_provider_name provider0; channel = to_lower (trim_space channel0) in
      if unpayable (inv_status i) then raise not_payable
      else if invoice_remaining i \<le> 0 then raise nothing_left
      else if provider = ''manual'' then raise (bad_request ''gunakan pembayaran online (Duitku)'')
      else
        bind (attempt (get_latest_pending_payment_intent (w_now w) tenant (inv_id i) provider)) (\<lambda>r.
        let fresh = (case unresolved of Some msg \<Rightarrow> raise (bad_request msg)
              | None \<Rightarrow> if provider = ''duitku'' \<and> callback = []
                  then raise (bad_request ''callback Duitku membutuhkan URL publik (atur Portal URL di Isolir atau buka dari domain publik)'')
                  else new_checkout w fee callback provider gateway tenant i)
        in case r of
             Inr p \<Rightarrow>
               if same_charge (wrap64 (invoice_remaining i + fee)) channel p \<and> reusable callback p
               then bind (quietly (cancel_pending_payment_intents_except tenant (inv_id i) (pi_external p))) (\<lambda>_. ret p)
               else fresh
           | Inl e \<Rightarrow> if e = Not_found then fresh else raise e))"

section \<open>Polling the gateway\<close>

text \<open>An event as the handlers make it up.\<close>

definition own_event :: "intent \<Rightarrow> int \<Rightarrow> string \<Rightarrow> webhook_event" where
  "own_event p amount ref = \<lparr>ev_external = pi_external p, ev_status = ''paid'', ev_amount = amount, ev_reference = ref\<rparr>"

definition is_doku_qr :: "intent \<Rightarrow> bool" where
  "is_doku_qr p \<longleftrightarrow> pi_provider p = ''doku'' \<and> meta_string (pi_meta p) ''doku_kind'' = ''qr''"

definition qr_reference :: "intent \<Rightarrow> string" where
  "qr_reference p = (let ref = meta_string (pi_meta p) ''transaction_id'' in
     if ref = [] then meta_string (pi_meta p) ''reference'' else ref)"

text \<open>\<open>remote\<close> is the gateway's answer about the intent, if there is one: status, amount (of a QR code) and
  transaction.\<close>

definition sync_intent_status ::
  "world \<Rightarrow> (nat \<Rightarrow> gid list \<Rightarrow> gid list) \<Rightarrow> (gid \<Rightarrow> bool) \<Rightarrow> (intent \<Rightarrow> (string \<times> int \<times> string) option) \<Rightarrow> intent \<Rightarrow> (db, intent) prog" where
  "sync_intent_status w order router remote p =
     (if webhook_is_paid (pi_status p) then ret p
      else if \<not> is_doku_qr p \<and> pi_external p = [] then ret p
      else case remote p of None \<Rightarrow> ret p
        | Some (st0, amount, txn) \<Rightarrow>
            let st = (if is_doku_qr p then st0 else to_lower (trim_space st0));
                ev = (if is_doku_qr p then own_event p amount (qr_reference p) else own_event p (pi_amount p) txn) in
            if webhook_is_paid st
            then bind (complete_paid_webhook w order router (pi_provider p) 0 ev) (\<lambda>_. ret (p\<lparr>pi_status := ''paid''\<rparr>))
            else if st \<noteq> [] \<and> st \<noteq> pi_status p
            then bind (quietly (update_payment_intent_status (pi_external p) st)) (\<lambda>_. ret (p\<lparr>pi_status := st\<rparr>))
            else ret p)"

definition latest_invoice_payment_intent ::
  "world \<Rightarrow> (nat \<Rightarrow> gid list \<Rightarrow> gid list) \<Rightarrow> (gid \<Rightarrow> bool) \<Rightarrow> (intent \<Rightarrow> (string \<times> int \<times> string) option) \<Rightarrow> gid \<Rightarrow> invoice
     \<Rightarrow> (db, intent) prog" where
  "latest_invoice_payment_intent w order router remote tenant i =
     bind (get_latest_payment_intent_for_invoice_any tenant (inv_id i)) (sync_intent_status w order router remote)"

section \<open>The sandbox\<close>

definition sandbox_sim_external_id :: "string \<Rightarrow> invoice \<Rightarrow> string" where
  "sandbox_sim_external_id fresh i =
     (let base0 = trim_space (inv_number i); base = (if base0 = [] then ''SIM'' else base0) in take 28 base @ ''-SIM-'' @ fresh)"

definition none_if_missing :: "(db, intent) prog \<Rightarrow> (db, intent option) prog" where
  "none_if_missing m = bind (attempt m) (\<lambda>r. case r of
     Inr p \<Rightarrow> ret (Some p) | Inl e \<Rightarrow> if e = Not_found then ret None else raise e)"

definition open_intent :: "intent option \<Rightarrow> intent option" where
  "open_intent r = (case r of None \<Rightarrow> None | Some p \<Rightarrow> if webhook_is_paid (pi_status p) then None else Some p)"

definition not_dropped :: "intent option \<Rightarrow> intent option" where
  "not_dropped r = (case open_intent r of None \<Rightarrow> None
     | Some p \<Rightarrow> if to_lower (trim_space (pi_status p)) \<in> {''cancelled'', ''canceled'', ''expired''} then None else Some p)"

definition simulate_sandbox_invoice_payment ::
  "world \<Rightarrow> (nat \<Rightarrow> gid list \<Rightarrow> gid list) \<Rightarrow> (gid \<Rightarrow> bool) \<Rightarrow> bool \<Rightarrow> string \<Rightarrow> gid \<Rightarrow> invoice \<Rightarrow> (db, intent) prog" where
  "simulate_sandbox_invoice_payment w order router sandbox fresh tenant i =
     (if \<not> sandbox then raise (bad_request ''simulasi hanya tersedia saat Duitku sandbox aktif'')
      else if unpayable (inv_status i) then raise not_payable
      else if invoice_remaining i \<le> 0 then raise nothing_left
      else
        bind (none_if_missing (get_latest_pending_payment_intent (w_now w) tenant (inv_id i) ''duitku'')) (\<lambda>r1.
        bind (case open_intent r1 of Some p \<Rightarrow> ret (Some p)
              | None \<Rightarrow> bind (none_if_missing (get_latest_payment_intent_for_invoice tenant (inv_id i) ''duitku'')) (\<lambda>r2. ret (not_dropped r2))) (\<lambda>r.
        bind (case r of Some p \<Rightarrow> ret p
              | None \<Rightarrow> insert_payment_intent (w_now w)
                  \<lparr>pi_id = 0, pi_tenant = tenant, pi_customer = inv_customer i, pi_invoice = Some (inv_id i), pi_provider = ''duitku'',
                   pi_external = sandbox_sim_external_id fresh i, pi_amount = invoice_remaining i, pi_status = ''pending'', pi_checkout = [],
                   pi_expires = None, pi_meta = [(''sandbox_sim'', JBool True), (''duitku_sandbox'', JBool True)], pi_created = 0\<rparr>) (\<lambda>p.
        bind (complete_paid_webhook w order router ''duitku'' 0 (own_event p (invoice_remaining i) ''sandbox-sim'')) (\<lambda>_.
        ret (p\<lparr>pi_status := ''paid''\<rparr>))))))"

section \<open>Cancelling\<close>

text \<open>What the gateway says to a cancellation; a refusal with code 422 makes the handler poll instead.\<close>

datatype cancel_answer = Cannot_cancel | Cancel_done | Cancel_refused bool string | Unresolved string

definition mark_cancelled :: "intent \<Rightarrow> (db, intent) prog" where
  "mark_cancelled p = bind (quietly (update_payment_intent_status (pi_external p) ''cancelled'')) (\<lambda>_. ret (p\<lparr>pi_status := ''cancelled''\<rparr>))"

definition cancel_doku_qr_intent :: "cancel_answer \<Rightarrow> intent \<Rightarrow> (db, intent) prog" where
  "cancel_doku_qr_intent answer p =
     (let ref0 = meta_string (pi_meta p) ''reference'';
          ref = (if ref0 = [] then meta_string (pi_meta p) ''transaction_id'' else ref0) in
      if pi_external p = [] \<or> ref = [] then raise (bad_request ''reference QRIS tidak lengkap'')
      else case answer of
          Unresolved msg \<Rightarrow> raise (bad_request msg)
        | Cannot_cancel \<Rightarrow> raise (Rejected ''provider tidak mendukung pembatalan QRIS'')
        | Cancel_refused _ msg \<Rightarrow> raise (bad_request msg)
        | Cancel_done \<Rightarrow> mark_cancelled p)"

definition cancel_invoice_payment_intent ::
  "world \<Rightarrow> (nat \<Rightarrow> gid list \<Rightarrow> gid list) \<Rightarrow> (gid \<Rightarrow> bool) \<Rightarrow> (intent \<Rightarrow> (string \<times> int \<times> string) option) \<Rightarrow> (intent \<Rightarrow> cancel_answer)
     \<Rightarrow> gid \<Rightarrow> invoice \<Rightarrow> (db, intent) prog" where
  "cancel_invoice_payment_intent w order router remote cancel tenant i =
     bind (get_latest_payment_intent_for_invoice_any tenant (inv_id i)) (\<lambda>p.
     if webhook_is_paid (pi_status p) then raise (bad_request ''tagihan sudah lunas'')
     else if to_lower (trim_space (pi_status p)) \<in> {''cancelled'', ''canceled'', ''expired''} then ret p
     else if is_doku_qr p then cancel_doku_qr_intent (cancel p) p
     else case cancel p of
         Unresolved msg \<Rightarrow> raise (bad_request msg)
       | Cannot_cancel \<Rightarrow> mark_cancelled p
       | Cancel_done \<Rightarrow> if pi_external p = [] then raise (bad_request ''pembayaran tidak memiliki reference'') else mark_cancelled p
       | Cancel_refused code422 msg \<Rightarrow>
           if pi_external p = [] then raise (bad_request ''pembayaran tidak memiliki reference'')
           else bind (if code422 then attempt (latest_invoice_payment_intent w order router remote tenant i) else ret (Inl Not_found)) (\<lambda>r.
             case r of Inr q \<Rightarrow> ret q | Inl _ \<Rightarrow> raise (bad_request msg)))"

section \<open>A verified webhook\<close>

text \<open>The rest of the webhook handler, from the event its signature vouches for.\<close>

definition ack_webhook :: "(db, string) prog" where "ack_webhook = ret ''ok''"

definition handle_verified_webhook ::
  "world \<Rightarrow> (nat \<Rightarrow> gid list \<Rightarrow> gid list) \<Rightarrow> (gid \<Rightarrow> bool) \<Rightarrow> string \<Rightarrow> int \<Rightarrow> webhook_event \<Rightarrow> (db, string) prog" where
  "handle_verified_webhook w order router provider tip ev =
     (if ev_external ev = [] then ack_webhook
      else bind (attempt (get_payment_intent_by_external_id (ev_external ev))) (\<lambda>r.
        case r of
          Inr p \<Rightarrow>
            if normalize_payment_provider_name (pi_provider p) \<noteq> provider then ret ''ignored''
            else let e = ev\<lparr>ev_external := pi_external p\<rparr> in
              bind (if webhook_is_paid (ev_status e) \<and> ev_external e \<noteq> [] then complete_paid_webhook w order router provider tip e else ret ()) (\<lambda>_.
              bind (if ev_external e \<noteq> [] then quietly (update_payment_intent_status (ev_external e) (ev_status e)) else ret ()) (\<lambda>_.
              ack_webhook))
        | Inl _ \<Rightarrow>
              bind (if webhook_is_paid (ev_status ev) then complete_paid_webhook w order router provider tip ev else ret ()) (\<lambda>_.
              bind (quietly (update_payment_intent_status (ev_external ev) (ev_status ev))) (\<lambda>_. ack_webhook))))"

end
