(* ===== verification/Payment_Facts.thy ===== *)
theory Payment_Facts
  imports Plan_Changes Checkout
begin

text \<open>
  What online payments keep: no call around a payment intent breaks the money invariants of the
  whole system.  An assertion that a webhook cannot break is the contract \<open>webhook_frame\<close>; the
  paid amounts, wallets, books and intents together are one.  What a webhook records is the
  subject of \<open>Webhook_Facts\<close>.
\<close>

section \<open>Amounts of intents\<close>

definition intents_ok :: "db \<Rightarrow> bool" where
  "intents_ok s \<longleftrightarrow> (\<forall>p\<in>set (intents s). 0 \<le> pi_amount p)"

lemma stable_intents_ok: "stable intents_ok"
  by (simp add: stable_def intents_ok_def)

lemma intents_ok_off: "off_wallets intents_ok" "off_journal intents_ok"
  using stable_intents_ok by (simp_all add: off_wallets_def off_journal_def intents_ok_def)

lemma intents_ok_update: "(\<And>p. pi_amount (f p) = pi_amount p) \<Longrightarrow> intents_ok s \<Longrightarrow> intents_ok (s\<lparr>intents := update_rows q f (intents s)\<rparr>)"
  by (auto simp: intents_ok_def set_update_rows)

lemma keeps_intents_writes:
  "keeps intents_ok (exec (insert_payment p))" "keeps intents_ok (exec (update_invoices q f))"
  "keeps intents_ok (exec (update_payments q' g))" "keeps intents_ok (exec (insert_invoice now i))"
  "keeps intents_ok (exec (insert_item t iid it))" "keeps intents_ok (exec (delete_invoice_rows q))"
  "keeps intents_ok (exec (\<lambda>s. Some ((), s\<lparr>intents := update_rows (r s) (\<lambda>r. r\<lparr>pi_status := st, pi_invoice := None\<rparr>) (intents s)\<rparr>)))"
  by (intro keeps_exec stable_intents_ok;
      auto simp: insert_payment_def update_payments_def insert_invoice_def insert_item_def delete_invoice_rows_def Let_def
        update_invoices_def intents_ok_def set_update_rows split: if_splits)+

lemma keeps_intents_invoices:
  "keeps intents_ok (create_invoice now i items)" "keeps intents_ok (record_payment now p)"
  "keeps intents_ok (delete_payment now today t pid)" "keeps intents_ok (delete_invoice now t iid)"
  "keeps intents_ok (restore_invoice t iid)" "keeps intents_ok (purge_invoice t iid)"
  "keeps intents_ok (set_invoice_discount_amounts t iid d tax tot)" "keeps intents_ok (apply_invoice_late_fee now t iid amount desc)"
  unfolding create_invoice_def record_payment_def delete_payment_def get_payment_def shift_paid_def apply_invoice_payment_delta_def
    delete_invoice_def restore_invoice_def get_invoice_including_deleted_def purge_invoice_def set_invoice_discount_amounts_def
    apply_invoice_late_fee_def get_invoice_any_def Let_def
  by (intro keeps_intros keeps_tx gives_keeps keeps_intents_writes stable_intents_ok)+

lemma keeps_intents_wallets:
  "keeps intents_ok (credit_wallet now t c amount kind ref desc)"
  "keeps intents_ok (topup_wallet now today t c amount kind ref desc)"
  "keeps intents_ok (pay_invoice_from_wallet now today t c iid)"
  unfolding credit_wallet_def topup_wallet_def pay_invoice_from_wallet_def settle_from_wallet_def Let_def with_tenant_def
  by (intro keeps_intros keeps_tx gives_keeps keeps_intents_writes stable_intents_ok intents_ok_off)+

interpretation amounts: billing_frame intents_ok
proof unfold_locales
  show "intents_ok (s\<lparr>subscriptions := xs\<rparr>) = intents_ok s" for s xs by (simp add: intents_ok_def)
qed (intro stable_intents_ok keeps_intents_invoices keeps_intents_wallets)+

lemma ledger_step_intents_ok: "ledger_step s s' \<Longrightarrow> intents_ok s \<Longrightarrow> intents_ok s'"
proof (induction rule: ledger_step.induct)
  case (failures_change s fs)
  then show ?case by (simp add: intents_ok_def)
next
  case (customers_change s cs)
  then show ?case by (simp add: intents_ok_def)
qed (blast intro: keepsD keeps_intents_invoices)+

lemma money_step_intents_ok: "money_step s s' \<Longrightarrow> intents_ok s \<Longrightarrow> intents_ok s'"
proof (induction rule: money_step.induct)
  case (invoicing s s')
  then show ?case by (rule ledger_step_intents_ok)
next
  case (account_opened a s)
  then show ?case by (simp add: intents_ok_def)
qed (blast intro: keepsD keeps_intents_wallets keeps_create_expense_off keeps_record_payment_journal_off intents_ok_off)+

lemma system_step_intents_ok: "system_step s s' \<Longrightarrow> intents_ok s \<Longrightarrow> intents_ok s'"
  by (induction rule: system_step.induct) (auto simp: amounts.subs intro: money_step_intents_ok keepsD [OF _] amounts.engine_keeps)

section \<open>What survives a webhook\<close>

lemma keeps_list_subscriptions [keeps_intros]: "stable P \<Longrightarrow> keeps P (list_subscriptions t st c l off)"
  unfolding list_subscriptions_def page_query_def Let_def by (intro keeps_intros keeps_exec) auto

lemma paid_part_nonneg: "0 \<le> pi_amount p \<Longrightarrow> 0 \<le> paid_part p ev"
  by (simp add: paid_part_def base_amount_def Let_def)

lemma paid_part_le_base: "0 < base_amount p \<Longrightarrow> paid_part p ev \<le> base_amount p"
  by (simp add: paid_part_def Let_def)

lemma keeps_quietly [keeps_intros]: "keeps P m \<Longrightarrow> keeps P (quietly m)"
  unfolding quietly_def by (intro keeps_intros)

text \<open>What follows a payment changes subscriptions only.\<close>

context subs_frame begin

lemma keeps_upgrade: "keeps P (apply_pending_upgrade_if_paid t sid)"
  unfolding apply_pending_upgrade_if_paid_def Let_def
  by (intro keeps_intros st keeps_pending_writes keeps_update_subscription)

lemma keeps_resume: "keeps P (resume_if_settled w router t sid)"
  unfolding resume_if_settled_def resume_subscription_def still_due_def subscription_has_past_due_unpaid_def
  by (intro keeps_intros st keeps_status)

lemma keeps_after_paid: "keeps P (resume_after_invoice_paid w order router t i)"
  unfolding resume_after_invoice_paid_def Let_def
  by (intro keeps_intros st keeps_upgrade keeps_resume)

end

text \<open>The contract of an assertion a webhook cannot break: beside the billing frame's laws it does not look at
  intents but for their amounts, and the calls a webhook makes keep it.\<close>

locale webhook_frame = billing_frame +
  assumes nonneg: "P s \<Longrightarrow> p \<in> set (intents s) \<Longrightarrow> 0 \<le> pi_amount p"
    and retouch: "(\<And>p. pi_amount (f p) = pi_amount p) \<Longrightarrow> P s \<Longrightarrow> P (s\<lparr>intents := update_rows q f (intents s)\<rparr>)"
    and intent_new: "P s \<Longrightarrow> 0 \<le> pi_amount p \<Longrightarrow> P (s\<lparr>next_id := Suc (next_id s), intents := intents s @ [p]\<rparr>)"
    and paying: "0 \<le> pay_amount y \<Longrightarrow> keeps P (record_payment now y)"
    and topping: "keeps P (topup_wallet now today t c amount kind ref desc)"
    and crediting: "0 \<le> amount \<Longrightarrow> keeps P (credit_wallet now t c amount kind ref desc)"
    and posting: "0 \<le> paid_part p ev \<Longrightarrow> keeps P (post_webhook_payment w p ev i)"
begin

lemma keeps_intent_updates:
  "(\<And>p. pi_amount (f p) = pi_amount p) \<Longrightarrow> keeps P (exec (update_intents q f))"
  by (rule keeps_exec [OF st]) (auto simp: update_intents_def retouch)

lemma keeps_intent_calls:
  "keeps P (update_payment_intent_status ext status)"
  "keeps P (cancel_pending_payment_intents_except t iid keep)"
  "keeps P (cancel_pending_payment_intents_for_invoice t iid)"
  unfolding update_payment_intent_status_def cancel_pending_payment_intents_except_def cancel_pending_payment_intents_for_invoice_def
  by (intro keeps_intros st keeps_intent_updates; simp)+

lemma keeps_insert_intent: "0 \<le> pi_amount p \<Longrightarrow> keeps P (insert_payment_intent now p)"
  unfolding insert_payment_intent_def
  by (intro keeps_intros st keeps_exec) (auto simp: insert_intent_def Let_def intent_new split: if_splits)

lemma keeps_latest: "keeps P (latest_intent q)"
  unfolding latest_intent_def by (rule keeps_bind, intro keeps_intros st) (simp add: keeps_intros split: list.split)

lemma keeps_settle_wallet: "keeps P (auto_settle_customer_wallet w order router t c)"
  unfolding auto_settle_customer_wallet_def by (intro keeps_intros st keeps_auto_settle keeps_after_paid)

lemma keeps_topup: "keeps P (complete_wallet_topup w order router p ev)"
  unfolding complete_wallet_topup_def by (intro keeps_intros st topping keeps_settle_wallet)

lemma keeps_invoice_payment:
  "0 \<le> paid_part p ev \<Longrightarrow> keeps P (complete_invoice_payment w order router provider tip p ev)"
  unfolding complete_invoice_payment_def invoice_or_none_def
  by (intro keeps_intros st paying posting crediting keeps_intent_calls keeps_after_paid)
    (simp_all add: webhook_payment_def)

lemma keeps_complete: "keeps P (complete_paid_webhook w order router provider tip ev)"
proof -
  let ?known = "\<lambda>r. \<forall>p. r = Inr p \<longrightarrow> 0 \<le> pi_amount p"
  have rows: "gives P (auto (query (\<lambda>s. order_by newest_first (filter q (intents s))))) (\<lambda>rows s. P s \<and> (\<forall>p\<in>set rows. 0 \<le> pi_amount p))" for q
    by (rule gives_auto_query [OF st]) (use st nonneg in \<open>auto simp: stable_def\<close>)
  have latest: "gives P (latest_intent q) (\<lambda>p s. P s \<and> 0 \<le> pi_amount p)" for q
    unfolding latest_intent_def by (rule gives_bind [OF rows]) (auto simp: gives_def ret_def raise_def split: list.splits)
  have "gives P (attempt (get_payment_intent_by_external_id ext)) (\<lambda>r s. P s \<and> ?known r)" for ext
    using latest [of "has_external_id ext"] keeps_latest [of "has_external_id ext"]
    unfolding gives_def keeps_def attempt_def get_payment_intent_by_external_id_def
    by (auto split: prod.splits sum.splits)
  then show ?thesis
    unfolding complete_paid_webhook_def
  proof (rule keeps_bind_safe [rotated])
    show "keeps P (attempt (get_payment_intent_by_external_id (ev_external ev)))"
      unfolding get_payment_intent_by_external_id_def by (intro keeps_intros keeps_latest)
    fix r
    let ?rest = "case r of Inl e \<Rightarrow> if e = Not_found then ret () else raise e
     | Inr p \<Rightarrow> if pi_status p = ''paid'' then ret ()
         else if meta_string (pi_meta p) ''purpose'' = ''wallet_topup''
         then bind (complete_wallet_topup w order router p ev) (\<lambda>_. quietly (update_payment_intent_status (pi_external p) ''paid''))
         else complete_invoice_payment w order router provider tip p ev"
    have "keeps P ?rest" if "?known r"
      using that paid_part_nonneg by (intro keeps_intros keeps_topup keeps_intent_calls keeps_invoice_payment) auto
    then show "safe (\<lambda>s. P s \<and> ?known r) P ?rest" by (auto simp: safe_def keeps_def)
  qed
qed

lemma keeps_handle: "keeps P (handle_verified_webhook w order router provider tip ev)"
  unfolding handle_verified_webhook_def ack_webhook_def Let_def get_payment_intent_by_external_id_def
  by (intro keeps_intros keeps_latest keeps_complete keeps_intent_calls)

lemma keeps_sync: "keeps P (sync_intent_status w order router remote p)"
  unfolding sync_intent_status_def Let_def by (intro keeps_intros keeps_complete keeps_intent_calls)

lemma keeps_poll: "keeps P (latest_invoice_payment_intent w order router remote t i)"
  unfolding latest_invoice_payment_intent_def get_latest_payment_intent_for_invoice_any_def
  by (intro keeps_intros keeps_latest keeps_sync)

lemma keeps_cancel: "keeps P (cancel_invoice_payment_intent w order router remote cancel t i)"
  unfolding cancel_invoice_payment_intent_def cancel_doku_qr_intent_def mark_cancelled_def get_latest_payment_intent_for_invoice_any_def Let_def
  by (rule keeps_bind [OF keeps_latest], intro keeps_intros)
    (auto intro!: keeps_intros keeps_poll keeps_intent_calls split: cancel_answer.split)

lemma keeps_simulate: "keeps P (simulate_sandbox_invoice_payment w order router sandbox fresh t i)"
  unfolding simulate_sandbox_invoice_payment_def none_if_missing_def get_latest_pending_payment_intent_def
      get_latest_payment_intent_for_invoice_def
    by (intro keeps_intros keeps_latest keeps_complete keeps_insert_intent) simp

lemma keeps_checkout:
  assumes "0 \<le> wrap64 (invoice_remaining i + fee)"
  shows "keeps P (checkout_invoice w fee callback unresolved gateway t i provider channel)"
  unfolding checkout_invoice_def new_checkout_def Let_def get_latest_pending_payment_intent_def
  by (intro keeps_intros keeps_latest keeps_intent_calls keeps_insert_intent) (simp_all add: assms)

lemmas webhook_keeps = keeps_complete keeps_handle keeps_poll keeps_cancel keeps_simulate

end

section \<open>The system with its gateways\<close>

definition site_ok :: "db \<Rightarrow> bool" where
  "site_ok s \<longleftrightarrow> money_ok s \<and> intents_ok s"

lemma stable_site_ok: "stable site_ok"
  using stable_conj [OF stable_money_ok stable_intents_ok] by (simp add: site_ok_def [abs_def])

lemma keeps_site: "keeps money_ok m \<Longrightarrow> keeps intents_ok m \<Longrightarrow> keeps site_ok m"
  using keeps_conj [of money_ok m intents_ok] by (simp add: site_ok_def [abs_def])

lemma money_ok_intents: "money_ok (s\<lparr>intents := is\<rparr>) = money_ok s"
  by (simp add: money_ok_def paid_ok_def keys_ok_def solvent_def wallets_ok_def wallets_off_def funded_def
      books_ok_def books_off_def own_account_def has_entry_def)

text \<open>The accounts found are the tenant's own, so that the posting balances on them.\<close>

lemma gives_find_account:
  assumes P: "stable P"
  shows "gives P (find_account_by_type_or_code t kind code) (\<lambda>a s. P s \<and> own_account t a s)"
proof -
  let ?pick = "\<lambda>s. pick_account (\<lambda>a. to_lower (acc_type a) = to_lower kind) (filter (account_matches t kind code) (accounts s))"
  have "gives P (auto (query ?pick)) (\<lambda>r s. P s \<and> r = ?pick s)"
    by (rule gives_auto_query [OF P]) (use P in \<open>auto simp: stable_def\<close>)
  moreover have "own_account t a s" if "?pick s = Some a" for a s
    using pick_account_set [OF that] by (auto simp: own_account_def account_matches_def)
  ultimately show ?thesis unfolding find_account_by_type_or_code_def
    by (elim gives_bind) (auto simp: gives_def ret_def raise_def split: option.splits)
qed

lemma gives_or_nil:
  assumes P: "stable P"
  shows "gives P (or_nil (find_account_by_type_or_code t kind code)) (\<lambda>a s. P s \<and> nil_or_own t a s)"
proof -
  let ?m = "find_account_by_type_or_code t kind code"
  have k: "keeps P ?m" unfolding find_account_by_type_or_code_def by (intro keeps_intros P)
  show ?thesis
    unfolding gives_def
  proof (intro allI impI)
    fix s a s' assume s: "P s" and run: "or_nil ?m s = (Inr a, s')"
    obtain y s1 where y: "?m s = (y, s1)" by fastforce
    then have "s' = s1" "a = (case y of Inl _ \<Rightarrow> nil_id | Inr b \<Rightarrow> b)"
      using run by (auto simp: or_nil_def bind_def attempt_def ret_def)
    then show "P s' \<and> nil_or_own t a s'"
      using keepsD [OF k s] gives_find_account [OF P, of t kind code] s y
      unfolding gives_def nil_or_own_def by (cases y) auto
  qed
qed

lemma gives_cash_and_revenue:
  "gives books_ok (find_cash_and_revenue_accounts t) (\<lambda>(c, r) s. books_ok s \<and> nil_or_own t c s \<and> nil_or_own t r s)"
proof -
  have st: "stable books_ok" "stable (\<lambda>s. books_ok s \<and> nil_or_own t c s)" "stable (\<lambda>s. books_ok s \<and> nil_or_own t c s \<and> nil_or_own t r s)" for c r
    by (intro stable_conj stable_books_ok stable_nil_or_own)+
  have A: "gives (\<lambda>s. books_ok s \<and> nil_or_own t c s) (if c = nil_id then or_nil (find_account_by_type_or_code t kind code) else ret c)
      (\<lambda>c s. books_ok s \<and> nil_or_own t c s)" for c kind code
    by (intro gives_if gives_mono [OF gives_or_nil [OF st(1)]] gives_ret) auto
  have B: "gives (\<lambda>s. books_ok s \<and> nil_or_own t c s) (or_nil (find_account_by_type_or_code t kind code))
      (\<lambda>r s. books_ok s \<and> nil_or_own t c s \<and> nil_or_own t r s)" for c kind code
    by (rule gives_mono [OF gives_or_nil [OF st(2)]]) auto
  have C: "gives (\<lambda>s. books_ok s \<and> nil_or_own t c s \<and> nil_or_own t r s)
      (if r = nil_id then or_nil (find_account_by_type_or_code t kind code) else ret r)
      (\<lambda>r s. books_ok s \<and> nil_or_own t c s \<and> nil_or_own t r s)" for c r kind code
    by (intro gives_if gives_mono [OF gives_or_nil [OF st(2)]] gives_ret) auto
  show ?thesis unfolding find_cash_and_revenue_accounts_def
    by (rule gives_bind [OF gives_or_nil [OF st(1)]], rule gives_bind [OF A], rule gives_bind [OF B], rule gives_bind [OF C], rule gives_ret)
      simp
qed

lemma keeps_find_accounts [keeps_intros]: "stable P \<Longrightarrow> keeps P (find_cash_and_revenue_accounts t)"
  unfolding find_cash_and_revenue_accounts_def or_nil_def find_account_by_type_or_code_def by (intro keeps_intros)

lemma post_webhook_payment_books:
  assumes amount: "0 \<le> paid_part p ev"
  shows "keeps books_ok (post_webhook_payment w p ev i)"
  unfolding post_webhook_payment_def
proof (rule keeps_bind_safe [OF keeps_find_accounts [OF stable_books_ok] gives_cash_and_revenue])
  fix x :: "gid \<times> gid"
  obtain c r where x: "x = (c, r)" by fastforce
  let ?post = "quietly (record_payment_journal (w_now w) (w_today w) (pi_tenant p) (paid_part p ev) c r
      (case i of None \<Rightarrow> ev_external ev | Some x \<Rightarrow> inv_number x))"
  have q: "snd (quietly m s) = snd (m s)" for m :: "(db, gid) prog" and s
    by (simp add: quietly_def bind_def attempt_def ret_def split: prod.split)
  have "books_ok (snd (?post s))" if "books_ok s" "own_account (pi_tenant p) c s" "own_account (pi_tenant p) r s" for s
    using record_payment_journal_safe [OF amount, of "pi_tenant p" c r] that unfolding safe_def q by blast
  then show "safe (case x of (c, r) \<Rightarrow> \<lambda>s. books_ok s \<and> nil_or_own (pi_tenant p) c s \<and> nil_or_own (pi_tenant p) r s) books_ok
      (case x of (cash, revenue) \<Rightarrow> if cash = nil_id \<or> revenue = nil_id then ret ()
       else quietly (record_payment_journal (w_now w) (w_today w) (pi_tenant p) (paid_part p ev) cash revenue
              (case i of None \<Rightarrow> ev_external ev | Some x \<Rightarrow> inv_number x)))"
    by (auto simp: x safe_def ret_def nil_or_own_def)
qed

interpretation site: webhook_frame site_ok
proof unfold_locales
  show "stable site_ok" by (rule stable_site_ok)
  show "site_ok (s\<lparr>subscriptions := xs\<rparr>) = site_ok s" for s xs by (simp add: site_ok_def money.subs amounts.subs)
  show "0 \<le> pi_amount p" if "site_ok s" "p \<in> set (intents s)" for s p using that by (simp add: site_ok_def intents_ok_def)
  show "site_ok (s\<lparr>intents := update_rows q f (intents s)\<rparr>)" if "\<And>p. pi_amount (f p) = pi_amount p" "site_ok s" for s q f
    using that intents_ok_update by (simp add: site_ok_def money_ok_intents)
  show "site_ok (s\<lparr>next_id := Suc (next_id s), intents := intents s @ [p]\<rparr>)" if "site_ok s" "0 \<le> pi_amount p" for s p
  proof -
    have "paid_ok (s\<lparr>next_id := Suc (next_id s)\<rparr>)"
      using that off_walletsD [OF paid_ok_wallets(1), where n = "Suc (next_id s)" and ws = "wallets s" and xs = "wallet_txns s" and s = s] by (simp add: site_ok_def money_ok_def)
    then have "paid_ok (s\<lparr>next_id := Suc (next_id s), intents := intents s @ [p]\<rparr>)" by (simp add: paid_ok_def keys_ok_def)
    moreover have off: "Q (s\<lparr>next_id := Suc (next_id s), intents := intents s @ [p]\<rparr>)" if "off_payments Q" "Q s" for Q :: "db \<Rightarrow> bool"
      using off_paymentsD [OF that, where n = "Suc (next_id s)" and qs = "intents s @ [p]" and ps = "payments s" and its = "invoice_items s" and vs = "invoices s"] by simp
    ultimately show ?thesis
      using that off [OF wallet_frame.off] off [OF funded_frame.off] off [OF books_apart.off]
      by (simp add: site_ok_def money_ok_def solvent_def intents_ok_def)
  qed
  show "keeps site_ok (post_webhook_payment w p ev i)" if "0 \<le> paid_part p ev" for w p ev i
  proof -
    have off: "keeps Q (post_webhook_payment w p ev i)" if "off_journal Q" for Q
      unfolding post_webhook_payment_def quietly_def
      by (intro keeps_intros keeps_record_payment_journal_off that off_journal_stable [OF that])
    show ?thesis
      by (intro keeps_site keeps_money off [OF paid_ok_wallets(2)] off [OF solvent_off_journal] off [OF intents_ok_off(2)]
          post_webhook_payment_books that)
  qed
qed (intro keeps_site keeps_intents_invoices keeps_intents_wallets money.create money.late money.pay
     keeps_money_step money_step.invoicing ledger_step.step_record money_step.topped_up money_step.credited; simp)+

text \<open>Everything that moves money: the calls on invoices, wallets and the journal, the billing runs, and
  the calls around online payments, in any order and under any failures.\<close>

inductive site_step :: "db \<Rightarrow> db \<Rightarrow> bool" where
  system: "system_step s s' \<Longrightarrow> site_step s s'"
| webhook: "site_step s (snd (handle_verified_webhook w order router provider tip ev s))"
| completed: "site_step s (snd (complete_paid_webhook w order router provider tip ev s))"
| polled: "site_step s (snd (latest_invoice_payment_intent w order router remote t i s))"
| simulated: "site_step s (snd (simulate_sandbox_invoice_payment w order router sandbox fresh t i s))"
| withdrawn: "site_step s (snd (cancel_invoice_payment_intent w order router remote cancel t i s))"
| checkout: "0 \<le> wrap64 (invoice_remaining i + fee) \<Longrightarrow>
    site_step s (snd (checkout_invoice w fee callback unresolved gateway t i provider channel s))"
| topup_started: "0 \<le> pi_amount p \<Longrightarrow> site_step s (snd (insert_payment_intent now p s))"
| resumed: "site_step s (snd (resume_after_invoice_paid w order router t i s))"

inductive_cases site_stepE: "site_step s s'"

lemma site_step_ok: "site_step s s' \<Longrightarrow> site_ok s \<Longrightarrow> site_ok s'"
proof (induction rule: site_step.induct)
  case (system s s')
  then show ?case using system_step_ok system_step_intents_ok by (simp add: site_ok_def)
qed (blast intro: keepsD site.webhook_keeps site.keeps_checkout site.keeps_insert_intent site.keeps_after_paid)+

lemma site_reachable: "site_step\<^sup>*\<^sup>* empty_db s \<Longrightarrow> site_ok s"
proof (induction rule: rtranclp_induct)
  case base
  then show ?case using money_ok_empty by (simp add: site_ok_def intents_ok_def empty_db_def)
qed (rule site_step_ok)

end
