(* ===== verification/Webhook_Facts.thy ===== *)
theory Webhook_Facts
  imports Payment_Facts
begin

text \<open>
  What a paid webhook does to the bills: \<open>completePaidWebhook\<close> records the payment of its intent
  once, without the gateway's fee, whatever fails; a delivery that comes again finds the intent
  paid and changes nothing, unless the status update, whose error is dropped, failed.  A pending
  upgrade is applied only when its invoice is paid, and a subscription that still isolates is not
  resumed; a cancelled one is.
\<close>

section \<open>The newest intent\<close>

definition newest :: "(intent \<Rightarrow> bool) \<Rightarrow> db \<Rightarrow> intent option" where
  "newest q s = (case order_by newest_first (filter q (intents s)) of [] \<Rightarrow> None | p # _ \<Rightarrow> Some p)"

lemma newest_in: "newest q s = Some p \<Longrightarrow> p \<in> set (intents s) \<and> q p"
  unfolding newest_def by (cases "order_by newest_first (filter q (intents s))")
    (auto dest!: arg_cong [where f = set])

lemma newest_same: "same_tables s s' \<Longrightarrow> newest q s' = newest q s"
  by (simp add: newest_def same_tables_D(13))

lemma insert_by_map: "(\<And>a b. le (f a) (f b) = le a b) \<Longrightarrow> insert_by le (f x) (map f xs) = map f (insert_by le x xs)"
  by (induction xs) auto

lemma order_by_map: "(\<And>a b. le (f a) (f b) = le a b) \<Longrightarrow> order_by le (map f xs) = map f (order_by le xs)"
  by (induction xs) (auto simp: insert_by_map)

text \<open>An update that leaves what identifies an intent, and its age, finds the same intent.\<close>

lemma newest_update:
  assumes "\<And>p. pi_created (f p) = pi_created p" and "\<And>p. r (f p) = r p" and "newest r s = Some p"
  shows "newest r (s\<lparr>intents := update_rows q f (intents s)\<rparr>) = Some (if q p then f p else p)"
proof -
  let ?g = "\<lambda>p. if q p then f p else p"
  have e: "filter r (update_rows q f (intents s)) = map ?g (filter r (intents s))"
    unfolding update_rows_def by (induction "intents s" rule: list.induct) (auto simp: filter_map comp_def assms(2) intro!: arg_cong2 [where f = map] filter_cong)
  have "order_by newest_first (map ?g (filter r (intents s))) = map ?g (order_by newest_first (filter r (intents s)))"
    by (rule order_by_map) (simp add: newest_first_def assms(1))
  then show ?thesis using assms(3) by (auto simp: newest_def e split: list.splits)
qed

lemma latest_intent_run:
  assumes "latest_intent q s = (r, s')"
  shows "same_tables s s' \<and> (case r of Inl e \<Rightarrow> newest q s = None \<or> e \<noteq> Not_found | Inr p \<Rightarrow> newest q s = Some p)"
proof -
  have "reads (latest_intent q)" unfolding latest_intent_def
    by (rule readsI) (intro keeps_intros; auto intro!: keeps_intros split: list.split)
  then have "same_tables s s'" using assms unfolding reads_def by (metis snd_conv)
  moreover have "case r of Inl e \<Rightarrow> newest q s = None \<or> e \<noteq> Not_found | Inr p \<Rightarrow> newest q s = Some p"
    using assms
    by (auto simp: latest_intent_def newest_def bind_def auto_def query_def round_trip_def ret_def raise_def Let_def
        split: sum.splits prod.splits list.splits if_splits)
  ultimately show ?thesis by blast
qed

section \<open>One payment\<close>

text \<open>The bills as they are, and as they are once the payment of intent \<open>p\<close> is in.\<close>

definition bills_are :: "invoice list \<Rightarrow> payment list \<Rightarrow> db \<Rightarrow> bool" where
  "bills_are vs ps s \<longleftrightarrow> invoices s = vs \<and> payments s = ps"

definition paid_bills :: "int \<Rightarrow> intent \<Rightarrow> int \<Rightarrow> db \<Rightarrow> invoice list" where
  "paid_bills now p amount s =
     (case pi_invoice p of
        None \<Rightarrow> invoices s
      | Some iid \<Rightarrow> update_rows (\<lambda>i. is_invoice (pi_tenant p) iid i \<and> live i) (add_paid now amount) (invoices s))"

definition intent_payment :: "intent \<Rightarrow> int \<Rightarrow> payment \<Rightarrow> bool" where
  "intent_payment p amount y \<longleftrightarrow> pay_amount y = amount \<and> pay_invoice y = pi_invoice p \<and> pay_tenant y = pi_tenant p
     \<and> pay_customer y = pi_customer p \<and> pay_status y = ''paid'' \<and> pay_deleted y = None"

definition recorded :: "world \<Rightarrow> intent \<Rightarrow> webhook_event \<Rightarrow> db \<Rightarrow> db \<Rightarrow> bool" where
  "recorded w p ev s s' \<longleftrightarrow> (\<exists>y. intent_payment p (paid_part p ev) y
     \<and> bills_are (paid_bills (w_now w) p (paid_part p ev) s) (payments s @ [y]) s')"

lemma stable_bills_are: "stable (bills_are vs ps)"
  by (simp add: stable_def bills_are_def)

lemma bills_are_same: "same_tables s s' \<Longrightarrow> bills_are (invoices s) (payments s) s'"
  by (simp add: bills_are_def same_tables_D(3,4))

lemma bills_are_off: "off_wallets (bills_are vs ps)" "off_journal (bills_are vs ps)"
  using stable_bills_are by (simp_all add: off_wallets_def off_journal_def bills_are_def)

interpretation bills: subs_frame "bills_are vs ps"
  by unfold_locales (simp_all add: stable_bills_are bills_are_def)

lemma record_payment_outcome:
  "outcome s (\<lambda>_. recorded w p ev s) (record_payment (w_now w) (webhook_payment provider p ev))"
proof -
  let ?y = "webhook_payment provider p ev"
  let ?body = "bind (exec (insert_payment (?y\<lparr>pay_method := trim_space (pay_method ?y), pay_status := ''paid'', pay_paid_at := Some (w_now w), pay_created := w_now w\<rparr>)))
     (\<lambda>i. bind (case pay_invoice ?y of None \<Rightarrow> ret 0
        | Some iid \<Rightarrow> exec (update_invoices (\<lambda>v. is_invoice (pay_tenant ?y) iid v \<and> live v) (add_paid (w_now w) (pay_amount ?y)))) (\<lambda>_.
      ret (?y\<lparr>pay_method := trim_space (pay_method ?y), pay_status := ''paid'', pay_paid_at := Some (w_now w), pay_created := w_now w, pay_id := i, pay_deleted := None\<rparr>)))"
  let ?mid = "\<lambda>s1. \<exists>y. intent_payment p (paid_part p ev) y \<and> bills_are (invoices s) (payments s @ [y]) s1"
  have st: "stable ?mid" "stable (recorded w p ev s)" by (simp_all add: stable_def bills_are_def recorded_def)
  have ins: "gives (same_tables s) (exec (insert_payment (?y\<lparr>pay_method := trim_space (pay_method ?y), pay_status := ''paid'', pay_paid_at := Some (w_now w), pay_created := w_now w\<rparr>))) (\<lambda>_. ?mid)"
    by (rule gives_exec [OF stable_same_tables])
      (auto simp: insert_payment_def webhook_payment_def intent_payment_def bills_are_def same_tables_D split: if_splits)
  have pay: "gives ?mid (case pay_invoice ?y of None \<Rightarrow> ret 0
      | Some iid \<Rightarrow> exec (update_invoices (\<lambda>v. is_invoice (pay_tenant ?y) iid v \<and> live v) (add_paid (w_now w) (pay_amount ?y)))) (\<lambda>_. recorded w p ev s)"
  proof (cases "pi_invoice p")
    case None
    then show ?thesis by (auto simp: webhook_payment_def gives_def ret_def recorded_def paid_bills_def)
  next
    case (Some iid)
    have "gives ?mid (exec (update_invoices (\<lambda>v. is_invoice (pi_tenant p) iid v \<and> live v) (add_paid (w_now w) (paid_part p ev)))) (\<lambda>_. recorded w p ev s)"
      by (rule gives_exec [OF st(1)]) (auto simp: update_invoices_def recorded_def bills_are_def paid_bills_def Some split: if_splits)
    then show ?thesis by (simp add: webhook_payment_def Some)
  qed
  have body: "gives (same_tables s) ?body (\<lambda>_. recorded w p ev s)"
    by (rule gives_bind [OF ins], rule gives_bind [OF pay], rule gives_ret)
  have "outcome s (\<lambda>_. recorded w p ev s) (tx ?body)"
    unfolding outcome_def
  proof (intro allI impI)
    fix s1 r s' assume s1: "same_tables s s1" and run: "tx ?body s1 = (r, s')"
    show "case r of Inl _ \<Rightarrow> same_tables s s' | Inr _ \<Rightarrow> recorded w p ev s s'"
      using gives_tx [OF stable_same_tables st(2) body] s1 run tx_error_unchanged [of ?body s1 _ s']
      unfolding gives_def by (auto split: sum.split) (metis same_tables_conn(1) same_tables_trans)
  qed
  moreover have "to_lower (trim_space ''paid'') = ''paid''" by code_simp
  ultimately show ?thesis
    unfolding record_payment_def Let_def
    by (intro outcome_reads [OF readsI]) (auto intro!: keeps_set_tenant outcome_if outcome_raise simp: webhook_payment_def cong: option.case_cong)
qed

text \<open>What follows the payment leaves the bills alone.\<close>

abbreviation (input) after_payment ::
  "world \<Rightarrow> (nat \<Rightarrow> gid list \<Rightarrow> gid list) \<Rightarrow> (gid \<Rightarrow> bool) \<Rightarrow> int \<Rightarrow> intent \<Rightarrow> webhook_event \<Rightarrow> invoice option \<Rightarrow> (db, unit) prog" where
  "after_payment w order router tip p ev i \<equiv>
     bind (quietly (update_payment_intent_status (pi_external p) ''paid'')) (\<lambda>_.
     bind (case pi_invoice p of None \<Rightarrow> ret ()
           | Some iid \<Rightarrow> quietly (cancel_pending_payment_intents_for_invoice (pi_tenant p) iid)) (\<lambda>_.
     bind (case i of None \<Rightarrow> ret () | Some x \<Rightarrow> resume_after_invoice_paid w order router (pi_tenant p) x) (\<lambda>_.
     bind (if 0 < tip then quietly (credit_wallet (w_now w) (pi_tenant p) (pi_customer p) tip ''tip'' (ev_external ev) ''payment tip'')
           else ret ()) (\<lambda>_.
     post_webhook_payment w p ev i))))"

lemma keeps_post_webhook_off: "off_journal P \<Longrightarrow> keeps P (post_webhook_payment w p ev i)"
  unfolding post_webhook_payment_def by (intro keeps_intros keeps_record_payment_journal_off off_journal_stable)

lemma keeps_credit_off: "off_wallets P \<Longrightarrow> stable P \<Longrightarrow> keeps P (credit_wallet now t c amount kind ref desc)"
  unfolding credit_wallet_def by (intro keeps_intros keeps_tx_frame)

lemma keeps_bills_after: "keeps (bills_are vs ps) (after_payment w order router tip p ev i)"
  unfolding update_payment_intent_status_def cancel_pending_payment_intents_for_invoice_def
  by (intro keeps_intros stable_bills_are bills.keeps_after_paid keeps_credit_off keeps_post_webhook_off bills_are_off
      keeps_exec [OF stable_bills_are]) (auto simp: update_intents_def bills_are_def)

definition unrecorded :: "db \<Rightarrow> db \<Rightarrow> bool" where
  "unrecorded s s' \<longleftrightarrow> bills_are (invoices s) (payments s) s'"

lemma complete_invoice_payment_outcome:
  assumes "complete_invoice_payment w order router provider tip p ev s = (r, s')"
  shows "recorded w p ev s s' \<or> (r \<noteq> Inr () \<and> unrecorded s s')"
proof -
  let ?first = "invoice_or_none (pi_tenant p) (pi_invoice p)"
  have read: "reads ?first" unfolding invoice_or_none_def get_invoice_def get_invoice_any_def
    by (rule readsI) (intro keeps_intros; auto intro!: keeps_intros)
  obtain a s1 where a: "?first s = (a, s1)" by fastforce
  then have s1: "same_tables s s1" using read unfolding reads_def by (metis snd_conv)
  show ?thesis
  proof (cases a)
    case (Inl e)
    then show ?thesis using assms a s1 by (auto simp: complete_invoice_payment_def bind_def unrecorded_def bills_are_same)
  next
    case (Inr i)
    obtain b s2 where b: "record_payment (w_now w) (webhook_payment provider p ev) s1 = (b, s2)" by fastforce
    have o: "case b of Inl _ \<Rightarrow> same_tables s s2 | Inr _ \<Rightarrow> recorded w p ev s s2"
      using record_payment_outcome [of s w p ev provider] s1 b unfolding outcome_def by blast
    have run: "(case b of Inl e \<Rightarrow> (Inl e, s2) | Inr _ \<Rightarrow> after_payment w order router tip p ev i s2) = (r, s')"
      using assms a b Inr unfolding complete_invoice_payment_def bind_def [of ?first] bind_def [of "record_payment _ _"] by (auto split: sum.splits)
    show ?thesis
    proof (cases b)
      case (Inl e)
      then show ?thesis using o run by (auto simp: unrecorded_def bills_are_same)
    next
      case (Inr y)
      then have "s' = snd (after_payment w order router tip p ev i s2)" using run by (metis snd_conv sum.case(2))
      then have "bills_are vs ps s2 \<Longrightarrow> bills_are vs ps s'" for vs ps using keepsD [OF keeps_bills_after] by metis
      then show ?thesis using o Inr unfolding recorded_def by auto
    qed
  qed
qed

definition topup_intent :: "intent \<Rightarrow> bool" where
  "topup_intent p \<longleftrightarrow> meta_string (pi_meta p) ''purpose'' = ''wallet_topup''"

lemma complete_paid_webhook_outcome:
  assumes run: "complete_paid_webhook w order router provider tip ev s = (r, s')"
    and found: "newest (has_external_id (ev_external ev)) s = Some p" and kind: "\<not> topup_intent p"
  shows "if pi_status p = ''paid'' then same_tables s s' else recorded w p ev s s' \<or> (r \<noteq> Inr () \<and> unrecorded s s')"
proof -
  obtain a s1 where a: "latest_intent (has_external_id (ev_external ev)) s = (a, s1)" by fastforce
  note l = latest_intent_run [OF a]
  have same: "unrecorded s1 s' = unrecorded s s'" "recorded w p ev s1 s' = recorded w p ev s s'"
    using same_tables_D(3,4) [OF conjunct1 [OF l]] by (simp_all add: unrecorded_def recorded_def paid_bills_def cong: option.case_cong)
  show ?thesis
  proof (cases a)
    case (Inl e)
    then have "r = Inl e" "s' = s1" using run a l found
      by (auto simp: complete_paid_webhook_def get_payment_intent_by_external_id_def bind_def attempt_def raise_def split: if_splits)
    then show ?thesis using l by (auto simp: unrecorded_def bills_are_same)
  next
    case (Inr q)
    then have q: "q = p" using l found by simp
    show ?thesis
    proof (cases "pi_status p = ''paid''")
      case True
      then show ?thesis using run a Inr q l
        by (auto simp: complete_paid_webhook_def get_payment_intent_by_external_id_def bind_def attempt_def ret_def)
    next
      case False
      then have "complete_invoice_payment w order router provider tip p ev s1 = (r, s')" using run a Inr q kind
        by (auto simp: complete_paid_webhook_def get_payment_intent_by_external_id_def topup_intent_def bind_def [of "attempt _"] attempt_def)
      then show ?thesis using complete_invoice_payment_outcome [of w order router provider tip p ev s1 r s'] same False by simp
    qed
  qed
qed

section \<open>A delivery that comes again\<close>

definition marked :: "string \<Rightarrow> db \<Rightarrow> bool" where
  "marked ext s \<longleftrightarrow> (\<exists>p. newest (has_external_id ext) s = Some p \<and> pi_status p = ''paid'')"

lemma marked_cong: "intents s' = intents s \<Longrightarrow> marked ext s' = marked ext s"
  by (simp add: marked_def newest_def)

lemma stable_marked: "stable (marked ext)"
  unfolding stable_def by (intro allI marked_cong) simp

lemma marked_off: "off_wallets (marked ext)" "off_journal (marked ext)"
  unfolding off_wallets_def off_journal_def
  by (auto simp: stable_marked elim: marked_cong [THEN iffD2, rotated])

interpretation mark: subs_frame "marked ext"
  by unfold_locales (rule stable_marked, rule marked_cong, simp)

lemma marked_update:
  assumes "\<And>p. f p = p\<lparr>pi_status := st\<rparr>" and "\<And>p. q p \<Longrightarrow> pi_status p \<noteq> ''paid''" and "marked ext s"
  shows "marked ext (s\<lparr>intents := update_rows q f (intents s)\<rparr>)"
proof -
  obtain p where p: "newest (has_external_id ext) s = Some p" "pi_status p = ''paid''" using assms(3) by (auto simp: marked_def)
  have "newest (has_external_id ext) (s\<lparr>intents := update_rows q f (intents s)\<rparr>) = Some (if q p then f p else p)"
    by (rule newest_update [OF _ _ p(1)]) (simp_all add: assms(1) has_external_id_def)
  then show ?thesis using p assms(2) [of p] by (auto simp: marked_def)
qed

lemma keeps_marked_rest:
  "keeps (marked ext) (cancel_pending_payment_intents_for_invoice t iid)"
  unfolding cancel_pending_payment_intents_for_invoice_def
proof (intro keeps_intros stable_marked keeps_exec)
  have p: "to_lower ''paid'' = ''paid''" by code_simp
  fix s x s' assume m: "marked ext s" and u: "update_intents (\<lambda>p. pi_tenant p = t \<and> pi_invoice p = Some iid
         \<and> to_lower (pi_status p) \<in> {''pending'', ''created'', ''unpaid''}) (\<lambda>p. p\<lparr>pi_status := ''cancelled''\<rparr>) s = Some (x, s')"
  have "marked ext (s\<lparr>intents := update_rows (\<lambda>p. pi_tenant p = t \<and> pi_invoice p = Some iid
         \<and> to_lower (pi_status p) \<in> {''pending'', ''created'', ''unpaid''}) (\<lambda>p. p\<lparr>pi_status := ''cancelled''\<rparr>) (intents s)\<rparr>)"
    by (rule marked_update [OF _ _ m]) (auto simp: p)
  then show "marked ext s'" using u by (simp add: update_intents_def)
qed

text \<open>Without failures, a program whose statements leave the intents alone.\<close>

definition quiet :: "intent list \<Rightarrow> db \<Rightarrow> bool" where
  "quiet ps s \<longleftrightarrow> faults s = [] \<and> intents s = ps"

lemma keeps_quiet:
  "keeps (quiet ps) round_trip" "keeps (quiet ps) (query g)"
  "keeps (quiet ps) m \<Longrightarrow> keeps (quiet ps) (auto m)" "keeps (quiet ps) m \<Longrightarrow> keeps (quiet ps) (tx m)"
  "(\<And>s x s'. u s = Some (x, s') \<Longrightarrow> faults s' = faults s \<and> intents s' = intents s) \<Longrightarrow> keeps (quiet ps) (exec u)"
proof -
  show rt: "keeps (quiet ps) round_trip" by (auto simp: keeps_def quiet_def round_trip_def Let_def)
  show "keeps (quiet ps) (query g)" unfolding query_def by (intro keeps_bind rt) (simp add: keeps_def)
  have ab: "quiet ps (s\<lparr>aborted := a\<rparr>) = quiet ps s" for s a by (simp add: quiet_def)
  show "keeps (quiet ps) (auto m)" if m: "keeps (quiet ps) m"
    unfolding keeps_def
  proof (intro allI impI)
    fix s assume "quiet ps s"
    then have "quiet ps (snd (m (s\<lparr>aborted := False\<rparr>)))" using keepsD [OF m] ab by blast
    then show "quiet ps (snd (auto m s))" by (auto simp add: auto_def ab split: prod.split)
  qed
  show "keeps (quiet ps) (tx m)" if m: "keeps (quiet ps) m"
    unfolding keeps_def
  proof (intro allI impI)
    let ?body = "bind round_trip (\<lambda>_. bind m (\<lambda>x. bind round_trip (\<lambda>_. ret x)))"
    fix s assume s: "quiet ps s"
    have "keeps (quiet ps) ?body" by (intro keeps_bind rt m keeps_ret)
    then have b: "quiet ps (snd (?body (s\<lparr>aborted := False\<rparr>)))" by (rule keepsD) (use s ab in simp)
    obtain r s' where r: "?body (s\<lparr>aborted := False\<rparr>) = (r, s')" by fastforce
    then have "quiet ps s'" using b by simp
    then show "quiet ps (snd (tx m s))" using s unfolding tx_def Let_def r by (cases r) (simp_all add: quiet_def)
  qed
  show "keeps (quiet ps) (exec u)" if "\<And>s x s'. u s = Some (x, s') \<Longrightarrow> faults s' = faults s \<and> intents s' = intents s"
    unfolding exec_def by (intro keeps_bind rt) (auto simp: keeps_def quiet_def split: option.split dest: that)
qed

lemma keeps_quiet_calls:
  "keeps (quiet ps) (latest_intent q)" "keeps (quiet ps) (invoice_or_none t i)" "keeps (quiet ps) (record_payment now y)"
proof -
  show "keeps (quiet ps) (latest_intent q)" unfolding latest_intent_def
    by (intro keeps_intros keeps_quiet; auto intro!: keeps_intros split: list.split)
  show "keeps (quiet ps) (invoice_or_none t i)"
    unfolding invoice_or_none_def get_invoice_def get_invoice_any_def set_tenant_def
    by (intro keeps_bind keeps_option keeps_attempt keeps_quiet keeps_ret keeps_raise; auto intro!: keeps_intros keeps_quiet)
  show "keeps (quiet ps) (record_payment now y)"
    unfolding record_payment_def set_tenant_def Let_def
    by (intro keeps_bind keeps_if keeps_option keeps_quiet keeps_ret keeps_raise)
      (auto simp: insert_payment_def update_invoices_def split: if_splits)
qed

lemma keeps_marked_after:
  "keeps (marked ext) (bind (case pi_invoice p of None \<Rightarrow> ret ()
           | Some iid \<Rightarrow> quietly (cancel_pending_payment_intents_for_invoice (pi_tenant p) iid)) (\<lambda>_.
     bind (case i of None \<Rightarrow> ret () | Some x \<Rightarrow> resume_after_invoice_paid w order router (pi_tenant p) x) (\<lambda>_.
     bind (if 0 < tip then quietly (credit_wallet (w_now w) (pi_tenant p) (pi_customer p) tip ''tip'' (ev_external ev) ''payment tip'')
           else ret ()) (\<lambda>_.
     post_webhook_payment w p ev i))))"
  by (intro keeps_intros stable_marked keeps_marked_rest mark.keeps_after_paid keeps_credit_off keeps_post_webhook_off marked_off)

lemma status_update_marks:
  assumes q: "quiet (intents s) s1" and p: "newest (has_external_id ext) s = Some p"
  shows "\<exists>s2. quietly (update_payment_intent_status (pi_external p) ''paid'') s1 = (Inr (), s2) \<and> marked ext s2"
proof -
  let ?q = "\<lambda>r. pi_external r = pi_external p \<and> pi_status r \<noteq> ''paid''" and ?f = "\<lambda>r. r\<lparr>pi_status := ''paid''\<rparr>"
  let ?s2 = "s1\<lparr>aborted := False, intents := update_rows ?q ?f (intents s)\<rparr>"
  have run: "quietly (update_payment_intent_status (pi_external p) ''paid'') s1 = (Inr (), ?s2)"
    using q by (simp add: quietly_def update_payment_intent_status_def bind_def attempt_def auto_def exec_def round_trip_def
        update_intents_def quiet_def ret_def)
  have "newest (has_external_id ext) (s\<lparr>intents := update_rows ?q ?f (intents s)\<rparr>) = Some (if ?q p then ?f p else p)"
    by (rule newest_update [OF _ _ p]) (simp_all add: has_external_id_def)
  then have "marked ext (s\<lparr>intents := update_rows ?q ?f (intents s)\<rparr>)" by (auto simp: marked_def)
  then have "marked ext ?s2" using marked_cong [of ?s2 "s\<lparr>intents := update_rows ?q ?f (intents s)\<rparr>" ext] by simp
  then show ?thesis using run by blast
qed

lemma complete_invoice_payment_marks:
  assumes "complete_invoice_payment w order router provider tip p ev s1 = (Inr (), s')"
    and q: "quiet (intents s) s1" and p: "newest (has_external_id ext) s = Some p"
  shows "marked ext s'"
proof -
  from assms(1) obtain i s2 y s3 where i: "invoice_or_none (pi_tenant p) (pi_invoice p) s1 = (Inr i, s2)"
    and y: "record_payment (w_now w) (webhook_payment provider p ev) s2 = (Inr y, s3)"
    and more: "after_payment w order router tip p ev i s3 = (Inr (), s')"
    unfolding complete_invoice_payment_def by (elim bind_Inr [of "invoice_or_none _ _"] bind_Inr [of "record_payment _ _"]) blast
  have "quiet (intents s) s2" using keepsD [OF keeps_quiet_calls(2) q] i by (metis snd_conv)
  then have "quiet (intents s) s3" using keepsD [OF keeps_quiet_calls(3)] y by (metis snd_conv)
  from status_update_marks [OF this p] obtain s4 where s4: "quietly (update_payment_intent_status (pi_external p) ''paid'') s3 = (Inr (), s4)"
    "marked ext s4" by blast
  then show ?thesis using more keepsD [OF keeps_marked_after [where p = p and i = i and w = w and order = order and router = router and tip = tip and ev = ev] s4(2)]
    unfolding bind_def [of "quietly _"] s4(1) by simp
qed

section \<open>Changes of subscriptions after a payment\<close>

text \<open>\<open>upgraded t sid p x y\<close>: what applying the pending plan \<open>p\<close> may do to a row.\<close>

definition upgraded :: "gid \<Rightarrow> gid \<Rightarrow> pending_plan \<Rightarrow> subscription \<Rightarrow> subscription \<Rightarrow> bool" where
  "upgraded t sid p x y \<longleftrightarrow> is_subscription t sid y = is_subscription t sid x
     \<and> (y = x \<or> (is_subscription t sid x \<and> sub_plan y \<in> {sub_plan x, pend_new p} \<and> sub_status y = sub_status x))"

definition upgrading :: "gid \<Rightarrow> gid \<Rightarrow> pending_plan \<Rightarrow> db \<Rightarrow> db \<Rightarrow> bool" where
  "upgrading t sid p s s' \<longleftrightarrow> list_all2 (upgraded t sid p) (subscriptions s) (subscriptions s')"

lemma stable_upgrading: "stable (upgrading t sid p s)"
  by (simp add: stable_def upgrading_def)

lemma upgrading_update:
  assumes "\<And>x y. upgraded t sid p x y \<Longrightarrow> q y \<Longrightarrow> upgraded t sid p x (f y)"
  shows "keeps (upgrading t sid p s) (exec (\<lambda>s1. if c s1 then update_subs q f s1 else None))"
proof (rule keeps_exec [OF stable_upgrading])
  fix s1 x s2 assume "upgrading t sid p s s1" and "(if c s1 then update_subs q f s1 else None) = Some (x, s2)"
  moreover have "list_all2 (upgraded t sid p) xs ys \<Longrightarrow> list_all2 (upgraded t sid p) xs (update_rows q f ys)" for xs ys
    unfolding update_rows_def by (induction rule: list_all2_induct) (auto intro: assms)
  ultimately show "upgrading t sid p s s2" by (auto simp: upgrading_def update_subs_def split: if_splits)
qed

definition upgrade_paid :: "gid \<Rightarrow> gid \<Rightarrow> pending_plan \<Rightarrow> db \<Rightarrow> bool" where
  "upgrade_paid t sid p s \<longleftrightarrow> (\<exists>x\<in>set (subscriptions s). is_subscription t sid x \<and> sub_pending x = Some p)
     \<and> (\<exists>i\<in>set (invoices s). is_invoice t (pend_invoice p) i \<and> live i \<and> ((inv_total i \<le> inv_paid i \<and> 0 < inv_total i) \<or> inv_status i = ''paid''))"

lemma gives_pending: "gives (same_tables s) (get_subscription_pending_plan t sid)
    (\<lambda>r s1. same_tables s s1 \<and> (\<forall>p. r = Some p \<longrightarrow> (\<exists>x\<in>set (subscriptions s). is_subscription t sid x \<and> sub_pending x = Some p)))"
  unfolding get_subscription_pending_plan_def
  by (rule gives_bind [OF gives_set_tenant [OF stable_same_tables]], rule gives_bind [OF gives_same_query])
    (auto simp: same_tables_D gives_def ret_def raise_def dest!: first_row_Some split: option.splits if_splits)

lemma gives_invoice:
  "gives (same_tables s) (get_invoice t iid) (\<lambda>v s1. same_tables s s1 \<and> fst v \<in> set (invoices s) \<and> is_invoice t iid (fst v) \<and> live (fst v))"
  unfolding get_invoice_def get_invoice_any_def
proof (rule gives_bind [OF gives_set_tenant [OF stable_same_tables]], rule gives_bind [OF gives_same_query])
  show "get_invoice_rows False t iid s1 = get_invoice_rows False t iid s" if "same_tables s s1" for s1
    using that by (simp add: get_invoice_rows_def has_customer_def same_tables_D)
  fix row
  show "gives (\<lambda>s1. same_tables s s1 \<and> row = get_invoice_rows False t iid s)
     (case row of None \<Rightarrow> raise Not_found | Some i \<Rightarrow> bind (auto (query (items_of iid))) (\<lambda>items. ret (i, items)))
     (\<lambda>v s1. same_tables s s1 \<and> fst v \<in> set (invoices s) \<and> is_invoice t iid (fst v) \<and> live (fst v))"
  proof (cases row)
    case (Some i)
    have "i \<in> set (invoices s) \<and> is_invoice t iid i \<and> live i" if "get_invoice_rows False t iid s = Some i"
      using that by (auto simp: get_invoice_rows_def is_invoice_def dest!: first_row_Some)
    then show ?thesis unfolding Some option.case
      by (intro gives_bind [OF gives_keeps [OF keeps_auto_query [OF stable_same_and]]] gives_ret) auto
  qed simp
qed

lemma gives_pending_paid: "gives (same_tables s) (pending_plan_invoice_paid t (Some p))
    (\<lambda>b s1. same_tables s s1 \<and> (b \<longrightarrow> (\<exists>i\<in>set (invoices s). is_invoice t (pend_invoice p) i \<and> live i
       \<and> ((inv_total i \<le> inv_paid i \<and> 0 < inv_total i) \<or> inv_status i = ''paid''))))"
  unfolding pending_plan_invoice_paid_def
  by (auto intro!: gives_if gives_ret gives_bind [OF gives_invoice])

lemma keeps_upgrading_calls:
  "keeps (upgrading t sid p s) (clear_subscription_pending_plan t sid)"
  "sub_plan x = pend_new p \<Longrightarrow> sub_id x = sid \<Longrightarrow> keeps (upgrading t sid p s) (update_subscription t x False)"
proof -
  have c: "keeps (upgrading t sid p s) (exec (\<lambda>s1. if True then update_subs (is_subscription t sid) (\<lambda>x. x\<lparr>sub_pending := None\<rparr>) s1 else None))"
    by (rule upgrading_update) (auto simp: upgraded_def is_subscription_def)
  then show "keeps (upgrading t sid p s) (clear_subscription_pending_plan t sid)"
    unfolding clear_subscription_pending_plan_def by (intro keeps_intros stable_upgrading) (simp add: eta_contract_eq)
  show "keeps (upgrading t sid p s) (update_subscription t x False)" if "sub_plan x = pend_new p" "sub_id x = sid"
    unfolding update_subscription_def Let_def that(2)
    by (intro keeps_intros stable_upgrading upgrading_update) (use that in \<open>auto simp: upgraded_def is_subscription_def\<close>)
qed

lemma upgrading_same: "same_tables s s1 \<Longrightarrow> upgrading t sid p s s1"
  by (simp add: upgrading_def same_tables_D list_all2_same upgraded_def)

definition upgrade_end :: "gid \<Rightarrow> gid \<Rightarrow> db \<Rightarrow> db \<Rightarrow> bool" where
  "upgrade_end t sid s s' \<longleftrightarrow> subscriptions s' = subscriptions s \<or> (\<exists>p. upgrade_paid t sid p s \<and> upgrading t sid p s s')"

lemma same_upgrade_end: "same_tables s s' \<Longrightarrow> upgrade_end t sid s s'"
  by (simp add: upgrade_end_def same_tables_D)

lemma safe_reads: "(\<And>P. stable P \<Longrightarrow> keeps P m) \<Longrightarrow> safe (same_tables s) (upgrade_end t sid s) m"
  unfolding safe_def by (metis keepsD stable_same_tables same_upgrade_end)

lemma safe_upgrade: "safe (same_tables s) (upgrade_end t sid s) (apply_pending_upgrade_if_paid t sid)"
proof -
  let ?apply = "\<lambda>p. bind (get_subscription t sid) (\<lambda>v. let sub = sv_row v in
     if sub_plan sub = pend_new p
     then bind (quietly (clear_subscription_pending_plan t sid)) (\<lambda>_. ret True)
     else bind (get_plan t (pend_new p)) (\<lambda>new.
       bind (update_subscription t (sub\<lparr>sub_plan := pend_new p, sub_service := upgraded_service p new sub\<rparr>) False) (\<lambda>_.
       bind (quietly (clear_subscription_pending_plan t sid)) (\<lambda>_.
       bind (quietly (get_subscription t sid)) (\<lambda>_. ret True)))))"
  have own: "gives (upgrading t sid p s) (get_subscription t sid) (\<lambda>v s1. upgrading t sid p s s1 \<and> sub_id (sv_row v) = sid)" for p
    unfolding gives_def
  proof (intro allI impI)
    fix s1 v s2 assume "upgrading t sid p s s1" "get_subscription t sid s1 = (Inr v, s2)"
    then show "upgrading t sid p s s2 \<and> sub_id (sv_row v) = sid"
      using get_subscription_gives [unfolded gives_def, rule_format, OF same_tables_refl, of t sid s1 v s2]
        keepsD [OF keeps_get_subscription [OF stable_upgrading], of t sid p s s1 t sid]
      by (simp add: is_subscription_def)
  qed
  have does: "safe (upgrading t sid p s) (upgrading t sid p s) (?apply p)" for p
  proof (rule safe_bind [OF _ own])
    show "safe (upgrading t sid p s) (upgrading t sid p s) (get_subscription t sid)"
      unfolding keeps_safe [symmetric] by (rule keeps_get_subscription [OF stable_upgrading])
    fix v
    have "keeps (upgrading t sid p s) (let sub = sv_row v in
       if sub_plan sub = pend_new p
       then bind (quietly (clear_subscription_pending_plan t sid)) (\<lambda>_. ret True)
       else bind (get_plan t (pend_new p)) (\<lambda>new.
         bind (update_subscription t (sub\<lparr>sub_plan := pend_new p, sub_service := upgraded_service p new sub\<rparr>) False) (\<lambda>_.
         bind (quietly (clear_subscription_pending_plan t sid)) (\<lambda>_.
         bind (quietly (get_subscription t sid)) (\<lambda>_. ret True)))))" if "sub_id (sv_row v) = sid"
      unfolding Let_def by (intro keeps_intros keeps_upgrading_calls stable_upgrading keeps_get_subscription) (simp_all add: that)
    then show "safe (\<lambda>s1. upgrading t sid p s s1 \<and> sub_id (sv_row v) = sid) (upgrading t sid p s) (let sub = sv_row v in
       if sub_plan sub = pend_new p
       then bind (quietly (clear_subscription_pending_plan t sid)) (\<lambda>_. ret True)
       else bind (get_plan t (pend_new p)) (\<lambda>new.
         bind (update_subscription t (sub\<lparr>sub_plan := pend_new p, sub_service := upgraded_service p new sub\<rparr>) False) (\<lambda>_.
         bind (quietly (clear_subscription_pending_plan t sid)) (\<lambda>_.
         bind (quietly (get_subscription t sid)) (\<lambda>_. ret True)))))"
      unfolding safe_def keeps_def by blast
  qed
  have body: "safe (\<lambda>s1. same_tables s s1 \<and> upgrade_paid t sid p s) (upgrade_end t sid s) (?apply p)" for p
    using does [of p] upgrading_same unfolding safe_def upgrade_end_def by blast
  have run: "safe (same_tables s) (upgrade_end t sid s) (bind (get_subscription_pending_plan t sid) (\<lambda>pending.
       case pending of None \<Rightarrow> ret False
       | Some p \<Rightarrow> bind (pending_plan_invoice_paid t (Some p)) (\<lambda>paid. if \<not> paid then ret False else ?apply p)))"
  proof (rule safe_bind [OF safe_reads gives_pending])
    fix r
    show "safe (\<lambda>s1. same_tables s s1 \<and> (\<forall>p. r = Some p \<longrightarrow> (\<exists>x\<in>set (subscriptions s). is_subscription t sid x \<and> sub_pending x = Some p)))
       (upgrade_end t sid s) (case r of None \<Rightarrow> ret False
       | Some p \<Rightarrow> bind (pending_plan_invoice_paid t (Some p)) (\<lambda>paid. if \<not> paid then ret False else ?apply p))"
    proof (cases r)
      case None
      then show ?thesis by (auto intro: safe_ret same_upgrade_end)
    next
      case (Some p)
      have "safe (same_tables s) (upgrade_end t sid s) (bind (pending_plan_invoice_paid t (Some p)) (\<lambda>paid. if \<not> paid then ret False else ?apply p))"
        if x: "\<exists>x\<in>set (subscriptions s). is_subscription t sid x \<and> sub_pending x = Some p"
      proof (rule safe_bind [OF safe_reads gives_pending_paid])
        fix paid
        show "safe (\<lambda>s1. same_tables s s1 \<and> (paid \<longrightarrow> (\<exists>i\<in>set (invoices s). is_invoice t (pend_invoice p) i \<and> live i
            \<and> ((inv_total i \<le> inv_paid i \<and> 0 < inv_total i) \<or> inv_status i = ''paid''))))
          (upgrade_end t sid s) (if \<not> paid then ret False else ?apply p)"
          using body [of p] x unfolding safe_def upgrade_paid_def by (cases paid) (auto simp: ret_def intro: same_upgrade_end)
      qed (rule keeps_pending_reads)
      then show ?thesis using Some unfolding safe_def by auto
    qed
  qed (intro keeps_intros)
  then show ?thesis unfolding apply_pending_upgrade_if_paid_def or_else_def safe_def
    by (auto simp: bind_def [of "attempt _"] attempt_def ret_def split: prod.splits)
qed

section \<open>Who is resumed\<close>

lemma gives_tried:
  assumes "reads m" and "gives (same_tables s) m Q"
  shows "gives (same_tables s) (attempt m) (\<lambda>r s1. case r of Inl _ \<Rightarrow> same_tables s s1 | Inr x \<Rightarrow> Q x s1)"
  unfolding gives_def
proof (intro allI impI)
  fix s1 r s2 assume s1: "same_tables s s1" and run: "attempt m s1 = (Inr r, s2)"
  obtain y s3 where y: "m s1 = (y, s3)" by fastforce
  then have "r = y" "s2 = s3" using run by (simp_all add: attempt_def)
  moreover have "same_tables s s3" using assms(1) s1 y unfolding reads_def by (metis same_tables_trans snd_conv)
  ultimately show "case r of Inl _ \<Rightarrow> same_tables s s2 | Inr x \<Rightarrow> Q x s2"
    using assms(2) s1 y unfolding gives_def by (cases y) auto
qed

lemma gives_grace:
  "gives (same_tables s) (isolir_grace_days known t) (\<lambda>g s1. same_tables s s1 \<and> (g = 0 \<or> g = gs_grace (settings_of known t s)))"
proof -
  have row: "gives (same_tables s) (get_setting general_rows t) (\<lambda>v s1. same_tables s s1 \<and> map_of (general_rows s) t = Some v)"
    unfolding get_setting_def
    by (rule gives_bind [OF gives_set_tenant [OF stable_same_tables]], rule gives_bind [OF gives_same_query])
      (auto simp: same_tables_D gives_def ret_def raise_def split: option.splits)
  have reads: "reads (get_setting general_rows t)" unfolding get_setting_def by (rule readsI) (intro keeps_intros)
  have miss: "get_setting general_rows t s1 = (Inl Not_found, s2) \<Longrightarrow> map_of (general_rows s1) t = None" for s1 s2
    by (auto simp: get_setting_def set_tenant_def auto_def query_def round_trip_def bind_def Let_def ret_def raise_def split: if_splits option.splits)
  have set: "gives (same_tables s) (get_general_settings known t) (\<lambda>g s1. same_tables s s1 \<and> g = settings_of known t s)"
    unfolding gives_def
  proof (intro allI impI)
    fix s1 g s2 assume s1: "same_tables s s1" and run: "get_general_settings known t s1 = (Inr g, s2)"
    obtain y s3 where y: "get_setting general_rows t s1 = (y, s3)" by fastforce
    have "same_tables s s3" using reads s1 y unfolding reads_def by (metis same_tables_trans snd_conv)
    then show "same_tables s s2 \<and> g = settings_of known t s"
      using run y miss [of s1] row s1 same_tables_D(12) [OF s1] unfolding gives_def
      by (cases y) (fastforce simp: get_general_settings_def or_default_row_def bind_def attempt_def ret_def raise_def settings_of_def
          split: if_splits)+
  qed
  have r: "reads (get_general_settings known t)" unfolding get_general_settings_def or_default_row_def get_setting_def
    by (rule readsI) (intro keeps_intros)
  show ?thesis
    unfolding isolir_grace_days_def read_general_def
    by (rule gives_bind [OF gives_tried [OF r set]], rule gives_ret) (auto split: sum.splits)
qed

lemma grace_nonneg: "0 \<le> gs_grace (settings_of known t s)"
  by (auto simp: settings_of_def default_general_settings_def normalize_general_settings_def Let_def clamp_grace_def split: option.split)

lemma past_due_earlier: "past_due z now g i \<Longrightarrow> 0 \<le> g \<Longrightarrow> past_due z now 0 i"
  by (auto simp: past_due_def midnight_def)

lemma ball_update_rows:
  "(\<And>r. r \<in> set rows \<Longrightarrow> q r \<Longrightarrow> Q (f r)) \<Longrightarrow> (\<And>r. r \<in> set rows \<Longrightarrow> \<not> q r \<Longrightarrow> Q r) \<Longrightarrow> \<forall>r\<in>set (update_rows q f rows). Q r"
  by (auto simp: set_update_rows)

lemma keeps_subs_all:
  assumes "\<And>x. Q x \<Longrightarrow> Q (f x)"
  shows "keeps (\<lambda>s :: db. \<forall>x\<in>set (subscriptions s). Q x) (exec (update_subs q f))"
proof (rule keeps_exec)
  show "stable (\<lambda>s :: db. \<forall>x\<in>set (subscriptions s). Q x)" by (simp add: stable_def)
  fix s s' :: db and x assume "\<forall>x\<in>set (subscriptions s). Q x" and u: "update_subs q f s = Some (x, s')"
  then have "\<forall>x\<in>set (update_rows q f (subscriptions s)). Q x" using assms by (intro ball_update_rows) blast+
  moreover have "subscriptions s' = update_rows q f (subscriptions s)" using u by (auto simp: update_subs_def)
  ultimately show "\<forall>x\<in>set (subscriptions s'). Q x" by simp
qed

text \<open>An invoice that isolates the subscription is past due.\<close>

definition isolated_by :: "world \<Rightarrow> int \<Rightarrow> gid \<Rightarrow> gid \<Rightarrow> invoice \<Rightarrow> bool" where
  "isolated_by w grace t sid i \<longleftrightarrow> inv_tenant i = t \<and> inv_isolir i
     \<and> (inv_subscription i = Some sid \<or> inv_isolir_sub i = Some sid) \<and> past_due (w_zone w) (w_now w) grace i"

lemma still_due_gives:
  assumes "\<exists>i\<in>set (invoices s). isolated_by w (grace_of w t s) t sid i"
  shows "gives (same_tables s) (still_due w t sid) (\<lambda>b s1. same_tables s s1 \<and> b)"
  unfolding still_due_def
proof (rule gives_bind [OF gives_grace])
  fix g
  have "\<exists>i\<in>set (invoices s). isolated_by w g t sid i" if "g = 0 \<or> g = grace_of w t s"
    using that assms past_due_earlier grace_nonneg unfolding isolated_by_def by metis
  then have d: "filter (\<lambda>i. inv_tenant i = t \<and> inv_isolir i \<and> (inv_subscription i = Some sid \<or> inv_isolir_sub i = Some sid)
      \<and> past_due (w_zone w) (w_now w) g i) (invoices s) \<noteq> []" if "g = 0 \<or> g = grace_of w t s"
    using that by (auto simp: filter_empty_conv isolated_by_def)
  have "gives (same_tables s) (subscription_has_past_due_unpaid (w_zone w) (w_now w) g t sid) (\<lambda>b s1. same_tables s s1 \<and> b)"
    if "g = 0 \<or> g = grace_of w t s"
    unfolding subscription_has_past_due_unpaid_def
    by (rule gives_bind [OF gives_same_query]) (use d [OF that] in \<open>auto simp: same_tables_D gives_def ret_def\<close>)
  then show "gives (\<lambda>s1. same_tables s s1 \<and> (g = 0 \<or> g = gs_grace (settings_of (w_known w) t s)))
      (subscription_has_past_due_unpaid (w_zone w) (w_now w) g t sid) (\<lambda>b s1. same_tables s s1 \<and> b)"
    unfolding gives_def by blast
qed

section \<open>Properties of payments\<close>

definition sample_intent :: intent where
  "sample_intent = \<lparr>pi_id = 80, pi_tenant = 1, pi_customer = 7, pi_invoice = Some 1, pi_provider = ''duitku'', pi_external = ''INV-1'',
     pi_amount = 105, pi_status = ''pending'', pi_checkout = [], pi_expires = None, pi_meta = [(''base_amount'', number 100)], pi_created = 3\<rparr>"

definition site_db :: db where
  "site_db = sample_subs_db\<lparr>intents := [sample_intent]\<rparr>"

definition paid_event :: webhook_event where
  "paid_event = own_event sample_intent 105 ''R1''"

definition deliver :: "(db, unit) prog" where
  "deliver = complete_paid_webhook sample_world (\<lambda>_ xs. xs) (\<lambda>_. True) ''duitku'' 0 paid_event"

lemma deliver_run:
  "case deliver site_db of (r, s1) \<Rightarrow> r = Inr () \<and> map pay_amount (payments s1) = [100] \<and> map inv_status (invoices s1) = [''paid'']
     \<and> map pi_status (intents s1) = [''paid''] \<and> map sub_status (subscriptions s1) = [''active'', ''active'']"
  by code_simp

lemma site_db_intent:
  "newest (has_external_id (ev_external paid_event)) site_db = Some sample_intent" "\<not> topup_intent sample_intent" "faults site_db = []"
  "pi_status sample_intent \<noteq> ''paid''" "paid_part sample_intent paid_event = 100"
  by code_simp+

text \<open>After any sequence of the calls that move money and of the calls around online payments (webhooks,
  checkouts, polls, simulated and cancelled payments, top-ups), under any failures, every invoice
  outside the trash has been paid what its payments add up to, every wallet holds the sum of its
  transactions and is not overdrawn, every journal entry balances, and no intent is negative.\<close>

theorem site_keeps_money:
  assumes "site_step\<^sup>*\<^sup>* empty_db s"
  shows "(\<forall>i\<in>set (invoices s). live i \<longrightarrow> inv_paid i = collected (payments s) i)
    \<and> (\<forall>w\<in>set (wallets s). w_balance w = sum_where (\<lambda>x. wt_wallet x = w_id w) wt_amount (wallet_txns s) \<and> 0 \<le> w_balance w)
    \<and> entry_debit t e (journal_lines s) = entry_credit t e (journal_lines s)
    \<and> (\<forall>p\<in>set (intents s). 0 \<le> pi_amount p)"
proof -
  have m: "money_ok s" "intents_ok s" using site_reachable [OF assms] by (simp_all add: site_ok_def)
  then have a: "agree w_id w_balance wt_wallet wt_amount (wallets s) (wallet_txns s)" "books_ok s"
    by (simp_all add: money_ok_def solvent_def wallets_ok_def wallets_off_def agree_def)
  have "entry_debit t e (journal_lines s) = entry_credit t e (journal_lines s)" using a(2) by (simp add: books_okD)
  then show ?thesis using m agreeD [OF a(1)] by (auto simp: money_ok_def paid_ok_def solvent_def funded_def intents_ok_def)
qed

lemma site_keeps_money_witness:
  "let s = snd (deliver (snd (insert_payment_intent 3 sample_intent sample_db))) in
     (\<forall>i\<in>set (invoices s). live i \<longrightarrow> inv_paid i = collected (payments s) i) \<and> map inv_paid (invoices s) = [100]"
proof -
  let ?s = "snd (deliver (snd (insert_payment_intent 3 sample_intent sample_db)))"
  have up: "ledger_step\<^sup>*\<^sup>* a b \<Longrightarrow> site_step\<^sup>*\<^sup>* a b" for a b
    by (induction rule: rtranclp_induct) (auto intro: rtranclp.rtrancl_into_rtrancl site_step.system moved_money invoicing)
  have "site_step\<^sup>*\<^sup>* empty_db (snd (insert_payment_intent 3 sample_intent sample_db))"
    using up [OF sample_db_reachable] by (rule rtranclp.rtrancl_into_rtrancl) (rule topup_started, simp add: sample_intent_def)
  then have "site_step\<^sup>*\<^sup>* empty_db ?s" by (rule rtranclp.rtrancl_into_rtrancl) (unfold deliver_def, rule completed)
  moreover have "map inv_paid (invoices ?s) = [100]" by code_simp
  ultimately show ?thesis using site_keeps_money [of ?s 1 5] by (simp add: Let_def)
qed





text \<open>C37: The error of marking the intent is dropped: when that statement failed the intent is left cancelled, or
  pending, and the same delivery is recorded a second time, and the invoice is credited twice.\<close>

theorem lost_status_pays_twice:
  assumes first: "complete_paid_webhook w order router provider tip ev s = (Inr (), s1)"
    and p: "newest (has_external_id (ev_external ev)) s = Some p" "\<not> topup_intent p" "pi_status p \<noteq> ''paid''"
    and lost: "newest (has_external_id (ev_external ev)) s1 = Some (p\<lparr>pi_status := st\<rparr>)" "st \<noteq> ''paid''"
    and second: "complete_paid_webhook w2 order router provider tip ev (s1\<lparr>faults := fs, aborted := a\<rparr>) = (Inr (), s2)"
  shows "\<exists>x y. payments s2 = payments s @ [x, y] \<and> intent_payment p (paid_part p ev) x \<and> intent_payment p (paid_part p ev) y
    \<and> invoices s2 = paid_bills (w_now w2) p (paid_part p ev) (s\<lparr>invoices := paid_bills (w_now w) p (paid_part p ev) s\<rparr>)"
proof -
  let ?s1 = "s1\<lparr>faults := fs, aborted := a\<rparr>" and ?p = "p\<lparr>pi_status := st\<rparr>"
  have n: "newest (has_external_id (ev_external ev)) ?s1 = Some ?p" using lost(1) by (simp add: newest_def)
  have same: "paid_part ?p ev = paid_part p ev" "topup_intent ?p = topup_intent p" "intent_payment ?p = intent_payment p"
    "paid_bills now ?p m s3 = paid_bills now p m s3" for now m s3
    by (simp_all add: paid_part_def base_amount_def Let_def topup_intent_def intent_payment_def fun_eq_iff paid_bills_def cong: option.case_cong)
  have "recorded w p ev s s1" using complete_paid_webhook_outcome [OF first p(1,2)] p(3) by simp
  moreover have "recorded w2 ?p ev ?s1 s2" using complete_paid_webhook_outcome [OF second n] p(2) lost(2) same(2) by simp
  then have "recorded w2 p ev ?s1 s2" by (simp add: recorded_def same)
  ultimately show ?thesis
    by (auto simp: recorded_def bills_are_def paid_bills_def cong: option.case_cong)
qed

lemma lost_status_runs:
  "case deliver (site_db\<lparr>faults := replicate 9 False @ [True]\<rparr>) of (r1, s1) \<Rightarrow> r1 = Inr () \<and>
     newest (has_external_id (ev_external paid_event)) s1 = Some (sample_intent\<lparr>pi_status := ''cancelled''\<rparr>) \<and>
     (case deliver (s1\<lparr>faults := [], aborted := False\<rparr>) of (r2, s2) \<Rightarrow> r2 = Inr () \<and> map inv_paid (invoices s2) = [200])"
  by code_simp

lemma lost_status_pays_twice_witness:
  "\<exists>s1 s2 x y. deliver (site_db\<lparr>faults := replicate 9 False @ [True]\<rparr>) = (Inr (), s1) \<and> deliver (s1\<lparr>faults := [], aborted := False\<rparr>) = (Inr (), s2)
     \<and> payments s2 = payments site_db @ [x, y] \<and> map inv_paid (invoices s2) = [200]"
proof -
  let ?s = "site_db\<lparr>faults := replicate 9 False @ [True]\<rparr>"
  obtain s1 s2 where r: "deliver ?s = (Inr (), s1)"
    "newest (has_external_id (ev_external paid_event)) s1 = Some (sample_intent\<lparr>pi_status := ''cancelled''\<rparr>)"
    "deliver (s1\<lparr>faults := [], aborted := False\<rparr>) = (Inr (), s2)"
    "map inv_paid (invoices s2) = [200]" using lost_status_runs by (auto split: prod.splits)
  have n: "newest (has_external_id (ev_external paid_event)) ?s = Some sample_intent" using site_db_intent(1) by (simp add: newest_def)
  show ?thesis
    using lost_status_pays_twice [OF r(1) [unfolded deliver_def] n site_db_intent(2,4) r(2) _ r(3) [unfolded deliver_def]] r by fastforce
qed

text \<open>C16: A pending change of plan is applied only when the invoice it waits for is paid; only the plan of its
  subscription may change, and only to the plan that is pending, whatever fails on the way.\<close>

theorem upgrade_needs_paid_invoice:
  assumes "apply_pending_upgrade_if_paid t sid s = (r, s')"
  shows "subscriptions s' = subscriptions s \<or> (\<exists>p. upgrade_paid t sid p s \<and> list_all2 (upgraded t sid p) (subscriptions s) (subscriptions s'))"
  using safe_upgrade [of s t sid] assms unfolding safe_def upgrade_end_def upgrading_def by (metis same_tables_refl snd_conv)

definition pending_db :: db where
  "pending_db = sample_subs_db\<lparr>plans := [sample_plan 9 ''Home 20'' 150000, sample_plan 10 ''Home 50'' 250000],
     subscriptions := [sample_sub\<lparr>sub_pending := Some \<lparr>pend_old = 9, pend_new = 10, pend_invoice = 1, pend_direction = ''upgrade'', pend_service = [], pend_created = 4\<rparr>\<rparr>]\<rparr>"

lemma upgrade_needs_paid_invoice_witness:
  "\<exists>p s'. apply_pending_upgrade_if_paid 1 40 (pending_db\<lparr>invoices := map (add_paid 5 100) (invoices pending_db)\<rparr>) = (Inr True, s')
     \<and> map sub_plan (subscriptions s') = [10] \<and> upgrade_paid 1 40 p (pending_db\<lparr>invoices := map (add_paid 5 100) (invoices pending_db)\<rparr>)
     \<and> snd (apply_pending_upgrade_if_paid 1 40 pending_db) = pending_db"
proof -
  let ?s = "pending_db\<lparr>invoices := map (add_paid 5 100) (invoices pending_db)\<rparr>"
  have "case apply_pending_upgrade_if_paid 1 40 ?s of (r, s') \<Rightarrow> r = Inr True \<and> map sub_plan (subscriptions s') = [10]" by code_simp
  then obtain s' where s': "apply_pending_upgrade_if_paid 1 40 ?s = (Inr True, s')" "map sub_plan (subscriptions s') = [10]" by (auto split: prod.splits)
  have "map sub_plan (subscriptions ?s) = [9]" by code_simp
  then have "subscriptions s' \<noteq> subscriptions ?s" using s'(2) by auto
  moreover have "snd (apply_pending_upgrade_if_paid 1 40 pending_db) = pending_db" by code_simp
  ultimately show ?thesis using s' upgrade_needs_paid_invoice [OF s'(1)] by auto
qed

text \<open>While an invoice isolates a subscription, a payment of something else does not resume it, whatever fails:
  an unreadable grace period counts as none, an unreadable invoice as due.\<close>

theorem unsettled_stays_suspended:
  assumes "resume_if_settled w router t sid s = (r, s')" and "\<exists>i\<in>set (invoices s). isolated_by w (grace_of w t s) t sid i"
  shows "same_tables s s'"
proof -
  have r: "reads (still_due w t sid)" unfolding still_due_def subscription_has_past_due_unpaid_def by (rule readsI) (intro keeps_intros)
  obtain y s1 where y: "still_due w t sid s = (y, s1)" by fastforce
  have s1: "same_tables s s1" using r y unfolding reads_def by (metis snd_conv)
  have "case y of Inl _ \<Rightarrow> True | Inr b \<Rightarrow> b"
    using still_due_gives [OF assms(2), unfolded gives_def, rule_format, OF same_tables_refl] y by (cases y) auto
  then show ?thesis using assms(1) y s1
    by (auto simp: resume_if_settled_def or_else_def bind_def attempt_def ret_def split: sum.splits)
qed

lemma unsettled_stays_suspended_witness:
  "same_tables sample_subs_db (snd (resume_if_settled sample_world (\<lambda>_. True) 1 40 (sample_subs_db\<lparr>faults := [False, True]\<rparr>)))"
proof -
  let ?s = "sample_subs_db\<lparr>faults := [False, True]\<rparr>"
  have "list_ex (isolated_by sample_world (grace_of sample_world 1 ?s) 1 40) (invoices ?s)" by code_simp
  then have i: "\<exists>i\<in>set (invoices ?s). isolated_by sample_world (grace_of sample_world 1 ?s) 1 40 i" by (simp add: list_ex_iff)
  obtain r s' where r: "resume_if_settled sample_world (\<lambda>_. True) 1 40 ?s = (r, s')" by fastforce
  then have "same_tables ?s s'" using unsettled_stays_suspended [OF r i] by simp
  then show ?thesis using r same_tables_trans [OF same_tables_conn(2)] by simp
qed

text \<open>C38: A subscription nothing isolates becomes active, whatever its status was.  \<open>resumeAfterInvoicePaid\<close> goes
  through all subscriptions of the customer, the cancelled ones too.\<close>

theorem settled_becomes_active:
  assumes c: "calm s" and none: "\<not> (\<exists>i\<in>set (invoices s). isolated_by w (grace_of w t s) t sid i)"
  shows "\<exists>s'. resume_if_settled w router t sid s = (Inr (), s')
    \<and> (\<forall>x\<in>set (subscriptions s'). is_subscription t sid x \<longrightarrow> sub_status x = ''active'')"
proof -
  let ?act = "\<lambda>s :: db. \<forall>x\<in>set (subscriptions s). is_subscription t sid x \<longrightarrow> sub_status x = ''active''"
  let ?s1 = "s\<lparr>subscriptions := update_rows (is_subscription t sid) (with_status (w_now w) ''active'') (subscriptions s)\<rparr>"
  have st: "stable ?act" by (simp add: stable_def)
  have "filter (\<lambda>i. inv_tenant i = t \<and> inv_isolir i \<and> (inv_subscription i = Some sid \<or> inv_isolir_sub i = Some sid)
      \<and> past_due (w_zone w) (w_now w) (grace_of w t s) i) (invoices s) = []"
    using none by (auto simp: filter_empty_conv isolated_by_def)
  then have due: "still_due w t sid s = (Inr False, s)"
    using calm_grace_days [OF c, of w t] unfolding still_due_def grace_days_def subscription_has_past_due_unpaid_def
    by (simp add: bind_def calm_auto_query [OF c] ret_def)
  have "auto (exec (update_subs (is_subscription t sid) (with_status (w_now w) ''active''))) s
      = (Inr (affected (is_subscription t sid) (subscriptions s)), ?s1)"
    by (intro calm_auto [OF c] calm_exec [OF c]) (use c in \<open>simp_all add: update_subs_def calm_def\<close>)
  then have "update_subscription_status (w_now w) t sid ''active'' s = (Inr (), ?s1)"
    by (simp add: update_subscription_status_def bind_def calm_set_tenant [OF c] ret_def)
  moreover have "\<forall>x\<in>set (update_rows (is_subscription t sid) (with_status (w_now w) ''active'') (subscriptions s)).
      is_subscription t sid x \<longrightarrow> sub_status x = ''active''"
    by (rule ball_update_rows) (simp_all add: with_status_def)
  then have act: "?act ?s1" by simp
  moreover have k: "keeps ?act (resume_subscription router t sid)"
    unfolding resume_subscription_def clear_subscription_suspended_at_def
    by (intro keeps_intros st keeps_get_subscription keeps_subs_all) (simp add: is_subscription_def)
  ultimately have "resume_if_settled w router t sid s = resume_subscription router t sid ?s1" "?act (snd (resume_subscription router t sid ?s1))"
    using due keepsD [where P = ?act and s = ?s1, OF k act] by (simp_all add: resume_if_settled_def or_else_def quietly_def bind_def attempt_def ret_def)
  moreover have "fst (resume_subscription router t sid ?s1) = Inr ()"
    by (auto simp: resume_subscription_def quietly_def bind_def attempt_def ret_def split: prod.split)
  ultimately show ?thesis by (metis prod.collapse)
qed

lemma settled_becomes_active_witness:
  "\<exists>s'. resume_if_settled sample_world (\<lambda>_. False) 1 42 (sample_subs_db\<lparr>subscriptions := [sample_sub\<lparr>sub_id := 42, sub_status := ''cancelled''\<rparr>]\<rparr>)
       = (Inr (), s') \<and> map sub_id (subscriptions s') = [42] \<and> (\<forall>x\<in>set (subscriptions s'). is_subscription 1 42 x \<longrightarrow> sub_status x = ''active'')"
proof -
  let ?s = "sample_subs_db\<lparr>subscriptions := [sample_sub\<lparr>sub_id := 42, sub_status := ''cancelled''\<rparr>]\<rparr>"
  have c: "calm ?s" by code_simp
  have "\<not> list_ex (isolated_by sample_world (grace_of sample_world 1 ?s) 1 42) (invoices ?s)" by code_simp
  then have n: "\<not> (\<exists>i\<in>set (invoices ?s). isolated_by sample_world (grace_of sample_world 1 ?s) 1 42 i)" by (simp add: list_ex_iff)
  have "map sub_id (subscriptions (snd (resume_if_settled sample_world (\<lambda>_. False) 1 42 ?s))) = [42]" by code_simp
  then show ?thesis using settled_becomes_active [OF c n, of "\<lambda>_. False"] by auto
qed

end
