(* ===== verification/Gateway_Facts.thy ===== *)
theory Gateway_Facts
  imports Gateways
begin

text \<open>
  What the part of \<open>internal/payment\<close> that all gateways share promises: an order id that is
  refreshed again and again keeps its base, fits the gateways' limit and tells the retries apart;
  and what it does not: a body that says nothing of a status counts as paid.
\<close>

section \<open>Order ids\<close>

definition plain_id :: "string \<Rightarrow> bool" where
  "plain_id s \<longleftrightarrow> (\<forall>c\<in>set s. \<not> is_space c)"

definition fresh_suffix :: "string \<Rightarrow> bool" where
  "fresh_suffix f \<longleftrightarrow> length f = 5 \<and> set f \<subseteq> set order_id_alphabet"

lemma plain_trim: "plain_id s \<Longrightarrow> trim_space s = s"
  by (rule trim_space_id) (auto simp: plain_id_def)

lemma fresh_plain: "fresh_suffix f \<Longrightarrow> plain_id f \<and> CHR ''-'' \<notin> set f"
proof -
  have "list_all (\<lambda>c. \<not> is_space c \<and> c \<noteq> CHR ''-'') order_id_alphabet" by code_simp
  then show "fresh_suffix f \<Longrightarrow> plain_id f \<and> CHR ''-'' \<notin> set f"
    by (auto simp: fresh_suffix_def plain_id_def list_all_iff)
qed

lemma random_suffix_fresh: "fresh_suffix (random_order_suffix draw now 5)"
proof -
  have "length order_id_alphabet = 32" by code_simp
  then have "order_id_alphabet ! (k mod 32) \<in> set order_id_alphabet" for k by (intro nth_mem) simp
  then show ?thesis by (auto simp: fresh_suffix_def random_order_suffix_def split: option.split)
qed

definition id_tail :: "string \<Rightarrow> string" where
  "id_tail s = takeWhile (\<lambda>c. c \<noteq> CHR ''-'') (rev s)"

lemma id_tail_suffix: "CHR ''-'' \<notin> set f \<Longrightarrow> id_tail (b @ CHR ''-'' # f) = rev f"
  unfolding id_tail_def by (simp, subst takeWhile_append2) auto

lemma id_tail_split:
  assumes "length (id_tail s) < length s"
  obtains b where "s = b @ CHR ''-'' # rev (id_tail s)"
proof -
  have "rev s = id_tail s @ dropWhile (\<lambda>c. c \<noteq> CHR ''-'') (rev s)" by (simp add: id_tail_def)
  moreover from this assms have ne: "dropWhile (\<lambda>c. c \<noteq> CHR ''-'') (rev s) \<noteq> []" by (metis append_Nil2 length_rev nat_neq_iff)
  moreover have "hd (dropWhile (\<lambda>c. c \<noteq> CHR ''-'') (rev s)) = CHR ''-''" using hd_dropWhile [OF ne] by blast
  ultimately obtain r where "rev s = id_tail s @ CHR ''-'' # r" by (metis list.collapse)
  then have "s = rev (id_tail s @ CHR ''-'' # r)" by (metis rev_rev_ident)
  then show thesis by (intro that [of "rev r"]) simp
qed

text \<open>The base of an id, which every refresh keeps.\<close>

definition id_base :: "string \<Rightarrow> string" where
  "id_base s = (if length (id_tail s) < length s \<and> length (id_tail s) = 5 then take (length s - 6) s
     else if trim_hyphens s = [] then ''INV-retry''
     else if 44 < length (trim_hyphens s) then take 44 (trim_hyphens s) else trim_hyphens s)"

lemma refresh_shape:
  assumes "plain_id s" "fresh_suffix f" "length s \<le> 50"
  shows "refresh_merchant_order_id f s = id_base s @ CHR ''-'' # f \<and> length (id_base s) \<le> 44"
proof (cases "length (id_tail s) < length s \<and> length (id_tail s) = 5")
  case True
  then obtain b where b: "s = b @ CHR ''-'' # rev (id_tail s)" using id_tail_split by blast
  define u where "u = rev (id_tail s)"
  have u: "length u = 5" "s = b @ CHR ''-'' # u" using True b by (simp_all add: u_def)
  have l: "length s = length b + 6" unfolding u(2) using u(1) by simp
  have "take (length s - 6) s = b" "take (length s - 5) s = b @ [CHR ''-'']"
    unfolding l unfolding u(2) by simp_all
  then show ?thesis using True assms l
    by (simp add: refresh_merchant_order_id_def id_base_def id_tail_def [symmetric] plain_trim Let_def merchant_order_id_max_def fresh_suffix_def)
next
  case False
  then show ?thesis using assms
    by (auto simp: refresh_merchant_order_id_def id_base_def id_tail_def [symmetric] plain_trim Let_def merchant_order_id_max_def)
qed

lemma refreshed_again:
  assumes "plain_id s" "fresh_suffix f" "length s \<le> 50"
  shows "plain_id (refresh_merchant_order_id f s) \<and> length (refresh_merchant_order_id f s) \<le> 50
    \<and> id_base (refresh_merchant_order_id f s) = id_base s"
proof -
  let ?b = "id_base s"
  note sh = refresh_shape [OF assms]
  have f: "plain_id f" "CHR ''-'' \<notin> set f" "length f = 5" using fresh_plain assms(2) by (auto simp: fresh_suffix_def)
  have "set ?b \<subseteq> set s \<union> set ''INV-retry''"
    using set_take_subset [of "length s - 6" s] set_take_subset [of 44 "trim_hyphens s"] trim_by_set [of "\<lambda>c. c = CHR ''-''" s]
    by (auto simp: id_base_def trim_hyphens_def split: if_splits)
  moreover have "list_all (\<lambda>c. \<not> is_space c) ''INV-retry''" "\<not> is_space (CHR ''-'')" by code_simp+
  ultimately have p: "plain_id (?b @ CHR ''-'' # f)" using assms(1) f(1) by (auto simp: plain_id_def list_all_iff)
  have t: "id_tail (?b @ CHR ''-'' # f) = rev f" using f(2) by (rule id_tail_suffix)
  have "id_base (?b @ CHR ''-'' # f) = ?b" unfolding id_base_def [of "_ @ _"] t using f(3) by simp
  then show ?thesis using sh p f(3) by simp
qed

section \<open>Properties\<close>

text \<open>A refreshed order id fits the gateways' limit of 50 bytes, and refreshing it again only replaces the random
  suffix: two refreshes of an id are equal exactly when their suffixes are.\<close>

theorem refresh_keeps_base:
  assumes "plain_id s" and "length s \<le> merchant_order_id_max" and "fresh_suffix f" and "fresh_suffix g"
  shows "length (refresh_merchant_order_id f s) \<le> merchant_order_id_max
    \<and> refresh_merchant_order_id g (refresh_merchant_order_id f s) = refresh_merchant_order_id g s
    \<and> (refresh_merchant_order_id f s = refresh_merchant_order_id g s \<longleftrightarrow> f = g)"
proof -
  have l: "length s \<le> 50" using assms(2) by (simp add: merchant_order_id_max_def)
  note again = refreshed_again [OF assms(1,3) l]
  have "refresh_merchant_order_id g (refresh_merchant_order_id f s) = id_base s @ CHR ''-'' # g"
    using refresh_shape [of "refresh_merchant_order_id f s" g] again assms(4) by simp
  then show ?thesis using refresh_shape [OF assms(1,3) l] refresh_shape [OF assms(1,4) l] again
    by (simp add: merchant_order_id_max_def)
qed

lemma refresh_keeps_base_witness:
  "refresh_merchant_order_id ''ABCDE'' ''INV-C7-072026XYZ'' = ''INV-C7-072026XYZ-ABCDE'' \<and>
   refresh_merchant_order_id ''FGH23'' (refresh_merchant_order_id ''ABCDE'' ''INV-C7-072026XYZ'') = refresh_merchant_order_id ''FGH23'' ''INV-C7-072026XYZ''"
proof -
  have "list_all (\<lambda>c. \<not> is_space c) ''INV-C7-072026XYZ''" "length ''INV-C7-072026XYZ'' \<le> merchant_order_id_max"
    "list_all (\<lambda>c. c \<in> set order_id_alphabet) (''ABCDE'' @ ''FGH23'')" by code_simp+
  then have "plain_id ''INV-C7-072026XYZ''" "length ''INV-C7-072026XYZ'' \<le> merchant_order_id_max" "fresh_suffix ''ABCDE''" "fresh_suffix ''FGH23''"
    by (auto simp: plain_id_def fresh_suffix_def list_all_iff)
  from refresh_keeps_base [OF this] have "refresh_merchant_order_id ''FGH23'' (refresh_merchant_order_id ''ABCDE'' ''INV-C7-072026XYZ'')
     = refresh_merchant_order_id ''FGH23'' ''INV-C7-072026XYZ''" by blast
  moreover have "refresh_merchant_order_id ''ABCDE'' ''INV-C7-072026XYZ'' = ''INV-C7-072026XYZ-ABCDE''" by code_simp
  ultimately show ?thesis by blast
qed

text \<open>A body without any status counts as paid: \<open>ParseWebhookEvent\<close> starts from the status \<open>paid\<close>.\<close>

theorem silent_body_is_paid:
  assumes "\<forall>k\<in>{''transaction_status'', ''status'', ''resultCode'', ''result_code'', ''statusCode'', ''status_code'', ''data'', ''transaction''}. map_of b k = None"
  shows "\<exists>e. parse_webhook_event (Some b) = Some e \<and> webhook_is_paid (ev_status e)"
proof -
  have "first_string b [''resultCode'', ''result_code'', ''statusCode'', ''status_code''] = []" using assms by simp
  then have "ev_status (flat_event b) = ''paid''" using assms by (simp add: flat_event_def)
  moreover have "ev_status (with_order b e) = ev_status e" for e
    by (auto simp: with_order_def split: option.splits json.splits)
  moreover have "with_data b e = e" "with_transaction b e = e" for e using assms by (simp_all add: with_data_def with_transaction_def)
  moreover have "webhook_is_paid ''paid''" by code_simp
  ultimately show ?thesis by (simp add: parse_webhook_event_def)
qed

lemma silent_body_is_paid_witness:
  "\<exists>e. parse_webhook_event (Some [(''merchantOrderId'', JStr ''INV-1'')]) = Some e \<and> webhook_is_paid (ev_status e)"
  by (rule silent_body_is_paid) simp

end
