(* ===== verification/Router_Comments.thy ===== *)
theory Router_Comments
  imports GoFmt
begin

text \<open>
  The comments the program leaves on a router's accounts and profiles
  (\<open>internal/provision/reconcile.go\<close>): the tag that names the owner of an account, the mark of an
  account that is suspended, and the price of a profile.  Letters and digits are those of ASCII.
\<close>

section \<open>The program\<close>

definition ascii_letter :: "char \<Rightarrow> bool" where
  "ascii_letter c \<longleftrightarrow> is_upper c \<or> is_lower c"

text \<open>The loop of \<open>SanitizeBrandPrefix\<close>; \<open>started\<close> tells whether anything was written.\<close>

fun brand_loop :: "bool \<Rightarrow> string \<Rightarrow> string" where
  "brand_loop started [] = []"
| "brand_loop started (c # s) =
     (if ascii_letter c \<or> is_digit c then c # brand_loop True s
      else if c \<in> {CHR '' '', CHR ''-'', CHR ''_''} then (if started then CHR ''-'' # brand_loop True s else brand_loop False s)
      else brand_loop started s)"

definition sanitize_brand_prefix :: "string \<Rightarrow> string" where
  "sanitize_brand_prefix app =
     (let s = trim_by (\<lambda>c. c = CHR ''-'') (brand_loop False (trim_space app)) in
      if s = [] then ''d5n'' else take 32 s)"

text \<open>Groups of three digits.\<close>

fun dot_groups :: "string \<Rightarrow> string" where
  "dot_groups (a # b # c # d # s) = a # b # c # CHR ''.'' # dot_groups (d # s)"
| "dot_groups s = s"

definition format_rp_dots :: "int \<Rightarrow> string" where
  "format_rp_dots n =
     (let s = format_int (if n < 0 then wrap64 (- n) else n); r = length s mod 3 in
      if length s \<le> 3 then s
      else (if 0 < r then take r s @ ''.'' else []) @ dot_groups (drop r s))"

definition profile_comment :: "string \<Rightarrow> int \<Rightarrow> string" where
  "profile_comment app price =
     (let p = sanitize_brand_prefix app in if price \<le> 0 then p else p @ '' Rp'' @ format_rp_dots price)"

text \<open>\<open>strings.Fields\<close>.\<close>

fun split_spaces :: "string \<Rightarrow> string list" where
  "split_spaces [] = [[]]"
| "split_spaces (c # s) =
     (if is_space c then [] # split_spaces s
      else case split_spaces s of [] \<Rightarrow> [[c]] | w # ws \<Rightarrow> (c # w) # ws)"

definition fields :: "string \<Rightarrow> string list" where
  "fields s = filter (\<lambda>w. w \<noteq> []) (split_spaces s)"

definition replace_char :: "char \<Rightarrow> char \<Rightarrow> string \<Rightarrow> string" where
  "replace_char a b s = map (\<lambda>c. if c = a then b else c) s"

definition sanitize_comment_part :: "string \<Rightarrow> string" where
  "sanitize_comment_part s =
     join_with '' '' (fields (replace_char (CHR ''='') (CHR ''-'') (replace_char (CHR 0x0D) (CHR '' '')
       (replace_char (CHR 0x0A) (CHR '' '') (trim_space s)))))"

definition comment_tag :: "string \<Rightarrow> string \<Rightarrow> string \<Rightarrow> string" where
  "comment_tag app customer_code customer_name =
     (let p = sanitize_brand_prefix app; code = sanitize_comment_part customer_code; name = sanitize_comment_part customer_name in
      if code \<noteq> [] \<and> name \<noteq> [] then p @ '':'' @ code @ '' '' @ name
      else if code \<noteq> [] then p @ '':'' @ code
      else if name \<noteq> [] then p @ '':'' @ name
      else p)"

definition isolir_tagged :: "string \<Rightarrow> bool" where
  "isolir_tagged c \<longleftrightarrow> has_prefix (to_upper c) ''ISOLIR '' \<or> to_upper c = ''ISOLIR''"

definition with_isolir_comment :: "string \<Rightarrow> string" where
  "with_isolir_comment comment =
     (let c = trim_space comment in
      if c = [] then trim_space ''ISOLIR ''
      else if isolir_tagged c then c else ''ISOLIR '' @ c)"

definition without_isolir_comment :: "string \<Rightarrow> string" where
  "without_isolir_comment comment =
     (let c = trim_space comment in
      if has_prefix (to_upper c) ''ISOLIR '' then trim_space (drop 7 c)
      else if to_upper c = ''ISOLIR'' then [] else c)"

definition secret_looks_isolir :: "string \<Rightarrow> string \<Rightarrow> string \<Rightarrow> string \<Rightarrow> bool" where
  "secret_looks_isolir profile comment isolir_profile plan_profile =
     (if isolir_tagged (trim_space comment) then True
      else let p = trim_space profile; iso = trim_space isolir_profile; plan = trim_space plan_profile in
        iso \<noteq> [] \<and> p \<noteq> [] \<and> equal_fold p iso \<and> \<not> (plan \<noteq> [] \<and> equal_fold iso plan))"

definition is_owned_comment :: "string \<Rightarrow> string \<Rightarrow> bool" where
  "is_owned_comment comment app \<longleftrightarrow>
     (let p = sanitize_brand_prefix app in has_prefix comment (p @ '':'') \<or> comment = p)
     \<or> has_prefix comment ''drp:'' \<or> comment = ''drp''"

section \<open>Dots\<close>

lemma filter_dot_groups: "CHR ''.'' \<notin> set s \<Longrightarrow> filter (\<lambda>c. c \<noteq> CHR ''.'') (dot_groups s) = s"
  by (induction s rule: dot_groups.induct) auto

section \<open>Tags\<close>

definition comment_safe :: "char \<Rightarrow> bool" where
  "comment_safe c \<longleftrightarrow> c \<noteq> CHR ''='' \<and> c \<noteq> CHR 0x0A \<and> c \<noteq> CHR 0x0D"

lemma brand_loop_chars: "c \<in> set (brand_loop b s) \<Longrightarrow> ascii_letter c \<or> is_digit c \<or> c = CHR ''-''"
  by (induction b s rule: brand_loop.induct) (auto split: if_splits)

lemma plain_chars: "ascii_letter c \<or> is_digit c \<or> c = CHR ''-'' \<Longrightarrow> comment_safe c"
proof -
  have "\<not> (ascii_letter d \<or> is_digit d \<or> d = CHR ''-'')" if "d = CHR ''='' \<or> d = CHR 0x0A \<or> d = CHR 0x0D" for d
  proof -
    have "\<not> (ascii_letter (CHR ''='') \<or> is_digit (CHR ''='') \<or> CHR ''='' = CHR ''-'')"
      "\<not> (ascii_letter (CHR 0x0A) \<or> is_digit (CHR 0x0A) \<or> CHR 0x0A = CHR ''-'')"
      "\<not> (ascii_letter (CHR 0x0D) \<or> is_digit (CHR 0x0D) \<or> CHR 0x0D = CHR ''-'')" by code_simp+
    then show ?thesis using that by blast
  qed
  then show "ascii_letter c \<or> is_digit c \<or> c = CHR ''-'' \<Longrightarrow> comment_safe c" unfolding comment_safe_def by blast
qed

lemma brand_chars: "\<forall>c\<in>set (sanitize_brand_prefix app). comment_safe c"
proof -
  have d: "\<forall>c\<in>set ''d5n''. comment_safe c" by (simp add: comment_safe_def)
  have "comment_safe c" if "c \<in> set (take 32 (trim_by (\<lambda>c. c = CHR ''-'') (brand_loop False (trim_space app))))" for c
  proof -
    from that have "c \<in> set (trim_by (\<lambda>c. c = CHR ''-'') (brand_loop False (trim_space app)))" by (rule in_set_takeD)
    then have "c \<in> set (brand_loop False (trim_space app))" using trim_by_set by (rule rev_subsetD)
    then show ?thesis by (intro plain_chars brand_loop_chars)
  qed
  then show ?thesis using d by (auto simp: sanitize_brand_prefix_def Let_def)
qed

lemma split_spaces_chars: "w \<in> set (split_spaces s) \<Longrightarrow> c \<in> set w \<Longrightarrow> c \<in> set s \<and> \<not> is_space c"
proof (induction s arbitrary: w)
  case (Cons x s)
  show ?case
  proof (cases "is_space x \<or> split_spaces s = []")
    case True
    then show ?thesis using Cons by (cases "is_space x") auto
  next
    case False
    then obtain v vs where s: "split_spaces s = v # vs" by (cases "split_spaces s") auto
    have "w = x # v \<or> w \<in> set vs" using Cons.prems(1) s False by simp
    then show ?thesis
    proof
      assume "w = x # v"
      then show ?thesis using Cons.IH [of v] Cons.prems(2) s False by auto
    next
      assume "w \<in> set vs"
      then show ?thesis using Cons.IH [of w] Cons.prems(2) s by simp
    qed
  qed
qed simp

lemma join_with_chars: "c \<in> set (join_with d ws) \<Longrightarrow> c \<in> set d \<or> (\<exists>w\<in>set ws. c \<in> set w)"
  by (induction d ws rule: join_with.induct) auto

lemma part_chars: "\<forall>c\<in>set (sanitize_comment_part s). comment_safe c"
proof
  fix c assume c: "c \<in> set (sanitize_comment_part s)"
  let ?t = "replace_char (CHR ''='') (CHR ''-'') (replace_char (CHR 0x0D) (CHR '' '') (replace_char (CHR 0x0A) (CHR '' '') (trim_space s)))"
  have "c \<in> set '' '' \<or> (\<exists>w\<in>set (fields ?t). c \<in> set w)" using c join_with_chars unfolding sanitize_comment_part_def by blast
  then have "c = CHR '' '' \<or> c \<in> set ?t" by (auto simp: fields_def dest: split_spaces_chars)
  then show "comment_safe c" by (auto simp: replace_char_def comment_safe_def)
qed

section \<open>Properties\<close>

text \<open>C34: The mark of a suspended account can be put on twice, is recognised whatever the profiles are, and taking it
  off gives back the comment.\<close>

theorem isolir_mark_roundtrip:
  assumes "\<not> isolir_tagged (trim_space c)"
  shows "without_isolir_comment (with_isolir_comment c) = trim_space c
    \<and> with_isolir_comment (with_isolir_comment c) = with_isolir_comment c
    \<and> secret_looks_isolir p (with_isolir_comment c) ip plan
    \<and> \<not> isolir_tagged (without_isolir_comment c)"
proof (cases "trim_space c = []")
  case True
  have "trim_space ''ISOLIR '' = ''ISOLIR''" "isolir_tagged ''ISOLIR''" "trim_space ''ISOLIR'' = ''ISOLIR''"
    "without_isolir_comment ''ISOLIR'' = []" "\<not> isolir_tagged []" by code_simp+
  then show ?thesis using True by (simp add: with_isolir_comment_def secret_looks_isolir_def without_isolir_comment_def Let_def)
next
  case False
  let ?c = "trim_space c" and ?m = "''ISOLIR '' @ trim_space c"
  have "\<not> is_space (last ?c)" using False trim_by_clean [of is_space c] by (simp add: trim_space_def)
  moreover have "\<not> is_space (CHR ''I'')" by code_simp
  ultimately have t: "trim_space ?m = ?m" using False by (intro trim_space_id) simp
  have "to_upper ''ISOLIR '' = ''ISOLIR ''" by code_simp
  then have u: "has_prefix (to_upper ?m) ''ISOLIR ''" by (simp add: to_upper_def has_prefix_def)
  have w: "with_isolir_comment c = ?m" using False assms by (simp add: with_isolir_comment_def Let_def)
  have "without_isolir_comment ?m = ?c" using t u by (simp add: without_isolir_comment_def Let_def)
  moreover have "with_isolir_comment ?m = ?m" using t u by (simp add: with_isolir_comment_def isolir_tagged_def Let_def)
  moreover have "secret_looks_isolir p ?m ip plan" using t u by (simp add: secret_looks_isolir_def isolir_tagged_def)
  moreover have "without_isolir_comment c = ?c" using assms by (simp add: without_isolir_comment_def isolir_tagged_def Let_def)
  ultimately show ?thesis using w assms by simp
qed

lemma isolir_mark_roundtrip_witness:
  "without_isolir_comment (with_isolir_comment ''D5:C7 Ana'') = ''D5:C7 Ana'' \<and> with_isolir_comment ''D5:C7 Ana'' = ''ISOLIR D5:C7 Ana''"
proof -
  have "\<not> isolir_tagged (trim_space ''D5:C7 Ana'')" "trim_space ''D5:C7 Ana'' = ''D5:C7 Ana''" by code_simp+
  then have "without_isolir_comment (with_isolir_comment ''D5:C7 Ana'') = ''D5:C7 Ana''" using isolir_mark_roundtrip [of "''D5:C7 Ana''"] by simp
  moreover have "with_isolir_comment ''D5:C7 Ana'' = ''ISOLIR D5:C7 Ana''" by code_simp
  ultimately show ?thesis by simp
qed

text \<open>The tag of an account is recognised as the program's own and holds none of the characters that end a value in
  a router command: no equals sign and no line break, whatever the names are.\<close>

theorem comment_tag_owned_and_safe:
  "is_owned_comment (comment_tag app code name) app \<and> (\<forall>c\<in>set (comment_tag app code name). c \<noteq> CHR ''='' \<and> c \<noteq> CHR 0x0A \<and> c \<noteq> CHR 0x0D)"
proof -
  have "\<forall>c\<in>set (comment_tag app code name). comment_safe c"
  proof -
    have "comment_safe (CHR '':'')" "comment_safe (CHR '' '')" by (simp_all add: comment_safe_def)
    then show ?thesis using brand_chars [of app] part_chars [of code] part_chars [of name]
      unfolding comment_tag_def Let_def by (simp add: ball_Un)
  qed
  moreover have "is_owned_comment (comment_tag app code name) app"
    by (auto simp: comment_tag_def is_owned_comment_def Let_def has_prefix_iff)
  ultimately show ?thesis by (simp add: comment_safe_def)
qed

lemma comment_tag_owned_and_safe_witness:
  "comment_tag ''D5 Net'' ''C=7'' ''Ana Putri'' = ''D5-Net:C-7 Ana Putri'' \<and> is_owned_comment ''D5-Net:C-7 Ana Putri'' ''D5 Net''
   \<and> CHR ''='' \<notin> set ''D5-Net:C-7 Ana Putri''"
proof -
  have "comment_tag ''D5 Net'' ''C=7'' ''Ana Putri'' = ''D5-Net:C-7 Ana Putri''" by code_simp
  then show ?thesis using comment_tag_owned_and_safe [of "''D5 Net''" "''C=7''" "''Ana Putri''"] by metis
qed

text \<open>The dots in a price only separate: without them it is the amount.\<close>

theorem rp_dots_roundtrip:
  assumes "0 \<le> n"
  shows "filter (\<lambda>c. c \<noteq> CHR ''.'') (format_rp_dots n) = format_int n"
proof -
  let ?s = "format_int n" and ?q = "\<lambda>c. c \<noteq> CHR ''.''"
  have d: "\<forall>c\<in>set ?s. is_digit c" using assms nat_digits_is_digit by (simp add: format_int_def)
  have "\<not> is_digit (CHR ''.'')" by code_simp
  then have "CHR ''.'' \<notin> set ?s" using d by blast
  then have none: "CHR ''.'' \<notin> set (take k ?s)" "CHR ''.'' \<notin> set (drop k ?s)" for k by (meson in_set_takeD, meson in_set_dropD)
  then have parts: "filter ?q (take k ?s) = take k ?s" "filter ?q (dot_groups (drop k ?s)) = drop k ?s" for k
    by (auto intro!: filter_True filter_dot_groups)
  have "filter ?q ?s = ?s" using parts(1) [of "length ?s"] by simp
  then show ?thesis using assms parts by (simp add: format_rp_dots_def Let_def)
qed

lemma rp_dots_roundtrip_witness:
  "format_rp_dots 1250000 = ''1.250.000'' \<and> filter (\<lambda>c. c \<noteq> CHR ''.'') (format_rp_dots 1250000) = format_int 1250000"
proof -
  have "format_rp_dots 1250000 = ''1.250.000''" by code_simp
  then show ?thesis using rp_dots_roundtrip [of 1250000] by simp
qed

end
