(* ===== verification/Worker.thy ===== *)
theory Worker
  imports Payments Router_Comments
begin

text \<open>
  The background worker (\<open>internal/job/worker.go\<close>): which tenants are due for a cycle, and what a cycle does
  to the database: billing, suspending and resuming, the hourly repair of accounts that are still
  isolated on a router, reminders, and the claims of the daily, weekly and monthly jobs.  What the worker asks the
  notification service to send is a list of notices.  The routers are an argument: whether a resume
  or a suspension works, and the accounts that could be read.  A reading of the tables whose result
  only goes to a router or into a text is left out; its failure changes neither tables nor notices.
  The suspension by hand is that of \<open>internal/handlers/provision_helpers.go\<close>.
\<close>

section \<open>The worker's clock\<close>

text \<open>When the last cycle and the last repair of a tenant began, in nanoseconds.\<close>

record worker =
  wk_cycles :: "(gid \<times> int) list"
  wk_repairs :: "(gid \<times> int) list"

definition new_worker :: worker where
  "new_worker = \<lparr>wk_cycles = [], wk_repairs = []\<rparr>"

definition tenant_cycle_due :: "worker \<Rightarrow> gid \<Rightarrow> int \<Rightarrow> int \<Rightarrow> bool" where
  "tenant_cycle_due k tenant interval0 now =
     (let interval = (if interval0 < minute then minute else interval0) in
      case map_of (wk_cycles k) tenant of None \<Rightarrow> True | Some last_at \<Rightarrow> \<not> now < last_at + interval)"

definition remember_tenant_cycle :: "gid \<Rightarrow> int \<Rightarrow> worker \<Rightarrow> worker" where
  "remember_tenant_cycle tenant now k = k\<lparr>wk_cycles := AList.update tenant now (wk_cycles k)\<rparr>"

definition repair_due :: "worker \<Rightarrow> gid \<Rightarrow> int \<Rightarrow> bool" where
  "repair_due k tenant now =
     (case map_of (wk_repairs k) tenant of None \<Rightarrow> True | Some last_at \<Rightarrow> \<not> now < last_at + hour_ns)"

definition remember_repair :: "gid \<Rightarrow> int \<Rightarrow> worker \<Rightarrow> worker" where
  "remember_repair tenant now k = k\<lparr>wk_repairs := AList.update tenant now (wk_repairs k)\<rparr>"

section \<open>Notices and routers\<close>

datatype notice =
    Issued gid
  | Paid_from_balance gid int
  | Balance_short gid int int
  | Ops_isolir gid
  | Customer_isolir gid
  | Reminder gid int

text \<open>An account as a router lists it, and the profile names of \<open>store/isolir.go\<close> and \<open>planRouterProfile\<close>.\<close>

record secret =
  sec_user :: string
  sec_service :: string
  sec_profile :: string
  sec_comment :: string

record devices =
  dv_resume :: "gid \<Rightarrow> bool"
  dv_suspend :: "gid \<Rightarrow> string option"
  dv_secrets :: "(gid \<times> secret list) list"
  dv_profile :: string

definition given_text :: "string option \<Rightarrow> string" where
  "given_text x = (case x of None \<Rightarrow> [] | Some s \<Rightarrow> trim_space s)"

definition isolir_profile_name :: "string \<Rightarrow> plan option \<Rightarrow> string" where
  "isolir_profile_name cfg plan =
     (let p = (case plan of None \<Rightarrow> [] | Some x \<Rightarrow> given_text (plan_isolir_profile x)); c = trim_space cfg in
      if p \<noteq> [] then p else if c \<noteq> [] then c else ''isolir'')"

definition plan_router_profile :: "plan option \<Rightarrow> string" where
  "plan_router_profile plan =
     (case plan of None \<Rightarrow> []
      | Some x \<Rightarrow> (let p = given_text (plan_profile x) in if p \<noteq> [] then p else trim_space (plan_code x)))"

definition service_or_pppoe :: "string \<Rightarrow> string" where
  "service_or_pppoe s = (let st = trim_space s in if st = [] then ''pppoe'' else st)"

text \<open>The two keys of an account; the first account of a user name keeps the plain one.\<close>

definition by_user :: "secret list \<Rightarrow> (string \<times> secret) list" where
  "by_user secrets = foldl (\<lambda>m sec.
     let m1 = AList.update (sec_user sec @ ''|'' @ service_or_pppoe (sec_service sec)) sec m in
     if map_of m1 (sec_user sec) = None then AList.update (sec_user sec) sec m1 else m1) [] secrets"

definition secret_of :: "(string \<times> secret) list \<Rightarrow> subscription \<Rightarrow> secret option" where
  "secret_of m x = (case map_of m (sub_username x @ ''|'' @ service_or_pppoe (sub_service x)) of
       Some sec \<Rightarrow> Some sec | None \<Rightarrow> map_of m (sub_username x))"

section \<open>Suspending and resuming\<close>

definition suspend_subscription :: "world \<Rightarrow> gid \<Rightarrow> gid \<Rightarrow> (db, notice list) prog" where
  "suspend_subscription w tenant sid =
     or_else []
      (bind (get_subscription tenant sid) (\<lambda>v.
       if sub_status (sv_row v) = ''suspended'' then ret []
       else bind (update_subscription_status (w_now w) tenant sid ''suspended'') (\<lambda>_.
         bind (attempt (get_customer tenant (sub_customer (sv_row v)))) (\<lambda>c.
         ret (Ops_isolir sid # (case c of Inl _ \<Rightarrow> [] | Inr _ \<Rightarrow> [Customer_isolir sid]))))))"

definition worker_resume :: "world \<Rightarrow> devices \<Rightarrow> gid \<Rightarrow> gid \<Rightarrow> (db, unit) prog" where
  "worker_resume w dv tenant sid =
     quietly
      (bind (get_subscription tenant sid) (\<lambda>v.
       if sub_router (sv_row v) = None then ret ()
       else bind (get_plan tenant (sub_plan (sv_row v))) (\<lambda>_.
         if \<not> dv_resume dv sid then ret ()
         else bind (if sub_status (sv_row v) \<noteq> ''active''
                    then quietly (update_subscription_status (w_now w) tenant sid ''active'') else ret ()) (\<lambda>_.
              clear_subscription_suspended_at tenant sid))))"

text \<open>The subscriptions tried.\<close>

definition resume_paid_subscriptions :: "world \<Rightarrow> devices \<Rightarrow> gid \<Rightarrow> (db, gid list) prog" where
  "resume_paid_subscriptions w dv tenant =
     bind (or_else [] (list_subscriptions_needing_resume w tenant)) (\<lambda>ids.
     collect (\<lambda>sid. bind (or_else False (is_free_subscription tenant sid)) (\<lambda>free.
       if free then ret None else bind (worker_resume w dv tenant sid) (\<lambda>_. ret (Some sid)))) ids)"

text \<open>One pass over the rows of a router; \<open>seen\<close> are the subscriptions to skip, to which those resumed are added.\<close>

fun repair_rows :: "world \<Rightarrow> devices \<Rightarrow> gid \<Rightarrow> (string \<times> secret) list \<Rightarrow> subscription list \<Rightarrow> gid list \<Rightarrow> (db, gid list) prog" where
  "repair_rows w dv tenant m [] seen = ret seen"
| "repair_rows w dv tenant m (x # xs) seen =
     (if sub_id x \<in> set seen then repair_rows w dv tenant m xs seen
      else bind (or_else False (is_free_subscription tenant (sub_id x))) (\<lambda>free.
        case (if free then None else secret_of m x) of
          None \<Rightarrow> repair_rows w dv tenant m xs seen
        | Some sec \<Rightarrow>
            bind (or_else None (bind (get_plan tenant (sub_plan x)) (\<lambda>p. ret (Some p)))) (\<lambda>plan.
            if \<not> secret_looks_isolir (sec_profile sec) (sec_comment sec) (isolir_profile_name (dv_profile dv) plan) (plan_router_profile plan)
            then repair_rows w dv tenant m xs seen
            else bind (worker_resume w dv tenant (sub_id x)) (\<lambda>_. repair_rows w dv tenant m xs (sub_id x # seen)))))"

fun repair_routers :: "world \<Rightarrow> devices \<Rightarrow> gid \<Rightarrow> (gid \<times> secret list) list \<Rightarrow> gid list \<Rightarrow> (db, gid list) prog" where
  "repair_routers w dv tenant [] seen = ret seen"
| "repair_routers w dv tenant ((rid, secrets) # rs) seen =
     bind (or_else [] (list_provisionable_by_router tenant rid)) (\<lambda>rows.
     bind (repair_rows w dv tenant (by_user secrets) (map fst rows) seen) (\<lambda>seen'.
     repair_routers w dv tenant rs seen'))"

text \<open>\<open>repairIsolirSecrets\<close>, once its hour is up.\<close>

definition repair_isolir_secrets :: "world \<Rightarrow> devices \<Rightarrow> gid \<Rightarrow> gid list \<Rightarrow> gid list \<Rightarrow> (db, unit) prog" where
  "repair_isolir_secrets w dv tenant overdue tried =
     bind (repair_routers w dv tenant (dv_secrets dv) (overdue @ tried)) (\<lambda>_. ret ())"

text \<open>The isolir part of a cycle; \<open>repair\<close> tells whether the repair is due.\<close>

fun gather :: "('a \<Rightarrow> (db, 'b list) prog) \<Rightarrow> 'a list \<Rightarrow> (db, 'b list) prog" where
  "gather f [] = ret []"
| "gather f (x # xs) = bind (f x) (\<lambda>ys. bind (gather f xs) (\<lambda>zs. ret (ys @ zs)))"

definition isolir_jobs :: "world \<Rightarrow> devices \<Rightarrow> gid \<Rightarrow> bool \<Rightarrow> (db, notice list) prog" where
  "isolir_jobs w dv tenant repair =
     bind (or_else [] (process_overdue_suspensions w tenant)) (\<lambda>overdue.
     bind (gather (suspend_subscription w tenant) overdue) (\<lambda>told.
     bind (resume_paid_subscriptions w dv tenant) (\<lambda>tried.
     bind (if repair then repair_isolir_secrets w dv tenant overdue tried else ret ()) (\<lambda>_.
     ret told))))"

section \<open>Billing\<close>

text \<open>\<open>autoPayIssuedInvoice\<close> and \<open>notifyInvoiceGenerated\<close>.\<close>

definition invoice_notice :: "gid \<Rightarrow> invoice \<Rightarrow> (db, notice list) prog" where
  "invoice_notice tenant i =
     bind (or_else None (bind (get_customer tenant (inv_customer i)) (\<lambda>c. ret (Some c)))) (\<lambda>c.
     ret (case c of None \<Rightarrow> [] | Some v \<Rightarrow> if trim_space (cust_phone (cv_row v)) = [] then [] else [Issued (inv_id i)]))"

definition issued_invoice :: "world \<Rightarrow> gid \<Rightarrow> invoice \<Rightarrow> (db, notice list) prog" where
  "issued_invoice w tenant i =
     bind (or_else no_auto_pay (try_auto_pay_invoice w tenant (inv_id i))) (\<lambda>res.
     if \<not> ap_enabled res \<or> ap_customer res = None then invoice_notice tenant i
     else case ap_payment res of
         Some p \<Rightarrow> if ap_paid res then ret [Paid_from_balance (inv_id i) (pay_amount p)]
                   else ret [Balance_short (inv_id i) (max 0 (wrap64 (inv_total i - inv_paid i))) (ap_balance res)]
       | None \<Rightarrow> ret [Balance_short (inv_id i) (max 0 (wrap64 (inv_total i - inv_paid i))) (ap_balance res)])"

definition billing_jobs :: "world \<Rightarrow> dice \<Rightarrow> gid \<Rightarrow> (db, notice list) prog" where
  "billing_jobs w draw tenant =
     bind (or_else [] (process_due_billing w draw tenant)) (\<lambda>invs.
     bind (gather (issued_invoice w tenant) invs) (\<lambda>told.
     bind (quietly (process_manual_late_fees w tenant)) (\<lambda>_.
     ret told)))"

section \<open>Reminders\<close>

text \<open>\<open>%d\<close> of an id, which is a UUID: its sixteen bytes.\<close>

fun id_bytes :: "nat \<Rightarrow> gid \<Rightarrow> nat list" where
  "id_bytes 0 n = []"
| "id_bytes (Suc k) n = id_bytes k (n div 256) @ [n mod 256]"

definition id_decimal :: "gid \<Rightarrow> string" where
  "id_decimal n = ''['' @ join_with '' '' (map nat_digits (id_bytes 16 n)) @ '']''"

definition dunning_key :: "gid \<Rightarrow> int \<Rightarrow> string" where
  "dunning_key iid days = ''inv-'' @ id_decimal iid @ ''-day-'' @ format_int days"

text \<open>Whole days from the due date to today; negative before it.  Both midnights are in the tenant's zone.\<close>

definition dunning_days :: "gtime \<Rightarrow> int \<Rightarrow> int" where
  "dunning_days now due =
     (case date_of_day due of (y, m, d) \<Rightarrow>
        go_div (time_sub (go_date (t_year now) (t_month now) (t_day now) 0 (t_zone now)) (go_date y m d 0 (t_zone now))) day_ns)"

text \<open>One invoice.  The loop over the offsets stops at the first that is today's.\<close>

definition remind :: "gid \<Rightarrow> gtime \<Rightarrow> int list \<Rightarrow> invoice \<times> string \<Rightarrow> (db, notice list) prog" where
  "remind tenant now offsets = (\<lambda>(i, phone).
     if trim_space phone = [] then ret []
     else bind (case inv_subscription i of None \<Rightarrow> ret False
                | Some sid \<Rightarrow> or_else False (is_free_subscription tenant sid)) (\<lambda>free.
       let days = dunning_days now (inv_due i) in
       if free \<or> \<not> list_ex (\<lambda>t. days = t) offsets then ret []
       else bind (or_else False (claim_job tenant ''dunning'' (dunning_key (inv_id i) days))) (\<lambda>ok.
         ret (if ok then [Reminder (inv_id i) days] else []))))"

definition process_dunning :: "world \<Rightarrow> gid \<Rightarrow> job_settings \<Rightarrow> (db, notice list) prog" where
  "process_dunning w tenant cfg =
     (let offsets = (if js_offsets cfg = [] then js_offsets default_job_settings else js_offsets cfg) in
      bind (now_of w tenant) (\<lambda>now.
      if \<not> past_notify_time now (normalize_notify_time (js_dunning_time cfg) ''08:00'') then ret []
      else bind (or_else [] (list_dunning_invoices (w_today w) tenant)) (\<lambda>rows.
        gather (remind tenant now offsets) rows)))"

section \<open>Scheduled jobs\<close>

definition month_text :: "gtime \<Rightarrow> string" where
  "month_text t = zero_pad 4 (t_year t) @ ''-'' @ zero_pad 2 (t_month t)"

definition date_text :: "gtime \<Rightarrow> string" where
  "date_text t = month_text t @ ''-'' @ zero_pad 2 (t_day t)"

text \<open>\<open>Weekday\<close> (Sunday is 0; day 0 was a Thursday) and \<open>Hour\<close>.\<close>

definition weekday :: "gtime \<Rightarrow> int" where
  "weekday t = (day_of t + 4) mod 7"

definition hour :: "gtime \<Rightarrow> int" where
  "hour t = t_nanos t div hour_ns"

text \<open>The claims that open the daily purge of notifications, the weekly check of the routers and the monthly
  report; what they do once they have the claim leaves the tables of this model alone.\<close>

definition process_notif_retention :: "world \<Rightarrow> gid \<Rightarrow> int \<Rightarrow> (db, bool) prog" where
  "process_notif_retention w tenant days =
     (if days \<le> 0 then ret False
      else bind (now_of w tenant) (\<lambda>now. or_else False (claim_job tenant ''notif_retention'' (date_text now))))"

definition weekly_reconcile :: "gid \<Rightarrow> gtime \<Rightarrow> int \<Rightarrow> int \<Rightarrow> bool \<Rightarrow> (db, bool) prog" where
  "weekly_reconcile tenant now day h force =
     (if \<not> force \<and> (weekday now \<noteq> day \<or> hour now \<noteq> h) then ret False
      else or_else False (claim_job tenant ''weekly_reconcile'' (date_text now)))"

definition monthly_report_email :: "gid \<Rightarrow> gtime \<Rightarrow> int \<Rightarrow> int \<Rightarrow> bool \<Rightarrow> (db, bool) prog" where
  "monthly_report_email tenant now day h force =
     (if \<not> force \<and> (t_day now \<noteq> day \<or> hour now \<noteq> h) then ret False
      else or_else False (claim_job tenant ''monthly_report'' (month_text now)))"

section \<open>Cycles\<close>

definition run_tenant_jobs ::
  "world \<Rightarrow> devices \<Rightarrow> dice \<Rightarrow> gid \<Rightarrow> job_settings \<Rightarrow> bool \<Rightarrow> worker \<Rightarrow> (db, worker \<times> notice list) prog" where
  "run_tenant_jobs w dv draw tenant cfg force k =
     bind (if js_billing cfg then billing_jobs w draw tenant else ret []) (\<lambda>a.
     let repair = (js_isolir cfg \<and> repair_due k tenant (w_now w)) in
     bind (if js_isolir cfg then isolir_jobs w dv tenant repair else ret []) (\<lambda>b.
     bind (if js_dunning cfg then process_dunning w tenant cfg else ret []) (\<lambda>c.
     bind (process_notif_retention w tenant (js_retention cfg)) (\<lambda>_.
     bind (now_of w tenant) (\<lambda>now.
     bind (if js_weekly cfg then weekly_reconcile tenant now (js_weekday cfg) (js_weekly_hour cfg) force else ret False) (\<lambda>_.
     bind (if js_monthly cfg then monthly_report_email tenant now (js_month_day cfg) (js_month_hour cfg) force else ret False) (\<lambda>_.
     ret (if repair then remember_repair tenant (w_now w) k else k, a @ b @ c))))))))"

text \<open>\<open>runCycle\<close> over the tenants and whether they are active; the read of the tenants themselves, and the queue of the
  notification service, are not part of it.\<close>

definition tenant_turn ::
  "world \<Rightarrow> devices \<Rightarrow> dice \<Rightarrow> gid \<times> bool \<Rightarrow> worker \<Rightarrow> (db, worker \<times> notice list) prog" where
  "tenant_turn w dv draw row k = (case row of (tenant, active) \<Rightarrow>
     if \<not> active then ret (k, [])
     else bind (or_else default_job_settings (get_job_schedule_settings tenant)) (\<lambda>cfg.
       let interval = js_cycle cfg * second in
       if \<not> tenant_cycle_due k tenant (if interval < minute then minute else interval) (w_now w) then ret (k, [])
       else run_tenant_jobs w dv draw tenant cfg False (remember_tenant_cycle tenant (w_now w) k)))"

fun run_cycle :: "world \<Rightarrow> devices \<Rightarrow> dice \<Rightarrow> (gid \<times> bool) list \<Rightarrow> worker \<Rightarrow> (db, worker \<times> notice list) prog" where
  "run_cycle w dv draw [] k = ret (k, [])"
| "run_cycle w dv draw (t # ts) k =
     bind (tenant_turn w dv draw t k) (\<lambda>(k1, ns). bind (run_cycle w dv draw ts k1) (\<lambda>(k2, ms). ret (k2, ns @ ms)))"

text \<open>\<open>RunTenantNow\<close>; \<open>row\<close> is what reading the tenant gives: an error, or whether it is active.\<close>

definition run_tenant_now ::
  "world \<Rightarrow> devices \<Rightarrow> dice \<Rightarrow> gid \<Rightarrow> err + bool \<Rightarrow> bool \<Rightarrow> worker \<Rightarrow> (db, worker \<times> notice list) prog" where
  "run_tenant_now w dv draw tenant row force k =
     (case row of
        Inl e \<Rightarrow> raise e
      | Inr active \<Rightarrow>
          if \<not> active then raise (Rejected ''tenant nonaktif'')
          else bind (or_else default_job_settings (get_job_schedule_settings tenant)) (\<lambda>cfg.
            run_tenant_jobs w dv draw tenant cfg force (remember_tenant_cycle tenant (w_now w) k)))"

section \<open>Suspending by hand\<close>

text \<open>\<open>isolirSubscription\<close>; \<open>dv_suspend\<close> is the complaint of the router, if it has one.\<close>

definition isolir_subscription :: "world \<Rightarrow> devices \<Rightarrow> gid \<Rightarrow> gid \<Rightarrow> (db, unit) prog" where
  "isolir_subscription w dv tenant sid =
     bind (attempt (get_subscription tenant sid)) (\<lambda>r.
     case r of Inl _ \<Rightarrow> raise Not_found | Inr v \<Rightarrow>
       bind (update_subscription_status (w_now w) tenant sid ''suspended'') (\<lambda>_.
       if sub_router (sv_row v) = None then ret ()
       else bind (get_plan tenant (sub_plan (sv_row v))) (\<lambda>_.
         case dv_suspend dv sid of
           None \<Rightarrow> ret ()
         | Some msg \<Rightarrow> raise (Rejected (''gagal isolir di router: '' @ msg)))))"

definition normalize_customer_status :: "string \<Rightarrow> string" where
  "normalize_customer_status s =
     (let t = to_lower (trim_space s) in
      if t \<in> {''active'', ''aktif''} then ''active''
      else if t \<in> {''isolir'', ''suspend'', ''suspended''} then ''isolir''
      else if t \<in> {''inactive'', ''nonaktif''} then ''inactive''
      else if t \<in> {''overdue'', ''tunggakan''} then ''overdue''
      else if t \<in> {''dismantled'', ''cabut''} then ''dismantled''
      else [])"

definition apply_customer_status :: "world \<Rightarrow> devices \<Rightarrow> gid \<Rightarrow> gid \<Rightarrow> string \<Rightarrow> (db, unit) prog" where
  "apply_customer_status w dv tenant customer status =
     bind (list_subscriptions tenant [] (Some customer) 500 0) (\<lambda>(vs, _).
     if status = ''active''
     then for_each (filter (\<lambda>x. sub_status x = ''suspended'') (map sv_row vs)) (\<lambda>x.
            bind (update_subscription_status (w_now w) tenant (sub_id x) ''active'') (\<lambda>_.
            resume_subscription (dv_resume dv) tenant (sub_id x)))
     else if status \<in> {''isolir'', ''inactive''}
     then for_each (filter (\<lambda>x. sub_status x \<in> {''active'', ''overdue''}) (map sv_row vs)) (\<lambda>x.
            quietly (isolir_subscription w dv tenant (sub_id x)))
     else ret ())"

end
