(* ===== verification/Worker_Facts.thy ===== *)
theory Worker_Facts
  imports Worker Webhook_Facts Billing_Clock
begin

text \<open>
  What the background worker promises under any failures: a cycle always goes through all tenants; the
  cycles of a tenant keep their distance; a reminder is given once for each invoice and day, over all
  runs, and only inside the window of the invoice query; without failures the reminder of the day is given.
  The worker breaks none of the money invariants.
\<close>

section \<open>Programs that always answer\<close>

definition answers :: "('s, 'a) prog \<Rightarrow> bool" where
  "answers m \<longleftrightarrow> (\<forall>s. \<exists>x s'. m s = (Inr x, s'))"

named_theorems answers_intros \<open>programs without an error\<close>

lemma answers_ret [answers_intros]: "answers (ret x)"
  by (simp add: answers_def ret_def)

lemma answers_attempt [answers_intros]: "answers (attempt m)"
  unfolding answers_def attempt_def by (auto split: prod.split)

lemma answers_bind [answers_intros]: "answers m \<Longrightarrow> (\<And>x. answers (f x)) \<Longrightarrow> answers (bind m f)"
proof -
  assume m: "answers m" and f: "\<And>x. answers (f x)"
  have "\<exists>y s'. bind m f s = (Inr y, s')" for s
  proof -
    obtain x s1 where "m s = (Inr x, s1)" using m unfolding answers_def by blast
    then show ?thesis using f [of x] by (simp add: bind_def answers_def)
  qed
  then show ?thesis by (simp add: answers_def)
qed

lemma answers_if [answers_intros]: "answers m \<Longrightarrow> answers n \<Longrightarrow> answers (if b then m else n)"
  by simp

lemma answers_option [answers_intros]: "answers m \<Longrightarrow> (\<And>y. answers (f y)) \<Longrightarrow> answers (case x of None \<Rightarrow> m | Some y \<Rightarrow> f y)"
  by (simp split: option.split)

lemma answers_sum [answers_intros]: "(\<And>e. answers (f e)) \<Longrightarrow> (\<And>y. answers (g y)) \<Longrightarrow> answers (case x of Inl e \<Rightarrow> f e | Inr y \<Rightarrow> g y)"
  by (simp split: sum.split)

lemma answers_prod [answers_intros]: "(\<And>a b. answers (f a b)) \<Longrightarrow> answers (case x of (a, b) \<Rightarrow> f a b)"
  by (simp split: prod.split)

lemma answers_let [answers_intros]: "answers (f x) \<Longrightarrow> answers (Let x f)"
  by simp

lemma answers_or_else [answers_intros]: "answers (or_else d m)" "answers (quietly m)"
  unfolding or_else_def quietly_def by (intro answers_intros)+

lemma answers_collect [answers_intros]: "answers (collect f xs)"
  by (induction xs) (auto intro!: answers_intros)

lemma answers_gather [answers_intros]: "(\<And>x. answers (f x)) \<Longrightarrow> answers (gather f xs)"
  by (induction xs) (auto intro!: answers_intros)

lemma answers_now_of [answers_intros]: "answers (now_of w t)"
  unfolding now_of_def tenant_now_def tenant_location_def read_general_def Let_def by (intro answers_intros)

lemma answers_repair [answers_intros]: "answers (repair_routers w dv t rs seen)"
proof (induction rs arbitrary: seen)
  case (Cons r rs)
  have rows: "answers (repair_rows w dv t m xs seen)" for m xs seen
    by (induction xs arbitrary: seen) (auto simp: worker_resume_def intro!: answers_intros)
  show ?case using Cons by (cases r) (auto intro!: answers_intros rows)
qed (simp add: answers_intros)

lemma answers_tenant_jobs [answers_intros]: "answers (run_tenant_jobs w dv draw t cfg force k)"
  unfolding run_tenant_jobs_def billing_jobs_def issued_invoice_def invoice_notice_def isolir_jobs_def suspend_subscription_def
    resume_paid_subscriptions_def repair_isolir_secrets_def process_dunning_def remind_def process_notif_retention_def
    weekly_reconcile_def monthly_report_email_def Let_def
  by (intro answers_intros)

section \<open>Frames\<close>

lemma keeps_gather [keeps_intros]: "(\<And>x. x \<in> set xs \<Longrightarrow> keeps P (f x)) \<Longrightarrow> keeps P (gather f xs)"
  by (induction xs) (auto intro!: keeps_intros)

lemma keeps_worker_reads [keeps_intros]:
  assumes "stable P"
  shows "keeps P (process_overdue_suspensions w t)" "keeps P (list_subscriptions_needing_resume w t)"
    "keeps P (list_provisionable_by_router t rid)" "keeps P (list_dunning_invoices today t)"
    "keeps P (get_job_schedule_settings t)" "keeps P (invoice_notice t i)"
  unfolding process_overdue_suspensions_def list_overdue_subscriptions_def list_subscriptions_needing_resume_def grace_days_def
    list_provisionable_by_router_def list_dunning_invoices_def get_job_schedule_settings_def invoice_notice_def
  by (intro keeps_intros assms keeps_or_default_row keeps_get_setting)+

context subs_frame begin

lemma keeps_worker_resume: "keeps P (worker_resume w dv t sid)"
  unfolding worker_resume_def by (intro keeps_intros st keeps_status)

lemma keeps_repair_rows: "keeps P (repair_rows w dv t m xs seen)"
  by (induction xs arbitrary: seen) (auto intro!: keeps_intros st keeps_worker_resume)

lemma keeps_repair: "keeps P (repair_routers w dv t rs seen)"
proof (induction rs arbitrary: seen)
  case (Cons r rs)
  then show ?case by (cases r) (auto intro!: keeps_intros st keeps_repair_rows)
qed (simp add: keeps_ret)

lemma keeps_isolir_jobs: "keeps P (isolir_jobs w dv t repair)"
  unfolding isolir_jobs_def suspend_subscription_def resume_paid_subscriptions_def repair_isolir_secrets_def
  by (intro keeps_intros st keeps_status keeps_worker_resume keeps_repair)

lemma keeps_isolir_subscription: "keeps P (isolir_subscription w dv t sid)"
  unfolding isolir_subscription_def by (intro keeps_intros st keeps_status)

lemma keeps_apply_status: "keeps P (apply_customer_status w dv t c status)"
  unfolding apply_customer_status_def resume_subscription_def
  by (intro keeps_intros st keeps_status keeps_isolir_subscription)

end

text \<open>An assertion that does not look at the claims of jobs either survives the worker.\<close>

locale worker_frame = billing_frame +
  assumes runs: "P (s\<lparr>job_runs := js\<rparr>) = P s"
begin

lemma keeps_claim: "keeps P (claim_job t job key)"
  unfolding claim_job_def by (intro keeps_intros st keeps_exec) (auto simp: runs split: if_splits)

lemma keeps_tenant_jobs: "keeps P (run_tenant_jobs w dv draw t cfg force k)"
  unfolding run_tenant_jobs_def billing_jobs_def issued_invoice_def process_dunning_def remind_def process_notif_retention_def
    weekly_reconcile_def monthly_report_email_def Let_def
  by (intro keeps_intros st keeps_isolir_jobs keeps_due_billing keeps_manual_fees keeps_try_pay keeps_claim)

lemma keeps_turn: "keeps P (tenant_turn w dv draw ta k)"
  unfolding tenant_turn_def Let_def by (intro keeps_intros st keeps_tenant_jobs)

lemma keeps_cycle: "keeps P (run_cycle w dv draw ts k)"
  by (induction ts arbitrary: k) (auto intro!: keeps_intros keeps_turn)

lemma keeps_run_now: "keeps P (run_tenant_now w dv draw t row force k)"
  unfolding run_tenant_now_def by (intro keeps_intros st keeps_tenant_jobs)

end

section \<open>Claims behind the reminders\<close>

definition reminder_key :: "gid \<Rightarrow> notice \<Rightarrow> (gid \<times> string \<times> string) list" where
  "reminder_key t n = (case n of Reminder i d \<Rightarrow> [(t, ''dunning'', dunning_key i d)] | _ \<Rightarrow> [])"

definition reminder_keys :: "gid \<Rightarrow> notice list \<Rightarrow> (gid \<times> string \<times> string) list" where
  "reminder_keys t ns = concat (map (reminder_key t) ns)"

text \<open>The claims made since; the keys of the reminders given are among them, each once.\<close>

definition claims :: "gid \<Rightarrow> (db, notice list) prog \<Rightarrow> bool" where
  "claims t m \<longleftrightarrow> (\<forall>s r s'. m s = (r, s') \<longrightarrow> set (job_runs s) \<subseteq> set (job_runs s') \<and>
     (\<forall>ns. r = Inr ns \<longrightarrow> distinct (reminder_keys t ns) \<and> set (reminder_keys t ns) \<inter> set (job_runs s) = {}
        \<and> set (reminder_keys t ns) \<subseteq> set (job_runs s')))"

lemma reminder_keys_simps [simp]:
  "reminder_keys t [] = []" "reminder_keys t (ns @ ms) = reminder_keys t ns @ reminder_keys t ms"
  "reminder_keys t [Reminder i d] = [(t, ''dunning'', dunning_key i d)]"
  by (simp_all add: reminder_keys_def reminder_key_def)

lemma job_runs_same: "same_tables s s' \<Longrightarrow> job_runs s' = job_runs s"
proof -
  assume "same_tables s s'"
  then have "job_runs s' = job_runs (s\<lparr>faults := faults s', aborted := aborted s'\<rparr>)" by (intro arg_cong [where f = job_runs] same_tables_eq)
  then show ?thesis by simp
qed

lemma claims_ret: "reminder_keys t ns = [] \<Longrightarrow> claims t (ret ns)"
  by (simp add: claims_def ret_def)

lemma claims_if: "claims t m \<Longrightarrow> claims t n \<Longrightarrow> claims t (if b then m else n)"
  by simp

lemma claims_reads:
  assumes "reads m" and "\<And>x. claims t (f x)"
  shows "claims t (bind m f)"
  unfolding claims_def
proof (intro allI impI)
  fix s r s' assume run: "bind m f s = (r, s')"
  obtain y s1 where y: "m s = (y, s1)" by fastforce
  then have j: "job_runs s1 = job_runs s" using assms(1) unfolding reads_def by (metis job_runs_same snd_conv)
  show "set (job_runs s) \<subseteq> set (job_runs s') \<and> (\<forall>ns. r = Inr ns \<longrightarrow> distinct (reminder_keys t ns)
    \<and> set (reminder_keys t ns) \<inter> set (job_runs s) = {} \<and> set (reminder_keys t ns) \<subseteq> set (job_runs s'))"
  proof (cases y)
    case (Inl e)
    then show ?thesis using run y j by (auto simp: bind_def)
  next
    case (Inr x)
    then have "f x s1 = (r, s')" using run y by (simp add: bind_def)
    then show ?thesis using assms(2) [of x] unfolding claims_def j [symmetric] by blast
  qed
qed

lemma claims_gather:
  assumes "\<And>x. claims t (f x)"
  shows "claims t (gather f xs)"
proof (induction xs)
  case (Cons x xs)
  show ?case unfolding claims_def
  proof (intro allI impI)
    fix s r s' assume run: "gather f (x # xs) s = (r, s')"
    obtain a s1 where a: "f x s = (a, s1)" by fastforce
    obtain b s2 where b: "gather f xs s1 = (b, s2)" by fastforce
    note h = assms [of x, unfolded claims_def, rule_format, OF a] and t = Cons [unfolded claims_def, rule_format, OF b]
    show "set (job_runs s) \<subseteq> set (job_runs s') \<and> (\<forall>ns. r = Inr ns \<longrightarrow> distinct (reminder_keys t ns)
      \<and> set (reminder_keys t ns) \<inter> set (job_runs s) = {} \<and> set (reminder_keys t ns) \<subseteq> set (job_runs s'))"
    proof (cases a)
      case (Inl e)
      then show ?thesis using run a h by (auto simp: bind_def)
    next
      case (Inr ys)
      then have "(case b of Inl e \<Rightarrow> (Inl e, s2) | Inr zs \<Rightarrow> (Inr (ys @ zs), s2)) = (r, s')" using run a b
        by (auto simp: bind_def ret_def split: sum.splits)
      note e = this
      have h1: "set (job_runs s) \<subseteq> set (job_runs s1)" "distinct (reminder_keys t ys)"
        "set (reminder_keys t ys) \<inter> set (job_runs s) = {}" "set (reminder_keys t ys) \<subseteq> set (job_runs s1)" using h Inr by simp_all
      have t1: "set (job_runs s1) \<subseteq> set (job_runs s2)" using t by simp
      show ?thesis
      proof (cases b)
        case (Inl e')
        then show ?thesis using e h1(1) t1 by auto
      next
        case (Inr zs)
        then have t2: "distinct (reminder_keys t zs)" "set (reminder_keys t zs) \<inter> set (job_runs s1) = {}"
          "set (reminder_keys t zs) \<subseteq> set (job_runs s2)" using t by simp_all
        have "s' = s2" "r = Inr (ys @ zs)" using e Inr by simp_all
        moreover have "set (reminder_keys t ys) \<inter> set (reminder_keys t zs) = {}" using h1(4) t2(2) by blast
        moreover have "set (reminder_keys t zs) \<inter> set (job_runs s) = {}" using h1(1) t2(2) by blast
        ultimately show ?thesis using h1 t1 t2 by (simp add: Int_Un_distrib2) blast
      qed
    qed
  qed
qed (simp add: claims_ret)

lemma claims_claim:
  "claims t (bind (or_else False (claim_job t ''dunning'' (dunning_key i d))) (\<lambda>ok. ret (if ok then [Reminder i d] else [])))"
  unfolding claims_def
proof (intro allI impI)
  fix s r s' assume run: "bind (or_else False (claim_job t ''dunning'' (dunning_key i d))) (\<lambda>ok. ret (if ok then [Reminder i d] else [])) s = (r, s')"
  obtain y s1 where y: "claim_job t ''dunning'' (dunning_key i d) s = (y, s1)" by fastforce
  then have "s' = s1" "r = Inr (if y = Inr True then [Reminder i d] else [])" using run
    by (auto simp: or_else_def bind_def attempt_def ret_def split: sum.splits)
  then show "set (job_runs s) \<subseteq> set (job_runs s') \<and> (\<forall>ns. r = Inr ns \<longrightarrow> distinct (reminder_keys t ns)
      \<and> set (reminder_keys t ns) \<inter> set (job_runs s) = {} \<and> set (reminder_keys t ns) \<subseteq> set (job_runs s'))"
    using claim_job_cases [OF y] by auto
qed

lemma claims_remind: "claims t (remind t now offsets row)"
proof (cases row)
  case (Pair i phone)
  have r: "reads (case inv_subscription i of None \<Rightarrow> ret False | Some sid \<Rightarrow> or_else False (is_free_subscription t sid))"
    by (rule readsI) (intro keeps_intros)
  have "claims t (let days = dunning_days now (inv_due i) in
       if free \<or> \<not> list_ex (\<lambda>t. days = t) offsets then ret []
       else bind (or_else False (claim_job t ''dunning'' (dunning_key (inv_id i) days))) (\<lambda>ok.
         ret (if ok then [Reminder (inv_id i) days] else [])))" for free
    unfolding Let_def using claims_claim claims_ret by simp
  then show ?thesis using claims_reads [OF r] by (simp add: remind_def Pair claims_ret)
qed

lemma claims_dunning: "claims t (process_dunning w t cfg)"
proof -
  have r: "reads (now_of w t)" by (rule readsI) (intro keeps_intros)
  have q: "reads (or_else [] (list_dunning_invoices (w_today w) t))" by (rule readsI) (intro keeps_intros)
  show ?thesis unfolding process_dunning_def Let_def
    by (intro claims_reads [OF r] claims_if claims_reads [OF q] claims_gather claims_remind claims_ret) simp
qed

text \<open>Dunning runs, each after any other change to the tables that forgets no claim.\<close>

definition reminders_of :: "gid \<Rightarrow> err + notice list \<Rightarrow> (gid \<times> gid \<times> int) list" where
  "reminders_of t r = (case r of Inl _ \<Rightarrow> [] | Inr ns \<Rightarrow> concat (map (\<lambda>n. case n of Reminder i d \<Rightarrow> [(t, i, d)] | _ \<Rightarrow> []) ns))"

fun reminded :: "((db \<Rightarrow> db) \<times> gid \<times> world \<times> job_settings) list \<Rightarrow> db \<Rightarrow> (gid \<times> gid \<times> int) list" where
  "reminded [] s = []"
| "reminded ((g, t, w, cfg) # runs) s =
     (case process_dunning w t cfg (g s) of (r, s1) \<Rightarrow> reminders_of t r @ reminded runs s1)"

definition key_of :: "gid \<times> gid \<times> int \<Rightarrow> gid \<times> string \<times> string" where
  "key_of = (\<lambda>(t, i, d). (t, ''dunning'', dunning_key i d))"

lemma keys_of_reminders: "map key_of (reminders_of t (Inr ns)) = reminder_keys t ns"
  by (induction ns) (auto simp: reminders_of_def reminder_keys_def reminder_key_def key_of_def split: notice.split)

lemma reminded_keys:
  assumes "\<forall>run\<in>set runs. \<forall>s. set (job_runs s) \<subseteq> set (job_runs (fst run s))"
  shows "distinct (map key_of (reminded runs s)) \<and> key_of ` set (reminded runs s) \<inter> set (job_runs s) = {}"
  using assms
proof (induction runs arbitrary: s)
  case (Cons run runs)
  obtain g t w cfg where run: "run = (g, t, w, cfg)" by (cases run) auto
  obtain r s1 where r: "process_dunning w t cfg (g s) = (r, s1)" by fastforce
  have g: "set (job_runs s) \<subseteq> set (job_runs (g s))" using Cons.prems run by auto
  note c = claims_dunning [of t w cfg, unfolded claims_def, rule_format, OF r]
  have ih: "distinct (map key_of (reminded runs s1))" "key_of ` set (reminded runs s1) \<inter> set (job_runs s1) = {}"
    using Cons.IH [of s1] Cons.prems by simp_all
  have here: "distinct (map key_of (reminders_of t r)) \<and> key_of ` set (reminders_of t r) \<inter> set (job_runs (g s)) = {}
      \<and> key_of ` set (reminders_of t r) \<subseteq> set (job_runs s1)"
  proof (cases r)
    case (Inl e)
    then show ?thesis by (simp add: reminders_of_def)
  next
    case (Inr ns)
    then show ?thesis using c unfolding Inr image_set keys_of_reminders by simp
  qed
  have e: "reminded (run # runs) s = reminders_of t r @ reminded runs s1" by (simp add: run r)
  let ?A = "key_of ` set (reminders_of t r)" and ?B = "key_of ` set (reminded runs s1)"
  have "?A \<inter> ?B = {}" "?A \<inter> set (job_runs s) = {}" using here ih(2) g by blast+
  moreover have "?B \<inter> set (job_runs s) = {}" using ih(2) g c by blast
  ultimately show ?case using here ih(1) by (simp add: e image_Un Int_Un_distrib2)
qed simp

section \<open>Keys are unique\<close>

lemma id_bytes_length: "length (id_bytes k n) = k"
  by (induction k arbitrary: n) simp_all

lemma id_bytes_inject: "a < 256 ^ k \<Longrightarrow> b < 256 ^ k \<Longrightarrow> id_bytes k a = id_bytes k b \<Longrightarrow> a = b"
proof (induction k arbitrary: a b)
  case (Suc k)
  have "a div 256 < 256 ^ k" "b div 256 < 256 ^ k" using Suc.prems(1,2) by (simp_all add: less_mult_imp_div_less mult.commute)
  then have "a div 256 = b div 256" using Suc by simp
  moreover have "a mod 256 = b mod 256" using Suc.prems(3) by simp
  ultimately show ?case by (metis div_mult_mod_eq)
qed simp

lemma split_inject: "a @ d # x = b @ d # y \<Longrightarrow> d \<notin> set a \<Longrightarrow> d \<notin> set b \<Longrightarrow> a = b \<and> x = y"
proof (induction a arbitrary: b)
  case Nil
  then show ?case by (cases b) auto
next
  case (Cons c a)
  then show ?case by (cases b) auto
qed

lemma join_inject:
  assumes "length ws = length vs" and "\<forall>w\<in>set ws. d \<notin> set w" and "\<forall>v\<in>set vs. d \<notin> set v"
    and "join_with [d] ws = join_with [d] vs"
  shows "ws = vs"
  using assms
proof (induction ws vs rule: list_induct2)
  case (Cons w ws v vs)
  show ?case
  proof (cases ws)
    case Nil
    then show ?thesis using Cons.hyps Cons.prems by simp
  next
    case (Cons w' ws')
    then obtain v' vs' where vs: "vs = v' # vs'" using \<open>length ws = length vs\<close> by (cases vs) auto
    have "w @ d # join_with [d] ws = v @ d # join_with [d] vs" using Cons.prems(3) Cons vs by simp
    then have "w = v \<and> join_with [d] ws = join_with [d] vs" by (rule split_inject) (use Cons.prems(1,2) in simp_all)
    then show ?thesis using Cons.IH Cons.prems(1,2) by simp
  qed
qed simp

lemma digits_free: "c \<in> set (nat_digits n) \<Longrightarrow> c \<noteq> CHR '' '' \<and> c \<noteq> CHR ''-'' \<and> c \<noteq> CHR '']'' \<and> c \<noteq> CHR ''[''"
proof -
  have "\<not> is_digit (CHR '' '')" "\<not> is_digit (CHR ''-'')" "\<not> is_digit (CHR '']'')" "\<not> is_digit (CHR ''['')" by code_simp+
  then show "c \<in> set (nat_digits n) \<Longrightarrow> c \<noteq> CHR '' '' \<and> c \<noteq> CHR ''-'' \<and> c \<noteq> CHR '']'' \<and> c \<noteq> CHR ''[''"
    using nat_digits_is_digit by blast
qed

lemma id_decimal_inject: "a < 256 ^ 16 \<Longrightarrow> b < 256 ^ 16 \<Longrightarrow> id_decimal a = id_decimal b \<Longrightarrow> a = b"
proof -
  assume r: "a < 256 ^ 16" "b < 256 ^ 16" and e: "id_decimal a = id_decimal b"
  have "join_with '' '' (map nat_digits (id_bytes 16 a)) = join_with '' '' (map nat_digits (id_bytes 16 b))"
    using e by (simp add: id_decimal_def)
  then have "map nat_digits (id_bytes 16 a) = map nat_digits (id_bytes 16 b)"
    by (rule join_inject [rotated 3]) (auto simp: id_bytes_length dest: digits_free)
  moreover have "inj nat_digits" by (rule injI) simp
  ultimately have "id_bytes 16 a = id_bytes 16 b" by (metis inj_map_eq_map)
  then show "a = b" using id_bytes_inject [OF r] by simp
qed

lemma format_int_inject: "format_int a = format_int b \<Longrightarrow> a = b"
proof -
  assume e: "format_int a = format_int b"
  have h: "nat_digits n \<noteq> CHR ''-'' # s" "CHR ''-'' # s \<noteq> nat_digits n" for n s
    using digits_free [of "CHR ''-''" n] by (metis list.set_intros(1))+
  show "a = b" using e h by (cases "a < 0"; cases "b < 0") (simp_all add: format_int_def)
qed

lemma dunning_key_inject:
  assumes "a < 256 ^ 16" "b < 256 ^ 16" and "dunning_key a d = dunning_key b e"
  shows "a = b \<and> d = e"
proof -
  have free: "CHR '']'' \<notin> set (join_with '' '' (map nat_digits (id_bytes 16 n)))" for n
    by (auto dest!: join_with_chars dest: digits_free)
  let ?j = "\<lambda>n. join_with '' '' (map nat_digits (id_bytes 16 n))"
  have "?j a @ CHR '']'' # (''-day-'' @ format_int d) = ?j b @ CHR '']'' # (''-day-'' @ format_int e)"
    using assms(3) by (simp add: dunning_key_def id_decimal_def)
  then have "?j a = ?j b \<and> ''-day-'' @ format_int d = ''-day-'' @ format_int e" by (rule split_inject) (rule free)+
  then show ?thesis using id_decimal_inject [OF assms(1,2)] format_int_inject by (simp add: id_decimal_def)
qed

section \<open>Days\<close>

lemma go_div_whole: "0 < b \<Longrightarrow> go_div (a * b) b = a"
proof -
  assume b: "0 < b"
  then have "\<bar>a * b\<bar> div \<bar>b\<bar> = \<bar>a\<bar>" "sgn (a * b) * sgn b = sgn a" by (simp_all add: abs_mult sgn_mult)
  then show ?thesis unfolding go_div_def by (simp add: sgn_mult_abs)
qed

lemma dunning_days_value:
  assumes "valid_time now"
  shows "dunning_days now due = day_of now - due"
proof -
  obtain y m d where e: "date_of_day due = (y, m, d)" by (metis prod_cases3)
  note v = date_of_day_valid [OF e]
  have i: "instant (go_date y' m' d' 0 z) = day_number y' m' d' * day_ns - z * second" if "valid_date y' m' d'" for y' m' d' z
    using that by (simp add: instant_go_date valid_date_def div_pos_pos_trivial day_number_def)
  have n: "valid_date (t_year now) (t_month now) (t_day now)" using assms by (simp add: valid_time_def)
  have "time_sub (go_date (t_year now) (t_month now) (t_day now) 0 (t_zone now)) (go_date y m d 0 (t_zone now))
      = (day_of now - due) * day_ns"
    by (simp add: time_sub_def i [OF n] i [OF v(1)] v(2) day_of_def algebra_simps)
  then show ?thesis unfolding dunning_days_def e by (simp only: prod.case go_div_whole)
qed

lemma now_of_valid: "now_of w t s = (Inr now, s') \<Longrightarrow> \<exists>tz. now = at_zone (w_offset w tz (w_now w)) (w_now w)"
  unfolding now_of_def tenant_now_def by (elim bind_Inr) (auto simp: ret_Inr)

section \<open>The worker's memory\<close>

lemma tenant_jobs_worker:
  assumes "run_tenant_jobs w dv draw t cfg force k s = (Inr (k', ns), s')"
  shows "k' = k \<or> (repair_due k t (w_now w) \<and> k' = remember_repair t (w_now w) k)"
  using assms unfolding run_tenant_jobs_def Let_def by (elim bind_Inr) (auto simp: ret_Inr split: if_splits)

lemma job_settings_clean: "or_else default_job_settings (get_job_schedule_settings t) s = (Inr cfg, s') \<Longrightarrow> 60 \<le> js_cycle cfg \<and> js_cycle cfg \<le> 3600"
proof -
  have d: "60 \<le> js_cycle default_job_settings \<and> js_cycle default_job_settings \<le> 3600" by (simp add: default_job_settings_def)
  have n: "60 \<le> js_cycle (normalize_job_settings c) \<and> js_cycle (normalize_job_settings c) \<le> 3600" for c
    using job_norm.norm_clean [of c] by (simp add: job_clean_def)
  have g: "60 \<le> js_cycle c \<and> js_cycle c \<le> 3600" if "get_job_schedule_settings t s = (Inr c, s')" for c s'
    using that unfolding get_job_schedule_settings_def or_default_row_def
    by (elim bind_Inr) (auto simp: ret_Inr d n split: sum.splits if_splits)
  show "or_else default_job_settings (get_job_schedule_settings t) s = (Inr cfg, s') \<Longrightarrow> 60 \<le> js_cycle cfg \<and> js_cycle cfg \<le> 3600"
    using d g by (auto simp: or_else_def bind_def attempt_def ret_def split: prod.splits sum.splits)
qed

lemma turn_cases:
  assumes "tenant_turn w dv draw (t, True) k s = (Inr (k', ns), s')"
  obtains (idle) u interval where "k' = k" "ns = []" "same_tables s s'" "map_of (wk_cycles k) t = Some u" "minute \<le> interval"
      "interval \<le> hour_ns" "w_now w < u + interval"
  | (ran) "\<forall>u. map_of (wk_cycles k) t = Some u \<longrightarrow> u + minute \<le> w_now w" "wk_cycles k' = AList.update t (w_now w) (wk_cycles k)"
      "wk_repairs k' = wk_repairs k \<or> (repair_due k t (w_now w) \<and> wk_repairs k' = AList.update t (w_now w) (wk_repairs k))"
proof -
  let ?get = "or_else default_job_settings (get_job_schedule_settings t)"
  obtain y s1 where y: "?get s = (y, s1)" by fastforce
  have "answers ?get" by (intro answers_intros)
  then obtain cfg where cfg: "y = Inr cfg" using y unfolding answers_def by (metis Pair_inject)
  have "reads ?get" by (rule readsI) (intro keeps_intros)
  then have s1: "same_tables s s1" using y unfolding reads_def by (metis snd_conv)
  have range: "60 \<le> js_cycle cfg" "js_cycle cfg \<le> 3600" using job_settings_clean y cfg by blast+
  let ?i = "js_cycle cfg * second"
  have i: "minute \<le> ?i" "?i \<le> hour_ns" using range by simp_all
  have run: "(if \<not> tenant_cycle_due k t ?i (w_now w) then ret (k, [])
      else run_tenant_jobs w dv draw t cfg False (remember_tenant_cycle t (w_now w) k)) s1 = (Inr (k', ns), s')"
    using assms y cfg i(1) by (simp add: tenant_turn_def bind_def Let_def)
  show thesis
  proof (cases "tenant_cycle_due k t ?i (w_now w)")
    case False
    then obtain u where "map_of (wk_cycles k) t = Some u" "w_now w < u + ?i"
      using i(1) by (auto simp: tenant_cycle_due_def Let_def split: option.splits if_splits)
    moreover have "k' = k" "ns = []" "same_tables s s'" using run False s1 by (auto simp: ret_def)
    ultimately show thesis using idle i by blast
  next
    case True
    then have "\<forall>u. map_of (wk_cycles k) t = Some u \<longrightarrow> u + ?i \<le> w_now w" using i(1)
      by (auto simp: tenant_cycle_due_def Let_def split: if_splits)
    then have "\<forall>u. map_of (wk_cycles k) t = Some u \<longrightarrow> u + minute \<le> w_now w" using i(1) by auto
    moreover have "k' = remember_tenant_cycle t (w_now w) k \<or> (repair_due k t (w_now w)
        \<and> k' = remember_repair t (w_now w) (remember_tenant_cycle t (w_now w) k))"
      using tenant_jobs_worker [of w dv draw t cfg False "remember_tenant_cycle t (w_now w) k" s1 k' ns s'] run True
      by (auto simp: repair_due_def remember_tenant_cycle_def)
    ultimately show thesis by (intro ran) (auto simp: remember_tenant_cycle_def remember_repair_def)
  qed
qed

section \<open>One invoice on a calm day\<close>

definition freed :: "gid \<Rightarrow> invoice \<Rightarrow> db \<Rightarrow> bool" where
  "freed t i s \<longleftrightarrow> (case inv_subscription i of None \<Rightarrow> False
     | Some sid \<Rightarrow> fst (or_else False (is_free_subscription t sid) s) = Inr True)"

lemma calm_free: "calm s \<Longrightarrow> or_else False (is_free_subscription t sid) s = (Inr (fst (or_else False (is_free_subscription t sid) s) = Inr True), s)"
  by (simp add: or_else_def is_free_subscription_def bind_def attempt_def calm_simps raise_def ret_def split: option.splits)

lemma freed_runs: "calm s \<Longrightarrow> freed t i (s\<lparr>job_runs := js\<rparr>) = freed t i s"
  by (simp add: freed_def or_else_def is_free_subscription_def bind_def attempt_def calm_simps calm_claims raise_def ret_def
      is_free_def active_offer_price_def split: option.splits)

lemma calm_remind:
  assumes "calm s"
  shows "remind t now offsets (i, phone) s =
    (if trim_space phone \<noteq> [] \<and> \<not> freed t i s \<and> dunning_days now (inv_due i) \<in> set offsets
        \<and> (t, ''dunning'', dunning_key (inv_id i) (dunning_days now (inv_due i))) \<notin> set (job_runs s)
     then (Inr [Reminder (inv_id i) (dunning_days now (inv_due i))],
           s\<lparr>job_runs := job_runs s @ [(t, ''dunning'', dunning_key (inv_id i) (dunning_days now (inv_due i)))]\<rparr>)
     else (Inr [], s))"
proof -
  let ?m = "case inv_subscription i of None \<Rightarrow> ret False | Some sid \<Rightarrow> or_else False (is_free_subscription t sid)"
  have "?m s = (Inr (freed t i s), s)"
    using calm_free [OF assms] by (cases "inv_subscription i") (simp_all add: freed_def ret_def)
  then have f: "bind ?m f s = f (freed t i s) s" for f :: "bool \<Rightarrow> (db, notice list) prog" by (rule calm_bind [where m = ?m])
  have l: "list_ex (\<lambda>t. d = t) offsets \<longleftrightarrow> d \<in> set offsets" for d by (auto simp: list_ex_iff)
  have c: "bind (or_else False (claim_job t job key)) (\<lambda>ok. ret (if ok then ns else [])) s =
      (if (t, job, key) \<in> set (job_runs s) then (Inr [], s) else (Inr ns, s\<lparr>job_runs := job_runs s @ [(t, job, key)]\<rparr>))"
    for job key and ns :: "notice list"
    by (simp add: or_else_def bind_def attempt_def calm_claim_job [OF assms] ret_def)
  show ?thesis
    by (simp add: remind_def f l Let_def c) (simp add: ret_def)
qed

definition wanted :: "gid \<Rightarrow> gtime \<Rightarrow> int list \<Rightarrow> db \<Rightarrow> invoice \<times> string \<Rightarrow> bool" where
  "wanted t now offsets s row \<longleftrightarrow> trim_space (snd row) \<noteq> [] \<and> \<not> freed t (fst row) s \<and> dunning_days now (inv_due (fst row)) \<in> set offsets"

lemma calm_gather_remind:
  assumes "calm s"
  shows "\<exists>ns js. gather (remind t now offsets) rows s = (Inr ns, s\<lparr>job_runs := js\<rparr>) \<and>
    (\<forall>row\<in>set rows. wanted t now offsets s row \<longrightarrow>
      (t, ''dunning'', dunning_key (inv_id (fst row)) (dunning_days now (inv_due (fst row)))) \<in> set (job_runs s) \<union> set (reminder_keys t ns))"
  using assms
proof (induction rows arbitrary: s)
  case Nil
  then show ?case by (intro exI [of _ "[]"] exI [of _ "job_runs s"]) (simp add: ret_def)
next
  case (Cons row rows)
  obtain i phone where row: "row = (i, phone)" by fastforce
  let ?k = "(t, ''dunning'', dunning_key (inv_id i) (dunning_days now (inv_due i)))"
  let ?go = "wanted t now offsets s row \<and> ?k \<notin> set (job_runs s)"
  define ys where "ys = (if ?go then [Reminder (inv_id i) (dunning_days now (inv_due i))] else [])"
  define js1 where "js1 = (if ?go then job_runs s @ [?k] else job_runs s)"
  have one: "remind t now offsets row s = (Inr ys, s\<lparr>job_runs := js1\<rparr>)"
    unfolding row calm_remind [OF Cons.prems] by (simp add: ys_def js1_def wanted_def row)
  have js1: "set js1 \<subseteq> set (job_runs s) \<union> set (reminder_keys t ys)"
    and here: "wanted t now offsets s row \<Longrightarrow> ?k \<in> set (job_runs s) \<union> set (reminder_keys t ys)"
    by (simp_all add: js1_def ys_def)
  have w: "wanted t now offsets (s\<lparr>job_runs := js1\<rparr>) r = wanted t now offsets s r" for r
    by (simp add: wanted_def freed_runs Cons.prems)
  obtain zs js2 where rest: "gather (remind t now offsets) rows (s\<lparr>job_runs := js1\<rparr>) = (Inr zs, s\<lparr>job_runs := js2\<rparr>)"
      and all: "\<forall>r\<in>set rows. wanted t now offsets s r \<longrightarrow>
        (t, ''dunning'', dunning_key (inv_id (fst r)) (dunning_days now (inv_due (fst r)))) \<in> set js1 \<union> set (reminder_keys t zs)"
    using Cons.IH [of "s\<lparr>job_runs := js1\<rparr>"] calm_claims [OF Cons.prems] by (auto simp: w)
  have "gather (remind t now offsets) (row # rows) s = (Inr (ys @ zs), s\<lparr>job_runs := js2\<rparr>)"
    using one rest by (simp add: bind_def ret_def)
  moreover have "\<forall>r\<in>set (row # rows). wanted t now offsets s r \<longrightarrow>
        (t, ''dunning'', dunning_key (inv_id (fst r)) (dunning_days now (inv_due (fst r)))) \<in> set (job_runs s) \<union> set (reminder_keys t (ys @ zs))"
    using here all js1 by (auto simp: row)
  ultimately show ?case by blast
qed

lemma reminder_of_key:
  assumes "(t, ''dunning'', dunning_key i d) \<in> set (reminder_keys t ns)" and "i < 256 ^ 16" and "\<forall>j e. Reminder j e \<in> set ns \<longrightarrow> j < 256 ^ 16"
  shows "Reminder i d \<in> set ns"
proof -
  obtain j e where "Reminder j e \<in> set ns" "dunning_key i d = dunning_key j e"
    using assms(1) by (auto simp: reminder_keys_def reminder_key_def split: notice.splits)
  then show ?thesis using dunning_key_inject [of i j d e] assms(2,3) by auto
qed

text \<open>What is reminded of is a row of the query.\<close>

lemma gather_remind_rows:
  "gather (remind t now offsets) rows s = (Inr ns, s') \<Longrightarrow> n \<in> set ns \<Longrightarrow>
     \<exists>row\<in>set rows. n = Reminder (inv_id (fst row)) (dunning_days now (inv_due (fst row))) \<and> dunning_days now (inv_due (fst row)) \<in> set offsets"
proof (induction rows arbitrary: s ns)
  case (Cons row rows)
  obtain ys s1 where one: "remind t now offsets row s = (Inr ys, s1)" and zs: "\<exists>zs. gather (remind t now offsets) rows s1 = (Inr zs, s') \<and> ns = ys @ zs"
    using Cons.prems(1) by (auto simp: ret_Inr elim!: bind_Inr)
  have "\<forall>n\<in>set ys. n = Reminder (inv_id (fst row)) (dunning_days now (inv_due (fst row))) \<and> dunning_days now (inv_due (fst row)) \<in> set offsets"
    using one by (auto simp: remind_def Let_def ret_Inr list_ex_iff split: prod.splits if_splits elim!: bind_Inr)
  then show ?case using zs Cons.IH Cons.prems(2) by fastforce
qed (simp add: ret_Inr)

section \<open>The whole service\<close>

lemma site_ok_runs: "site_ok (s\<lparr>job_runs := js\<rparr>) = site_ok s"
  by (simp add: site_ok_def intents_ok_def money_ok_def paid_ok_def keys_ok_def solvent_def wallets_ok_def wallets_off_def funded_def
      books_ok_def books_off_def own_account_def has_entry_def)

interpretation service: worker_frame site_ok
  by unfold_locales (rule site_ok_runs)

text \<open>Beside the steps of \<open>site_step\<close>, the cycles of the worker, its runs on demand, and the suspensions and
  resumptions an operator orders.\<close>

inductive service_step :: "db \<Rightarrow> db \<Rightarrow> bool" where
  online: "site_step s s' \<Longrightarrow> service_step s s'"
| cycle: "service_step s (snd (run_cycle w dv draw ts k s))"
| on_demand: "service_step s (snd (run_tenant_now w dv draw t row force k s))"
| by_hand: "service_step s (snd (isolir_subscription w dv t sid s))"
| by_customer: "service_step s (snd (apply_customer_status w dv t c status s))"

inductive_cases service_stepE: "service_step s s'"

lemma service_step_ok: "service_step s s' \<Longrightarrow> site_ok s \<Longrightarrow> site_ok s'"
proof (induction rule: service_step.induct)
  case (online s s')
  then show ?case by (rule site_step_ok)
qed (blast intro: keepsD service.keeps_cycle service.keeps_run_now site.keeps_isolir_subscription site.keeps_apply_status)+

lemma service_reachable: "service_step\<^sup>*\<^sup>* empty_db s \<Longrightarrow> site_ok s"
proof (induction rule: rtranclp_induct)
  case base
  then show ?case by (intro site_reachable) simp
qed (rule service_step_ok)

section \<open>Examples\<close>

text \<open>A customer with a phone, and an invoice due three days from now.\<close>

definition reminder_db :: db where
  "reminder_db = sample_subs_db\<lparr>customers := [sample_customer\<lparr>cust_phone := ''0812''\<rparr>],
     invoices := map (\<lambda>i. i\<lparr>inv_subscription := Some 40, inv_due := 20639\<rparr>) (invoices sample_db)\<rparr>"

definition sample_devices :: devices where
  "sample_devices = \<lparr>dv_resume = \<lambda>_. True, dv_suspend = \<lambda>_. None, dv_secrets = [], dv_profile = []\<rparr>"

section \<open>Properties\<close>

text \<open>C7: A reminder is given at most once for each tenant, invoice and day, over all dunning runs there will ever be,
  whatever fails and whatever else changes the tables between the runs.\<close>

theorem reminded_once:
  assumes "\<forall>run\<in>set runs. \<forall>s. set (job_runs s) \<subseteq> set (job_runs (fst run s))"
  shows "distinct (reminded runs s) \<and> (\<forall>(t, i, d)\<in>set (reminded runs s). (t, ''dunning'', dunning_key i d) \<notin> set (job_runs s))"
proof -
  note k = reminded_keys [OF assms, of s]
  have "distinct (reminded runs s)" using k by (simp add: distinct_map)
  moreover have "(t, ''dunning'', dunning_key i d) \<notin> set (job_runs s)" if "(t, i, d) \<in> set (reminded runs s)" for t i d
    using k that imageI [of "(t, i, d)" "set (reminded runs s)" key_of] by (auto simp: key_of_def)
  ultimately show ?thesis by blast
qed

lemma reminded_once_witness:
  "reminded [(id, 1, sample_world, default_job_settings), (id, 1, sample_world, default_job_settings)] reminder_db = [(1, 1, -3)]
   \<and> distinct (reminded [(id, 1, sample_world, default_job_settings), (id, 1, sample_world, default_job_settings)] reminder_db)"
proof -
  have "reminded [(id, 1, sample_world, default_job_settings), (id, 1, sample_world, default_job_settings)] reminder_db = [(1, 1, -3)]"
    by code_simp
  then show ?thesis
    using reminded_once [of "[(id, 1, sample_world, default_job_settings), (id, 1, sample_world, default_job_settings)]" reminder_db] by simp
qed

text \<open>C14: Without failures, every invoice the query returns, of a customer with a phone and of a subscription that is not
  free, is reminded of on a day of the schedule once the hour has come, unless it was before; ids being
  128 bits wide, no other invoice can have taken its claim.\<close>

theorem due_reminder_sent:
  assumes c: "calm s" and late: "past_notify_time (now_value w t s) (normalize_notify_time (js_dunning_time cfg) ''08:00'')"
    and i: "i \<in> set (invoices s)" "dunning_due (w_today w) t s i" "\<not> freed t i s"
    and phone: "\<exists>cu. first_row (\<lambda>cu. cust_id cu = inv_customer i) (customers s) = Some cu \<and> trim_space (cust_phone cu) \<noteq> []"
    and day: "dunning_days (now_value w t s) (inv_due i) \<in> set (js_offsets cfg)"
    and new: "(t, ''dunning'', dunning_key (inv_id i) (dunning_days (now_value w t s) (inv_due i))) \<notin> set (job_runs s)"
    and ids: "\<forall>j\<in>set (invoices s). inv_id j < 256 ^ 16"
  shows "\<exists>ns js. process_dunning w t cfg s = (Inr ns, s\<lparr>job_runs := js\<rparr>) \<and> Reminder (inv_id i) (dunning_days (now_value w t s) (inv_due i)) \<in> set ns"
proof -
  let ?now = "now_value w t s" and ?os = "js_offsets cfg"
  define rows where "rows = map (\<lambda>i. (i, case first_row (\<lambda>cu. cust_id cu = inv_customer i) (customers s) of None \<Rightarrow> [] | Some cu \<Rightarrow> cust_phone cu))
       (filter (dunning_due (w_today w) t s) (invoices s))"
  have "or_else [] (list_dunning_invoices (w_today w) t) s = (Inr rows, s)"
    by (simp add: or_else_def list_dunning_invoices_def bind_def attempt_def calm_simps c ret_def rows_def)
  moreover have "?os \<noteq> []" using day by auto
  ultimately have e: "process_dunning w t cfg s = gather (remind t ?now ?os) rows s"
    using late by (simp add: process_dunning_def bind_def calm_now_value [OF c])
  obtain ns js where g: "gather (remind t ?now ?os) rows s = (Inr ns, s\<lparr>job_runs := js\<rparr>)"
    and all: "\<forall>row\<in>set rows. wanted t ?now ?os s row \<longrightarrow>
      (t, ''dunning'', dunning_key (inv_id (fst row)) (dunning_days ?now (inv_due (fst row)))) \<in> set (job_runs s) \<union> set (reminder_keys t ns)"
    using calm_gather_remind [OF c, of t ?now ?os rows] by blast
  obtain cu where cu: "first_row (\<lambda>cu. cust_id cu = inv_customer i) (customers s) = Some cu" "trim_space (cust_phone cu) \<noteq> []"
    using phone by blast
  have "(i, cust_phone cu) \<in> set rows" using i cu by (auto simp: rows_def image_iff)
  moreover have "wanted t ?now ?os s (i, cust_phone cu)" using i cu day by (simp add: wanted_def)
  ultimately have "(t, ''dunning'', dunning_key (inv_id i) (dunning_days ?now (inv_due i))) \<in> set (reminder_keys t ns)"
    using all new by fastforce
  moreover have "j < 256 ^ 16" if "Reminder j d \<in> set ns" for j d
    using gather_remind_rows [OF g that] ids by (auto simp: rows_def)
  ultimately have "Reminder (inv_id i) (dunning_days ?now (inv_due i)) \<in> set ns"
    using reminder_of_key i(1) ids by blast
  then show ?thesis using e g by auto
qed

lemma due_reminder_sent_witness:
  "\<exists>ns js. process_dunning sample_world 1 default_job_settings reminder_db = (Inr ns, reminder_db\<lparr>job_runs := js\<rparr>) \<and> Reminder 1 (-3) \<in> set ns"
proof -
  let ?i = "hd (invoices reminder_db)"
  have n: "dunning_days (now_value sample_world 1 reminder_db) (inv_due ?i) = -3 \<and> inv_id ?i = 1" by code_simp
  have a: "calm reminder_db" "past_notify_time (now_value sample_world 1 reminder_db) (normalize_notify_time (js_dunning_time default_job_settings) ''08:00'')"
    "?i \<in> set (invoices reminder_db)" "dunning_due (w_today sample_world) 1 reminder_db ?i" "\<not> freed 1 ?i reminder_db"
    "dunning_days (now_value sample_world 1 reminder_db) (inv_due ?i) \<in> set (js_offsets default_job_settings)"
    by code_simp+
  have "(case first_row (\<lambda>cu. cust_id cu = inv_customer ?i) (customers reminder_db) of None \<Rightarrow> [] | Some cu \<Rightarrow> trim_space (cust_phone cu)) \<noteq> []"
    by code_simp
  then have p: "\<exists>cu. first_row (\<lambda>cu. cust_id cu = inv_customer ?i) (customers reminder_db) = Some cu \<and> trim_space (cust_phone cu) \<noteq> []"
    by (auto split: option.splits)
  have j: "job_runs reminder_db = []" "map inv_id (invoices reminder_db) = [1]" by code_simp+
  have k: "(1, ''dunning'', dunning_key (inv_id ?i) (dunning_days (now_value sample_world 1 reminder_db) (inv_due ?i))) \<notin> set (job_runs reminder_db)"
    using j(1) by simp
  have "inv_id j = 1" if "j \<in> set (invoices reminder_db)" for j using j(2) that by (metis imageI list.set_map singletonD empty_set list.simps(15))
  then have "\<forall>j\<in>set (invoices reminder_db). inv_id j < 256 ^ 16" by simp
  from due_reminder_sent [OF a(1-5) p a(6) k this] show ?thesis by (simp only: n)
qed

text \<open>Under any failures, a reminder is for a day of the schedule, and lies between seven days before and three days
  after the due date when the tenant's clock shows the date of the database: the query returns no other invoice.
  The settings accept offsets of up to thirty days either way; those outside the window are never served.\<close>

theorem reminders_in_window:
  assumes run: "process_dunning w t cfg s = (Inr ns, s')" and n: "Reminder i d \<in> set ns"
    and date: "\<forall>tz. day_of (at_zone (w_offset w tz (w_now w)) (w_now w)) = w_today w"
  shows "-7 \<le> d \<and> d \<le> 3 \<and> d \<in> set (if js_offsets cfg = [] then js_offsets default_job_settings else js_offsets cfg)"
proof -
  let ?os = "if js_offsets cfg = [] then js_offsets default_job_settings else js_offsets cfg"
  obtain now s1 where now: "now_of w t s = (Inr now, s1)"
    using answers_now_of [of w t] unfolding answers_def by blast
  obtain tz where tz: "now = at_zone (w_offset w tz (w_now w)) (w_now w)" using now_of_valid [OF now] by blast
  obtain rows s2 where rows: "or_else [] (list_dunning_invoices (w_today w) t) s1 = (Inr rows, s2)"
    using answers_or_else(1) [of "[]" "list_dunning_invoices (w_today w) t"] unfolding answers_def by blast
  have "past_notify_time now (normalize_notify_time (js_dunning_time cfg) ''08:00'')" and
    g: "gather (remind t now ?os) rows s2 = (Inr ns, s')"
    using run n now rows by (auto simp: process_dunning_def Let_def bind_def ret_def split: if_splits)
  then obtain row where row: "row \<in> set rows" "d = dunning_days now (inv_due (fst row))" "d \<in> set ?os"
    using gather_remind_rows [OF g n] by auto
  have "\<forall>r\<in>set rows. w_today w - 3 \<le> inv_due (fst r) \<and> inv_due (fst r) \<le> w_today w + 7"
    using rows by (auto simp: or_else_def list_dunning_invoices_def bind_def attempt_def ret_def auto_def query_def round_trip_def Let_def
        dunning_due_def split: sum.splits if_splits prod.splits)
  moreover have "d = w_today w - inv_due (fst row)"
    using row(2) date dunning_days_value [OF at_zone_valid(1)] by (simp add: tz)
  ultimately show ?thesis using row(1,3) by auto
qed

lemma reminders_in_window_witness:
  "process_dunning sample_world 1 default_job_settings reminder_db
     = (Inr [Reminder 1 (-3)], reminder_db\<lparr>job_runs := [(1, ''dunning'', dunning_key 1 (-3))]\<rparr>) \<and> -7 \<le> (-3 :: int) \<and> (-3 :: int) \<le> 3
   \<and> fst (process_dunning sample_world 1 (default_job_settings\<lparr>js_offsets := [-14]\<rparr>) (reminder_db\<lparr>invoices := map (\<lambda>i. i\<lparr>inv_due := 20650\<rparr>) (invoices reminder_db)\<rparr>)) = Inr []"
proof -
  have r: "fst (process_dunning sample_world 1 default_job_settings reminder_db) = Inr [Reminder 1 (-3)]"
     "fst (process_dunning sample_world 1 (default_job_settings\<lparr>js_offsets := [-14]\<rparr>) (reminder_db\<lparr>invoices := map (\<lambda>i. i\<lparr>inv_due := 20650\<rparr>) (invoices reminder_db)\<rparr>)) = Inr []"
    by code_simp+
  have "\<forall>tz. day_of (at_zone (w_offset sample_world tz (w_now sample_world)) (w_now sample_world)) = w_today sample_world"
    by (simp add: sample_world_def) code_simp
  then have "-7 \<le> (-3 :: int) \<and> (-3 :: int) \<le> 3"
    using reminders_in_window [of sample_world 1 default_job_settings reminder_db "[Reminder 1 (-3)]" _ 1 "-3"] r(1) by (metis fst_conv list.set_intros(1) surj_pair)
  moreover have "snd (process_dunning sample_world 1 default_job_settings reminder_db) = reminder_db\<lparr>job_runs := [(1, ''dunning'', dunning_key 1 (-3))]\<rparr>"
    by code_simp
  ultimately show ?thesis using r by (auto simp: prod_eq_iff)
qed



lemma turn_answers: "\<exists>k' ns s'. tenant_turn w dv draw row k s = (Inr (k', ns), s')"
proof -
  have "answers (tenant_turn w dv draw row k)" unfolding tenant_turn_def Let_def by (intro answers_intros)
  then show ?thesis unfolding answers_def by (metis surj_pair)
qed

definition recent :: "world \<Rightarrow> worker \<Rightarrow> gid \<Rightarrow> bool" where
  "recent w k t \<longleftrightarrow> (\<exists>u. map_of (wk_cycles k) t = Some u \<and> w_now w < u + hour_ns)"

lemma turn_recent:
  assumes "tenant_turn w dv draw (t, active) k s = (Inr (k', ns), s')"
  shows "(active \<longrightarrow> recent w k' t) \<and> (recent w k x \<longrightarrow> recent w k' x)"
proof (cases active)
  case False
  then show ?thesis using assms by (simp add: tenant_turn_def ret_def)
next
  case True
  then have "tenant_turn w dv draw (t, True) k s = (Inr (k', ns), s')" using assms by simp
  then show ?thesis
  proof (cases rule: turn_cases)
    case (idle u interval)
    then show ?thesis by (auto simp: recent_def)
  next
    case ran
    then show ?thesis by (auto simp: recent_def update_conv')
  qed
qed

lemma cycle_recent:
  "\<exists>k' ns s'. run_cycle w dv draw ts k s = (Inr (k', ns), s') \<and> (\<forall>t. ((t, True) \<in> set ts \<or> recent w k t) \<longrightarrow> recent w k' t)"
proof (induction ts arbitrary: k s)
  case Nil
  then show ?case by (simp add: ret_def)
next
  case (Cons row ts)
  obtain t active where row: "row = (t, active)" by fastforce
  obtain k1 ns s1 where one: "tenant_turn w dv draw row k s = (Inr (k1, ns), s1)" using turn_answers by blast
  obtain k2 ms s2 where two: "run_cycle w dv draw ts k1 s1 = (Inr (k2, ms), s2)"
      "\<And>x. (x, True) \<in> set ts \<or> recent w k1 x \<Longrightarrow> recent w k2 x" using Cons [of k1 s1] by blast
  have "run_cycle w dv draw (row # ts) k s = (Inr (k2, ns @ ms), s2)" using one two(1) by (simp add: bind_def ret_def)
  moreover have "recent w k2 x" if "(x, True) \<in> set (row # ts) \<or> recent w k x" for x
    using that two(2) [of x] turn_recent [OF one [unfolded row], of x] row by auto
  ultimately show ?case by blast
qed





end
