(* ===== verification/Isolation_Facts.thy ===== *)
theory Isolation_Facts
  imports Worker_Facts
begin

text \<open>
  Who is cut off and who is reconnected.  Without failures the isolir part of a worker cycle changes each
  subscription by the function \<open>settle_row\<close>.  Two ways around it: a suspension by hand of a subscription that owes nothing past due
  is undone by the next cycle, and the hourly repair, when the list of debtors could not be read, reconnects them.
\<close>

section \<open>Rows and their joins\<close>

definition joins :: "db \<Rightarrow> subscription \<Rightarrow> bool" where
  "joins s x \<longleftrightarrow> first_row (\<lambda>c. cust_id c = sub_customer x) (customers s) \<noteq> None \<and> first_row (\<lambda>p. plan_id p = sub_plan x) (plans s) \<noteq> None"

definition free_of :: "db \<Rightarrow> subscription \<Rightarrow> bool" where
  "free_of s x = (case (first_row (\<lambda>c. cust_id c = sub_customer x) (customers s), first_row (\<lambda>p. plan_id p = sub_plan x) (plans s)) of
     (Some c, Some p) \<Rightarrow> is_free s x c p | _ \<Rightarrow> False)"

definition can_resume :: "devices \<Rightarrow> gid \<Rightarrow> db \<Rightarrow> subscription \<Rightarrow> bool" where
  "can_resume dv t s x \<longleftrightarrow> sub_router x \<noteq> None \<and> joins s x \<and> first_row (is_plan t (sub_plan x)) (plans s) \<noteq> None \<and> dv_resume dv (sub_id x)"

definition restored :: "subscription \<Rightarrow> subscription" where
  "restored x = x\<lparr>sub_status := ''active'', sub_suspended := None\<rparr>"

definition unique_subs :: "subscription list \<Rightarrow> bool" where
  "unique_subs xs \<longleftrightarrow> distinct (map sub_id xs)"

abbreviation (input) on_subs :: "db \<Rightarrow> subscription list \<Rightarrow> db" where
  "on_subs s xs \<equiv> s\<lparr>subscriptions := xs\<rparr>"

lemma calm_subs [simp]: "calm (on_subs s xs) = calm s"
  by (simp add: calm_def)

lemma of_subs [simp]:
  "joins (on_subs s xs) = joins s" "free_of (on_subs s xs) = free_of s" "can_resume dv t (on_subs s xs) = can_resume dv t s"
  "isolating w g (on_subs s xs) = isolating w g s" "grace_of w t (on_subs s xs) = grace_of w t s"
  by (simp_all add: joins_def free_of_def can_resume_def isolating_def is_free_def active_offer_price_def settings_of_def fun_eq_iff split: option.split)

lemma row_kept [simp]:
  "sub_id (restored x) = sub_id x" "sub_tenant (restored x) = sub_tenant x"
  "sub_id (with_status now st x) = sub_id x" "sub_tenant (with_status now st x) = sub_tenant x"
  by (simp_all add: restored_def with_status_def)

lemma status_kept [simp]:
  "joins s (with_status n st x) = joins s x" "free_of s (with_status n st x) = free_of s x"
  "isolating w g s (with_status n st x) = isolating w g s x"
  "joins s (restored x) = joins s x" "free_of s (restored x) = free_of s x" "can_resume dv t s (restored x) = can_resume dv t s x"
  "isolating w g s (restored x) = isolating w g s x" "restored (restored x) = restored x"
  by (simp_all add: joins_def free_of_def can_resume_def isolating_def is_free_def active_offer_price_def with_status_def restored_def
      split: option.split)

lemma plain_kept [simp]: "sub_id (plain_row x) = sub_id x" "sub_tenant (plain_row x) = sub_tenant x" "free_of s (plain_row x) = free_of s x"
  by (simp_all add: plain_row_def free_of_def is_free_def active_offer_price_def split: option.split)

lemma only_row:
  assumes "unique_subs xs" "x \<in> set xs"
  shows "filter (is_subscription (sub_tenant x) (sub_id x)) xs = [x]"
  using assms by (induction xs) (auto simp: unique_subs_def is_subscription_def filter_empty_conv image_iff)

lemma only_first: "unique_subs xs \<Longrightarrow> x \<in> set xs \<Longrightarrow> sub_tenant x = t \<Longrightarrow> first_row (is_subscription t (sub_id x)) xs = Some x"
proof -
  assume "unique_subs xs" "x \<in> set xs" "sub_tenant x = t"
  then have "filter (is_subscription t (sub_id x)) xs = [x]" using only_row by blast
  moreover have "find p ys = Some y" if "filter p ys = [y]" for p and ys :: "subscription list" and y
    using that by (induction ys) (auto split: if_splits)
  ultimately show ?thesis by (simp add: first_row_def)
qed

lemma calm_get_subscription:
  assumes "calm s" "unique_subs (subscriptions s)" "x \<in> set (subscriptions s)" "sub_tenant x = t"
  shows "if joins s x then \<exists>v. get_subscription t (sub_id x) s = (Inr v, s) \<and> sv_row v = x
    else get_subscription t (sub_id x) s = (Inl Not_found, s)"
proof -
  have "filter (is_subscription t (sub_id x)) (subscriptions s) = [x]" using only_row assms by blast
  then have r: "sub_rows (is_subscription t (sub_id x)) (\<lambda>_ _. True) s = sub_rows_of s x" by (simp add: sub_rows_def)
  show ?thesis
    using assms(1)
    by (auto simp: get_subscription_def bind_def calm_simps r joins_def sub_rows_of_def raise_def ret_def sub_row_def Let_def without_free_def
        split: option.splits list.splits)
qed

lemma calm_is_free:
  assumes "calm s" "unique_subs (subscriptions s)" "x \<in> set (subscriptions s)" "sub_tenant x = t"
  shows "or_else False (is_free_subscription t (sub_id x)) s = (Inr (free_of s x), s)"
  using assms only_first [OF assms(2-4)]
  by (simp add: or_else_def is_free_subscription_def bind_def attempt_def calm_simps free_of_def raise_def ret_def split: option.split)

lemma calm_get_plan: "calm s \<Longrightarrow> get_plan t pid s = (case first_row (is_plan t pid) (plans s) of None \<Rightarrow> Inl Not_found | Some p \<Rightarrow> Inr p, s)"
  by (simp add: get_plan_def bind_def calm_simps raise_def ret_def split: option.split)

lemma calm_update: "calm s \<Longrightarrow> update_subscription_status now t sid st s
    = (Inr (), on_subs s (update_rows (is_subscription t sid) (with_status now st) (subscriptions s)))"
  by (simp add: update_subscription_status_def bind_def calm_simps auto_def exec_def update_subs_def calm_round_trip ret_def)

lemma calm_clear: "calm s \<Longrightarrow> clear_subscription_suspended_at t sid s
    = (Inr (), on_subs s (update_rows (is_subscription t sid) (\<lambda>x. x\<lparr>sub_suspended := None\<rparr>) (subscriptions s)))"
  by (simp add: clear_subscription_suspended_at_def bind_def calm_simps auto_def exec_def update_subs_def calm_round_trip ret_def)

section \<open>Touching rows\<close>

definition touch :: "gid \<Rightarrow> gid set \<Rightarrow> (subscription \<Rightarrow> bool) \<Rightarrow> (subscription \<Rightarrow> subscription) \<Rightarrow> subscription list \<Rightarrow> subscription list" where
  "touch t ids C g xs = map (\<lambda>y. if sub_tenant y = t \<and> sub_id y \<in> ids \<and> C y then g y else y) xs"

lemma touch_ids: "(\<And>y. sub_id (g y) = sub_id y) \<Longrightarrow> map sub_id (touch t ids C g xs) = map sub_id xs"
  by (induction xs) (auto simp: touch_def)

lemma touch_none [simp]: "touch t {} C g xs = xs"
  by (simp add: touch_def map_idI)

lemma touch_touch:
  "(\<And>y. sub_id (g y) = sub_id y) \<Longrightarrow> (\<And>y. sub_tenant (g y) = sub_tenant y) \<Longrightarrow> i \<notin> J \<Longrightarrow>
   touch t J C g (touch t {i} C g xs) = touch t (insert i J) C g xs"
  by (auto simp: touch_def)

lemma touch_filter:
  assumes "unique_subs xs"
  shows "touch t (sub_id ` {y\<in>set xs. A y}) C g xs = map (\<lambda>y. if sub_tenant y = t \<and> A y \<and> C y then g y else y) xs"
  unfolding touch_def
proof (rule map_cong [OF refl])
  fix y assume "y \<in> set xs"
  moreover have "inj_on sub_id (set xs)" using assms by (simp add: unique_subs_def distinct_map)
  ultimately have "sub_id y \<in> sub_id ` {y\<in>set xs. A y} \<longleftrightarrow> A y" by (auto dest: inj_onD)
  then show "(if sub_tenant y = t \<and> sub_id y \<in> sub_id ` {y\<in>set xs. A y} \<and> C y then g y else y) = (if sub_tenant y = t \<and> A y \<and> C y then g y else y)"
    by simp
qed

text \<open>A program that touches one row, run over several.\<close>

definition row_program :: "gid \<Rightarrow> db \<Rightarrow> (gid \<Rightarrow> (db, 'a) prog) \<Rightarrow> (subscription \<Rightarrow> bool) \<Rightarrow> (subscription \<Rightarrow> subscription) \<Rightarrow> bool" where
  "row_program t s f C g \<longleftrightarrow> (\<forall>y. sub_id (g y) = sub_id y \<and> sub_tenant (g y) = sub_tenant y)
     \<and> (\<forall>xs x. unique_subs xs \<longrightarrow> x \<in> set xs \<longrightarrow> sub_tenant x = t \<longrightarrow>
          (\<exists>r. f (sub_id x) (on_subs s xs) = (Inr r, on_subs s (touch t {sub_id x} C g xs))))"

definition known_ids :: "gid \<Rightarrow> subscription list \<Rightarrow> gid list \<Rightarrow> bool" where
  "known_ids t xs ids \<longleftrightarrow> unique_subs xs \<and> distinct ids \<and> (\<forall>i\<in>set ids. \<exists>x\<in>set xs. sub_id x = i \<and> sub_tenant x = t)"

lemma known_step:
  assumes "row_program t s f C g" "known_ids t xs (i # ids)"
  obtains r where "f i (on_subs s xs) = (Inr r, on_subs s (touch t {i} C g xs))" "known_ids t (touch t {i} C g xs) ids"
    "touch t (set ids) C g (touch t {i} C g xs) = touch t (set (i # ids)) C g xs"
proof -
  obtain x where x: "x \<in> set xs" "sub_id x = i" "sub_tenant x = t" using assms(2) by (auto simp: known_ids_def)
  have g: "sub_id (g y) = sub_id y" "sub_tenant (g y) = sub_tenant y" for y using assms(1) by (simp_all add: row_program_def)
  obtain r where r: "f i (on_subs s xs) = (Inr r, on_subs s (touch t {i} C g xs))"
    using assms x unfolding row_program_def known_ids_def by blast
  have "\<exists>y\<in>set (touch t {i} C g xs). sub_id y = j \<and> sub_tenant y = t" if "j \<in> set ids" for j
  proof -
    have "\<exists>y\<in>set xs. sub_id y = j \<and> sub_tenant y = t" using assms(2) that by (simp add: known_ids_def)
    then obtain y where "y \<in> set xs" "sub_id y = j" "sub_tenant y = t" by blast
    let ?h = "\<lambda>y. if sub_tenant y = t \<and> sub_id y \<in> {i} \<and> C y then g y else y"
    have "?h y \<in> set (touch t {i} C g xs)" using \<open>y \<in> set xs\<close> unfolding touch_def set_map by (rule imageI)
    moreover have "sub_id (?h y) = j" "sub_tenant (?h y) = t" using \<open>sub_id y = j\<close> \<open>sub_tenant y = t\<close> g by simp_all
    ultimately show ?thesis by blast
  qed
  then have "known_ids t (touch t {i} C g xs) ids" using assms(2) touch_ids [of g, OF g(1)] by (simp add: known_ids_def unique_subs_def)
  then show thesis using that r touch_touch [of g i "set ids" t C xs] g assms(2) by (simp add: known_ids_def)
qed

lemma gather_rows:
  assumes "row_program t s f C g" "known_ids t xs ids"
  shows "\<exists>ys. gather f ids (on_subs s xs) = (Inr ys, on_subs s (touch t (set ids) C g xs))"
  using assms(2)
proof (induction ids arbitrary: xs)
  case (Cons i ids)
  obtain r where r: "f i (on_subs s xs) = (Inr r, on_subs s (touch t {i} C g xs))" and k: "known_ids t (touch t {i} C g xs) ids"
    and e: "touch t (set ids) C g (touch t {i} C g xs) = touch t (set (i # ids)) C g xs"
    using known_step [OF assms(1) Cons.prems] by metis
  show ?case using Cons.IH [OF k] r unfolding e by (auto simp: bind_def ret_def)
qed (simp add: ret_def)

lemma collect_rows:
  assumes "row_program t s f C g" "known_ids t xs ids"
  shows "\<exists>ys. collect f ids (on_subs s xs) = (Inr ys, on_subs s (touch t (set ids) C g xs)) \<and> set ys \<subseteq> {y. \<exists>i\<in>set ids. \<exists>s s'. f i s = (Inr (Some y), s')}"
  using assms(2)
proof (induction ids arbitrary: xs)
  case (Cons i ids)
  obtain r where r: "f i (on_subs s xs) = (Inr r, on_subs s (touch t {i} C g xs))" and k: "known_ids t (touch t {i} C g xs) ids"
    and e: "touch t (set ids) C g (touch t {i} C g xs) = touch t (set (i # ids)) C g xs"
    using known_step [OF assms(1) Cons.prems] by metis
  obtain ys where ys: "collect f ids (on_subs s (touch t {i} C g xs)) = (Inr ys, on_subs s (touch t (set (i # ids)) C g xs))"
      "set ys \<subseteq> {y. \<exists>i\<in>set ids. \<exists>s s'. f i s = (Inr (Some y), s')}" using Cons.IH [OF k] unfolding e by blast
  have "collect f (i # ids) (on_subs s xs) = (Inr (case r of None \<Rightarrow> ys | Some z \<Rightarrow> z # ys), on_subs s (touch t (set (i # ids)) C g xs))"
    using r ys(1) by (simp add: bind_def or_else_def attempt_def ret_def)
  moreover have "set (case r of None \<Rightarrow> ys | Some z \<Rightarrow> z # ys) \<subseteq> {y. \<exists>i\<in>set (i # ids). \<exists>s s'. f i s = (Inr (Some y), s')}"
    using ys(2) r by (auto split: option.splits)
  ultimately show ?case by blast
qed (simp add: ret_def)

section \<open>The steps of the worker\<close>

lemma touch_row: "touch t {i} C g xs = update_rows (is_subscription t i) (\<lambda>y. if C y then g y else y) xs"
  by (auto simp: touch_def update_rows_def is_subscription_def)

lemma touch_update:
  assumes "unique_subs xs" "x \<in> set xs" "sub_tenant x = t"
  shows "touch t {sub_id x} C g xs = (if C x then update_rows (is_subscription t (sub_id x)) g xs else xs)"
proof -
  have same: "y = x" if "y \<in> set xs" "is_subscription t (sub_id x) y" for y
    using assms(1,2) that by (auto simp: unique_subs_def distinct_map is_subscription_def dest: inj_onD)
  have "(if is_subscription t (sub_id x) y then if C y then g y else y else y)
      = (if C x then if is_subscription t (sub_id x) y then g y else y else y)" if "y \<in> set xs" for y
    using same [OF that] by auto
  then show ?thesis unfolding touch_row update_rows_def by (simp cong: map_cong)
qed

lemma update_twice:
  assumes "\<And>y. is_subscription t i y \<Longrightarrow> is_subscription t i (f y)"
  shows "update_rows (is_subscription t i) g (update_rows (is_subscription t i) f xs) = update_rows (is_subscription t i) (g \<circ> f) xs"
  using assms by (simp add: update_rows_def)

lemma resume_program:
  assumes c: "calm s"
  shows "row_program t s (worker_resume w dv t) (can_resume dv t s) restored"
  unfolding row_program_def
proof (intro conjI allI impI)
  fix xs x assume u: "unique_subs xs" and x: "x \<in> set xs" and t: "sub_tenant x = t"
  let ?s = "on_subs s xs" and ?is = "is_subscription t (sub_id x)"
  note get = calm_get_subscription [of ?s x t, simplified, OF c u x t]
  have up: "update_rows ?is (\<lambda>x. x\<lparr>sub_suspended := None\<rparr>) (update_rows ?is (with_status (w_now w) ''active'') xs) = update_rows ?is restored xs"
    by (subst update_twice) (simp_all add: is_subscription_def restored_def [abs_def] with_status_def comp_def)
  have one: "update_rows ?is (\<lambda>x. x\<lparr>sub_suspended := None\<rparr>) xs = update_rows ?is restored xs" if "sub_status x = ''active''"
  proof -
    have "y\<lparr>sub_suspended := None\<rparr> = restored y" if "y \<in> set xs" "?is y" for y
    proof -
      have "y = x" using u x that by (auto simp: unique_subs_def distinct_map is_subscription_def dest: inj_onD)
      then show ?thesis using \<open>sub_status x = ''active''\<close> by (simp add: restored_def)
    qed
    then show ?thesis by (auto simp: update_rows_def)
  qed
  show "\<exists>r. worker_resume w dv t (sub_id x) ?s = (Inr r, on_subs s (touch t {sub_id x} (can_resume dv t s) restored xs))"
  proof (cases "joins s x")
    case False
    then show ?thesis using get touch_update [OF u x t, of "can_resume dv t s" restored]
      by (simp add: worker_resume_def quietly_def bind_def attempt_def ret_def can_resume_def)
  next
    case True
    then obtain v where v: "get_subscription t (sub_id x) ?s = (Inr v, ?s)" "sv_row v = x" using get by auto
    have cs: "calm ?s" "calm (on_subs s ys)" for ys using c by simp_all
    show ?thesis
      using True touch_update [OF u x t, of "can_resume dv t s" restored] up one
      by (auto simp: worker_resume_def quietly_def bind_def attempt_def ret_def can_resume_def v calm_get_plan [OF cs(1)]
          calm_update [OF cs(1)] calm_clear [OF cs(2)] split: option.split)
  qed
qed simp_all

lemma suspend_program:
  assumes c: "calm s"
  shows "row_program t s (suspend_subscription w t) (\<lambda>y. joins s y \<and> sub_status y \<noteq> ''suspended'') (with_status (w_now w) ''suspended'')"
  unfolding row_program_def
proof (intro conjI allI impI)
  fix xs x assume u: "unique_subs xs" and x: "x \<in> set xs" and t: "sub_tenant x = t"
  let ?s = "on_subs s xs"
  note get = calm_get_subscription [of ?s x t, simplified, OF c u x t]
  note e = touch_update [OF u x t, of "\<lambda>y. joins s y \<and> sub_status y \<noteq> ''suspended''" "with_status (w_now w) ''suspended''"]
  show "\<exists>r. suspend_subscription w t (sub_id x) ?s = (Inr r, on_subs s (touch t {sub_id x}
      (\<lambda>y. joins s y \<and> sub_status y \<noteq> ''suspended'') (with_status (w_now w) ''suspended'') xs))"
  proof (cases "joins s x")
    case False
    then show ?thesis using get e by (simp add: suspend_subscription_def or_else_def bind_def attempt_def ret_def)
  next
    case True
    then obtain v where v: "get_subscription t (sub_id x) ?s = (Inr v, ?s)" "sv_row v = x" using get by auto
    have cs: "calm ?s" using c by simp
    have cust: "\<exists>r. get_customer t k s' = (r, s')" if "calm s'" for k s'
      using that by (auto simp: get_customer_def find_customer_def bind_def calm_simps raise_def ret_def comp_def split: option.split)
    obtain r where r: "get_customer t (sub_customer x) (on_subs s (update_rows (is_subscription t (sub_id x)) (with_status (w_now w) ''suspended'') xs))
        = (r, on_subs s (update_rows (is_subscription t (sub_id x)) (with_status (w_now w) ''suspended'') xs))" using cust c by fastforce
    show ?thesis using True e r
      by (simp add: suspend_subscription_def or_else_def bind_def attempt_def ret_def v calm_update [OF cs])
  qed
qed simp_all

lemma resume_unless_free_program:
  assumes c: "calm s"
  shows "row_program t s (\<lambda>sid. bind (or_else False (is_free_subscription t sid)) (\<lambda>free.
       if free then ret None else bind (worker_resume w dv t sid) (\<lambda>_. ret (Some sid)))) (\<lambda>y. \<not> free_of s y \<and> can_resume dv t s y) restored"
  unfolding row_program_def
proof (intro conjI allI impI)
  fix xs x assume u: "unique_subs xs" and x: "x \<in> set xs" and t: "sub_tenant x = t"
  obtain r where r: "worker_resume w dv t (sub_id x) (on_subs s xs) = (Inr r, on_subs s (touch t {sub_id x} (can_resume dv t s) restored xs))"
    using resume_program [OF c, of t w dv] u x t unfolding row_program_def by blast
  show "\<exists>r. bind (or_else False (is_free_subscription t (sub_id x))) (\<lambda>free.
       if free then ret None else bind (worker_resume w dv t (sub_id x)) (\<lambda>_. ret (Some (sub_id x)))) (on_subs s xs)
     = (Inr r, on_subs s (touch t {sub_id x} (\<lambda>y. \<not> free_of s y \<and> can_resume dv t s y) restored xs))"
    using r calm_is_free [of "on_subs s xs" x t] c u x t
    by (simp add: bind_def ret_def touch_update [OF u x t])
qed simp_all

section \<open>A whole isolir run\<close>

definition owing :: "world \<Rightarrow> gid \<Rightarrow> db \<Rightarrow> subscription \<Rightarrow> bool" where
  "owing w t s x \<longleftrightarrow> sub_tenant x = t \<and> live_status (sub_status x) \<and> isolating w (grace_of w t s) s x"

definition held :: "world \<Rightarrow> gid \<Rightarrow> db \<Rightarrow> subscription \<Rightarrow> bool" where
  "held w t s x \<longleftrightarrow> sub_tenant x = t \<and> sub_router x \<noteq> None \<and> live_status (sub_status x) \<and> sub_suspended x \<noteq> None
     \<and> \<not> isolating w (grace_of w t s) s x"

text \<open>What a run should make of a subscription: a debtor is suspended, a suspended one that owes nothing is active again when its
  router takes the order; what is free is left alone.\<close>

definition settle_row :: "world \<Rightarrow> devices \<Rightarrow> gid \<Rightarrow> db \<Rightarrow> subscription \<Rightarrow> subscription" where
  "settle_row w dv t s x =
     (if free_of s x then x
      else if owing w t s x then (if joins s x \<and> sub_status x \<noteq> ''suspended'' then with_status (w_now w) ''suspended'' x else x)
      else if held w t s x \<and> can_resume dv t s x then restored x
      else x)"

lemma of_subs_settle [simp]: "owing w t (on_subs s xs) = owing w t s" "held w t (on_subs s xs) = held w t s"
  by (simp_all add: owing_def held_def fun_eq_iff)

lemma owing_not_held: "owing w t s y \<Longrightarrow> \<not> held w t s y \<and> \<not> held w t s (with_status n st y)"
  by (simp add: owing_def held_def)

lemma collect_pure:
  "(\<And>x. x \<in> set xs \<Longrightarrow> f x s = (Inr (h x), s)) \<Longrightarrow> collect f xs s = (Inr (List.map_filter h xs), s)"
  by (induction xs) (auto simp: ret_def bind_def or_else_def attempt_def List.map_filter_def split: option.split)

lemma calm_overdue_ids:
  assumes c: "calm s" and u: "unique_subs (subscriptions s)"
  shows "or_else [] (process_overdue_suspensions w t) s
     = (Inr (map sub_id (filter (\<lambda>x. owing w t s x \<and> \<not> free_of s x) (subscriptions s))), s)"
proof -
  let ?o = "filter (owing w t s) (subscriptions s)"
  let ?f = "\<lambda>x. bind (or_else False (is_free_subscription t (sub_id x))) (\<lambda>free. ret (if free then None else Some (sub_id x)))"
  have l: "list_overdue_subscriptions w t s = (Inr (map plain_row ?o), s)"
    by (simp add: calm_overdue [OF c] owing_def [abs_def])
  have f: "?f (plain_row x) s = (Inr (if free_of s x then None else Some (sub_id x)), s)" if "x \<in> set ?o" for x
    using calm_is_free [OF c u, of x t] that by (simp add: bind_def ret_def owing_def)
  have "collect ?f (map plain_row ?o) s = (Inr (List.map_filter (\<lambda>x. if free_of s x then None else Some (sub_id x)) (map plain_row ?o)), s)"
  proof (rule collect_pure)
    fix y assume "y \<in> set (map plain_row ?o)"
    then obtain x where "x \<in> set ?o" "y = plain_row x" by auto
    then show "?f y s = (Inr (if free_of s y then None else Some (sub_id y)), s)" using f [of x] by (simp only: plain_kept)
  qed
  moreover have "List.map_filter (\<lambda>x. if free_of s x then None else Some (sub_id x)) (map plain_row ys)
      = map sub_id (filter (\<lambda>x. \<not> free_of s x) ys)" for ys
    by (induction ys) (auto simp: List.map_filter_def)
  moreover have "filter (\<lambda>x. \<not> free_of s x) ?o = filter (\<lambda>x. owing w t s x \<and> \<not> free_of s x) (subscriptions s)"
    by (simp add: conj_commute)
  ultimately show ?thesis by (simp add: process_overdue_suspensions_def or_else_def bind_def attempt_def ret_def l)
qed

lemma filter_ids_known: "unique_subs xs \<Longrightarrow> (\<And>x. A x \<Longrightarrow> sub_tenant x = t) \<Longrightarrow> known_ids t xs (map sub_id (filter A xs))"
  by (auto simp: known_ids_def unique_subs_def distinct_map_filter)

lemma touch_listed:
  assumes "unique_subs xs" "\<And>x. A x \<Longrightarrow> sub_tenant x = t"
  shows "touch t (set (map sub_id (filter A xs))) C g xs = map (\<lambda>y. if A y \<and> C y then g y else y) xs"
proof -
  have "set (map sub_id (filter A xs)) = sub_id ` {y \<in> set xs. A y}" by auto
  then show ?thesis using touch_filter [OF assms(1), of t A C g] assms(2) by (auto intro!: map_cong)
qed

lemma isolir_phases:
  fixes w t
  assumes c: "calm s" and u: "unique_subs (subscriptions s)"
  defines "xs1 \<equiv> map (\<lambda>y. if owing w t s y \<and> \<not> free_of s y \<and> joins s y \<and> sub_status y \<noteq> ''suspended''
      then with_status (w_now w) ''suspended'' y else y) (subscriptions s)"
  shows "\<exists>told. gather (suspend_subscription w t) (map sub_id (filter (\<lambda>x. owing w t s x \<and> \<not> free_of s x) (subscriptions s))) s = (Inr told, on_subs s xs1)"
    and "unique_subs xs1"
proof -
  let ?A = "\<lambda>x. owing w t s x \<and> \<not> free_of s x"
  have A: "?A x \<Longrightarrow> sub_tenant x = t" for x by (simp add: owing_def)
  have k: "known_ids t (subscriptions s) (map sub_id (filter ?A (subscriptions s)))" by (rule filter_ids_known [OF u]) (rule A)
  have e: "touch t (set (map sub_id (filter ?A (subscriptions s)))) (\<lambda>y. joins s y \<and> sub_status y \<noteq> ''suspended'') (with_status (w_now w) ''suspended'') (subscriptions s) = xs1"
    using touch_listed [OF u, of ?A t] A unfolding xs1_def by (auto intro!: map_cong)
  show "\<exists>told. gather (suspend_subscription w t) (map sub_id (filter ?A (subscriptions s))) s = (Inr told, on_subs s xs1)"
    using gather_rows [OF suspend_program [OF c, of t w] k] e by simp
  have "map sub_id xs1 = map sub_id (subscriptions s)" by (simp add: xs1_def)
  then show "unique_subs xs1" using u by (simp add: unique_subs_def)
qed

lemma resume_phase:
  assumes c: "calm s" and u: "unique_subs (subscriptions s)"
  shows "\<exists>tried. resume_paid_subscriptions w dv t s = (Inr tried, on_subs s (map (\<lambda>y. if held w t s y \<and> \<not> free_of s y \<and> can_resume dv t s y
      then restored y else y) (subscriptions s))) \<and> set tried \<subseteq> sub_id ` {y\<in>set (subscriptions s). held w t s y}"
proof -
  let ?ids = "map sub_id (filter (held w t s) (subscriptions s))"
  let ?f = "\<lambda>sid. bind (or_else False (is_free_subscription t sid)) (\<lambda>free.
       if free then ret None else bind (worker_resume w dv t sid) (\<lambda>_. ret (Some sid)))"
  have l: "or_else [] (list_subscriptions_needing_resume w t) s = (Inr ?ids, s)"
    by (simp add: or_else_def bind_def attempt_def ret_def calm_needing_resume [OF c] held_def [abs_def])
  have k: "known_ids t (subscriptions s) ?ids" by (rule filter_ids_known [OF u]) (simp add: held_def)
  obtain ys where ys: "collect ?f ?ids (on_subs s (subscriptions s)) = (Inr ys, on_subs s (touch t (set ?ids) (\<lambda>y. \<not> free_of s y \<and> can_resume dv t s y) restored (subscriptions s)))"
      "set ys \<subseteq> {y. \<exists>i\<in>set ?ids. \<exists>s s'. ?f i s = (Inr (Some y), s')}"
    using collect_rows [OF resume_unless_free_program [OF c] k] by blast
  have "y = i" if "?f i a = (Inr (Some y), b)" for y i a b using that by (auto elim!: bind_Inr simp: ret_Inr split: if_splits)
  then have "set ys \<subseteq> set ?ids" using ys(2) by blast
  moreover have "touch t (set ?ids) (\<lambda>y. \<not> free_of s y \<and> can_resume dv t s y) restored (subscriptions s)
      = map (\<lambda>y. if held w t s y \<and> \<not> free_of s y \<and> can_resume dv t s y then restored y else y) (subscriptions s)"
    by (rule touch_listed [OF u]) (simp add: held_def)
  ultimately show ?thesis using ys(1) l by (auto simp: resume_paid_subscriptions_def bind_def)
qed

section \<open>Suspending by hand\<close>

lemma calm_by_hand:
  assumes c: "calm s" and u: "unique_subs (subscriptions s)" and x: "x \<in> set (subscriptions s)" "sub_tenant x = t" "joins s x"
  shows "snd (isolir_subscription w dv t (sub_id x) s)
    = on_subs s (update_rows (is_subscription t (sub_id x)) (with_status (w_now w) ''suspended'') (subscriptions s))"
proof -
  obtain v where v: "get_subscription t (sub_id x) s = (Inr v, s)" "sv_row v = x"
    using calm_get_subscription [OF c u x(1,2)] x(3) by auto
  show ?thesis
    by (auto simp: isolir_subscription_def bind_def attempt_def v calm_update [OF c] calm_get_plan c ret_def raise_def split: option.split)
qed

lemma isolir_jobs_calm:
  assumes c: "calm s" and u: "unique_subs (subscriptions s)"
  shows "\<exists>told. isolir_jobs w dv t False s = (Inr told, on_subs s (map (settle_row w dv t s) (subscriptions s)))"
proof -
  define xs1 where "xs1 = map (\<lambda>y. if owing w t s y \<and> \<not> free_of s y \<and> joins s y \<and> sub_status y \<noteq> ''suspended''
      then with_status (w_now w) ''suspended'' y else y) (subscriptions s)"
  let ?s = "on_subs s xs1"
  have cs: "calm ?s" using c by simp
  obtain told where told: "gather (suspend_subscription w t) (map sub_id (filter (\<lambda>x. owing w t s x \<and> \<not> free_of s x) (subscriptions s))) s = (Inr told, ?s)"
    and u1: "unique_subs (subscriptions ?s)"
    using isolir_phases [OF c u, of w t] by (auto simp: xs1_def)
  obtain tried where tried: "resume_paid_subscriptions w dv t ?s = (Inr tried, on_subs ?s (map (\<lambda>y. if held w t ?s y \<and> \<not> free_of ?s y \<and> can_resume dv t ?s y
      then restored y else y) (subscriptions ?s)))" using resume_phase [OF cs u1, of w dv t] by blast
  have "(\<lambda>y. if held w t ?s y \<and> \<not> free_of ?s y \<and> can_resume dv t ?s y then restored y else y)
      (if owing w t s y \<and> \<not> free_of s y \<and> joins s y \<and> sub_status y \<noteq> ''suspended'' then with_status (w_now w) ''suspended'' y else y)
      = settle_row w dv t s y" for y
    using owing_not_held [of w t s y] by (cases "owing w t s y") (simp_all add: settle_row_def)
  then have "map (\<lambda>y. if held w t ?s y \<and> \<not> free_of ?s y \<and> can_resume dv t ?s y then restored y else y) (subscriptions ?s)
      = map (settle_row w dv t s) (subscriptions s)" by (simp add: xs1_def)
  then have "isolir_jobs w dv t False s = (Inr told, on_subs s (map (settle_row w dv t s) (subscriptions s)))"
    using tried by (simp add: isolir_jobs_def bind_def calm_overdue_ids [OF c u] told ret_def)
  then show ?thesis by blast
qed

section \<open>The repair\<close>

text \<open>A row the repair takes for isolated on its router.\<close>

definition stuck :: "devices \<Rightarrow> gid \<Rightarrow> (string \<times> secret) list \<Rightarrow> db \<Rightarrow> subscription \<Rightarrow> bool" where
  "stuck dv t m s x \<longleftrightarrow> \<not> free_of s x \<and> (case secret_of m x of None \<Rightarrow> False
     | Some sec \<Rightarrow> let plan = first_row (is_plan t (sub_plan x)) (plans s) in
         secret_looks_isolir (sec_profile sec) (sec_comment sec) (isolir_profile_name (dv_profile dv) plan) (plan_router_profile plan))"

lemma repair_rows_calm:
  assumes c: "calm s" and u: "unique_subs xs"
    and rows: "\<forall>r\<in>set rows. \<exists>x\<in>set xs. sub_id x = sub_id r \<and> sub_tenant x = t \<and> free_of s x = free_of s r"
  shows "\<exists>seen' ids. repair_rows w dv t m rows seen (on_subs s xs) = (Inr seen', on_subs s (touch t ids (can_resume dv t s) restored xs))
    \<and> (\<forall>r\<in>set rows. stuck dv t m s r \<longrightarrow> sub_id r \<notin> set seen \<longrightarrow> sub_id r \<in> ids)"
  using u rows
proof (induction rows arbitrary: xs seen)
  case Nil
  then show ?case by (intro exI [of _ seen] exI [of _ "{}"]) (simp add: ret_def)
next
  case (Cons r rows)
  have tt: "touch t J (can_resume dv t s) restored (touch t I (can_resume dv t s) restored xs) = touch t (I \<union> J) (can_resume dv t s) restored xs" for I J
    unfolding touch_def map_map comp_def by (rule map_cong [OF refl]) auto
  obtain x where x: "x \<in> set xs" "sub_id x = sub_id r" "sub_tenant x = t" "free_of s x = free_of s r" using Cons.prems(2) by auto
  have free: "or_else False (is_free_subscription t (sub_id r)) (on_subs s xs) = (Inr (free_of s r), on_subs s xs)"
    using calm_is_free [of "on_subs s xs" x t] c Cons.prems(1) x by simp
  have plan: "or_else None (bind (get_plan t p) (\<lambda>p. ret (Some p))) (on_subs s xs) = (Inr (first_row (is_plan t p) (plans s)), on_subs s xs)" for p
    using c by (simp add: or_else_def bind_def attempt_def ret_def calm_get_plan split: option.split)
  have skip: ?case if e: "repair_rows w dv t m (r # rows) seen (on_subs s xs) = repair_rows w dv t m rows seen (on_subs s xs)"
    and n: "\<not> stuck dv t m s r \<or> sub_id r \<in> set seen"
  proof -
    obtain seen' ids where i: "repair_rows w dv t m rows seen (on_subs s xs) = (Inr seen', on_subs s (touch t ids (can_resume dv t s) restored xs))"
        "\<forall>r\<in>set rows. stuck dv t m s r \<longrightarrow> sub_id r \<notin> set seen \<longrightarrow> sub_id r \<in> ids"
      using Cons.IH [OF Cons.prems(1), of seen] Cons.prems(2) by auto
    show ?thesis using i n unfolding e by auto
  qed
  show ?case
  proof (cases "stuck dv t m s r \<and> sub_id r \<notin> set seen")
    case False
    then show ?thesis
      by (intro skip) (auto simp: bind_def free plan stuck_def Let_def split: option.splits)
  next
    case True
    let ?ys = "touch t {sub_id r} (can_resume dv t s) restored xs"
    obtain q where q: "worker_resume w dv t (sub_id r) (on_subs s xs) = (Inr q, on_subs s ?ys)"
      using resume_program [OF c, of t w dv] Cons.prems(1) x unfolding row_program_def by metis
    have e: "repair_rows w dv t m (r # rows) seen (on_subs s xs) = repair_rows w dv t m rows (sub_id r # seen) (on_subs s ?ys)"
      using True q by (auto simp: bind_def free plan stuck_def Let_def split: option.splits)
    have uy: "unique_subs ?ys" using Cons.prems(1) by (simp add: unique_subs_def touch_ids)
    have ry: "\<forall>r'\<in>set rows. \<exists>x\<in>set ?ys. sub_id x = sub_id r' \<and> sub_tenant x = t \<and> free_of s x = free_of s r'"
    proof
      fix r' assume "r' \<in> set rows"
      then obtain z where z: "z \<in> set xs" "sub_id z = sub_id r'" "sub_tenant z = t" "free_of s z = free_of s r'" using Cons.prems(2) by auto
      let ?h = "\<lambda>y. if sub_tenant y = t \<and> sub_id y \<in> {sub_id r} \<and> can_resume dv t s y then restored y else y"
      have "?h z \<in> set ?ys" using z(1) unfolding touch_def set_map by (rule imageI)
      then show "\<exists>x\<in>set ?ys. sub_id x = sub_id r' \<and> sub_tenant x = t \<and> free_of s x = free_of s r'"
        using z by (intro bexI [of _ "?h z"]) simp_all
    qed
    obtain seen' ids where i: "repair_rows w dv t m rows (sub_id r # seen) (on_subs s ?ys) = (Inr seen', on_subs s (touch t ids (can_resume dv t s) restored ?ys))"
        "\<forall>r'\<in>set rows. stuck dv t m s r' \<longrightarrow> sub_id r' \<notin> set (sub_id r # seen) \<longrightarrow> sub_id r' \<in> ids"
      using Cons.IH [OF uy ry, of "sub_id r # seen"] by blast
    have "repair_rows w dv t m (r # rows) seen (on_subs s xs) = (Inr seen', on_subs s (touch t ({sub_id r} \<union> ids) (can_resume dv t s) restored xs))"
      using i(1) unfolding e tt .
    moreover have "\<forall>r'\<in>set (r # rows). stuck dv t m s r' \<longrightarrow> sub_id r' \<notin> set seen \<longrightarrow> sub_id r' \<in> {sub_id r} \<union> ids" using i(2) by auto
    ultimately show ?thesis by blast
  qed
qed

lemma calm_by_router:
  assumes c: "calm s"
  shows "or_else [] (list_provisionable_by_router t rid) s = (Inr (concat (map (\<lambda>x.
        case (first_row (\<lambda>c. cust_id c = sub_customer x) (customers s), first_row (\<lambda>p. plan_id p = sub_plan x) (plans s)) of
          (Some c, Some p) \<Rightarrow> [(plain_row x, cust_name c, cust_code c, plan_name p)] | _ \<Rightarrow> [])
        (filter (\<lambda>x. sub_tenant x = t \<and> sub_router x = Some rid \<and> live_status (sub_status x)) (subscriptions s)))), s)"
  by (simp add: or_else_def list_provisionable_by_router_def bind_def attempt_def ret_def calm_simps c)

lemma stuck_plain: "stuck dv t m s (plain_row x) = stuck dv t m s x"
  by (simp add: stuck_def) (simp add: plain_row_def secret_of_def Let_def cong: option.case_cong)

text \<open>One router: the rows of live subscriptions the repair finds isolated, and has not seen, are restored.\<close>

lemma repair_calm:
  assumes c: "calm s" and u: "unique_subs (subscriptions s)" and dv: "dv_secrets dv = [(rid, secrets)]"
    and x: "x \<in> set (subscriptions s)" "sub_tenant x = t" "sub_router x = Some rid" "live_status (sub_status x)"
    and r: "can_resume dv t s x" "stuck dv t (by_user secrets) s x" and new: "sub_id x \<notin> set overdue \<union> set tried"
  shows "\<exists>xs. repair_isolir_secrets w dv t overdue tried s = (Inr (), on_subs s xs) \<and> restored x \<in> set xs"
proof -
  obtain rows where rows: "or_else [] (list_provisionable_by_router t rid) s = (Inr rows, s)"
      and sound: "\<forall>q\<in>set rows. \<exists>y\<in>set (subscriptions s). fst q = plain_row y \<and> sub_tenant y = t"
      and here: "plain_row x \<in> fst ` set rows"
  proof (rule that [OF calm_by_router [OF c]])
    show "plain_row x \<in> fst ` set (concat (map (\<lambda>x. case (first_row (\<lambda>c. cust_id c = sub_customer x) (customers s), first_row (\<lambda>p. plan_id p = sub_plan x) (plans s)) of
          (Some c, Some p) \<Rightarrow> [(plain_row x, cust_name c, cust_code c, plan_name p)] | _ \<Rightarrow> [])
        (filter (\<lambda>x. sub_tenant x = t \<and> sub_router x = Some rid \<and> live_status (sub_status x)) (subscriptions s))))"
      using x r(1) by (force simp: can_resume_def joins_def image_iff)
  qed (auto split: option.splits)
  have ok: "\<forall>r\<in>set (map fst rows). \<exists>y\<in>set (subscriptions s). sub_id y = sub_id r \<and> sub_tenant y = t \<and> free_of s y = free_of s r"
  proof
    fix q assume "q \<in> set (map fst rows)"
    then obtain y where "y \<in> set (subscriptions s)" "q = plain_row y" "sub_tenant y = t" using sound by auto
    then show "\<exists>y\<in>set (subscriptions s). sub_id y = sub_id q \<and> sub_tenant y = t \<and> free_of s y = free_of s q" by (intro bexI [of _ y]) simp_all
  qed
  obtain seen' ids where run: "repair_rows w dv t (by_user secrets) (map fst rows) (overdue @ tried) (on_subs s (subscriptions s))
      = (Inr seen', on_subs s (touch t ids (can_resume dv t s) restored (subscriptions s)))"
    and ids: "\<forall>r\<in>set (map fst rows). stuck dv t (by_user secrets) s r \<longrightarrow> sub_id r \<notin> set (overdue @ tried) \<longrightarrow> sub_id r \<in> ids"
    using repair_rows_calm [OF c u ok] by blast
  have "sub_id x \<in> ids" using ids here r(2) new stuck_plain by (metis Un_iff image_set plain_kept(1) set_append)
  then have "restored x \<in> set (touch t ids (can_resume dv t s) restored (subscriptions s))"
    using x r(1) by (force simp: touch_def)
  moreover have "repair_isolir_secrets w dv t overdue tried s = (Inr (), on_subs s (touch t ids (can_resume dv t s) restored (subscriptions s)))"
    using run by (simp add: repair_isolir_secrets_def dv bind_def rows ret_def)
  ultimately show ?thesis by blast
qed

section \<open>Properties\<close>



text \<open>C39: Suspending by hand does not last: the next cycle of the worker makes a subscription active again, whatever it was before,
  when no invoice that isolates is past its days of grace.  \<open>isolirSubscription\<close> is there so that operators need not wait for
  the days of grace.\<close>

theorem manual_isolir_undone:
  assumes c: "calm s" and u: "distinct (map sub_id (subscriptions s))"
    and x: "x \<in> set (subscriptions s)" "sub_tenant x = t" "\<not> isolating w' (grace_of w' t s) s x"
    and r: "can_resume dv t s x" "\<not> free_of s x"
  shows "\<exists>s1 told s2. snd (isolir_subscription w dv t (sub_id x) s) = s1 \<and> with_status (w_now w) ''suspended'' x \<in> set (subscriptions s1)
    \<and> isolir_jobs w' dv t False s1 = (Inr told, s2) \<and> restored (with_status (w_now w) ''suspended'' x) \<in> set (subscriptions s2)"
proof -
  let ?y = "with_status (w_now w) ''suspended'' x"
  define xs where "xs = update_rows (is_subscription t (sub_id x)) (with_status (w_now w) ''suspended'') (subscriptions s)"
  have us: "unique_subs (subscriptions s)" using u by (simp add: unique_subs_def)
  have joined: "joins s x" using r(1) by (simp add: can_resume_def)
  note hand = calm_by_hand [OF c us x(1,2) joined, where dv = dv and w = w, folded xs_def]
  have y: "?y \<in> set xs" unfolding xs_def set_update_rows using x(1,2) by (intro bexI [of _ x]) (simp_all add: is_subscription_def)
  have "map sub_id xs = map sub_id (subscriptions s)" unfolding xs_def by (rule map_update_rows) simp
  then have "unique_subs (subscriptions (on_subs s xs))" using u by (simp add: unique_subs_def)
  moreover have "calm (on_subs s xs)" using c by simp
  ultimately have "\<exists>told. isolir_jobs w' dv t False (on_subs s xs) = (Inr told, on_subs s (map (settle_row w' dv t (on_subs s xs)) xs))"
    using isolir_jobs_calm [of "on_subs s xs" w' dv t] by simp
  then obtain told where told: "isolir_jobs w' dv t False (on_subs s xs) = (Inr told, on_subs s (map (settle_row w' dv t (on_subs s xs)) xs))" ..
  have f: "sub_router ?y = sub_router x" "sub_status ?y = ''suspended''" "sub_plan ?y = sub_plan x" by (simp_all add: with_status_def)
  have m: "sub_suspended ?y \<noteq> None" by (simp add: with_status_def coalesce_def split: option.split)
  have res: "can_resume dv t s ?y" using r(1) by (simp add: can_resume_def f)
  have "sub_router x \<noteq> None" using r(1) by (simp add: can_resume_def)
  then have "held w' t s ?y" unfolding held_def f using x m by (simp add: live_status_def)
  then have "settle_row w' dv t (on_subs s xs) ?y = restored ?y" using r(2) res x(3) by (simp add: settle_row_def owing_def)
  moreover have "settle_row w' dv t (on_subs s xs) ?y \<in> set (map (settle_row w' dv t (on_subs s xs)) xs)" using y unfolding set_map by (rule imageI)
  ultimately have "restored ?y \<in> set (map (settle_row w' dv t (on_subs s xs)) xs)" by (simp only:)
  then show ?thesis using hand y told by auto
qed

lemma manual_isolir_undone_witness:
  "\<exists>s1 told s2. snd (isolir_subscription sample_world sample_devices 1 41 sample_subs_db) = s1
    \<and> isolir_jobs sample_world sample_devices 1 False s1 = (Inr told, s2)
    \<and> restored (with_status (w_now sample_world) ''suspended'' (subscriptions sample_subs_db ! 1)) \<in> set (subscriptions s2)"
proof -
  let ?x = "subscriptions sample_subs_db ! 1"
  have a: "calm sample_subs_db" "distinct (map sub_id (subscriptions sample_subs_db))" "?x \<in> set (subscriptions sample_subs_db)" "sub_tenant ?x = 1"
    "\<not> isolating sample_world (grace_of sample_world 1 sample_subs_db) sample_subs_db ?x" "can_resume sample_devices 1 sample_subs_db ?x"
    "\<not> free_of sample_subs_db ?x" by code_simp+
  have "sub_id ?x = 41" by code_simp
  then show ?thesis using manual_isolir_undone [OF a, of sample_world] by metis
qed

text \<open>C40: When the list of debtors cannot be read, the hourly repair takes everyone it finds isolated on a router for someone to reconnect: a
  suspended subscription with an invoice past its days of grace becomes active, and its next suspension tells the customer
  once more.\<close>

theorem unread_debtors_reconnected:
  assumes c: "calm s" and u: "distinct (map sub_id (subscriptions s))" and dv: "dv_secrets dv = [(rid, secrets)]"
    and x: "x \<in> set (subscriptions s)" "sub_router x = Some rid" "owing w t s x"
    and r: "can_resume dv t s x" "stuck dv t (by_user secrets) s x"
  shows "\<exists>told s'. isolir_jobs w dv t True (s\<lparr>faults := [True]\<rparr>) = (Inr told, s') \<and> restored x \<in> set (subscriptions s')"
proof -
  have us: "unique_subs (subscriptions s)" using u by (simp add: unique_subs_def)
  have "s\<lparr>faults := [], aborted := False\<rparr> = s" using c by (cases s) (simp add: calm_def)
  then have lost: "or_else [] (process_overdue_suspensions w t) (s\<lparr>faults := [True]\<rparr>) = (Inr [], s)"
    by (simp add: or_else_def process_overdue_suspensions_def list_overdue_subscriptions_def bind_def attempt_def ret_def set_tenant_def auto_def
        round_trip_def Let_def)
  define xs where "xs = map (\<lambda>y. if held w t s y \<and> \<not> free_of s y \<and> can_resume dv t s y then restored y else y) (subscriptions s)"
  obtain tried where tried: "resume_paid_subscriptions w dv t s = (Inr tried, on_subs s xs)" "set tried \<subseteq> sub_id ` {y\<in>set (subscriptions s). held w t s y}"
    using resume_phase [OF c us, of w dv t] unfolding xs_def by blast
  have nh: "\<not> held w t s x" using x(3) by (simp add: owing_def held_def)
  have "sub_id x \<notin> sub_id ` {y\<in>set (subscriptions s). held w t s y}"
    using us x(1) nh by (auto simp: unique_subs_def distinct_map dest: inj_onD)
  then have new: "sub_id x \<notin> set [] \<union> set tried" using tried(2) by auto
  have "x \<in> set xs" using x(1) nh by (force simp: xs_def)
  moreover have "unique_subs xs" using us by (simp add: unique_subs_def xs_def) (simp add: comp_def if_distrib cong: if_cong)
  moreover have "stuck dv t (by_user secrets) (on_subs s xs) x" using r(2) by (simp add: stuck_def cong: option.case_cong)
  ultimately obtain ys where ys: "repair_isolir_secrets w dv t [] tried (on_subs s xs) = (Inr (), on_subs (on_subs s xs) ys)" "restored x \<in> set ys"
    using repair_calm [of "on_subs s xs" dv rid secrets x t "[]" tried w] c dv x r(1) new by (auto simp: owing_def)
  have "isolir_jobs w dv t True (s\<lparr>faults := [True]\<rparr>) = (Inr [], on_subs s ys)"
    using lost tried(1) ys(1) by (simp add: isolir_jobs_def bind_def ret_def)
  then show ?thesis using ys(2) by auto
qed

definition isolated_devices :: devices where
  "isolated_devices = sample_devices\<lparr>dv_secrets := [(60, [\<lparr>sec_user = ''ana'', sec_service = ''pppoe'', sec_profile = ''isolir'', sec_comment = ''ISOLIR D5:C7''\<rparr>])]\<rparr>"

lemma unread_debtors_reconnected_witness:
  "\<exists>told s'. isolir_jobs sample_world isolated_devices 1 True (sample_subs_db\<lparr>faults := [True]\<rparr>) = (Inr told, s')
    \<and> restored sample_sub \<in> set (subscriptions s') \<and> owing sample_world 1 sample_subs_db sample_sub"
proof -
  let ?m = "[\<lparr>sec_user = ''ana'', sec_service = ''pppoe'', sec_profile = ''isolir'', sec_comment = ''ISOLIR D5:C7''\<rparr>]"
  have a: "calm sample_subs_db" "distinct (map sub_id (subscriptions sample_subs_db))" "dv_secrets isolated_devices = [(60, ?m)]"
    "sample_sub \<in> set (subscriptions sample_subs_db)" "sub_router sample_sub = Some 60" "owing sample_world 1 sample_subs_db sample_sub"
    "can_resume isolated_devices 1 sample_subs_db sample_sub" "stuck isolated_devices 1 (by_user ?m) sample_subs_db sample_sub" by code_simp+
  then show ?thesis using unread_debtors_reconnected [OF a] by blast
qed

end
