(* ===== verification/Field_Ops.thy ===== *)
theory Field_Ops
  imports Customers
begin

text \<open>
  Field operations (\<open>internal/store/operations.go\<close>): tickets and their messages, technicians, work
  orders and vouchers, with the routes of \<open>internal/handlers/handlers.go\<close> that move tickets and the rule of
  \<open>branding.go\<close> that tells field staff from dispatchers.  The tables extend those of \<open>db\<close>.  What the table of
  roles answers is an argument (an error, or the permissions of the caller's role), as are the account ids
  a portal session was authenticated for, the random letters of voucher codes and the answers of a router.
  Avatars of senders, the notices sent to staff and the synchronisation of technicians with the roles of
  users are not modelled.
\<close>

section \<open>Tables\<close>

record ticket =
  tk_id :: gid
  tk_tenant :: gid
  tk_customer :: "gid option"
  tk_subject :: string
  tk_desc :: "string option"
  tk_category :: string
  tk_priority :: string
  tk_status :: string
  tk_assignee :: "gid option"
  tk_sla :: "int option"
  tk_resolved :: "int option"
  tk_created :: int
  tk_updated :: int

record ticket_message =
  tm_id :: gid
  tm_tenant :: gid
  tm_ticket :: gid
  tm_sender_type :: string
  tm_sender :: "gid option"
  tm_message :: string
  tm_images :: "string list"
  tm_created :: int

record technician =
  te_id :: gid
  te_tenant :: gid
  te_user :: "gid option"
  te_name :: string
  te_phone :: string
  te_active :: bool
  te_created :: int

record work_order =
  wo_id :: gid
  wo_tenant :: gid
  wo_customer :: "gid option"
  wo_technician :: "gid option"
  wo_type :: string
  wo_status :: string
  wo_scheduled :: "int option"
  wo_check_in :: "int option"
  wo_lat :: "rat option"
  wo_lng :: "rat option"
  wo_completed :: "int option"
  wo_notes :: "string option"
  wo_photos :: "string list"
  wo_created :: int
  wo_updated :: int

record voucher_batch =
  vb_id :: gid
  vb_tenant :: gid
  vb_plan :: "gid option"
  vb_router :: "gid option"
  vb_name :: string
  vb_quantity :: int
  vb_price :: int
  vb_expires :: "int option"
  vb_sync :: string
  vb_sync_error :: "string option"
  vb_synced :: int
  vb_synced_at :: "int option"
  vb_created :: int

record voucher =
  vc_id :: gid
  vc_tenant :: gid
  vc_batch :: gid
  vc_code :: string
  vc_status :: string
  vc_used_by :: "gid option"
  vc_used_at :: "int option"
  vc_expires :: "int option"
  vc_created :: int

record field_db = db +
  tickets :: "ticket list"
  ticket_messages :: "ticket_message list"
  technicians :: "technician list"
  work_orders :: "work_order list"
  voucher_batches :: "voucher_batch list"
  vouchers :: "voucher list"

definition empty_field_db :: field_db where
  "empty_field_db = db.extend empty_db \<lparr>tickets = [], ticket_messages = [], technicians = [], work_orders = [],
     voucher_batches = [], vouchers = []\<rparr>"

text \<open>A status is cleaned to one of the known ones, or to nothing.\<close>

definition one_of :: "string list \<Rightarrow> string \<Rightarrow> string" where
  "one_of known s = (let t = trim_space (to_lower s) in if t \<in> set known then t else [])"

text \<open>A row a query may miss, and an \<open>UPDATE\<close> or \<open>DELETE\<close> that must hit.\<close>

definition row_or_missing :: "(field_db, 'a option) prog \<Rightarrow> (field_db, 'a) prog" where
  "row_or_missing m = bind m (\<lambda>row. case row of None \<Rightarrow> raise Not_found | Some x \<Rightarrow> ret x)"

definition must_hit :: "(field_db, nat) prog \<Rightarrow> (field_db, unit) prog" where
  "must_hit m = bind m (\<lambda>n. if n = 0 then raise Not_found else ret ())"

lemma keeps_row_or_missing [keeps_intros]: "keeps P m \<Longrightarrow> keeps P (row_or_missing m)"
  unfolding row_or_missing_def by (intro keeps_intros)

lemma keeps_must_hit [keeps_intros]: "keeps P m \<Longrightarrow> keeps P (must_hit m)"
  unfolding must_hit_def by (intro keeps_intros)

definition field_page :: "int \<Rightarrow> int \<Rightarrow> (field_db \<Rightarrow> 'r list) \<Rightarrow> (field_db, 'r list) prog" where
  "field_page l off g = exec (\<lambda>s. map_option (\<lambda>xs. (xs, s)) (page l off (g s)))"

section \<open>Tickets\<close>

definition ticket_statuses :: "string list" where
  "ticket_statuses = [''open'', ''in_progress'', ''resolved'', ''closed'', ''cancelled'']"

definition normalize_ticket_status :: "string \<Rightarrow> string" where
  "normalize_ticket_status s = one_of ticket_statuses s"

definition ticket_status_label :: "string \<Rightarrow> string" where
  "ticket_status_label status =
     (let st = normalize_ticket_status status in
      if st = ''open'' then ''Menunggu''
      else if st = ''in_progress'' then ''Sedang diproses''
      else if st = ''resolved'' then ''Selesai''
      else if st = ''closed'' then ''Ditutup''
      else if st = ''cancelled'' then ''Dibatalkan''
      else status)"

definition ticket_allows_customer_reply :: "string \<Rightarrow> bool" where
  "ticket_allows_customer_reply status \<longleftrightarrow> normalize_ticket_status status \<in> {''open'', ''in_progress''}"

text \<open>A ticket as the queries return it, with the names it refers to.\<close>

record ticket_view =
  tv_row :: ticket
  tv_customer :: string
  tv_assignee :: string

definition view_ticket :: "field_db \<Rightarrow> ticket \<Rightarrow> ticket_view" where
  "view_ticket s t = \<lparr>tv_row = t, tv_customer = joined cust_id cust_name (customers s) (tk_customer t),
     tv_assignee = joined u_id u_name (users s) (tk_assignee t)\<rparr>"

definition is_ticket :: "gid \<Rightarrow> gid \<Rightarrow> ticket \<Rightarrow> bool" where
  "is_ticket tenant tid t \<longleftrightarrow> tk_tenant t = tenant \<and> tk_id t = tid"

definition newest_ticket :: "ticket \<Rightarrow> ticket \<Rightarrow> bool" where
  "newest_ticket a b \<longleftrightarrow> tk_created b \<le> tk_created a"

definition ticket_filter :: "gid \<Rightarrow> string \<Rightarrow> string \<Rightarrow> gid option \<Rightarrow> field_db \<Rightarrow> ticket \<Rightarrow> bool" where
  "ticket_filter tenant status search assigned s t \<longleftrightarrow> tk_tenant t = tenant
     \<and> (let st = normalize_ticket_status status in st \<noteq> [] \<longrightarrow> tk_status t = st)
     \<and> (case assigned of None \<Rightarrow> True | Some u \<Rightarrow> u = nil_id \<or> tk_assignee t = Some u)
     \<and> (let q = trim_space search; pat = ''%'' @ q @ ''%''; v = view_ticket s t in
         q \<noteq> [] \<longrightarrow> ilike (tk_subject t) pat \<or> ilike (tv_customer v) pat \<or> ilike (tv_assignee v) pat)"

definition list_tickets ::
  "gid \<Rightarrow> string \<Rightarrow> string \<Rightarrow> gid option \<Rightarrow> int \<Rightarrow> int \<Rightarrow> (field_db, ticket_view list \<times> int) prog" where
  "list_tickets tenant status search assigned limit offset =
     bind set_tenant (\<lambda>_.
     bind (auto (query (\<lambda>s. int (length (filter (ticket_filter tenant status search assigned s) (tickets s)))))) (\<lambda>n.
     bind (auto (field_page (if limit \<le> 0 then 20 else limit) offset (\<lambda>s. map (view_ticket s)
        (order_by newest_ticket (filter (ticket_filter tenant status search assigned s) (tickets s)))))) (\<lambda>rows.
     ret (rows, n))))"

definition list_tickets_by_customers :: "gid \<Rightarrow> gid list \<Rightarrow> int \<Rightarrow> (field_db, ticket_view list) prog" where
  "list_tickets_by_customers tenant custs limit =
     bind set_tenant (\<lambda>_.
     if custs = [] then ret []
     else auto (field_page (if limit \<le> 0 then 50 else limit) 0 (\<lambda>s. map (view_ticket s)
        (order_by newest_ticket (filter (\<lambda>t. tk_tenant t = tenant \<and> (\<exists>c\<in>set custs. tk_customer t = Some c)) (tickets s))))))"

definition get_ticket :: "gid \<Rightarrow> gid \<Rightarrow> (field_db, ticket_view) prog" where
  "get_ticket tenant tid =
     bind set_tenant (\<lambda>_.
     row_or_missing (auto (query (\<lambda>s. map_option (view_ticket s) (first_row (is_ticket tenant tid) (tickets s))))))"

definition insert_ticket :: "int \<Rightarrow> ticket \<Rightarrow> field_db \<Rightarrow> (ticket \<times> field_db) option" where
  "insert_ticket now t s =
     (if refers cust_id (customers s) (tk_customer t)
      then let row = t\<lparr>tk_id := next_id s, tk_assignee := None, tk_resolved := None, tk_created := now, tk_updated := now\<rparr>
           in Some (t\<lparr>tk_id := next_id s, tk_created := now\<rparr>, s\<lparr>next_id := Suc (next_id s), tickets := tickets s @ [row]\<rparr>)
      else None)"

definition create_ticket :: "int \<Rightarrow> ticket \<Rightarrow> (field_db, ticket) prog" where
  "create_ticket now t =
     bind set_tenant (\<lambda>_.
     if trim_space (tk_subject t) = [] then raise (Rejected ''subjek wajib'')
     else if (case tk_desc t of None \<Rightarrow> True | Some d \<Rightarrow> trim_space d = []) then raise (Rejected ''deskripsi wajib'')
     else
       let status = (if tk_status t = [] then ''open'' else tk_status t);
           hours = (if tk_priority t = ''high'' \<or> tk_priority t = ''urgent'' then 4 else 24)
       in auto (exec (insert_ticket now (t\<lparr>tk_status := status, tk_sla := Some (now + hours * 3600 * second)\<rparr>))))"

definition update_tickets :: "(ticket \<Rightarrow> bool) \<Rightarrow> (ticket \<Rightarrow> ticket) \<Rightarrow> field_db \<Rightarrow> (nat \<times> field_db) option" where
  "update_tickets q f s = Some (affected q (tickets s), s\<lparr>tickets := update_rows q f (tickets s)\<rparr>)"

definition move_ticket :: "int \<Rightarrow> string \<Rightarrow> ticket \<Rightarrow> ticket" where
  "move_ticket now status t = t\<lparr>tk_status := status, tk_updated := now,
     tk_resolved := (if status \<in> {''resolved'', ''closed''}
        then Some (case tk_resolved t of None \<Rightarrow> now | Some r \<Rightarrow> r) else None)\<rparr>"

definition update_ticket_status :: "int \<Rightarrow> gid \<Rightarrow> gid \<Rightarrow> string \<Rightarrow> (field_db, unit) prog" where
  "update_ticket_status now tenant tid status0 =
     (let status = normalize_ticket_status status0 in
      if status = [] then raise (Rejected ''status tiket tidak valid'')
      else bind set_tenant (\<lambda>_. must_hit (auto (exec (update_tickets (is_ticket tenant tid) (move_ticket now status))))))"

definition assign_ticket :: "int \<Rightarrow> gid \<Rightarrow> gid \<Rightarrow> gid option \<Rightarrow> (field_db, unit) prog" where
  "assign_ticket now tenant tid assignee =
     bind set_tenant (\<lambda>_. must_hit (auto (exec (\<lambda>s.
       if affected (is_ticket tenant tid) (tickets s) = 0 \<or> refers u_id (users s) assignee
       then update_tickets (is_ticket tenant tid) (\<lambda>t. t\<lparr>tk_assignee := assignee, tk_updated := now\<rparr>) s
       else None))))"

text \<open>The messages of a ticket go with it.\<close>

definition delete_ticket :: "gid \<Rightarrow> gid \<Rightarrow> (field_db, unit) prog" where
  "delete_ticket tenant tid =
     bind set_tenant (\<lambda>_. must_hit (auto (exec (\<lambda>s. let n = affected (is_ticket tenant tid) (tickets s) in
       Some (n, s\<lparr>tickets := filter (\<lambda>t. \<not> is_ticket tenant tid t) (tickets s),
                  ticket_messages := (if n = 0 then ticket_messages s
                     else filter (\<lambda>m. tm_ticket m \<noteq> tid) (ticket_messages s))\<rparr>)))))"

text \<open>A message with the name of its sender; the database's \<open>TRIM\<close> takes off blanks only.\<close>

definition sql_trim :: "string \<Rightarrow> string" where
  "sql_trim s = trim_by (\<lambda>c. c = CHR '' '') s"

definition message_sender :: "field_db \<Rightarrow> ticket_message \<Rightarrow> string" where
  "message_sender s m =
     (let u = sql_trim (joined u_id u_name (users s) (tm_sender m))
      in if u = [] then joined cust_id cust_name (customers s) (tm_sender m) else u)"

definition list_ticket_messages :: "gid \<Rightarrow> gid \<Rightarrow> (field_db, (ticket_message \<times> string) list) prog" where
  "list_ticket_messages tenant tid =
     bind set_tenant (\<lambda>_. auto (query (\<lambda>s. map (\<lambda>m. (m, message_sender s m))
       (order_by (\<lambda>a b. tm_created a \<le> tm_created b)
          (filter (\<lambda>m. tm_tenant m = tenant \<and> tm_ticket m = tid) (ticket_messages s))))))"

definition insert_ticket_message :: "ticket_message \<Rightarrow> field_db \<Rightarrow> (ticket_message \<times> field_db) option" where
  "insert_ticket_message m s =
     (if list_ex (\<lambda>t. tk_id t = tm_ticket m) (tickets s)
      then let row = m\<lparr>tm_id := next_id s\<rparr>
           in Some (row, s\<lparr>next_id := Suc (next_id s), ticket_messages := ticket_messages s @ [row]\<rparr>)
      else None)"

text \<open>The lookups of the sender's name drop their errors and leave the name as it was when there is no such row.\<close>

definition name_lookup :: "string \<Rightarrow> (field_db \<Rightarrow> string option) \<Rightarrow> (field_db, string) prog" where
  "name_lookup old f = bind (attempt (auto (query f))) (\<lambda>r. ret (case r of Inr (Some x) \<Rightarrow> x | _ \<Rightarrow> old))"

definition user_name :: "gid \<Rightarrow> field_db \<Rightarrow> string option" where
  "user_name u s = map_option u_name (first_row (\<lambda>x. u_id x = u) (users s))"

definition customer_name :: "gid \<Rightarrow> field_db \<Rightarrow> string option" where
  "customer_name c s = map_option cust_name (first_row (\<lambda>x. cust_id x = c) (customers s))"

definition add_ticket_message ::
  "int \<Rightarrow> gid \<Rightarrow> gid \<Rightarrow> string \<Rightarrow> gid option \<Rightarrow> string \<Rightarrow> string list \<Rightarrow> (field_db, ticket_message \<times> string) prog" where
  "add_ticket_message now tenant tid sender_type sender body0 images =
     (let body = trim_space body0 in
      if body = [] \<and> images = [] then raise (Rejected ''pesan atau gambar wajib'')
      else bind set_tenant (\<lambda>_.
        bind (auto (exec (insert_ticket_message \<lparr>tm_id = 0, tm_tenant = tenant, tm_ticket = tid,
             tm_sender_type = (if sender_type = [] then ''staff'' else sender_type), tm_sender = sender,
             tm_message = body, tm_images = images, tm_created = now\<rparr>))) (\<lambda>m.
        case sender of None \<Rightarrow> ret (m, [])
        | Some u \<Rightarrow> bind (name_lookup [] (user_name u)) (\<lambda>name.
            bind (if trim_space name = [] then name_lookup name (customer_name u) else ret name) (\<lambda>name2.
            ret (m, name2))))))"

section \<open>Who may do what\<close>

text \<open>\<open>RoleHasPermission\<close>: the permission itself, all of them, or all below a prefix.\<close>

definition role_has_permission :: "string list \<Rightarrow> string \<Rightarrow> bool" where
  "role_has_permission perms need \<longleftrightarrow> list_ex (\<lambda>p. p = ''*'' \<or> p = need
     \<or> (p = ''settings:*'' \<and> has_prefix need ''settings'')
     \<or> (has_suffix p '':*'' \<and> has_prefix need (butlast p))) perms"

definition can_dispatch_ops :: "string list \<Rightarrow> bool" where
  "can_dispatch_ops perms \<longleftrightarrow> role_has_permission perms ''*'' \<or> role_has_permission perms ''settings''
     \<or> role_has_permission perms ''customers'' \<or> role_has_permission perms ''billing''"

definition is_field_ops_role :: "string list \<Rightarrow> bool" where
  "is_field_ops_role perms \<longleftrightarrow> \<not> can_dispatch_ops perms
     \<and> (role_has_permission perms ''ops'' \<or> role_has_permission perms ''tickets'' \<or> role_has_permission perms ''tech'')"

text \<open>Who calls, from the context of the request, and what \<open>GetRoleBySlug\<close> answers for the role.\<close>

record caller =
  ca_tenant :: gid
  ca_user :: gid
  ca_role :: string

type_synonym role_answer = "err + string list"

definition role_permissions_from_ctx :: "caller \<Rightarrow> role_answer \<Rightarrow> err + string list" where
  "role_permissions_from_ctx c ans =
     (if ca_tenant c = nil_id then Inl (Rejected ''unauthorized'')
      else if ca_role c = [] then Inr []
      else case ans of Inl _ \<Rightarrow> Inr (if ca_role c = ''admin'' then [''*''] else []) | Inr perms \<Rightarrow> Inr perms)"

definition require_dispatch_ops :: "caller \<Rightarrow> role_answer \<Rightarrow> (field_db, unit) prog" where
  "require_dispatch_ops c ans =
     (case role_permissions_from_ctx c ans of Inl e \<Rightarrow> raise e
      | Inr perms \<Rightarrow> if can_dispatch_ops perms \<or> ca_role c = ''admin'' then ret ()
          else raise (Rejected ''hanya admin/dispatcher yang boleh membuat atau assign''))"

definition is_field_ops :: "caller \<Rightarrow> role_answer \<Rightarrow> bool" where
  "is_field_ops c ans =
     (case role_permissions_from_ctx c ans of Inl _ \<Rightarrow> False
      | Inr perms \<Rightarrow> ca_role c = ''teknisi'' \<and> \<not> can_dispatch_ops perms \<or> is_field_ops_role perms)"

definition enforce_ticket_assigned :: "caller \<Rightarrow> role_answer \<Rightarrow> ticket \<Rightarrow> (field_db, unit) prog" where
  "enforce_ticket_assigned c ans t =
     (if \<not> is_field_ops c ans then ret ()
      else case tk_assignee t of None \<Rightarrow> raise (Rejected ''tiket ini tidak di-assign ke Anda'')
        | Some u \<Rightarrow> if u = nil_id \<or> u \<noteq> ca_user c then raise (Rejected ''tiket ini tidak di-assign ke Anda'') else ret ())"

definition caller_tenant :: "caller \<Rightarrow> (field_db, gid) prog" where
  "caller_tenant c = (if ca_tenant c = nil_id then raise (Rejected ''unauthorized'') else ret (ca_tenant c))"

definition caller_user :: "caller \<Rightarrow> gid option" where
  "caller_user c = (if ca_user c = nil_id then None else Some (ca_user c))"

section \<open>The routes of tickets\<close>

text \<open>The arrow between two statuses, in its three bytes.\<close>

definition status_change_text :: "string \<Rightarrow> string \<Rightarrow> string" where
  "status_change_text from_s to_s = ''Status: '' @ ticket_status_label from_s @ '' '' @ map char_of [226::nat, 134, 146] @ '' ''
     @ ticket_status_label to_s"

definition system_note :: "int \<Rightarrow> gid \<Rightarrow> gid \<Rightarrow> gid option \<Rightarrow> string \<Rightarrow> (field_db, unit) prog" where
  "system_note now tenant tid actor msg =
     bind (attempt (add_ticket_message now tenant tid ''system'' actor msg [])) (\<lambda>_. ret ())"

definition patch_ticket_status :: "int \<Rightarrow> caller \<Rightarrow> role_answer \<Rightarrow> gid \<Rightarrow> string \<Rightarrow> (field_db, ticket_view) prog" where
  "patch_ticket_status now c ans tid status =
     bind (caller_tenant c) (\<lambda>tenant.
     bind (get_ticket tenant tid) (\<lambda>cur.
     bind (enforce_ticket_assigned c ans (tv_row cur)) (\<lambda>_.
     let from_s = tk_status (tv_row cur); to_s = normalize_ticket_status status in
     bind (update_ticket_status now tenant tid status) (\<lambda>_.
     bind (when_do (to_s \<noteq> [] \<and> from_s \<noteq> to_s)
        (system_note now tenant tid (caller_user c) (status_change_text from_s to_s))) (\<lambda>_.
     get_ticket tenant tid)))))"

definition patch_ticket_assignee :: "int \<Rightarrow> caller \<Rightarrow> role_answer \<Rightarrow> gid \<Rightarrow> gid option \<Rightarrow> (field_db, ticket_view) prog" where
  "patch_ticket_assignee now c ans tid assignee =
     bind (require_dispatch_ops c ans) (\<lambda>_.
     bind (caller_tenant c) (\<lambda>tenant.
     bind (assign_ticket now tenant tid (if assignee = None then caller_user c else assignee)) (\<lambda>_.
     get_ticket tenant tid)))"

definition remove_ticket :: "caller \<Rightarrow> role_answer \<Rightarrow> gid \<Rightarrow> (field_db, unit) prog" where
  "remove_ticket c ans tid =
     bind (require_dispatch_ops c ans) (\<lambda>_. bind (caller_tenant c) (\<lambda>tenant. delete_ticket tenant tid))"

text \<open>An answer of the staff takes an open ticket into work.\<close>

definition staff_reply ::
  "int \<Rightarrow> caller \<Rightarrow> role_answer \<Rightarrow> gid \<Rightarrow> string \<Rightarrow> string list \<Rightarrow> (field_db, ticket_message \<times> string) prog" where
  "staff_reply now c ans tid body images =
     bind (caller_tenant c) (\<lambda>tenant.
     bind (get_ticket tenant tid) (\<lambda>cur.
     bind (enforce_ticket_assigned c ans (tv_row cur)) (\<lambda>_.
     bind (add_ticket_message now tenant tid ''staff'' (caller_user c) body images) (\<lambda>m.
     bind (if normalize_ticket_status (tk_status (tv_row cur)) = ''open''
           then bind (attempt (update_ticket_status now tenant tid ''in_progress'')) (\<lambda>r.
             case r of Inl _ \<Rightarrow> ret ()
             | Inr _ \<Rightarrow> system_note now tenant tid (caller_user c) (status_change_text ''open'' ''in_progress''))
           else ret ()) (\<lambda>_.
     ret m)))))"

text \<open>The session of the portal holds the accounts \<open>custs\<close> of \<open>tenant\<close>.\<close>

definition portal_ticket_for_session :: "gid \<Rightarrow> gid list \<Rightarrow> gid \<Rightarrow> (field_db, gid \<times> ticket) prog" where
  "portal_ticket_for_session tenant custs tid =
     bind (get_ticket tenant tid) (\<lambda>v.
     case tk_customer (tv_row v) of None \<Rightarrow> raise Not_found
     | Some c \<Rightarrow> if c \<in> set custs then ret (c, tv_row v) else raise Not_found)"

definition portal_reply :: "int \<Rightarrow> gid \<Rightarrow> gid list \<Rightarrow> gid \<Rightarrow> string \<Rightarrow> (field_db, ticket_message \<times> string) prog" where
  "portal_reply now tenant custs tid body0 =
     bind (portal_ticket_for_session tenant custs tid) (\<lambda>(c, t).
     if \<not> ticket_allows_customer_reply (tk_status t) then raise (Rejected ''tiket ini sudah ditutup'')
     else let body = trim_space body0 in
       if body = [] then raise (Rejected ''pesan wajib'')
       else add_ticket_message now tenant tid ''customer'' (Some c) body [])"

text \<open>\<open>filterTenantUploadURLs\<close>; \<open>dir\<close> is \<open>/uploads/\<close>, the text of the tenant's id and a slash.\<close>

definition tenant_upload_urls :: "string \<Rightarrow> string list \<Rightarrow> string list" where
  "tenant_upload_urls dir urls =
     foldl (\<lambda>out u0. let u = trim_space u0 in if u = [] \<or> \<not> has_prefix u dir \<or> u \<in> set out then out else out @ [u]) [] urls"

definition new_ticket :: "gid \<Rightarrow> gid option \<Rightarrow> string \<Rightarrow> string \<Rightarrow> string \<Rightarrow> string \<Rightarrow> ticket" where
  "new_ticket tenant cust subject desc category priority =
     \<lparr>tk_id = 0, tk_tenant = tenant, tk_customer = cust, tk_subject = subject, tk_desc = Some desc,
      tk_category = (if category = [] then ''general'' else category),
      tk_priority = (if priority = [] then ''normal'' else priority), tk_status = ''open'', tk_assignee = None,
      tk_sla = None, tk_resolved = None, tk_created = 0, tk_updated = 0\<rparr>"

definition full_ticket :: "gid \<Rightarrow> ticket \<Rightarrow> (field_db, ticket_view) prog" where
  "full_ticket tenant t = bind (attempt (get_ticket tenant (tk_id t))) (\<lambda>r.
     ret (case r of Inr v \<Rightarrow> v | Inl _ \<Rightarrow> \<lparr>tv_row = t, tv_customer = [], tv_assignee = []\<rparr>))"

definition post_ticket ::
  "int \<Rightarrow> string \<Rightarrow> caller \<Rightarrow> role_answer \<Rightarrow> gid option \<Rightarrow> string \<Rightarrow> string \<Rightarrow> string \<Rightarrow> string \<Rightarrow> string list \<Rightarrow>
   (field_db, ticket_view) prog" where
  "post_ticket now dir c ans cust subject0 desc0 category priority urls =
     bind (require_dispatch_ops c ans) (\<lambda>_.
     bind (caller_tenant c) (\<lambda>tenant.
     let subject = trim_space subject0; desc = trim_space desc0 in
     if subject = [] then raise (Rejected ''subjek wajib'')
     else if desc = [] then raise (Rejected ''deskripsi wajib'')
     else bind (create_ticket now (new_ticket tenant cust subject desc category priority)) (\<lambda>t.
       let images = tenant_upload_urls dir urls in
       bind (if images = [] then ret ()
             else bind (add_ticket_message now tenant (tk_id t) ''staff'' (caller_user c) [] images) (\<lambda>_. ret ())) (\<lambda>_.
       full_ticket tenant t))))"

text \<open>A complaint from the portal: for the account asked for, or for the only one of the session, which
  holds at least one.\<close>

definition portal_complaint ::
  "int \<Rightarrow> gid \<Rightarrow> gid \<Rightarrow> string \<Rightarrow> string \<Rightarrow> string \<Rightarrow> string \<Rightarrow> (field_db, ticket_view) prog" where
  "portal_complaint now tenant cust subject0 desc0 category priority =
     (let subject = trim_space subject0; desc = trim_space desc0 in
      if subject = [] then raise (Rejected ''subjek wajib'')
      else if desc = [] then raise (Rejected ''deskripsi wajib'')
      else bind (create_ticket now (new_ticket tenant (Some cust) subject desc
                   (trim_space (to_lower category)) (trim_space (to_lower priority)))) (\<lambda>t.
        bind (attempt (add_ticket_message now tenant (tk_id t) ''customer'' (Some cust) desc [])) (\<lambda>_.
        full_ticket tenant t)))"

definition portal_post_ticket ::
  "int \<Rightarrow> gid \<Rightarrow> gid list \<Rightarrow> gid option \<Rightarrow> string \<Rightarrow> string \<Rightarrow> string \<Rightarrow> string \<Rightarrow> (field_db, ticket_view) prog" where
  "portal_post_ticket now tenant custs wanted subject desc category priority =
     (case wanted of
        Some w \<Rightarrow> if w \<in> set custs then portal_complaint now tenant w subject desc category priority
                  else raise (Rejected ''akun tidak ditemukan'')
      | None \<Rightarrow> (case custs of
            [] \<Rightarrow> raise (Rejected ''unauthorized'')
          | [w] \<Rightarrow> portal_complaint now tenant w subject desc category priority
          | _ \<Rightarrow> raise (Rejected ''pilih akun untuk keluhan ini'')))"

end
