(* ===== verification/Field_Work.thy ===== *)
theory Field_Work
  imports Field_Ops
begin

text \<open>
  Work orders, technicians and vouchers (\<open>internal/store/operations.go\<close>), the routes of work orders
  (\<open>internal/handlers/extra.go\<close>) and what a synchronisation with a router reports of the codes
  (\<open>syncVoucherBatchToRouter\<close> of \<open>provision_helpers.go\<close>).
\<close>

section \<open>Technicians\<close>

definition insert_technician :: "int \<Rightarrow> technician \<Rightarrow> field_db \<Rightarrow> (technician \<times> field_db) option" where
  "insert_technician now t s =
     (if refers u_id (users s) (te_user t)
      then let row = t\<lparr>te_id := next_id s, te_created := now\<rparr>
           in Some (row, s\<lparr>next_id := Suc (next_id s), technicians := technicians s @ [row]\<rparr>)
      else None)"

definition create_technician :: "int \<Rightarrow> technician \<Rightarrow> (field_db, technician) prog" where
  "create_technician now t = bind set_tenant (\<lambda>_. auto (exec (insert_technician now t)))"

definition is_technician :: "gid \<Rightarrow> gid \<Rightarrow> technician \<Rightarrow> bool" where
  "is_technician tenant tid t \<longleftrightarrow> te_tenant t = tenant \<and> te_id t = tid"

definition update_technician :: "technician \<Rightarrow> (field_db, unit) prog" where
  "update_technician t =
     bind set_tenant (\<lambda>_. must_hit (auto (exec (\<lambda>s.
       let q = is_technician (te_tenant t) (te_id t); n = affected q (technicians s) in
       if n = 0 \<or> refers u_id (users s) (te_user t)
       then Some (n, s\<lparr>technicians := update_rows q (\<lambda>x. x\<lparr>te_name := te_name t, te_phone := te_phone t,
              te_user := te_user t, te_active := te_active t\<rparr>) (technicians s)\<rparr>)
       else None))))"

section \<open>Work orders\<close>

definition work_order_statuses :: "string list" where
  "work_order_statuses = [''pending'', ''assigned'', ''in_progress'', ''completed'', ''cancelled'']"

definition work_order_types :: "string list" where
  "work_order_types = [''installation'', ''repair'', ''survey'', ''maintenance'', ''other'']"

definition normalize_work_order_status :: "string \<Rightarrow> string" where
  "normalize_work_order_status s = one_of work_order_statuses s"

definition normalize_work_order_type :: "string \<Rightarrow> string" where
  "normalize_work_order_type s = one_of work_order_types s"

record work_order_view =
  wv_row :: work_order
  wv_customer :: string
  wv_code :: string
  wv_technician :: string

definition view_work_order :: "field_db \<Rightarrow> work_order \<Rightarrow> work_order_view" where
  "view_work_order s w = \<lparr>wv_row = w, wv_customer = joined cust_id cust_name (customers s) (wo_customer w),
     wv_code = joined cust_id cust_code (customers s) (wo_customer w),
     wv_technician = joined te_id te_name (technicians s) (wo_technician w)\<rparr>"

definition is_work_order :: "gid \<Rightarrow> gid \<Rightarrow> work_order \<Rightarrow> bool" where
  "is_work_order tenant wid w \<longleftrightarrow> wo_tenant w = tenant \<and> wo_id w = wid"

definition work_order_filter :: "gid \<Rightarrow> string \<Rightarrow> gid option \<Rightarrow> work_order \<Rightarrow> bool" where
  "work_order_filter tenant status tech w \<longleftrightarrow> wo_tenant w = tenant
     \<and> (let st = normalize_work_order_status status in st \<noteq> [] \<longrightarrow> wo_status w = st)
     \<and> (case tech of None \<Rightarrow> True | Some t \<Rightarrow> t = nil_id \<or> wo_technician w = Some t)"

definition list_work_orders ::
  "gid \<Rightarrow> string \<Rightarrow> gid option \<Rightarrow> int \<Rightarrow> int \<Rightarrow> (field_db, work_order_view list \<times> int) prog" where
  "list_work_orders tenant status tech limit offset =
     (let q = work_order_filter tenant status tech in
      bind set_tenant (\<lambda>_.
      bind (auto (query (\<lambda>s. int (length (filter q (work_orders s)))))) (\<lambda>n.
      bind (auto (field_page (if limit \<le> 0 then 20 else limit) offset (\<lambda>s. map (view_work_order s)
         (order_by (\<lambda>a b. wo_created b \<le> wo_created a) (filter q (work_orders s)))))) (\<lambda>rows.
      ret (rows, n)))))"

definition get_work_order :: "gid \<Rightarrow> gid \<Rightarrow> (field_db, work_order_view) prog" where
  "get_work_order tenant wid =
     bind set_tenant (\<lambda>_.
     row_or_missing (auto (query (\<lambda>s. map_option (view_work_order s) (first_row (is_work_order tenant wid) (work_orders s))))))"

text \<open>A technician is given when the reference is there and not the nil id.\<close>

definition given_ref :: "gid option \<Rightarrow> bool" where
  "given_ref r \<longleftrightarrow> r \<noteq> None \<and> r \<noteq> Some nil_id"

definition insert_work_order :: "int \<Rightarrow> work_order \<Rightarrow> field_db \<Rightarrow> (work_order \<times> field_db) option" where
  "insert_work_order now w s =
     (if refers cust_id (customers s) (wo_customer w) \<and> refers te_id (technicians s) (wo_technician w)
      then let row = w\<lparr>wo_id := next_id s, wo_check_in := None, wo_lat := None, wo_lng := None, wo_completed := None,
                       wo_photos := [], wo_created := now, wo_updated := now\<rparr>
           in Some (w\<lparr>wo_id := next_id s, wo_created := now, wo_updated := now\<rparr>,
                    s\<lparr>next_id := Suc (next_id s), work_orders := work_orders s @ [row]\<rparr>)
      else None)"

definition initial_status :: "work_order \<Rightarrow> string" where
  "initial_status w =
     (let st = (if wo_status w = [] then ''pending'' else wo_status w)
      in if given_ref (wo_technician w) \<and> st = ''pending'' then ''assigned'' else st)"

definition create_work_order :: "int \<Rightarrow> work_order \<Rightarrow> (field_db, work_order) prog" where
  "create_work_order now w =
     bind set_tenant (\<lambda>_. auto (exec (insert_work_order now (w\<lparr>wo_status := initial_status w\<rparr>))))"

definition update_work_orders ::
  "(work_order \<Rightarrow> bool) \<Rightarrow> (work_order \<Rightarrow> work_order) \<Rightarrow> field_db \<Rightarrow> (nat \<times> field_db) option" where
  "update_work_orders q f s = Some (affected q (work_orders s), s\<lparr>work_orders := update_rows q f (work_orders s)\<rparr>)"

text \<open>What an update makes of the order it read: the outer option says whether a field is given.\<close>

definition edit_work_order ::
  "gid option option \<Rightarrow> string option \<Rightarrow> string option \<Rightarrow> int option option \<Rightarrow> work_order \<Rightarrow> work_order" where
  "edit_work_order tech status notes sched w0 =
     (let w1 = (case tech of None \<Rightarrow> w0 | Some t \<Rightarrow>
            (if given_ref t \<and> wo_status w0 \<in> {''pending'', []} then w0\<lparr>wo_technician := t, wo_status := ''assigned''\<rparr>
             else w0\<lparr>wo_technician := t\<rparr>));
          w2 = (case status of None \<Rightarrow> w1 | Some st0 \<Rightarrow>
            (let st = normalize_work_order_status st0 in if st = [] then w1 else w1\<lparr>wo_status := st\<rparr>));
          w3 = (case notes of None \<Rightarrow> w2 | Some n0 \<Rightarrow>
            (let n = trim_space n0 in w2\<lparr>wo_notes := (if n = [] then None else Some n)\<rparr>))
      in case sched of None \<Rightarrow> w3 | Some t \<Rightarrow> w3\<lparr>wo_scheduled := t\<rparr>)"

definition update_work_order ::
  "int \<Rightarrow> gid \<Rightarrow> gid \<Rightarrow> gid option option \<Rightarrow> string option \<Rightarrow> string option \<Rightarrow> int option option \<Rightarrow>
   (field_db, work_order_view) prog" where
  "update_work_order now tenant wid tech status notes sched =
     bind (get_work_order tenant wid) (\<lambda>v.
     let cur = edit_work_order tech status notes sched (wv_row v) in
     bind (must_hit (auto (exec (\<lambda>s.
       if affected (is_work_order tenant wid) (work_orders s) = 0 \<or> refers te_id (technicians s) (wo_technician cur)
       then update_work_orders (is_work_order tenant wid) (\<lambda>w. w\<lparr>wo_technician := wo_technician cur, wo_status := wo_status cur,
              wo_notes := wo_notes cur, wo_scheduled := wo_scheduled cur, wo_updated := now\<rparr>) s
       else None)))) (\<lambda>_.
     get_work_order tenant wid))"

definition check_in_work_order :: "int \<Rightarrow> gid \<Rightarrow> gid \<Rightarrow> rat \<Rightarrow> rat \<Rightarrow> (field_db, work_order_view) prog" where
  "check_in_work_order now tenant wid lat lng =
     bind set_tenant (\<lambda>_.
     bind (must_hit (auto (exec (update_work_orders
        (\<lambda>w. is_work_order tenant wid w \<and> wo_status w \<notin> {''completed'', ''cancelled''})
        (\<lambda>w. w\<lparr>wo_check_in := Some now, wo_lat := Some lat, wo_lng := Some lng, wo_status := ''in_progress'',
               wo_updated := now\<rparr>))))) (\<lambda>_.
     get_work_order tenant wid))"

text \<open>The notes of a completion go below those there are.\<close>

definition merged_notes :: "string option \<Rightarrow> string option \<Rightarrow> string option" where
  "merged_notes old notes =
     (case notes of None \<Rightarrow> old
      | Some n0 \<Rightarrow> (let n = trim_space n0 in
          if n = [] then old
          else case old of None \<Rightarrow> Some n
            | Some o0 \<Rightarrow> if o0 = [] then Some n else Some (o0 @ [CHR 0x0A] @ ''---'' @ [CHR 0x0A] @ n)))"

definition complete_work_order :: "int \<Rightarrow> gid \<Rightarrow> gid \<Rightarrow> string option \<Rightarrow> (field_db, work_order_view) prog" where
  "complete_work_order now tenant wid notes =
     bind set_tenant (\<lambda>_.
     bind (get_work_order tenant wid) (\<lambda>v.
     if wo_status (wv_row v) = ''cancelled'' then raise (Rejected ''work order sudah dibatalkan'')
     else bind (must_hit (auto (exec (update_work_orders
          (\<lambda>w. is_work_order tenant wid w \<and> wo_status w \<noteq> ''cancelled'')
          (\<lambda>w. w\<lparr>wo_status := ''completed'', wo_completed := Some now,
                 wo_notes := merged_notes (wo_notes (wv_row v)) notes, wo_updated := now\<rparr>))))) (\<lambda>_.
     get_work_order tenant wid)))"

definition append_work_order_photo :: "int \<Rightarrow> gid \<Rightarrow> gid \<Rightarrow> string \<Rightarrow> (field_db, work_order_view) prog" where
  "append_work_order_photo now tenant wid url =
     bind set_tenant (\<lambda>_.
     bind (must_hit (auto (exec (update_work_orders
        (\<lambda>w. is_work_order tenant wid w \<and> wo_status w \<noteq> ''cancelled'')
        (\<lambda>w. w\<lparr>wo_photos := wo_photos w @ [url], wo_updated := now\<rparr>))))) (\<lambda>_.
     get_work_order tenant wid))"

text \<open>The technician of the caller, which \<open>GetTechnicianByUserID\<close> reads after the synchronisation with the
  roles, is an argument: a failure, none, or the id.  \<open>None\<close> as a result stands for no restriction.\<close>

definition field_ops_technician_filter ::
  "caller \<Rightarrow> role_answer \<Rightarrow> (err + gid option) \<Rightarrow> err + gid option option" where
  "field_ops_technician_filter c ans mine =
     (if \<not> is_field_ops c ans then Inr None
      else if ca_user c = nil_id then Inl (Rejected ''unauthorized'')
      else case mine of Inl e \<Rightarrow> Inl e | Inr t \<Rightarrow> Inr (Some t))"

definition enforce_work_order_assigned ::
  "caller \<Rightarrow> role_answer \<Rightarrow> (err + gid option) \<Rightarrow> work_order \<Rightarrow> (field_db, unit) prog" where
  "enforce_work_order_assigned c ans mine w =
     (case field_ops_technician_filter c ans mine of Inl e \<Rightarrow> raise e
      | Inr None \<Rightarrow> ret ()
      | Inr (Some t) \<Rightarrow> if t = None \<or> \<not> given_ref (wo_technician w) \<or> wo_technician w \<noteq> t
          then raise (Rejected ''work order ini tidak di-assign ke Anda'') else ret ())"

definition post_work_order ::
  "int \<Rightarrow> caller \<Rightarrow> role_answer \<Rightarrow> string \<Rightarrow> string option \<Rightarrow> gid option \<Rightarrow> gid option \<Rightarrow> int option \<Rightarrow> string \<Rightarrow>
   (field_db, work_order_view) prog" where
  "post_work_order now c ans type0 notes cust tech sched status0 =
     bind (require_dispatch_ops c ans) (\<lambda>_.
     bind (caller_tenant c) (\<lambda>tenant.
     let type1 = normalize_work_order_type type0 in
     if type1 = [] then raise (Rejected ''type wajib: installation, repair, survey, maintenance, other'')
     else bind (create_work_order now \<lparr>wo_id = 0, wo_tenant = tenant, wo_customer = cust, wo_technician = tech, wo_type = type1,
            wo_status = normalize_work_order_status status0, wo_scheduled = sched, wo_check_in = None, wo_lat = None,
            wo_lng = None, wo_completed = None, wo_notes = notes, wo_photos = [], wo_created = 0, wo_updated = 0\<rparr>) (\<lambda>w.
       bind (attempt (get_work_order tenant (wo_id w))) (\<lambda>r.
       ret (case r of Inr v \<Rightarrow> v | Inl _ \<Rightarrow> \<lparr>wv_row = w, wv_customer = [], wv_code = [], wv_technician = []\<rparr>)))))"

definition patch_work_order ::
  "int \<Rightarrow> caller \<Rightarrow> role_answer \<Rightarrow> gid \<Rightarrow> gid option \<Rightarrow> bool \<Rightarrow> string option \<Rightarrow> string option \<Rightarrow> int option \<Rightarrow> bool \<Rightarrow>
   (field_db, work_order_view) prog" where
  "patch_work_order now c ans wid tech clear_tech status notes sched clear_sched =
     bind (require_dispatch_ops c ans) (\<lambda>_.
     bind (caller_tenant c) (\<lambda>tenant.
     update_work_order now tenant wid
       (if clear_tech then Some None else if tech \<noteq> None then Some tech else None) status notes
       (if clear_sched then Some None else if sched \<noteq> None then Some sched else None)))"

definition post_check_in ::
  "int \<Rightarrow> caller \<Rightarrow> role_answer \<Rightarrow> (err + gid option) \<Rightarrow> gid \<Rightarrow> rat \<Rightarrow> rat \<Rightarrow> (field_db, work_order_view) prog" where
  "post_check_in now c ans mine wid lat lng =
     bind (caller_tenant c) (\<lambda>tenant.
     bind (get_work_order tenant wid) (\<lambda>cur.
     bind (enforce_work_order_assigned c ans mine (wv_row cur)) (\<lambda>_.
     check_in_work_order now tenant wid lat lng)))"

definition post_complete ::
  "int \<Rightarrow> caller \<Rightarrow> role_answer \<Rightarrow> (err + gid option) \<Rightarrow> gid \<Rightarrow> string option \<Rightarrow> (field_db, work_order_view) prog" where
  "post_complete now c ans mine wid notes =
     bind (caller_tenant c) (\<lambda>tenant.
     bind (get_work_order tenant wid) (\<lambda>cur.
     bind (enforce_work_order_assigned c ans mine (wv_row cur)) (\<lambda>_.
     complete_work_order now tenant wid notes)))"

end
