(* ===== verification/Field_Facts.thy ===== *)
theory Field_Facts
  imports Field_Work
begin

text \<open>
  What the operations on tickets and work orders promise: the status of a ticket agrees with its time of
  resolution, field staff reach only the tickets assigned to them, a portal session writes only to its own open
  tickets, and technicians leave cancelled work orders alone.
\<close>

section \<open>Statuses\<close>

lemma one_of_known: "one_of known s = [] \<or> one_of known s \<in> set known"
  by (simp add: one_of_def Let_def)

lemma one_of_fixed: "\<forall>k\<in>set known. trim_space (to_lower k) = k \<Longrightarrow> s = [] \<or> s \<in> set known \<Longrightarrow> one_of known s = s"
  by (auto simp: one_of_def Let_def to_lower_def)

interpretation ticket_norm: normaliser normalize_ticket_status "\<lambda>s. s = [] \<or> s \<in> set ticket_statuses"
proof unfold_locales
  show "normalize_ticket_status s = [] \<or> normalize_ticket_status s \<in> set ticket_statuses" for s
    by (simp only: normalize_ticket_status_def one_of_known)
  have "\<forall>k\<in>set ticket_statuses. trim_space (to_lower k) = k" by code_simp
  then show "normalize_ticket_status s = s" if "s = [] \<or> s \<in> set ticket_statuses" for s
    unfolding normalize_ticket_status_def using that by (rule one_of_fixed)
qed

interpretation work_order_norm: normaliser normalize_work_order_status "\<lambda>s. s = [] \<or> s \<in> set work_order_statuses"
proof unfold_locales
  show "normalize_work_order_status s = [] \<or> normalize_work_order_status s \<in> set work_order_statuses" for s
    by (simp only: normalize_work_order_status_def one_of_known)
  have "\<forall>k\<in>set work_order_statuses. trim_space (to_lower k) = k" by code_simp
  then show "normalize_work_order_status s = s" if "s = [] \<or> s \<in> set work_order_statuses" for s
    unfolding normalize_work_order_status_def using that by (rule one_of_fixed)
qed

section \<open>Calls that only write messages\<close>

text \<open>An invariant that looks neither at the messages nor at the next id.\<close>

locale message_frame =
  fixes I :: "field_db \<Rightarrow> bool"
  assumes unconnected: "stable I"
    and messages: "I s \<Longrightarrow> I (s\<lparr>next_id := n, ticket_messages := ms\<rparr>)"
begin

lemma keeps_checks [keeps_intros]: "keeps I (caller_tenant c)" "keeps I (require_dispatch_ops c ans)"
  "keeps I (enforce_ticket_assigned c ans t)"
  unfolding caller_tenant_def require_dispatch_ops_def enforce_ticket_assigned_def
  by (intro keeps_intros | simp split: sum.split add: keeps_intros)+

lemma keeps_get_ticket [keeps_intros]: "keeps I (get_ticket tenant tid)"
  unfolding get_ticket_def by (intro keeps_intros unconnected)

lemma keeps_name_lookup [keeps_intros]: "keeps I (name_lookup old f)"
  unfolding name_lookup_def by (intro keeps_intros unconnected)

lemma keeps_message [keeps_intros]: "keeps I (add_ticket_message now tenant tid ty sender body images)"
proof -
  have ins: "keeps I (exec (insert_ticket_message m))" for m
  proof (rule keeps_exec [OF unconnected])
    fix s x s' assume "I s" and "insert_ticket_message m s = Some (x, s')"
    then show "I s'" using messages by (auto simp: insert_ticket_message_def Let_def split: if_splits)
  qed
  show ?thesis unfolding add_ticket_message_def Let_def
    by (intro keeps_intros unconnected ins)
qed

lemma keeps_notes [keeps_intros]: "keeps I (system_note now tenant tid actor msg)" "keeps I (full_ticket tenant t)"
  unfolding system_note_def full_ticket_def by (intro keeps_intros)+

lemma keeps_portal_ticket [keeps_intros]: "keeps I (portal_ticket_for_session tenant custs tid)"
  unfolding portal_ticket_for_session_def by (intro keeps_intros)

lemma keeps_portal_reply [keeps_intros]: "keeps I (portal_reply now tenant custs tid body)"
  unfolding portal_reply_def Let_def by (intro keeps_intros)

end

section \<open>The states of a ticket\<close>

definition ticket_sound :: "ticket \<Rightarrow> bool" where
  "ticket_sound t \<longleftrightarrow> tk_status t \<in> set ticket_statuses
     \<and> (tk_resolved t \<noteq> None) = (tk_status t \<in> {''resolved'', ''closed''})"

definition tickets_sound :: "field_db \<Rightarrow> bool" where
  "tickets_sound s \<longleftrightarrow> (\<forall>t\<in>set (tickets s). ticket_sound t)"

interpretation sound_tickets: message_frame tickets_sound
  by unfold_locales (auto simp: stable_def tickets_sound_def)

lemma updated_tickets_sound:
  assumes "update_tickets q f s = Some (n, s')" and "tickets_sound s" and "\<And>t. ticket_sound t \<Longrightarrow> ticket_sound (f t)"
  shows "tickets_sound s'"
  using assms by (auto simp: update_tickets_def tickets_sound_def set_update_rows)

lemma keeps_update_tickets:
  "(\<And>t. ticket_sound t \<Longrightarrow> ticket_sound (f t)) \<Longrightarrow> keeps tickets_sound (exec (update_tickets q f))"
  by (rule keeps_exec [OF sound_tickets.unconnected]) (rule updated_tickets_sound)

lemma keeps_update_status: "keeps tickets_sound (update_ticket_status now tenant tid status)"
proof -
  have "ticket_sound (move_ticket now (normalize_ticket_status status) t)" if "normalize_ticket_status status \<noteq> []" for t
    using ticket_norm.norm_clean [of status] that by (simp add: ticket_sound_def move_ticket_def)
  then show ?thesis unfolding update_ticket_status_def Let_def
    by (intro keeps_intros sound_tickets.unconnected keeps_update_tickets)
qed

lemma keeps_assign: "keeps tickets_sound (assign_ticket now tenant tid u)"
proof -
  have "keeps tickets_sound (exec (\<lambda>s. if affected (is_ticket tenant tid) (tickets s) = 0 \<or> refers u_id (users s) u
       then update_tickets (is_ticket tenant tid) (\<lambda>t. t\<lparr>tk_assignee := u, tk_updated := now\<rparr>) s else None))"
    by (rule keeps_exec [OF sound_tickets.unconnected])
      (auto elim!: updated_tickets_sound simp: ticket_sound_def split: if_splits)
  then show ?thesis unfolding assign_ticket_def by (intro keeps_intros sound_tickets.unconnected)
qed

lemma keeps_delete: "keeps tickets_sound (delete_ticket tenant tid)"
proof -
  have "keeps tickets_sound (exec (\<lambda>s. let n = affected (is_ticket tenant tid) (tickets s) in
       Some (n, s\<lparr>tickets := filter (\<lambda>t. \<not> is_ticket tenant tid t) (tickets s),
                  ticket_messages := (if n = 0 then ticket_messages s
                     else filter (\<lambda>m. tm_ticket m \<noteq> tid) (ticket_messages s))\<rparr>)))"
    by (rule keeps_exec [OF sound_tickets.unconnected]) (auto simp: tickets_sound_def Let_def)
  then show ?thesis unfolding delete_ticket_def by (intro keeps_intros sound_tickets.unconnected)
qed

lemma keeps_create: "tk_status t = ''open'' \<Longrightarrow> keeps tickets_sound (create_ticket now t)"
proof -
  assume t: "tk_status t = ''open''"
  have "keeps tickets_sound (exec (insert_ticket now (t\<lparr>tk_status := ''open'', tk_sla := sla\<rparr>)))" for sla
    by (rule keeps_exec [OF sound_tickets.unconnected])
      (auto simp: insert_ticket_def tickets_sound_def ticket_sound_def ticket_statuses_def Let_def split: if_splits)
  then show ?thesis unfolding create_ticket_def Let_def t
    by (intro keeps_intros sound_tickets.unconnected) simp
qed

lemma keeps_new: "keeps tickets_sound (create_ticket now (new_ticket tenant cust subject desc cat pri))"
  by (rule keeps_create) (simp add: new_ticket_def)

lemmas ticket_calls_keep = keeps_update_status keeps_assign keeps_delete keeps_new sound_tickets.keeps_checks
  sound_tickets.keeps_get_ticket sound_tickets.keeps_message sound_tickets.keeps_notes sound_tickets.keeps_portal_reply

text \<open>The routes, and whatever else happens to the database but leaves the tickets alone.\<close>

inductive ticket_step :: "field_db \<Rightarrow> field_db \<Rightarrow> bool" where
  posted: "ticket_step s (snd (post_ticket now dir c ans cust subject desc cat pri urls s))"
| complained: "ticket_step s (snd (portal_post_ticket now tenant custs wanted subject desc cat pri s))"
| moved: "ticket_step s (snd (patch_ticket_status now c ans tid status s))"
| assigned: "ticket_step s (snd (patch_ticket_assignee now c ans tid u s))"
| answered: "ticket_step s (snd (staff_reply now c ans tid body images s))"
| replied: "ticket_step s (snd (portal_reply now tenant custs tid body s))"
| removed: "ticket_step s (snd (remove_ticket c ans tid s))"
| elsewhere: "tickets s' = tickets s \<Longrightarrow> ticket_step s s'"

lemma ticket_routes_keep:
  "keeps tickets_sound (post_ticket now dir c ans cust subject desc cat pri urls)"
  "keeps tickets_sound (portal_post_ticket now tenant custs wanted subject desc cat pri)"
  "keeps tickets_sound (patch_ticket_status now c ans tid status)"
  "keeps tickets_sound (patch_ticket_assignee now c ans tid u)"
  "keeps tickets_sound (staff_reply now c ans tid body images)"
  "keeps tickets_sound (remove_ticket c ans tid)"
proof -
  have complaint: "keeps tickets_sound (portal_complaint now tenant w subject desc cat pri)" for w
    unfolding portal_complaint_def Let_def by (intro keeps_intros ticket_calls_keep)
  show "keeps tickets_sound (portal_post_ticket now tenant custs wanted subject desc cat pri)"
    unfolding portal_post_ticket_def by (auto intro!: complaint keeps_raise split: option.split list.split)
  show "keeps tickets_sound (post_ticket now dir c ans cust subject desc cat pri urls)"
    unfolding post_ticket_def Let_def by (intro keeps_intros ticket_calls_keep)
  show "keeps tickets_sound (patch_ticket_status now c ans tid status)"
    unfolding patch_ticket_status_def Let_def by (intro keeps_intros ticket_calls_keep)
  show "keeps tickets_sound (patch_ticket_assignee now c ans tid u)"
    unfolding patch_ticket_assignee_def by (intro keeps_intros ticket_calls_keep)
  show "keeps tickets_sound (staff_reply now c ans tid body images)"
    unfolding staff_reply_def by (intro keeps_intros ticket_calls_keep)
  show "keeps tickets_sound (remove_ticket c ans tid)"
    unfolding remove_ticket_def by (intro keeps_intros ticket_calls_keep)
qed

lemma ticket_step_sound: "ticket_step s s' \<Longrightarrow> tickets_sound s \<Longrightarrow> tickets_sound s'"
proof (induction rule: ticket_step.induct)
  case (elsewhere s' s)
  then show ?case by (simp add: tickets_sound_def)
qed (simp_all add: ticket_routes_keep [unfolded keeps_def, rule_format] sound_tickets.keeps_portal_reply [unfolded keeps_def, rule_format])

lemma tickets_reachable: "ticket_step\<^sup>*\<^sup>* s s' \<Longrightarrow> tickets_sound s \<Longrightarrow> tickets_sound s'"
  by (induction rule: rtranclp_induct) (auto intro: ticket_step_sound)


section \<open>Properties of tickets\<close>

definition dispatcher :: caller where
  "dispatcher = \<lparr>ca_tenant = 1, ca_user = 5, ca_role = ''admin''\<rparr>"

definition sample_ticket_db :: field_db where
  "sample_ticket_db = snd (post_ticket 7 ''/uploads/1/'' dispatcher (Inr [''*'']) None ''Mati'' ''LOS'' [] ''high'' [] empty_field_db)"

definition sample_closed_db :: field_db where
  "sample_closed_db = snd (patch_ticket_status 9 dispatcher (Inr [''*'']) 1 '' Closed '' sample_ticket_db)"

lemma sample_ticket_steps: "ticket_step\<^sup>*\<^sup>* empty_field_db sample_closed_db"
proof -
  have "ticket_step empty_field_db sample_ticket_db" unfolding sample_ticket_db_def by (rule ticket_step.posted)
  moreover have "ticket_step sample_ticket_db sample_closed_db" unfolding sample_closed_db_def by (rule ticket_step.moved)
  ultimately show ?thesis by (meson rtranclp.rtrancl_into_rtrancl rtranclp.rtrancl_refl)
qed

text \<open>C33: After any sequence of calls on tickets, under any failures of the database, every ticket has a known status, and a
  time of resolution exactly when it is resolved or closed.\<close>

theorem tickets_resolved_when_closed:
  assumes "ticket_step\<^sup>*\<^sup>* s0 s" and "tickets s0 = []" and "t \<in> set (tickets s)"
  shows "tk_status t \<in> set ticket_statuses \<and> (tk_resolved t \<noteq> None) = (tk_status t \<in> {''resolved'', ''closed''})"
proof -
  have "tickets_sound s0" using assms(2) by (simp add: tickets_sound_def)
  then have "tickets_sound s" by (rule tickets_reachable [OF assms(1)])
  then show ?thesis using assms(3) by (simp add: tickets_sound_def ticket_sound_def)
qed

lemma tickets_resolved_when_closed_witness:
  "\<exists>t. tickets sample_closed_db = [t] \<and> tk_status t = ''closed'' \<and> tk_resolved t = Some 9
     \<and> ((tk_resolved t \<noteq> None) = (tk_status t \<in> {''resolved'', ''closed''}))"
proof -
  have e: "tickets empty_field_db = []" by code_simp
  have v: "map (\<lambda>t. (tk_status t, tk_resolved t)) (tickets sample_closed_db) = [(''closed'', Some 9)]" by code_simp
  then obtain t where t: "tickets sample_closed_db = [t]" by (cases "tickets sample_closed_db") auto
  then show ?thesis using tickets_resolved_when_closed [OF sample_ticket_steps e, of t] v by simp
qed

text \<open>Nothing but the connection changed.\<close>

definition desk_untouched :: "field_db \<Rightarrow> field_db \<Rightarrow> bool" where
  "desk_untouched s s' \<longleftrightarrow> s'\<lparr>faults := [], aborted := False\<rparr> = s\<lparr>faults := [], aborted := False\<rparr>"

lemma stable_desk_untouched: "stable (desk_untouched s)"
  by (simp add: stable_def desk_untouched_def)

lemma desk_untouched_refl: "desk_untouched s s"
  by (simp add: desk_untouched_def)

text \<open>A guard that refuses whatever the lookup gives ends the call.\<close>

lemma guarded:
  assumes "keeps K m" and "gives K m R" and "\<And>x s. R x s \<Longrightarrow> g x = raise e \<and> K s" and "K s"
  shows "K (snd (bind m (\<lambda>x. bind (g x) (f x)) s)) \<and> isl (fst (bind m (\<lambda>x. bind (g x) (f x)) s))"
proof -
  obtain r s' where m: "m s = (r, s')" by fastforce
  then have "K s'" using assms(1,4) unfolding keeps_def by (metis snd_conv)
  moreover have "g x = raise e" if "r = Inr x" for x
    using m that assms(2,3,4) unfolding gives_def by blast
  ultimately show ?thesis using m by (cases r) (auto simp: bind_def raise_def)
qed

lemma get_ticket_gives:
  "gives (\<lambda>s. K s \<and> tickets s = ts) (get_ticket tenant tid)
     (\<lambda>v s. (K s \<and> tickets s = ts) \<and> tv_row v \<in> set ts \<and> is_ticket tenant tid (tv_row v))"
  if K: "stable K" for K ts
proof -
  have R: "stable (\<lambda>s. K s \<and> tickets s = ts)" using K by (simp add: stable_def)
  have Q: "stable (\<lambda>s. (K s \<and> tickets s = ts)
      \<and> (case row of None \<Rightarrow> True | Some v \<Rightarrow> tv_row v \<in> set ts \<and> is_ticket tenant tid (tv_row v)))" for row :: "ticket_view option"
    using K by (simp add: stable_def)
  have read: "gives (\<lambda>s. K s \<and> tickets s = ts)
      (auto (query (\<lambda>s. map_option (view_ticket s) (first_row (is_ticket tenant tid) (tickets s)))))
      (\<lambda>row s. (K s \<and> tickets s = ts) \<and> (case row of None \<Rightarrow> True | Some v \<Rightarrow> tv_row v \<in> set ts \<and> is_ticket tenant tid (tv_row v)))"
    by (rule gives_auto_query [OF R Q]) (auto simp: view_ticket_def dest: first_row_Some split: option.split)
  show ?thesis unfolding get_ticket_def row_or_missing_def
    by (rule gives_bind [OF gives_set_tenant [OF R]], rule gives_bind [OF read])
      (auto simp: gives_def ret_Inr split: option.splits)
qed

lemma keeps_desk_untouched_get: "keeps (\<lambda>x. desk_untouched s x \<and> tickets x = ts) (get_ticket tenant tid)"
proof -
  have "stable (\<lambda>x. desk_untouched s x \<and> tickets x = ts)" using stable_desk_untouched [of s] by (simp add: stable_def)
  then show ?thesis unfolding get_ticket_def by (intro keeps_intros)
qed

lemma field_staff_refused:
  assumes f: "is_field_ops c ans"
    and no: "\<And>t. t \<in> set (tickets s) \<Longrightarrow> is_ticket (ca_tenant c) tid t \<Longrightarrow> tk_assignee t \<noteq> Some (ca_user c)"
    and m: "m = bind (caller_tenant c) (\<lambda>tenant. bind (get_ticket tenant tid) (\<lambda>cur.
        bind (enforce_ticket_assigned c ans (tv_row cur)) (rest tenant cur)))"
  shows "desk_untouched s (snd (m s)) \<and> isl (fst (m s))"
proof -
  have "ca_tenant c \<noteq> nil_id" using f by (auto simp: is_field_ops_def role_permissions_from_ctx_def split: if_splits)
  then have m': "m s = bind (get_ticket (ca_tenant c) tid) (\<lambda>cur.
      bind (enforce_ticket_assigned c ans (tv_row cur)) (rest (ca_tenant c) cur)) s"
    by (simp add: m caller_tenant_def bind_def ret_def)
  let ?K = "\<lambda>x. desk_untouched s x \<and> tickets x = tickets s"
  have "?K (snd (m s)) \<and> isl (fst (m s))"
    unfolding m'
  proof (rule guarded [OF keeps_desk_untouched_get get_ticket_gives [OF stable_desk_untouched]])
    show "?K s" by (simp add: desk_untouched_refl)
    fix v x assume "?K x \<and> tv_row v \<in> set (tickets s) \<and> is_ticket (ca_tenant c) tid (tv_row v)"
    then show "enforce_ticket_assigned c ans (tv_row v) = raise (Rejected ''tiket ini tidak di-assign ke Anda'') \<and> ?K x"
      using no [of "tv_row v"] f by (auto simp: enforce_ticket_assigned_def split: option.split)
  qed
  then show ?thesis by blast
qed


definition field_worker :: caller where
  "field_worker = \<lparr>ca_tenant = 1, ca_user = 8, ca_role = ''teknisi''\<rparr>"


text \<open>When the role of the caller cannot be read, the restriction of field staff is lifted for every role but
  \<open>teknisi\<close>: the error leaves the caller without permissions, and a caller without permissions is not field staff.\<close>

theorem unread_role_opens:
  assumes "ca_tenant c \<noteq> nil_id" and "ca_role c \<noteq> []" and "ca_role c \<noteq> ''teknisi''"
    and "is_field_ops_role perms" and "tk_assignee t \<noteq> Some (ca_user c)"
  shows "enforce_ticket_assigned c (Inr perms) t s = (Inl (Rejected ''tiket ini tidak di-assign ke Anda''), s)
    \<and> enforce_ticket_assigned c (Inl e) t s = (Inr (), s)"
proof -
  have "is_field_ops c (Inr perms)" using assms by (simp add: is_field_ops_def role_permissions_from_ctx_def)
  moreover have "\<not> is_field_ops_role []" "\<not> is_field_ops_role [''*'']" by code_simp+
  then have "\<not> is_field_ops c (Inl e)" using assms by (simp add: is_field_ops_def role_permissions_from_ctx_def)
  ultimately show ?thesis using assms(5)
    by (auto simp: enforce_ticket_assigned_def raise_def ret_def split: option.split)
qed

lemma unread_role_opens_witness:
  "\<exists>c t. is_field_ops c (Inr [''tickets'']) \<and> enforce_ticket_assigned c (Inl Db_error) t empty_field_db = (Inr (), empty_field_db)"
proof -
  let ?c = "\<lparr>ca_tenant = 1, ca_user = 8, ca_role = ''lapangan''\<rparr>" and ?t = "new_ticket 1 None ''Mati'' ''LOS'' [] []"
  have f: "is_field_ops_role [''tickets'']" by code_simp
  have "is_field_ops ?c (Inr [''tickets''])" by code_simp
  moreover have "enforce_ticket_assigned ?c (Inl Db_error) ?t empty_field_db = (Inr (), empty_field_db)"
    using unread_role_opens [of ?c "[''tickets'']" ?t empty_field_db Db_error] f by (simp add: new_ticket_def)
  ultimately show ?thesis by blast
qed

section \<open>The portal\<close>

lemma gives_name_lookup: "stable P \<Longrightarrow> gives P (name_lookup old f) (\<lambda>_. P)"
  unfolding name_lookup_def by (intro gives_keeps keeps_intros)

text \<open>A message that is stored comes last, and nothing else is.\<close>

lemma message_gives:
  "gives (\<lambda>s. tickets s = ts \<and> ticket_messages s = ms) (add_ticket_message now tenant tid ty sender body images)
     (\<lambda>m s. tickets s = ts \<and> ticket_messages s = ms @ [fst m] \<and> tm_tenant (fst m) = tenant \<and> tm_ticket (fst m) = tid
        \<and> tm_sender (fst m) = sender \<and> tm_message (fst m) = trim_space body)"
  (is "gives ?P _ (\<lambda>m. ?Q (fst m))")
proof -
  have P: "stable ?P" and Q: "stable (?Q m)" for m by (simp_all add: stable_def)
  have ins: "gives ?P (auto (exec (insert_ticket_message \<lparr>tm_id = 0, tm_tenant = tenant, tm_ticket = tid,
       tm_sender_type = k, tm_sender = sender, tm_message = trim_space body, tm_images = images, tm_created = now\<rparr>))) ?Q" for k
    by (intro gives_auto gives_exec P Q) (auto simp: insert_ticket_message_def Let_def split: if_splits)
  have named: "gives (?Q m) (case sender of None \<Rightarrow> ret (m, [])
      | Some u \<Rightarrow> bind (name_lookup [] (user_name u)) (\<lambda>name.
          bind (if trim_space name = [] then name_lookup name (customer_name u) else ret name) (\<lambda>name2. ret (m, name2))))
      (\<lambda>r. ?Q (fst r))" for m
  proof (cases sender)
    case None
    then show ?thesis by (auto intro: gives_ret)
  next
    case (Some u)
    have "gives (?Q m) (if trim_space name = [] then name_lookup name (customer_name u) else ret name) (\<lambda>_. ?Q m)" for name
      using gives_name_lookup [OF Q] by (auto intro: gives_ret)
    then have "gives (?Q m) (bind (name_lookup [] (user_name u)) (\<lambda>name.
        bind (if trim_space name = [] then name_lookup name (customer_name u) else ret name) (\<lambda>name2. ret (m, name2))))
        (\<lambda>r. ?Q (fst r))"
      by (intro gives_bind [OF gives_name_lookup [OF Q]] gives_bind [where R = "\<lambda>_. ?Q m"] gives_ret) simp_all
    then show ?thesis by (simp add: Some)
  qed
  show ?thesis
  proof (cases "trim_space body = [] \<and> images = []")
    case True
    then show ?thesis by (simp add: add_ticket_message_def)
  next
    case False
    then show ?thesis unfolding add_ticket_message_def Let_def if_not_P [OF False]
      by (intro gives_bind [OF gives_set_tenant [OF P]] gives_bind [OF ins] named)
  qed
qed

text \<open>An answer from the portal goes to a ticket of one of the session's accounts that is open or in progress: it is one
  message that is not blank, in the name of that account, and no ticket changes.\<close>

theorem portal_reply_own:
  assumes "portal_reply now tenant custs tid body s = (Inr m, s')"
  shows "(\<exists>t\<in>set (tickets s). is_ticket tenant tid t \<and> (\<exists>c\<in>set custs. tk_customer t = Some c \<and> tm_sender (fst m) = Some c)
        \<and> ticket_allows_customer_reply (tk_status t))
    \<and> tickets s' = tickets s \<and> ticket_messages s' = ticket_messages s @ [fst m]
    \<and> tm_ticket (fst m) = tid \<and> tm_message (fst m) = trim_space body \<and> trim_space body \<noteq> []"
proof -
  let ?K = "\<lambda>x. ticket_messages x = ticket_messages s" and ?ts = "tickets s"
  obtain v s1 where get: "get_ticket tenant tid s = (Inr v, s1)"
    and more: "bind (case tk_customer (tv_row v) of None \<Rightarrow> raise Not_found
      | Some c \<Rightarrow> if c \<in> set custs then ret (c, tv_row v) else raise Not_found) (\<lambda>(c, t).
      if \<not> ticket_allows_customer_reply (tk_status t) then raise (Rejected ''tiket ini sudah ditutup'')
      else let body = trim_space body in if body = [] then raise (Rejected ''pesan wajib'')
        else add_ticket_message now tenant tid ''customer'' (Some c) body []) s1 = (Inr m, s')"
    using assms unfolding portal_reply_def portal_ticket_for_session_def
    by (auto simp: bind_def split: prod.splits sum.splits)
  have "stable ?K" by (simp add: stable_def)
  note gives = get_ticket_gives [OF this, of ?ts tenant tid]
  have v: "ticket_messages s1 = ticket_messages s" "tickets s1 = ?ts" "tv_row v \<in> set ?ts" "is_ticket tenant tid (tv_row v)"
    using gives get unfolding gives_def by blast+
  obtain c where c: "tk_customer (tv_row v) = Some c" "c \<in> set custs" "ticket_allows_customer_reply (tk_status (tv_row v))"
    "trim_space body \<noteq> []" "add_ticket_message now tenant tid ''customer'' (Some c) (trim_space body) [] s1 = (Inr m, s')"
    using more by (auto simp: bind_def ret_def raise_def Let_def split: option.splits if_splits)
  have "tickets s' = ?ts \<and> ticket_messages s' = ticket_messages s @ [fst m] \<and> tm_tenant (fst m) = tenant
      \<and> tm_ticket (fst m) = tid \<and> tm_sender (fst m) = Some c \<and> tm_message (fst m) = trim_space (trim_space body)"
    using message_gives [of ?ts "ticket_messages s" now tenant tid "''customer''" "Some c" "trim_space body" "[]"] v(1,2) c(5)
    unfolding gives_def by blast
  then show ?thesis using v(3,4) c(1-4) by (simp only: trim_space_idem) blast
qed

definition sample_portal_db :: field_db where
  "sample_portal_db = empty_field_db\<lparr>tickets := [(new_ticket 1 (Some 3) ''Mati'' ''LOS'' [] [])\<lparr>tk_id := 4\<rparr>]\<rparr>"

lemma portal_reply_own_witness:
  "\<exists>m s'. portal_reply 9 1 [3] 4 '' masih '' sample_portal_db = (Inr m, s') \<and> ticket_messages s' = [fst m]
     \<and> tm_message (fst m) = ''masih''"
proof -
  obtain r s' where e: "portal_reply 9 1 [3] 4 '' masih '' sample_portal_db = (r, s')" by fastforce
  have "\<not> isl (fst (portal_reply 9 1 [3] 4 '' masih '' sample_portal_db))" by code_simp
  then obtain m where r: "portal_reply 9 1 [3] 4 '' masih '' sample_portal_db = (Inr m, s')"
    using e by (cases r) auto
  have "trim_space '' masih '' = ''masih''" "ticket_messages sample_portal_db = []" by code_simp+
  then show ?thesis using portal_reply_own [OF r] r by auto
qed

section \<open>Work orders\<close>

text \<open>The routes of technicians on an order.\<close>

lemma keeps_order_reads [keeps_intros]: "stable I \<Longrightarrow> keeps I (get_work_order tenant wid)"
  "stable I \<Longrightarrow> keeps I (enforce_work_order_assigned c ans mine w)" "stable I \<Longrightarrow> keeps I (caller_tenant c)"
  unfolding get_work_order_def enforce_work_order_assigned_def caller_tenant_def
  by (intro keeps_intros | simp split: sum.split option.split add: keeps_ret keeps_raise)+

definition order_stays :: "work_order \<Rightarrow> field_db \<Rightarrow> bool" where
  "order_stays w s \<longleftrightarrow> w \<in> set (work_orders s)"

lemma stable_order_stays: "stable (order_stays w)"
  by (simp add: stable_def order_stays_def)

lemma keeps_order: "\<not> q w \<Longrightarrow> keeps (order_stays w) (exec (update_work_orders q f))"
  by (rule keeps_exec [OF stable_order_stays]) (auto simp: update_work_orders_def order_stays_def set_update_rows)

text \<open>Checking in, completing and adding photos leave every cancelled order as it is, and checking in every completed
  one too, whatever fails.\<close>

theorem closed_orders_untouched:
  assumes "w \<in> set (work_orders s)"
  shows "(wo_status w = ''cancelled'' \<longrightarrow> w \<in> set (work_orders (snd (post_complete now c ans mine wid notes s)))
        \<and> w \<in> set (work_orders (snd (append_work_order_photo now tenant wid url s))))
    \<and> (wo_status w \<in> {''completed'', ''cancelled''} \<longrightarrow> w \<in> set (work_orders (snd (post_check_in now c ans mine wid lat lng s))))"
proof -
  note steps = keeps_intros stable_order_stays keeps_order
  have "keeps (order_stays w) (post_complete now c ans mine wid notes)" if "wo_status w = ''cancelled''"
    unfolding post_complete_def complete_work_order_def by (intro steps) (simp_all add: that)
  moreover have "keeps (order_stays w) (append_work_order_photo now tenant wid url)" if "wo_status w = ''cancelled''"
    unfolding append_work_order_photo_def by (intro steps) (simp_all add: that)
  moreover have "keeps (order_stays w) (post_check_in now c ans mine wid lat lng)" if "wo_status w \<in> {''completed'', ''cancelled''}"
    unfolding post_check_in_def check_in_work_order_def by (intro steps) (use that in auto)
  ultimately show ?thesis using assms unfolding keeps_def order_stays_def by blast
qed

definition sample_order :: work_order where
  "sample_order = \<lparr>wo_id = 4, wo_tenant = 1, wo_customer = None, wo_technician = None, wo_type = ''repair'',
     wo_status = ''completed'', wo_scheduled = None, wo_check_in = Some 5, wo_lat = Some 0, wo_lng = Some 0,
     wo_completed = Some 6, wo_notes = None, wo_photos = [], wo_created = 1, wo_updated = 6\<rparr>"

definition sample_orders_db :: field_db where
  "sample_orders_db = empty_field_db\<lparr>work_orders := [sample_order]\<rparr>"

lemma closed_orders_untouched_witness:
  "sample_order \<in> set (work_orders (snd (post_check_in 9 dispatcher (Inr [''*'']) (Inr None) 4 1 2 sample_orders_db)))"
proof -
  have "sample_order \<in> set (work_orders sample_orders_db)" "wo_status sample_order = ''completed''"
    by (simp_all add: sample_orders_db_def sample_order_def)
  then show ?thesis using closed_orders_untouched by blast
qed

text \<open>A dispatcher can move a completed order back to any status; the time of completion stays, so that an order that
  is open again still says when it was completed.\<close>

theorem reopened_keeps_completion:
  assumes "calm s" and "work_orders s = [w]" and "is_work_order tenant wid w"
    and "st \<in> set work_order_statuses" and "refers te_id (technicians s) (wo_technician w)"
  shows "\<exists>v. update_work_order now tenant wid None (Some st) None None s
      = (Inr v, s\<lparr>work_orders := [w\<lparr>wo_status := st, wo_updated := now\<rparr>]\<rparr>)
    \<and> wo_status (wv_row v) = st \<and> wo_completed (wv_row v) = wo_completed w"
proof -
  let ?s = "s\<lparr>work_orders := [w\<lparr>wo_status := st, wo_updated := now\<rparr>]\<rparr>"
  have st: "normalize_work_order_status st = st" "st \<noteq> []"
    using work_order_norm.clean_fixed [of st] assms(4) by (auto simp: work_order_statuses_def)
  have calm': "calm ?s" using assms(1) by (simp add: calm_def)
  have get: "get_work_order tenant wid x = (Inr (view_work_order x o1), x)"
    if "calm x" "work_orders x = [o1]" "is_work_order tenant wid o1" for x o1
    using that by (simp add: get_work_order_def row_or_missing_def calm_bind [OF calm_set_tenant] calm_bind [OF calm_auto_query]
        first_row_def ret_def)
  have w': "is_work_order tenant wid (w\<lparr>wo_status := st, wo_updated := now\<rparr>)" using assms(3) by (simp add: is_work_order_def)
  let ?cur = "edit_work_order None (Some st) None None w"
  have cur: "?cur = w\<lparr>wo_status := st\<rparr>" using st by (simp add: edit_work_order_def Let_def)
  let ?u = "\<lambda>x. if affected (is_work_order tenant wid) (work_orders x) = 0 \<or> refers te_id (technicians x) (wo_technician ?cur)
       then update_work_orders (is_work_order tenant wid) (\<lambda>w. w\<lparr>wo_technician := wo_technician ?cur, wo_status := wo_status ?cur,
              wo_notes := wo_notes ?cur, wo_scheduled := wo_scheduled ?cur, wo_updated := now\<rparr>) x else None"
  have "?u s = Some (1, ?s)" using assms(2,3,5) by (simp add: cur update_work_orders_def affected_def)
  then have "auto (exec ?u) s = (Inr 1, ?s)" using assms(1) calm' by (intro calm_auto calm_exec)
  then have "must_hit (auto (exec ?u)) s = (Inr (), ?s)" by (simp add: must_hit_def calm_bind ret_def)
  moreover have "get_work_order tenant wid ?s = (Inr (view_work_order ?s (w\<lparr>wo_status := st, wo_updated := now\<rparr>)), ?s)"
    by (rule get [OF calm' _ w']) simp
  moreover have "wv_row (view_work_order s w) = w" by (simp add: view_work_order_def)
  ultimately have "update_work_order now tenant wid None (Some st) None None s
      = (Inr (view_work_order ?s (w\<lparr>wo_status := st, wo_updated := now\<rparr>)), ?s)"
    by (simp only: update_work_order_def bind_def get [OF assms(1-3)] Let_def prod.case sum.case)
  then show ?thesis by (simp add: view_work_order_def)
qed

lemma reopened_keeps_completion_witness:
  "\<exists>v s'. update_work_order 9 1 4 None (Some ''assigned'') None None sample_orders_db = (Inr v, s')
     \<and> wo_status (wv_row v) = ''assigned'' \<and> wo_completed (wv_row v) = Some 6"
proof -
  have "calm sample_orders_db" by (simp add: calm_def sample_orders_db_def empty_field_db_def empty_db_def db.extend_def)
  moreover have "work_orders sample_orders_db = [sample_order]" by (simp add: sample_orders_db_def)
  moreover have "is_work_order 1 4 sample_order" by (simp add: is_work_order_def sample_order_def)
  moreover have "''assigned'' \<in> set work_order_statuses" by (simp add: work_order_statuses_def)
  moreover have "refers te_id (technicians sample_orders_db) (wo_technician sample_order)" by (simp add: refers_def sample_order_def)
  ultimately show ?thesis
    using reopened_keeps_completion [of sample_orders_db sample_order 1 4 "''assigned''" 9] by (auto simp: sample_order_def)
qed

end
