(* ===== verification/Vouchers.thy ===== *)
theory Vouchers
  imports Field_Ops
begin

text \<open>
  Vouchers (\<open>internal/store/operations.go\<close>): their codes, the batches they are issued in, redeeming them,
  and what a synchronisation with a router reports (\<open>syncVoucherBatchToRouter\<close>).  The letters
  \<open>crypto/rand\<close> draws are an argument, one function from positions per code tried, \<open>None\<close> where the source of
  randomness fails; \<open>generateVoucherCodes\<close> tries again as long as a code repeats, so that a creation whose draws
  run out is \<open>None\<close>: it is still running.  Routers are not among the tables: the reference of a batch to its
  router is not checked.
\<close>

section \<open>Codes\<close>

definition voucher_alphabet :: string where
  "voucher_alphabet = ''ABCDEFGHJKLMNPQRSTUVWXYZ23456789''"

type_synonym draw = "nat \<Rightarrow> nat option"

definition random_voucher_suffix :: "nat \<Rightarrow> draw \<Rightarrow> string" where
  "random_voucher_suffix n d =
     map (\<lambda>i. case d i of None \<Rightarrow> voucher_alphabet ! (i mod length voucher_alphabet) | Some v \<Rightarrow> voucher_alphabet ! v) [0..<n]"

fun voucher_codes :: "string \<Rightarrow> nat \<Rightarrow> string list \<Rightarrow> draw list \<Rightarrow> string list option" where
  "voucher_codes p n out [] = (if n \<le> length out then Some out else None)"
| "voucher_codes p n out (d # ds) =
     (if n \<le> length out then Some out
      else let code = p @ random_voucher_suffix 8 d
           in voucher_codes p n (if code \<in> set out then out else out @ [code]) ds)"

definition generate_voucher_codes :: "string \<Rightarrow> nat \<Rightarrow> draw list \<Rightarrow> string list option" where
  "generate_voucher_codes p0 n draws =
     (let p = to_upper (trim_space p0) in voucher_codes (if p = [] then ''VCH'' else p) n [] draws)"

section \<open>Batches\<close>

text \<open>A batch with the counts of its available and used vouchers.\<close>

record voucher_batch_view =
  bv_row :: voucher_batch
  bv_available :: nat
  bv_used :: nat

definition of_status :: "gid \<Rightarrow> string \<Rightarrow> voucher \<Rightarrow> bool" where
  "of_status bid st v \<longleftrightarrow> vc_batch v = bid \<and> vc_status v = st"

definition view_batch :: "field_db \<Rightarrow> voucher_batch \<Rightarrow> voucher_batch_view" where
  "view_batch s b = \<lparr>bv_row = b, bv_available = affected (of_status (vb_id b) ''available'') (vouchers s),
     bv_used = affected (of_status (vb_id b) ''used'') (vouchers s)\<rparr>"

definition is_batch :: "gid \<Rightarrow> gid \<Rightarrow> voucher_batch \<Rightarrow> bool" where
  "is_batch tenant bid b \<longleftrightarrow> vb_tenant b = tenant \<and> vb_id b = bid"

definition list_voucher_batches :: "gid \<Rightarrow> (field_db, voucher_batch_view list) prog" where
  "list_voucher_batches tenant = auto (query (\<lambda>s. map (view_batch s)
     (order_by (\<lambda>a b. vb_created b \<le> vb_created a) (filter (\<lambda>b. vb_tenant b = tenant) (voucher_batches s)))))"

definition get_voucher_batch :: "gid \<Rightarrow> gid \<Rightarrow> (field_db, voucher_batch_view) prog" where
  "get_voucher_batch tenant bid =
     row_or_missing (auto (query (\<lambda>s. map_option (view_batch s) (first_row (is_batch tenant bid) (voucher_batches s)))))"

definition initial_sync :: "voucher_batch \<Rightarrow> string" where
  "initial_sync b = (let st = trim_space (vb_sync b) in
     if st \<noteq> [] then st else if vb_router b \<noteq> None then ''pending'' else ''none'')"

definition insert_batch :: "int \<Rightarrow> voucher_batch \<Rightarrow> field_db \<Rightarrow> (voucher_batch \<times> field_db) option" where
  "insert_batch now b s =
     (if refers plan_id (plans s) (vb_plan b) \<and> int64_ok (vb_price b)
      then let row = b\<lparr>vb_id := next_id s, vb_sync_error := None, vb_synced := 0, vb_synced_at := None, vb_created := now\<rparr>
           in Some (b\<lparr>vb_id := next_id s, vb_created := now\<rparr>,
                    s\<lparr>next_id := Suc (next_id s), voucher_batches := voucher_batches s @ [row]\<rparr>)
      else None)"

text \<open>The codes of a tenant are unique.\<close>

definition insert_voucher :: "int \<Rightarrow> gid \<Rightarrow> gid \<Rightarrow> int option \<Rightarrow> string \<Rightarrow> field_db \<Rightarrow> (unit \<times> field_db) option" where
  "insert_voucher now tenant bid expires code s =
     (if list_ex (\<lambda>v. vc_tenant v = tenant \<and> vc_code v = code) (vouchers s) then None
      else Some ((), s\<lparr>next_id := Suc (next_id s), vouchers := vouchers s @ [\<lparr>vc_id = next_id s, vc_tenant = tenant,
             vc_batch = bid, vc_code = code, vc_status = ''available'', vc_used_by = None, vc_used_at = None,
             vc_expires = expires, vc_created = now\<rparr>]\<rparr>))"

definition store_voucher :: "int \<Rightarrow> gid \<Rightarrow> gid \<Rightarrow> int option \<Rightarrow> string \<Rightarrow> (field_db, unit) prog" where
  "store_voucher now tenant bid expires code0 =
     (let code = trim_space code0 in if code = [] then ret () else exec (insert_voucher now tenant bid expires code))"

definition store_voucher_batch :: "int \<Rightarrow> voucher_batch \<Rightarrow> string list \<Rightarrow> (field_db, voucher_batch_view) prog" where
  "store_voucher_batch now b0 codes =
     (let b = b0\<lparr>vb_quantity := int (length codes), vb_sync := initial_sync b0\<rparr> in
      tx (bind (exec (insert_batch now b)) (\<lambda>row.
          bind (for_each codes (store_voucher now (vb_tenant b) (vb_id row) (vb_expires b))) (\<lambda>_.
          ret \<lparr>bv_row = row, bv_available = length codes, bv_used = 0\<rparr>))))"

text \<open>The codes of a batch: those given, or as many new ones as asked for, ten when nothing sensible is.\<close>

definition batch_quantity :: "int \<Rightarrow> int" where
  "batch_quantity q = (if q \<le> 0 then 10 else q)"

definition too_many_codes :: err where
  "too_many_codes = Rejected ''maksimal 5000 kode per batch''"

definition batch_codes :: "int \<Rightarrow> string list \<Rightarrow> draw list \<Rightarrow> (err + string list) option" where
  "batch_codes q codes draws =
     (if codes \<noteq> [] then Some (Inr codes)
      else if 5000 < batch_quantity q then Some (Inl too_many_codes)
      else map_option Inr (generate_voucher_codes ''VCH'' (nat (batch_quantity q)) draws))"

definition create_voucher_batch ::
  "int \<Rightarrow> voucher_batch \<Rightarrow> string list \<Rightarrow> draw list \<Rightarrow> (field_db, voucher_batch_view) prog option" where
  "create_voucher_batch now b codes draws =
     (if trim_space (vb_name b) = [] then Some (raise (Rejected ''nama batch wajib''))
      else case batch_codes (vb_quantity b) codes draws of None \<Rightarrow> None
        | Some (Inl e) \<Rightarrow> Some (raise e)
        | Some (Inr cs) \<Rightarrow> Some (if 5000 < length cs then raise too_many_codes else store_voucher_batch now b cs))"

definition create_voucher_batch_with_prefix ::
  "int \<Rightarrow> voucher_batch \<Rightarrow> string \<Rightarrow> draw list \<Rightarrow> (field_db, voucher_batch_view) prog option" where
  "create_voucher_batch_with_prefix now b p draws =
     (case generate_voucher_codes p (nat (batch_quantity (vb_quantity b))) draws of None \<Rightarrow> None
      | Some cs \<Rightarrow> create_voucher_batch now b cs draws)"

definition update_voucher_batch_sync ::
  "int \<Rightarrow> gid \<Rightarrow> gid \<Rightarrow> string \<Rightarrow> int \<Rightarrow> string \<Rightarrow> (field_db, unit) prog" where
  "update_voucher_batch_sync now tenant bid status0 n err0 =
     (let status = (if trim_space status0 = [] then ''none'' else trim_space status0);
          e = (if trim_space err0 = [] then None else Some (trim_space err0)) in
      must_hit (auto (exec (\<lambda>s. Some (affected (is_batch tenant bid) (voucher_batches s),
        s\<lparr>voucher_batches := update_rows (is_batch tenant bid) (\<lambda>b. b\<lparr>vb_sync := status, vb_synced := n, vb_sync_error := e,
            vb_synced_at := (if status \<in> {''synced'', ''partial'', ''failed''} then Some now else vb_synced_at b)\<rparr>)
          (voucher_batches s)\<rparr>)))))"

definition list_vouchers_by_batch :: "gid \<Rightarrow> gid \<Rightarrow> string \<Rightarrow> (field_db, (voucher \<times> string) list) prog" where
  "list_vouchers_by_batch tenant bid status0 =
     bind (get_voucher_batch tenant bid) (\<lambda>_.
     let status = trim_space (to_lower status0) in
     auto (query (\<lambda>s. map (\<lambda>v. (v, joined cust_id cust_name (customers s) (vc_used_by v)))
       (order_by (\<lambda>a b. vc_id a \<le> vc_id b) (filter (\<lambda>v. vc_tenant v = tenant \<and> vc_batch v = bid
          \<and> (status \<in> {''available'', ''used''} \<longrightarrow> vc_status v = status)) (vouchers s))))))"

text \<open>The vouchers of a batch go with it.\<close>

definition delete_voucher_batch :: "gid \<Rightarrow> gid \<Rightarrow> (field_db, unit) prog" where
  "delete_voucher_batch tenant bid =
     must_hit (auto (exec (\<lambda>s. let n = affected (is_batch tenant bid) (voucher_batches s) in
       Some (n, s\<lparr>voucher_batches := filter (\<lambda>b. \<not> is_batch tenant bid b) (voucher_batches s),
                  vouchers := (if n = 0 then vouchers s else filter (\<lambda>v. vc_batch v \<noteq> bid) (vouchers s))\<rparr>))))"

definition redeemable :: "int \<Rightarrow> gid \<Rightarrow> string \<Rightarrow> voucher \<Rightarrow> bool" where
  "redeemable now tenant code v \<longleftrightarrow> vc_tenant v = tenant \<and> vc_code v = code \<and> vc_status v = ''available''
     \<and> (case vc_expires v of None \<Rightarrow> True | Some t \<Rightarrow> now < t)"

definition redeem_voucher :: "int \<Rightarrow> gid \<Rightarrow> string \<Rightarrow> gid \<Rightarrow> (field_db, unit) prog" where
  "redeem_voucher now tenant code cust =
     must_hit (auto (exec (\<lambda>s. let n = affected (redeemable now tenant code) (vouchers s) in
       if n = 0 \<or> refers cust_id (customers s) (Some cust)
       then Some (n, s\<lparr>vouchers := update_rows (redeemable now tenant code)
              (\<lambda>v. v\<lparr>vc_status := ''used'', vc_used_by := Some cust, vc_used_at := Some now\<rparr>) (vouchers s)\<rparr>)
       else None)))"

section \<open>Synchronisation with a router\<close>

text \<open>One push per code: \<open>push\<close> is the answer of the router, \<open>Some\<close> its error.  How many went through, and the
  first error.\<close>

fun push_codes :: "(string \<Rightarrow> string option) \<Rightarrow> string list \<Rightarrow> nat \<Rightarrow> string \<Rightarrow> nat \<times> string" where
  "push_codes push [] ok err = (ok, err)"
| "push_codes push (c0 # cs) ok err =
     (let c = trim_space c0 in
      if c = [] then push_codes push cs ok err
      else case push c of None \<Rightarrow> push_codes push cs (Suc ok) err
        | Some e \<Rightarrow> push_codes push cs ok (if err = [] then c @ '': '' @ e else err))"

definition sync_outcome :: "nat \<Rightarrow> nat \<Rightarrow> string \<Rightarrow> string \<times> string" where
  "sync_outcome n ok err =
     (if ok = 0 \<and> 0 < n then (''failed'', if err = [] then ''semua kode gagal di-push ke router'' else err)
      else if err \<noteq> [] then (''partial'', err) else (''synced'', err))"

text \<open>The part of the synchronisation after the profile is in place; \<open>err_text\<close> is the text of an error.\<close>

definition push_batch :: "int \<Rightarrow> (err \<Rightarrow> string) \<Rightarrow> (string \<Rightarrow> string option) \<Rightarrow> gid \<Rightarrow> gid \<Rightarrow> (field_db, voucher_batch_view) prog" where
  "push_batch now err_text push tenant bid =
     bind (attempt (list_vouchers_by_batch tenant bid [])) (\<lambda>r.
     case r of
       Inl e \<Rightarrow> bind (attempt (update_voucher_batch_sync now tenant bid ''failed'' 0 (err_text e))) (\<lambda>_. get_voucher_batch tenant bid)
     | Inr rows \<Rightarrow>
         let (ok, err) = push_codes push (map (\<lambda>x. vc_code (fst x)) rows) 0 [];
             (status, err2) = sync_outcome (length rows) ok err
         in bind (attempt (update_voucher_batch_sync now tenant bid status (int ok) err2)) (\<lambda>_. get_voucher_batch tenant bid))"

end
