(* ===== verification/Voucher_Facts.thy ===== *)
theory Voucher_Facts
  imports Vouchers
begin

text \<open>
  What the operations on vouchers promise: the search for codes ends exactly when the draws hold enough of them,
  a batch is stored with all of its codes or not at all, and a voucher is redeemed once.
\<close>

section \<open>Codes\<close>

lemma voucher_codes_iff:
  assumes "distinct out"
  shows "voucher_codes p n out draws \<noteq> None
    \<longleftrightarrow> n \<le> card (set out \<union> (\<lambda>d. p @ random_voucher_suffix 8 d) ` set draws)"
  using assms
proof (induction p n out draws rule: voucher_codes.induct)
  case (1 p n out)
  then show ?case by (simp add: distinct_card)
next
  case (2 p n out d ds)
  let ?code = "p @ random_voucher_suffix 8 d"
  show ?case
  proof (cases "n \<le> length out")
    case True
    have "length out \<le> card (set out \<union> (\<lambda>d. p @ random_voucher_suffix 8 d) ` set (d # ds))"
      unfolding distinct_card [OF 2(2), symmetric] by (rule card_mono [OF _ Un_upper1]) simp
    then show ?thesis using True by simp
  next
    case False
    let ?out = "if ?code \<in> set out then out else out @ [?code]"
    have "distinct ?out" using 2(2) by simp
    moreover have "set ?out \<union> (\<lambda>d. p @ random_voucher_suffix 8 d) ` set ds
        = set out \<union> (\<lambda>d. p @ random_voucher_suffix 8 d) ` set (d # ds)" by auto
    ultimately show ?thesis using 2(1) [OF False refl] False by (simp only: voucher_codes.simps if_False Let_def)
  qed
qed

lemma voucher_codes_sound:
  assumes "voucher_codes p n out draws = Some cs" and "distinct out" and "length out \<le> n"
    and "set out \<subseteq> C" and "\<And>d. d \<in> set draws \<Longrightarrow> p @ random_voucher_suffix 8 d \<in> C"
  shows "distinct cs \<and> length cs = n \<and> set cs \<subseteq> C"
  using assms
proof (induction p n out draws rule: voucher_codes.induct)
  case (2 p n out d ds)
  then show ?case by (cases "n \<le> length out") (auto simp: Let_def split: if_splits)
qed (auto split: if_splits)

text \<open>The search ends with as many distinct codes as asked for, each of them the prefix and eight letters of the
  alphabet, as soon as the draws hold that many, and is still running before.\<close>

definition clean_prefix :: "string \<Rightarrow> string" where
  "clean_prefix p = (if to_upper (trim_space p) = [] then ''VCH'' else to_upper (trim_space p))"

definition fair_draw :: "draw \<Rightarrow> bool" where
  "fair_draw d \<longleftrightarrow> (\<forall>i v. d i = Some v \<longrightarrow> v < length voucher_alphabet)"

lemma suffix_letters: "fair_draw d \<Longrightarrow> set (random_voucher_suffix n d) \<subseteq> set voucher_alphabet"
proof -
  have "0 < length voucher_alphabet" by (simp add: voucher_alphabet_def)
  then show "fair_draw d \<Longrightarrow> ?thesis"
    by (auto simp: random_voucher_suffix_def fair_draw_def split: option.split intro!: nth_mem)
qed

theorem voucher_codes_search:
  assumes "\<And>d. d \<in> set draws \<Longrightarrow> fair_draw d"
  shows "(case generate_voucher_codes p n draws of
      Some cs \<Rightarrow> distinct cs \<and> length cs = n
        \<and> list_all (\<lambda>c. \<exists>x. c = clean_prefix p @ x \<and> length x = 8 \<and> set x \<subseteq> set voucher_alphabet) cs
    | None \<Rightarrow> card (random_voucher_suffix 8 ` set draws) < n)"
proof (cases "generate_voucher_codes p n draws")
  case None
  have "card ((\<lambda>d. clean_prefix p @ random_voucher_suffix 8 d) ` set draws) = card (random_voucher_suffix 8 ` set draws)"
    using card_image [of "(@) (clean_prefix p)" "random_voucher_suffix 8 ` set draws"] by (simp add: image_image inj_on_def)
  then show ?thesis using None voucher_codes_iff [of "[]" "clean_prefix p" n draws]
    by (simp add: generate_voucher_codes_def clean_prefix_def Let_def)
next
  case (Some cs)
  let ?C = "{c. \<exists>x. c = clean_prefix p @ x \<and> length x = 8 \<and> set x \<subseteq> set voucher_alphabet}"
  have "distinct cs \<and> length cs = n \<and> set cs \<subseteq> ?C"
  proof (rule voucher_codes_sound)
    show "voucher_codes (clean_prefix p) n [] draws = Some cs"
      using Some by (simp add: generate_voucher_codes_def clean_prefix_def Let_def)
    show "clean_prefix p @ random_voucher_suffix 8 d \<in> ?C" if "d \<in> set draws" for d
      using suffix_letters [OF assms [OF that]] by (auto simp: random_voucher_suffix_def)
  qed simp_all
  then show ?thesis using Some by (auto simp: list_all_iff)
qed

lemma voucher_codes_search_witness:
  "\<exists>cs. generate_voucher_codes '' hs '' 2 [\<lambda>_. Some 0, \<lambda>_. None, \<lambda>_. Some 31] = Some cs \<and> length cs = 2 \<and> distinct cs"
proof -
  have "generate_voucher_codes '' hs '' 2 [\<lambda>_. Some 0, \<lambda>_. None, \<lambda>_. Some 31] = Some [''HSAAAAAAAA'', ''HSABCDEFGH'']" by code_simp
  moreover have "fair_draw d" if "d \<in> set [\<lambda>_. Some 0, \<lambda>_. None, \<lambda>_. Some 31]" for d
    using that by (auto simp: fair_draw_def voucher_alphabet_def)
  ultimately show ?thesis using voucher_codes_search [of "[\<lambda>_. Some 0, \<lambda>_. None, \<lambda>_. Some 31]" 2 "'' hs ''"] by simp
qed

section \<open>Storing a batch\<close>

definition new_voucher :: "gid \<Rightarrow> gid \<Rightarrow> voucher \<Rightarrow> bool" where
  "new_voucher tenant bid v \<longleftrightarrow> vc_tenant v = tenant \<and> vc_batch v = bid \<and> vc_status v = ''available'' \<and> vc_used_by v = None"

definition stored :: "voucher list \<Rightarrow> voucher_batch list \<Rightarrow> gid \<Rightarrow> gid \<Rightarrow> string list \<Rightarrow> field_db \<Rightarrow> bool" where
  "stored vs bs tenant bid codes s \<longleftrightarrow> voucher_batches s = bs
     \<and> (\<exists>new. vouchers s = vs @ new \<and> map vc_code new = codes \<and> list_all (new_voucher tenant bid) new)"

definition kept_codes :: "string list \<Rightarrow> string list" where
  "kept_codes codes = filter (\<lambda>c. c \<noteq> []) (map trim_space codes)"

lemma stable_stored: "stable (stored vs bs tenant bid codes)"
  by (simp add: stable_def stored_def)

lemma voucher_stored:
  "gives (stored vs bs tenant bid codes) (store_voucher now tenant bid ex c) (\<lambda>_. stored vs bs tenant bid (codes @ kept_codes [c]))"
proof (cases "trim_space c = []")
  case True
  then show ?thesis by (simp add: store_voucher_def kept_codes_def gives_ret)
next
  case False
  have "stored vs bs tenant bid (codes @ [trim_space c]) s'"
    if old: "stored vs bs tenant bid codes s" and ins: "insert_voucher now tenant bid ex (trim_space c) s = Some (x, s')" for s x s'
  proof -
    obtain new where new: "vouchers s = vs @ new" "map vc_code new = codes" "list_all (new_voucher tenant bid) new"
      using old by (auto simp: stored_def)
    let ?v = "\<lparr>vc_id = next_id s, vc_tenant = tenant, vc_batch = bid, vc_code = trim_space c, vc_status = ''available'',
      vc_used_by = None, vc_used_at = None, vc_expires = ex, vc_created = now\<rparr>"
    have "vouchers s' = vs @ (new @ [?v])" "voucher_batches s' = bs"
      using ins new old by (auto simp: insert_voucher_def stored_def split: if_splits)
    moreover have "list_all (new_voucher tenant bid) (new @ [?v])" "map vc_code (new @ [?v]) = codes @ [trim_space c]"
      using new(2,3) by (simp_all add: new_voucher_def)
    ultimately show ?thesis unfolding stored_def by blast
  qed
  then show ?thesis using False
    by (auto simp: store_voucher_def kept_codes_def Let_def intro!: gives_exec [OF stable_stored])
qed

lemma vouchers_stored:
  "gives (stored vs bs tenant bid codes) (for_each cs (store_voucher now tenant bid ex)) (\<lambda>_. stored vs bs tenant bid (codes @ kept_codes cs))"
proof (induction cs arbitrary: codes)
  case Nil
  then show ?case by (simp add: kept_codes_def gives_ret)
next
  case (Cons c cs)
  have "kept_codes (c # cs) = kept_codes [c] @ kept_codes cs" by (simp add: kept_codes_def)
  then show ?case using gives_bind [OF voucher_stored Cons.IH] by simp
qed

lemma batch_stored:
  assumes "store_voucher_batch now b codes s = (Inr v, s')"
  shows "\<exists>row. stored (vouchers s) (voucher_batches s @ [row]) (vb_tenant b) (vb_id row) (kept_codes codes) s'
    \<and> vb_id row = vb_id (bv_row v) \<and> vb_quantity row = int (length codes)"
proof -
  let ?b = "b\<lparr>vb_quantity := int (length codes), vb_sync := initial_sync b\<rparr>"
  let ?P = "\<lambda>x. vouchers x = vouchers s \<and> voucher_batches x = voucher_batches s"
  let ?R = "\<lambda>r x. \<exists>row. stored (vouchers s) (voucher_batches s @ [row]) (vb_tenant b) (vb_id row) [] x
      \<and> vb_id row = vb_id r \<and> vb_quantity row = int (length codes)"
  let ?Q = "\<lambda>r x. \<exists>row. stored (vouchers s) (voucher_batches s @ [row]) (vb_tenant b) (vb_id row) (kept_codes codes) x
      \<and> vb_id row = vb_id (bv_row r) \<and> vb_quantity row = int (length codes)"
  have ins: "gives ?P (exec (insert_batch now ?b)) ?R"
  proof (rule gives_exec)
    show "stable ?P" by (simp add: stable_def)
    fix x r x' assume "?P x" "insert_batch now ?b x = Some (r, x')"
    then show "?R r x'" by (auto simp: insert_batch_def stored_def Let_def split: if_splits)
  qed
  have loop: "gives (?R r) (bind (for_each codes (store_voucher now (vb_tenant ?b) (vb_id r) (vb_expires ?b)))
      (\<lambda>_. ret \<lparr>bv_row = r, bv_available = length codes, bv_used = 0\<rparr>)) ?Q" for r
    unfolding gives_def
  proof (intro allI impI)
    fix x y x' assume "?R r x" and run: "bind (for_each codes (store_voucher now (vb_tenant ?b) (vb_id r) (vb_expires ?b)))
      (\<lambda>_. ret \<lparr>bv_row = r, bv_available = length codes, bv_used = 0\<rparr>) x = (Inr y, x')"
    then obtain row where row: "stored (vouchers s) (voucher_batches s @ [row]) (vb_tenant b) (vb_id r) [] x"
      "vb_id row = vb_id r" "vb_quantity row = int (length codes)" by auto
    from run obtain u where "for_each codes (store_voucher now (vb_tenant ?b) (vb_id r) (vb_expires ?b)) x = (Inr u, x')"
      and y: "y = \<lparr>bv_row = r, bv_available = length codes, bv_used = 0\<rparr>"
      by (elim bind_Inr) (auto simp: ret_Inr)
    then have "stored (vouchers s) (voucher_batches s @ [row]) (vb_tenant b) (vb_id r) (kept_codes codes) x'"
      using vouchers_stored [of "vouchers s" "voucher_batches s @ [row]" "vb_tenant b" "vb_id r" "[]"] row(1)
      unfolding gives_def by fastforce
    then show "?Q y x'" using row y by (intro exI [of _ row]) simp
  qed
  have "gives ?P (store_voucher_batch now b codes) ?Q"
    unfolding store_voucher_batch_def Let_def
    by (intro gives_tx gives_bind [OF ins] loop) (auto simp: stable_def stored_def)
  then show ?thesis using assms unfolding gives_def by blast
qed

text \<open>A creation that fails leaves the tables alone; one that succeeds stores the batch and one available voucher for
  every code that is not blank, in order, while the quantity of the batch counts the blank ones too.\<close>

theorem voucher_batch_all_or_nothing:
  assumes "create_voucher_batch now b codes draws = Some m" and "m s = (r, s')"
  shows "(case r of Inl e \<Rightarrow> s' = s\<lparr>faults := faults s', aborted := aborted s'\<rparr>
    | Inr v \<Rightarrow> \<exists>cs new row. batch_codes (vb_quantity b) codes draws = Some (Inr cs) \<and> length cs \<le> 5000
        \<and> voucher_batches s' = voucher_batches s @ [row] \<and> vb_id row = vb_id (bv_row v) \<and> vb_quantity row = int (length cs)
        \<and> vouchers s' = vouchers s @ new \<and> map vc_code new = kept_codes cs \<and> list_all (new_voucher (vb_tenant b) (vb_id row)) new)"
proof -
  consider e where "m = raise e"
    | cs where "batch_codes (vb_quantity b) codes draws = Some (Inr cs)" "length cs \<le> 5000" "m = store_voucher_batch now b cs"
    using assms(1) by (auto simp: create_voucher_batch_def split: if_splits option.splits sum.splits)
  then show ?thesis
  proof cases
    case 1
    then show ?thesis using assms(2) by (auto simp: raise_def)
  next
    case 2
    then show ?thesis
    proof (cases r)
      case (Inl e)
      then have "s' = s\<lparr>faults := faults s', aborted := False\<rparr>"
        using assms(2) 2(3) unfolding store_voucher_batch_def Let_def by (intro tx_error_unchanged) simp
      then have "s' = s\<lparr>faults := faults s', aborted := aborted s'\<rparr>" by (metis conn.select_convs(2) conn.surjective conn.update_convs(2))
      then show ?thesis using Inl by simp
    next
      case (Inr v)
      then show ?thesis using batch_stored [of now b cs s v s'] assms(2) 2 unfolding stored_def by simp blast
    qed
  qed
qed

definition sample_batch :: voucher_batch where
  "sample_batch = \<lparr>vb_id = 0, vb_tenant = 1, vb_plan = None, vb_router = None, vb_name = ''Loket'', vb_quantity = 0,
     vb_price = 5000, vb_expires = Some 50, vb_sync = [], vb_sync_error = None, vb_synced = 0, vb_synced_at = None, vb_created = 0\<rparr>"

definition sample_voucher_db :: field_db where
  "sample_voucher_db = snd (store_voucher_batch 9 sample_batch ['' A1 '', '' '', ''A2''] empty_field_db)"

lemma sample_batch_created:
  "create_voucher_batch 9 sample_batch ['' A1 '', '' '', ''A2''] [] = Some (store_voucher_batch 9 sample_batch ['' A1 '', '' '', ''A2''])"
proof -
  have "trim_space (vb_name sample_batch) \<noteq> []" by code_simp
  then show ?thesis by (simp add: create_voucher_batch_def batch_codes_def)
qed

lemma voucher_batch_all_or_nothing_witness:
  "map vc_code (vouchers sample_voucher_db) = [''A1'', ''A2''] \<and> map vb_quantity (voucher_batches sample_voucher_db) = [3]"
proof -
  obtain r s' where e: "store_voucher_batch 9 sample_batch ['' A1 '', '' '', ''A2''] empty_field_db = (r, s')" by fastforce
  have "\<not> isl (fst (store_voucher_batch 9 sample_batch ['' A1 '', '' '', ''A2''] empty_field_db))" by code_simp
  then obtain v where r: "r = Inr v" using e by (cases r) auto
  have "kept_codes ['' A1 '', '' '', ''A2''] = [''A1'', ''A2'']" "vouchers empty_field_db = []" "voucher_batches empty_field_db = []"
    by code_simp+
  then show ?thesis using voucher_batch_all_or_nothing [OF sample_batch_created e] e r
    by (auto simp: sample_voucher_db_def batch_codes_def)
qed

section \<open>Redeeming\<close>

definition codes_unique :: "field_db \<Rightarrow> bool" where
  "codes_unique s \<longleftrightarrow> distinct (map (\<lambda>v. (vc_tenant v, vc_code v)) (vouchers s))"

text \<open>Codes are unique, and the voucher \<open>v\<close> is there and used.\<close>

definition spent :: "voucher option \<Rightarrow> field_db \<Rightarrow> bool" where
  "spent w s \<longleftrightarrow> codes_unique s \<and> (case w of None \<Rightarrow> True | Some v \<Rightarrow> v \<in> set (vouchers s) \<and> vc_status v = ''used'')"

lemma stable_spent: "stable (spent w)"
  by (simp add: stable_def spent_def codes_unique_def split: option.split)

lemma spent_frame: "vouchers s' = vouchers s \<Longrightarrow> spent w s \<Longrightarrow> spent w s'"
  by (simp add: spent_def codes_unique_def split: option.splits)

lemma keeps_spent_frame: "(\<And>s x s'. u s = Some (x, s') \<Longrightarrow> vouchers s' = vouchers s) \<Longrightarrow> keeps (spent w) (exec u)"
  by (rule keeps_exec [OF stable_spent]) (rule spent_frame)

lemma keeps_inserted: "keeps (spent w) (store_voucher now tenant bid ex c)"
proof -
  have "keeps (spent w) (exec (insert_voucher now tenant bid ex code))" for code
  proof (rule keeps_exec [OF stable_spent])
    fix s x s' assume "spent w s" "insert_voucher now tenant bid ex code s = Some (x, s')"
    then show "spent w s'"
      by (auto simp: insert_voucher_def spent_def codes_unique_def list_ex_iff split: if_splits option.split)
  qed
  then show ?thesis unfolding store_voucher_def Let_def by (intro keeps_intros)
qed

lemma keeps_batch: "keeps (spent w) (store_voucher_batch now b codes)"
  unfolding store_voucher_batch_def Let_def
  by (intro keeps_tx [OF stable_spent] gives_keeps keeps_intros keeps_inserted keeps_spent_frame)
    (auto simp: insert_batch_def Let_def split: if_splits)

lemma keeps_redeem: "keeps (spent w) (redeem_voucher now tenant code cust)"
proof -
  let ?q = "redeemable now tenant code" and ?f = "\<lambda>v. v\<lparr>vc_status := ''used'', vc_used_by := Some cust, vc_used_at := Some now\<rparr>"
  have "spent w (s\<lparr>vouchers := update_rows ?q ?f (vouchers s)\<rparr>)" if "spent w s" for s
  proof -
    have "map (\<lambda>v. (vc_tenant v, vc_code v)) (update_rows ?q ?f (vouchers s)) = map (\<lambda>v. (vc_tenant v, vc_code v)) (vouchers s)"
      by (rule map_update_rows) simp
    moreover have "v \<in> set (update_rows ?q ?f (vouchers s))" if "v \<in> set (vouchers s)" "vc_status v = ''used''" for v
      using that unfolding set_update_rows by (intro bexI [of _ v]) (simp_all add: redeemable_def)
    ultimately show ?thesis using that by (auto simp: spent_def codes_unique_def split: option.splits)
  qed
  then show ?thesis unfolding redeem_voucher_def
    by (intro keeps_must_hit keeps_auto [OF stable_spent] keeps_exec [OF stable_spent]) (auto simp: Let_def split: if_splits)
qed

lemma keeps_batch_sync: "keeps (spent w) (update_voucher_batch_sync now tenant bid st n e)"
  unfolding update_voucher_batch_sync_def Let_def
  by (intro keeps_must_hit keeps_auto [OF stable_spent] keeps_spent_frame) auto

lemma keeps_deleted: "(\<And>v. w = Some v \<Longrightarrow> vc_batch v \<noteq> bid) \<Longrightarrow> keeps (spent w) (delete_voucher_batch tenant bid)"
  unfolding delete_voucher_batch_def
  by (intro keeps_must_hit keeps_auto [OF stable_spent] keeps_exec [OF stable_spent])
    (auto simp: spent_def codes_unique_def Let_def distinct_map_filter split: option.splits)

text \<open>The calls on vouchers, of which only batches of \<open>D\<close> are deleted, and whatever else happens to the database but
  leaves the vouchers alone.\<close>

inductive voucher_step :: "gid set \<Rightarrow> field_db \<Rightarrow> field_db \<Rightarrow> bool" for D where
  created: "create_voucher_batch now b codes draws = Some m \<Longrightarrow> voucher_step D s (snd (m s))"
| redeemed: "voucher_step D s (snd (redeem_voucher now tenant code cust s))"
| synced: "voucher_step D s (snd (update_voucher_batch_sync now tenant bid st n e s))"
| deleted: "bid \<in> D \<Longrightarrow> voucher_step D s (snd (delete_voucher_batch tenant bid s))"
| elsewhere: "vouchers s' = vouchers s \<Longrightarrow> voucher_step D s s'"

lemma keeps_created: "create_voucher_batch now b codes draws = Some m \<Longrightarrow> keeps (spent w) m"
  by (auto simp: create_voucher_batch_def intro: keeps_raise keeps_batch split: if_splits option.splits sum.splits)

lemma voucher_step_spent:
  assumes "voucher_step D s s'" and "\<And>v. w = Some v \<Longrightarrow> vc_batch v \<notin> D" and "spent w s"
  shows "spent w s'"
  using assms
proof (induction rule: voucher_step.induct)
  case (created now b codes draws m s)
  then show ?case using keeps_created unfolding keeps_def by blast
next
  case (redeemed s now tenant code cust)
  then show ?case using keeps_redeem unfolding keeps_def by blast
next
  case (synced s now tenant bid st n e)
  then show ?case using keeps_batch_sync unfolding keeps_def by blast
next
  case (deleted bid s tenant)
  then have "keeps (spent w) (delete_voucher_batch tenant bid)" by (intro keeps_deleted) auto
  then show ?case using deleted unfolding keeps_def by blast
next
  case (elsewhere s' s)
  then show ?case using spent_frame by blast
qed

lemma vouchers_reachable:
  assumes "(voucher_step D)\<^sup>*\<^sup>* s s'" and "\<And>v. w = Some v \<Longrightarrow> vc_batch v \<notin> D" and "spent w s"
  shows "spent w s'"
  using assms by (induction rule: rtranclp_induct) (auto intro: voucher_step_spent)

lemma affected_pos: "0 < affected p rows \<longleftrightarrow> (\<exists>r\<in>set rows. p r)"
  by (auto simp: affected_def filter_empty_conv)

lemma redeem_finds:
  assumes "redeem_voucher now tenant code cust s = (Inr (), s')"
  shows "\<exists>v\<in>set (vouchers s). redeemable now tenant code v
    \<and> vouchers s' = update_rows (redeemable now tenant code)
        (\<lambda>v. v\<lparr>vc_status := ''used'', vc_used_by := Some cust, vc_used_at := Some now\<rparr>) (vouchers s)"
  using assms unfolding redeem_voucher_def must_hit_def auto_def
  by (auto simp: bind_def ret_def raise_def Let_def affected_pos split: prod.splits sum.splits if_splits dest!: exec_Inr)

text \<open>C31: A voucher that is redeemed was available and not expired, and is redeemed for good: as long as its batch is not
  deleted it says who redeemed it and when, and no later call redeems the code again, whatever fails and whatever
  else happens in between.\<close>

theorem voucher_redeemed_once:
  assumes "(voucher_step UNIV)\<^sup>*\<^sup>* s0 s" and "vouchers s0 = []"
    and "redeem_voucher now tenant code cust s = (Inr (), s1)"
  shows "\<exists>v\<in>set (vouchers s). redeemable now tenant code v
    \<and> (\<forall>s2. (voucher_step (- {vc_batch v}))\<^sup>*\<^sup>* s1 s2 \<longrightarrow>
         v\<lparr>vc_status := ''used'', vc_used_by := Some cust, vc_used_at := Some now\<rparr> \<in> set (vouchers s2)
       \<and> (\<forall>now2 cust2. isl (fst (redeem_voucher now2 tenant code cust2 s2))))"
proof -
  have "spent None s0" using assms(2) by (simp add: spent_def codes_unique_def)
  then have "spent None s" using vouchers_reachable [OF assms(1), of None] by simp
  obtain v where v: "v \<in> set (vouchers s)" "redeemable now tenant code v" and s1: "vouchers s1
      = update_rows (redeemable now tenant code) (\<lambda>v. v\<lparr>vc_status := ''used'', vc_used_by := Some cust, vc_used_at := Some now\<rparr>) (vouchers s)"
    using redeem_finds [OF assms(3)] by blast
  let ?v = "v\<lparr>vc_status := ''used'', vc_used_by := Some cust, vc_used_at := Some now\<rparr>"
  have "spent None s1" using keeps_redeem [of None now tenant code cust] \<open>spent None s\<close> assms(3) unfolding keeps_def by fastforce
  moreover have "?v \<in> set (vouchers s1)" using v unfolding s1 set_update_rows by (intro bexI [of _ v]) simp_all
  ultimately have v1: "spent (Some ?v) s1" by (simp add: spent_def)
  have "?v \<in> set (vouchers s2) \<and> (\<forall>now2 cust2. isl (fst (redeem_voucher now2 tenant code cust2 s2)))"
    if "(voucher_step (- {vc_batch v}))\<^sup>*\<^sup>* s1 s2" for s2
  proof -
    have s2: "spent (Some ?v) s2" by (rule vouchers_reachable [OF that _ v1]) auto
    have "isl (fst (redeem_voucher now2 tenant code cust2 s2))" for now2 cust2
    proof (rule ccontr)
      assume "\<not> isl (fst (redeem_voucher now2 tenant code cust2 s2))"
      then obtain s3 where "redeem_voucher now2 tenant code cust2 s2 = (Inr (), s3)"
        by (cases "redeem_voucher now2 tenant code cust2 s2"; cases "fst (redeem_voucher now2 tenant code cust2 s2)") auto
      then obtain u where u: "u \<in> set (vouchers s2)" "redeemable now2 tenant code u" using redeem_finds by blast
      then have "(vc_tenant u, vc_code u) = (vc_tenant ?v, vc_code ?v)" using v(2) by (simp add: redeemable_def)
      then have "u = ?v" using s2 u(1) unfolding spent_def codes_unique_def distinct_map inj_on_def by auto
      then show False using u(2) by (simp add: redeemable_def)
    qed
    then show ?thesis using s2 by (simp add: spent_def)
  qed
  then show ?thesis using v by blast
qed

definition sample_redeem_db :: field_db where
  "sample_redeem_db = sample_voucher_db\<lparr>customers := [sample_customer]\<rparr>"

lemma sample_voucher_steps: "(voucher_step UNIV)\<^sup>*\<^sup>* empty_field_db sample_redeem_db"
proof -
  have "voucher_step UNIV empty_field_db sample_voucher_db"
    unfolding sample_voucher_db_def by (rule voucher_step.created [OF sample_batch_created])
  moreover have "voucher_step UNIV sample_voucher_db sample_redeem_db"
    by (rule voucher_step.elsewhere) (simp add: sample_redeem_db_def)
  ultimately show ?thesis by (meson rtranclp.rtrancl_into_rtrancl rtranclp.rtrancl_refl)
qed

lemma voucher_redeemed_once_witness:
  "\<exists>s1. redeem_voucher 20 1 ''A1'' 7 sample_redeem_db = (Inr (), s1) \<and> isl (fst (redeem_voucher 30 1 ''A1'' 7 s1))"
proof -
  obtain r s1 where e: "redeem_voucher 20 1 ''A1'' 7 sample_redeem_db = (r, s1)" by fastforce
  have "\<not> isl (fst (redeem_voucher 20 1 ''A1'' 7 sample_redeem_db))" by code_simp
  then have r: "redeem_voucher 20 1 ''A1'' 7 sample_redeem_db = (Inr (), s1)" using e by (cases r) auto
  have "vouchers empty_field_db = []" by code_simp
  from voucher_redeemed_once [OF sample_voucher_steps this r]
  have "isl (fst (redeem_voucher 30 1 ''A1'' 7 s1))" by blast
  then show ?thesis using r by blast
qed

end
