(* ===== verification/Spec2Isabelle.thy ===== *)
theory Spec2Isabelle
  imports RateLimit Breaker PoolRanges Settings Invoices Billing_Calc Ledger Money Plans Billing_Clock Plan_Changes Settling Lead_Facts
    Webhook_Facts Gateway_Facts Isolation_Facts Field_Facts Voucher_Facts
begin

text \<open>
  A verification development for the back office of an internet provider: subscribers and their
  plans, recurring invoices, payments at the counter, online and from a prepaid balance, double-entry
  books, resellers and their commissions, and the suspension of services that are not paid.  The
  program is written in Go (\<open>src/internal\<close>) over PostgreSQL (\<open>src/migrations\<close>); routers, payment
  gateways and messaging services are outside it.

  \<^bold>\<open>How the program is put together.\<close>  HTTP routes (\<open>handlers\<close>) and a background worker (\<open>job\<close>)
  call the billing engine (\<open>billing\<close>) and the store (\<open>store\<close>), one file of the store per group
  of tables.  The engine issues invoices from subscriptions, plans and settings; payments, whether
  recorded by hand, by a webhook or from a wallet, change invoices; a paid invoice resumes services
  and applies a pending change of plan; money is also posted to the journal.  All state is in the
  database, but for the rate limiter and the circuit breakers, which live in the process.

  \<^bold>\<open>How it is modelled.\<close>  A store function is a program \<open>(db, 'a) prog\<close>, from the tables to a
  result or an error and the tables after (\<open>Store\<close>).  Each SQL statement, \<open>Begin\<close>, \<open>Commit\<close> and
  \<open>set_config\<close> is one round trip, and any round trip may fail: the field \<open>faults\<close> of the state says
  which of the next ones do.  Theorems hold for every such list unless they ask for none (\<open>calm\<close>).
  A failed transaction leaves the tables alone, a failed statement aborts its transaction, and
  where the Go code drops an error the model goes on (\<open>attempt\<close>, \<open>quietly\<close>, \<open>or_else\<close>).  Tables
  are lists of records in insertion order (\<open>Billing_Db\<close>); keys come from one counter, which stands
  for fresh UUIDs; unique and foreign keys and the range of \<open>BIGINT\<close> are checked by the statements
  that could break them.  The clock, the tenant's zone and the session's zone and date are a
  \<open>world\<close>; random bytes are arguments.

  \<^bold>\<open>The theories\<close>, in the order they build on each other:
    \<^item> \<open>Prelude\<close>, \<open>GoFloat\<close>, \<open>GoFmt\<close>, \<open>GoTime\<close>: Go's strings, \<open>float64\<close>, decimal formats and
      \<open>time\<close> package, as far as the program uses them; the contract \<open>normaliser\<close> of the
      normalising functions.
    \<^item> \<open>RateLimit\<close> (\<open>httpx/ratelimit.go\<close>), \<open>Breaker\<close> and \<open>PoolRanges\<close> (\<open>provision/routeros\<close>):
      the parts that need no database.
    \<^item> \<open>Settings\<close>, \<open>Tenant_Settings\<close>: the settings of a tenant (\<open>store/jobs_settings.go\<close>,
      \<open>general_settings.go\<close>, \<open>settings.go\<close>) and the claims of jobs.
    \<^item> \<open>Store\<close>, \<open>Billing_Db\<close>, \<open>Balances\<close>: programs, failures and the rules to reason about them
      (\<open>keeps\<close>, \<open>gives\<close>, \<open>safe\<close>); the tables; the contract \<open>running_balance\<close> of an amount that
      is also the sum of rows elsewhere.
    \<^item> \<open>Invoices\<close> (\<open>store/invoices.go\<close>), \<open>Wallet\<close> (\<open>store/wallet.go\<close>), \<open>Journal\<close>, \<open>Ledger\<close>
      (\<open>store/ledger.go\<close>, \<open>accounting.go\<close>, parts of \<open>operations.go\<close>), and \<open>Money\<close>, the four together.
    \<^item> \<open>Plans\<close> (\<open>store/plans.go\<close>, \<open>plan_offers.go\<close>, \<open>plan_discounts.go\<close>), \<open>Codes\<close> (invoice numbers),
      \<open>Customers\<close> (\<open>store/customers.go\<close>, \<open>clusters.go\<close>), \<open>Subscriptions\<close> (\<open>store/plans.go\<close>,
      \<open>subscription_pending.go\<close>, the ports of \<open>operations.go\<close>).
    \<^item> \<open>Billing_Calc\<close>, \<open>Engine\<close> (\<open>billing/engine.go\<close>, \<open>billing/wallet.go\<close>) and what they promise:
      \<open>Billing_Runs\<close>, \<open>Billing_Clock\<close>, \<open>Plan_Changes\<close>, \<open>Settling\<close>.
    \<^item> \<open>Sales\<close> (\<open>store/commission.go\<close>, leads and resellers of \<open>extra_ops.go\<close>), \<open>Sales_Facts\<close>,
      \<open>Lead_Facts\<close>.
    \<^item> \<open>Gateways\<close> (\<open>payment/webhook.go\<close>, \<open>method.go\<close>, \<open>order_id.go\<close>), \<open>Payments\<close> (intents in
      \<open>store/extra_ops.go\<close> and \<open>webhook_ops.go\<close>, what a paid webhook sets off in
      \<open>handlers/provision_helpers.go\<close>, \<open>wallet.go\<close> and \<open>handlers.go\<close>), \<open>Checkout\<close>
      (\<open>handlers/checkout.go\<close>), and what they promise: \<open>Gateway_Facts\<close>, \<open>Payment_Facts\<close>,
      \<open>Webhook_Facts\<close>.
    \<^item> \<open>Router_Comments\<close> (the texts of \<open>provision/reconcile.go\<close>), \<open>Worker\<close> (\<open>job/worker.go\<close>, the
      suspensions by hand of \<open>handlers/provision_helpers.go\<close>): the cycles of the worker, who is suspended,
      resumed and repaired, reminders and the claims of scheduled jobs; \<open>Worker_Facts\<close> (over all runs and
      failures) and \<open>Isolation_Facts\<close> (a calm run as a function on rows).
    \<^item> \<open>Field_Ops\<close> (tickets and messages of \<open>store/operations.go\<close>, their routes in
      \<open>handlers/handlers.go\<close>, who is field staff), \<open>Field_Work\<close> (technicians, work orders and their routes in
      \<open>handlers/extra.go\<close>) and \<open>Vouchers\<close>, on tables that extend those of \<open>db\<close> (\<open>field_db\<close>); what they
      promise: \<open>Field_Facts\<close>, \<open>Voucher_Facts\<close>.
\<close>

text \<open>
  \<^bold>\<open>What is shown.\<close>
    \<^item> \<^emph>\<open>Invariants of the money\<close>, over all sequences of calls and failures.  An invoice has been paid
      what its payments add up to (\<open>paid_ok\<close>); a wallet holds the sum of its transactions and is
      not overdrawn (\<open>wallets_ok\<close>, \<open>funded\<close>); every journal entry balances (\<open>books_ok\<close>); a
      reseller's balance is the sum of the commissions.  The relations \<open>ledger_step\<close>,
      \<open>money_step\<close>, \<open>system_step\<close>, \<open>site_step\<close> and \<open>service_step\<close> add the components one after the
      other; the locales \<open>billing_frame\<close>, \<open>webhook_frame\<close> and \<open>worker_frame\<close> say once what an assertion
      needs to survive the engine, the payments and the worker.
    \<^item> \<^emph>\<open>All or nothing\<close>: issuing an invoice, paying from a wallet and completing a webhook either do
      the whole of what they report or leave the bills as they were, whichever statement fails.
    \<^item> \<^emph>\<open>Arithmetic\<close>: the code's \<open>float64\<close> sums are the exact shares, rounded half up; due dates,
      anchors and the billing clock; pool ranges; prices and discounts.
    \<^item> \<^emph>\<open>Searches and codes\<close>: the searches for an unused number end, with an unused number when there
      is one; codes tell their counters apart.
    \<^item> \<^emph>\<open>State machines\<close>: the breaker refines its specification, the limiter its window, leads keep
      their final state, an upgrade waits for its payment, a subscription is on one of the lists of
      those to suspend and to resume.
    \<^item> \<^emph>\<open>The worker\<close>: a cycle answers for every tenant whatever fails, cycles and repairs keep their
      distance, a reminder is given once per invoice and day and, without failures, is given; a calm isolir
      run is \<open>settle_row\<close> on every subscription.
    \<^item> \<^emph>\<open>Router comments\<close>: the mark of a suspended account comes off again, tags are recognised and hold no
      character that ends a value in a router command.
    \<^item> \<^emph>\<open>Field operations\<close>: the status of a ticket agrees with its time of resolution; field staff reach only
      their tickets, the portal only its own open ones, technicians no cancelled order; a voucher batch is stored
      whole or not at all, the search for codes ends when the draws hold enough of them, and a voucher is redeemed
      once.  The locale \<open>message_frame\<close> says once what an assertion needs to survive the messages.
    \<^item> \<^emph>\<open>Where the code falls short\<close>, as theorems about concrete behaviour: dropped errors that bill or
      record twice, restores that bring back too much, services resumed that were cancelled or owe money,
      suspensions by hand that the worker undoes, reminders that are configured and never sent.

  \<^bold>\<open>Bounds.\<close>  Recursion is structural; the searches stop after 12 and 100 tries as in the code; the
  float printer of \<open>GoFmt\<close> and \<open>GoFloat\<close> expands 1075 decimals, which are all a \<open>float64\<close> has.

  \<^bold>\<open>Abstractions.\<close>  Strings are ASCII (folding case and trimming white space act on ASCII); text
  columns compare as in the C collation; zones have a fixed offset at an instant.  Go ranges over a
  map in any order: an argument.  Requests that run at the same time are sequences of whole calls,
  except that a claim of a job is one statement.

  \<^bold>\<open>Not modelled.\<close>  The routes of \<open>handlers\<close> beyond the ones named, which decode requests, check
  permissions and call the store; the clients of gateways, routers, mail and messaging services
  (network protocols: their answers are arguments, among them the accounts a router lists); the table of roles (what a role permits is an argument);
  passwords, tokens and encryption (third-party packages); PDF layout, uploads, branding; searches and reports that no modelled operation reads;
  configuration, backups, imports, generated queries.
\<close>

end
